(* ===== verification/Vet_Prelude.thy ===== *)
theory Vet_Prelude
  imports "HOL-Library.Word" "HOL-Library.Monad_Syntax" "HOL-Library.Multiset"
begin

unbundle bit_operations_syntax

text \<open>
  Shared vocabulary of the development: the machine integers of the C sources, arrays whose
  out-of-range accesses are errors, the conversion between bytes and little-endian 32 bit words,
  and an interpreter for functions written with labels and \<open>goto\<close>, together with the locale
  that states when such a function returns.

  An array of the C code is a list. Reading or writing it goes through \<open>arr_get\<close> and
  \<open>arr_set\<close>, which give \<^term>\<open>None\<close> outside of the array: C leaves the behaviour of such an
  access undefined, so a theorem that a model returns \<open>Some\<close> also says that it stays in bounds.
\<close>

section \<open>Machine integers\<close>

type_synonym u8 = "8 word"
type_synonym u16 = "16 word"
type_synonym u32 = "32 word"
type_synonym u64 = "64 word"

named_theorems masks \<open>bounds and alignment of masked words\<close>
named_theorems arr \<open>accesses to arrays\<close>

section \<open>Arrays\<close>

definition arr_get :: "'a list \<Rightarrow> nat \<Rightarrow> 'a option" where
  "arr_get xs i = (if i < length xs then Some (xs ! i) else None)"

definition arr_set :: "'a list \<Rightarrow> nat \<Rightarrow> 'a \<Rightarrow> 'a list option" where
  "arr_set xs i v = (if i < length xs then Some (xs[i := v]) else None)"

lemma arr_get_Some [arr, simp]: "i < length xs \<Longrightarrow> arr_get xs i = Some (xs ! i)"
  by (simp add: arr_get_def)

lemma arr_set_Some [arr, simp]: "i < length xs \<Longrightarrow> arr_set xs i v = Some (xs[i := v])"
  by (simp add: arr_set_def)

lemma arr_get_SomeD: "arr_get xs i = Some v \<Longrightarrow> i < length xs \<and> v = xs ! i"
  by (simp add: arr_get_def split: if_splits)

lemma arr_set_SomeD: "arr_set xs i v = Some ys \<Longrightarrow> i < length xs \<and> ys = xs[i := v]"
  by (simp add: arr_set_def split: if_splits)

lemma arr_get_None [simp]: "arr_get xs i = None \<longleftrightarrow> length xs \<le> i"
  by (simp add: arr_get_def)

lemma arr_set_None [simp]: "arr_set xs i v = None \<longleftrightarrow> length xs \<le> i"
  by (simp add: arr_set_def)

text \<open>Consecutive elements, as \<open>memcpy\<close> reads and writes them.\<close>

definition arr_slice :: "'a list \<Rightarrow> nat \<Rightarrow> nat \<Rightarrow> 'a list option" where
  "arr_slice xs i n = (if i + n \<le> length xs then Some (take n (drop i xs)) else None)"

definition arr_blit :: "'a list \<Rightarrow> nat \<Rightarrow> 'a list \<Rightarrow> 'a list option" where
  "arr_blit xs i ys =
     (if i + length ys \<le> length xs then Some (take i xs @ ys @ drop (i + length ys) xs) else None)"

lemma arr_slice_Some [arr, simp]:
  "i + n \<le> length xs \<Longrightarrow> arr_slice xs i n = Some (take n (drop i xs))"
  by (simp add: arr_slice_def)

lemma arr_blit_Some [arr, simp]:
  "i + length ys \<le> length xs \<Longrightarrow>
   arr_blit xs i ys = Some (take i xs @ ys @ drop (i + length ys) xs)"
  by (simp add: arr_blit_def)

lemma arr_blit_length: "arr_blit xs i ys = Some zs \<Longrightarrow> length zs = length xs"
  by (auto simp: arr_blit_def split: if_splits)

lemma arr_slice_length: "arr_slice xs i n = Some ys \<Longrightarrow> length ys = n"
  by (auto simp: arr_slice_def split: if_splits)

lemma arr_blit_nth:
  "arr_blit xs i ys = Some zs \<Longrightarrow> k < length xs \<Longrightarrow>
   zs ! k = (if i \<le> k \<and> k < i + length ys then ys ! (k - i) else xs ! k)"
  by (auto simp: arr_blit_def nth_append min_def split: if_splits)

section \<open>Masked words\<close>

lemma unat_and_le [masks]: "unat (w AND m) \<le> unat (m :: 'a::len word)"
  by (rule word_le_nat_alt [THEN iffD1]) (rule word_and_le1)

lemma and_mask_idem [simp]: "(w AND m) AND m = (w AND m :: 'a::len word)"
  by (simp add: and.assoc)

lemma unat_udiv_less:
  "unat w < 4 * n \<Longrightarrow> unat (w div 4 :: u32) < n"
  by (simp add: unat_div less_mult_imp_div_less mult.commute)

section \<open>Bytes and little-endian words\<close>

definition le32_of_bytes :: "u8 \<Rightarrow> u8 \<Rightarrow> u8 \<Rightarrow> u8 \<Rightarrow> u32" where
  "le32_of_bytes b0 b1 b2 b3 =
     ucast b0 OR push_bit 8 (ucast b1) OR push_bit 16 (ucast b2) OR push_bit 24 (ucast b3)"

definition bytes_of_le32 :: "u32 \<Rightarrow> u8 list" where
  "bytes_of_le32 w = [ucast w, ucast (drop_bit 8 w), ucast (drop_bit 16 w), ucast (drop_bit 24 w)]"

definition bytes_of_le64 :: "u64 \<Rightarrow> u8 list" where
  "bytes_of_le64 w = map (\<lambda>k. ucast (drop_bit (8 * k) w)) [0..<8]"

lemma length_bytes_of_le32 [simp]: "length (bytes_of_le32 w) = 4"
  by (simp add: bytes_of_le32_def)

lemma le32_of_bytes_of_le32 [simp]:
  "le32_of_bytes (ucast w) (ucast (drop_bit 8 w)) (ucast (drop_bit 16 w)) (ucast (drop_bit 24 w)) = w"
proof (rule bit_word_eqI)
  fix n
  assume "n < LENGTH(32)"
  then have n: "n < 32" by simp
  consider "n < 8" | "8 \<le> n" "n < 16" | "16 \<le> n" "n < 24" | "24 \<le> n" by linarith
  then show "bit (le32_of_bytes (ucast w) (ucast (drop_bit 8 w)) (ucast (drop_bit 16 w)) (ucast (drop_bit 24 w))) n = bit w n"
    using n by cases (auto simp: le32_of_bytes_def bit_simps less_diff_conv2)
qed

lemma length_bytes_of_le64 [simp]: "length (bytes_of_le64 w) = 8"
  by (simp add: bytes_of_le64_def)

definition words_of_bytes :: "u8 list \<Rightarrow> u32 list" where
  "words_of_bytes bs = map (\<lambda>i. le32_of_bytes (bs ! (4 * i)) (bs ! (4 * i + 1)) (bs ! (4 * i + 2)) (bs ! (4 * i + 3)))
     [0..<length bs div 4]"

lemma concat_bytes_nth:
  "i < length ws \<Longrightarrow> j < 4 \<Longrightarrow> concat (map bytes_of_le32 ws) ! (4 * i + j) = bytes_of_le32 (ws ! i) ! j"
proof (induction ws arbitrary: i)
  case (Cons w ws)
  then show ?case by (cases i) (auto simp: nth_append)
qed simp

lemma length_concat_bytes [simp]: "length (concat (map bytes_of_le32 ws)) = 4 * length ws"
  by (induction ws) auto

lemma words_of_bytes_of_words: "words_of_bytes (concat (map bytes_of_le32 ws)) = ws"
proof (rule nth_equalityI)
  show "length (words_of_bytes (concat (map bytes_of_le32 ws))) = length ws" by (simp add: words_of_bytes_def)
  fix i
  assume "i < length (words_of_bytes (concat (map bytes_of_le32 ws)))"
  then have i: "i < length ws" by (simp add: words_of_bytes_def)
  show "words_of_bytes (concat (map bytes_of_le32 ws)) ! i = ws ! i"
    using i concat_bytes_nth [OF i, of 0] concat_bytes_nth [OF i, of 1] concat_bytes_nth [OF i, of 2]
      concat_bytes_nth [OF i, of 3]
    by (simp add: words_of_bytes_def bytes_of_le32_def)
qed

lemma bytes_of_le32_of_bytes [simp]: "bytes_of_le32 (le32_of_bytes a b c d) = [a, b, c, d]"
proof -
  have "ucast (le32_of_bytes a b c d) = a" "ucast (drop_bit 8 (le32_of_bytes a b c d)) = b"
    "ucast (drop_bit 16 (le32_of_bytes a b c d)) = c" "ucast (drop_bit 24 (le32_of_bytes a b c d)) = d"
    by (rule bit_word_eqI, auto simp: le32_of_bytes_def bit_simps dest: bit_imp_le_length)+
  then show ?thesis by (simp add: bytes_of_le32_def)
qed

lemma length_words_of_bytes [simp]: "length (words_of_bytes bs) = length bs div 4"
  by (simp add: words_of_bytes_def)

lemma bytes_of_words_of_bytes:
  assumes "length bs = 4 * n"
  shows "concat (map bytes_of_le32 (words_of_bytes bs)) = bs"
proof (rule nth_equalityI)
  show "length (concat (map bytes_of_le32 (words_of_bytes bs))) = length bs"
    using assms by simp
next
  fix i
  assume "i < length (concat (map bytes_of_le32 (words_of_bytes bs)))"
  then have i: "i div 4 < n" using assms by simp
  have j: "i mod 4 = 0 \<or> i mod 4 = 1 \<or> i mod 4 = 2 \<or> i mod 4 = 3" by auto
  have "concat (map bytes_of_le32 (words_of_bytes bs)) ! (4 * (i div 4) + i mod 4) =
      bytes_of_le32 (words_of_bytes bs ! (i div 4)) ! (i mod 4)"
    using i assms by (intro concat_bytes_nth) auto
  also have "words_of_bytes bs ! (i div 4) = le32_of_bytes (bs ! (4 * (i div 4))) (bs ! (4 * (i div 4) + 1))
      (bs ! (4 * (i div 4) + 2)) (bs ! (4 * (i div 4) + 3))"
    using i assms by (simp add: words_of_bytes_def)
  also have "bytes_of_le32 \<dots> ! (i mod 4) = bs ! (4 * (i div 4) + i mod 4)"
    using j by (elim disjE) (simp_all del: mult_div_mod_eq)
  finally show "concat (map bytes_of_le32 (words_of_bytes bs)) ! i = bs ! i" by simp
qed

section \<open>Functions with labels and goto\<close>

text \<open>
  \<open>goto_run step final l s\<close> runs a function body from label \<open>l\<close>: \<open>step\<close> executes the
  code between a label and the next \<open>goto\<close>. A run that leaves an array or never reaches a final
  label has the value \<^term>\<open>None\<close>.
\<close>

partial_function (option) goto_run ::
  "('l \<Rightarrow> 's \<Rightarrow> ('l \<times> 's) option) \<Rightarrow> ('l \<Rightarrow> bool) \<Rightarrow> 'l \<Rightarrow> 's \<Rightarrow> 's option" where
  "goto_run step final l s =
     (if final l then Some s
      else Option.bind (step l s) (\<lambda>ls. goto_run step final (fst ls) (snd ls)))"

lemma goto_run_final: "final l \<Longrightarrow> goto_run step final l s = Some s"
  by (subst goto_run.simps) simp

lemma goto_run_step:
  "\<not> final l \<Longrightarrow> step l s = Some (l', s') \<Longrightarrow>
   goto_run step final l s = goto_run step final l' s'"
  by (subst goto_run.simps) simp

text \<open>The program points of such a function that are reached from a start.\<close>

inductive goto_reach ::
  "('l \<Rightarrow> 's \<Rightarrow> ('l \<times> 's) option) \<Rightarrow> ('l \<Rightarrow> bool) \<Rightarrow> 'l \<Rightarrow> 's \<Rightarrow> 'l \<Rightarrow> 's \<Rightarrow> bool"
  for step final l0 s0 where
  start: "goto_reach step final l0 s0 l0 s0"
| step: "goto_reach step final l0 s0 l s \<Longrightarrow> \<not> final l \<Longrightarrow> step l s = Some (l', s') \<Longrightarrow>
    goto_reach step final l0 s0 l' s'"

text \<open>
  The contract of a function that returns: an invariant at every label, and a rank that every
  non-final step decreases.
\<close>

locale goto_program =
  fixes step :: "'l \<Rightarrow> 's \<Rightarrow> ('l \<times> 's) option"
    and final :: "'l \<Rightarrow> bool"
    and inv :: "'l \<Rightarrow> 's \<Rightarrow> bool"
    and rank :: "'l \<Rightarrow> 's \<Rightarrow> nat"
  assumes step_total:
    "inv l s \<Longrightarrow> \<not> final l \<Longrightarrow>
     \<exists>l' s'. step l s = Some (l', s') \<and> inv l' s' \<and> rank l' s' < rank l s"
begin

lemma goto_run_returns:
  assumes "inv l s"
  shows "\<exists>l' s'. goto_run step final l s = Some s' \<and> final l' \<and> inv l' s'"
  using assms
proof (induction "rank l s" arbitrary: l s rule: less_induct)
  case less
  show ?case
  proof (cases "final l")
    case True
    with less.prems show ?thesis by (auto simp: goto_run_final)
  next
    case False
    with less.prems obtain l1 s1 where
      "step l s = Some (l1, s1)" "inv l1 s1" "rank l1 s1 < rank l s"
      using step_total by blast
    with less.hyps [of l1 s1] False show ?thesis by (auto simp: goto_run_step)
  qed
qed

lemma goto_run_inv:
  assumes "inv l s" and "goto_run step final l s = Some s'"
  shows "\<exists>l'. final l' \<and> inv l' s'"
  using goto_run_returns [OF assms(1)] assms(2) by auto

lemma goto_reach_inv:
  assumes "goto_reach step final l0 s0 l s" and "inv l0 s0"
  shows "inv l s"
  using assms
proof (induction rule: goto_reach.induct)
  case (step l s l' s')
  with step_total [of l s] show ?case by auto
qed

lemma goto_reach_final:
  assumes "inv l s" and "goto_reach step final l0 s0 l s"
  shows "\<exists>l' s'. goto_reach step final l0 s0 l' s' \<and> final l'"
  using assms
proof (induction "rank l s" arbitrary: l s rule: less_induct)
  case less
  show ?case
  proof (cases "final l")
    case False
    with less.prems step_total obtain l1 s1 where
      "step l s = Some (l1, s1)" "inv l1 s1" "rank l1 s1 < rank l s" by blast
    with less.hyps [of l1 s1] less.prems False show ?thesis by (blast intro: goto_reach.step)
  qed (use less.prems in blast)
qed

text \<open>Every reached program point has a next step: the function never gets stuck.\<close>

lemma goto_reach_not_stuck:
  assumes "goto_reach step final l0 s0 l s" and "inv l0 s0"
  shows "final l \<or> step l s \<noteq> None"
  using step_total [OF goto_reach_inv [OF assms]] by auto

end

end
