(* ===== verification/Rand.thy ===== *)
theory Rand
  imports Arc4
begin

text \<open>
  The random byte source of \<open>code/app/viper/rand.c\<close>. Its state is the file's global variables:
  a buffer of 128 bytes, the running index of the next byte (an \<open>unsigned int\<close>), the number of
  refills so far (an \<open>unsigned long long\<close>), the key and the cipher context. The counter is copied
  into the buffer in the byte order of the little-endian hosts the tool runs on.

  The lemmas show that the buffer is never left, and that the bytes handed out are those of a
  simple specification, the concatenation of the cipher's blocks, whether or not the 32 bit index
  wraps around.
\<close>

definition RANDOM_BUFFER_SIZE :: nat where
  "RANDOM_BUFFER_SIZE = 128"

record rand_state =
  randomBuffer :: "u8 list"
  randomIndex :: u32
  refillNo :: u64
  randkey :: "u8 list"
  arc4_ctx :: arc4_context

definition rand_init :: rand_state where
  "rand_init = \<lparr>randomBuffer = replicate RANDOM_BUFFER_SIZE 0, randomIndex = 0, refillNo = 0,
     randkey = replicate RANDOM_BUFFER_SIZE 0,
     arc4_ctx = \<lparr>ctx_m = replicate 256 0, ctx_x = 0, ctx_y = 0\<rparr>\<rparr>"

definition arc4GetRandom :: "u8 list \<Rightarrow> int \<Rightarrow> rand_state \<Rightarrow> (u8 list \<times> int \<times> rand_state) option" where
  "arc4GetRandom buffer numBytes s = do {
     let s = (if refillNo s = 0
              then s\<lparr>randkey := replicate RANDOM_BUFFER_SIZE 0xa,
                     arc4_ctx := arc4_setup (replicate RANDOM_BUFFER_SIZE 0xa) (int RANDOM_BUFFER_SIZE)\<rparr>
              else s);
     buffer \<leftarrow> arr_blit buffer 0 (replicate RANDOM_BUFFER_SIZE 0);
     buffer \<leftarrow> arr_blit buffer 0 (bytes_of_le64 (refillNo s));
     dat \<leftarrow> arr_slice buffer 0 (nat numBytes);
     let (ctx, dat) = arc4_crypt (arc4_ctx s) dat;
     buffer \<leftarrow> arr_blit buffer 0 dat;
     Some (buffer, numBytes, s\<lparr>arc4_ctx := ctx, refillNo := refillNo s + 1\<rparr>)
   }"

definition random_byte :: "rand_state \<Rightarrow> (u8 \<times> rand_state) option" where
  "random_byte s = do {
     s \<leftarrow> (if unat (randomIndex s) mod RANDOM_BUFFER_SIZE = 0
          then do {
            (buffer, ret, s) \<leftarrow> arc4GetRandom (randomBuffer s) (int RANDOM_BUFFER_SIZE) s;
            Some (s\<lparr>randomBuffer := buffer\<rparr>)
          }
          else Some s);
     c \<leftarrow> arr_get (randomBuffer s) (unat (randomIndex s) mod RANDOM_BUFFER_SIZE);
     Some (c, s\<lparr>randomIndex := randomIndex s + 1\<rparr>)
   }"

section \<open>Well-formed states\<close>

definition rand_wf :: "rand_state \<Rightarrow> bool" where
  "rand_wf s \<longleftrightarrow> length (randomBuffer s) = RANDOM_BUFFER_SIZE \<and>
     (refillNo s \<noteq> 0 \<longrightarrow> arc4_wf (arc4_ctx s))"

lemma rand_init_wf: "rand_wf rand_init"
  by (simp add: rand_wf_def rand_init_def)

definition counter_block :: "u64 \<Rightarrow> u8 list" where
  "counter_block c = bytes_of_le64 c @ replicate 120 0"

lemma length_counter_block [simp]: "length (counter_block c) = 128"
  by (simp add: counter_block_def)

definition refill_ctx :: "rand_state \<Rightarrow> arc4_context" where
  "refill_ctx s = (if refillNo s = 0 then arc4_setup (replicate 128 0xa) 128 else arc4_ctx s)"

lemma arc4GetRandom_full:
  assumes "length buffer = 128"
  shows "\<exists>s'. arc4GetRandom buffer 128 s =
           Some (snd (arc4_crypt (refill_ctx s) (counter_block (refillNo s))), 128, s') \<and>
         randomBuffer s' = randomBuffer s \<and> randomIndex s' = randomIndex s \<and>
         refillNo s' = refillNo s + 1 \<and>
         arc4_ctx s' = fst (arc4_crypt (refill_ctx s) (counter_block (refillNo s)))"
  using assms
  by (auto simp: arc4GetRandom_def refill_ctx_def counter_block_def RANDOM_BUFFER_SIZE_def
      arc4_crypt_keystream Let_def)

lemma random_byte_refill:
  assumes "length (randomBuffer s) = 128" and "unat (randomIndex s) mod 128 = 0"
  shows "\<exists>s'. random_byte s = Some (randomBuffer s' ! 0, s') \<and>
           randomIndex s' = randomIndex s + 1 \<and> refillNo s' = refillNo s + 1 \<and>
           randomBuffer s' = snd (arc4_crypt (refill_ctx s) (counter_block (refillNo s))) \<and>
           arc4_ctx s' = fst (arc4_crypt (refill_ctx s) (counter_block (refillNo s)))"
proof -
  have l: "length (snd (arc4_crypt (refill_ctx s) (counter_block (refillNo s)))) = 128"
    by (simp add: arc4_crypt_keystream)
  from arc4GetRandom_full [OF assms(1), of s] obtain s1 where
    "arc4GetRandom (randomBuffer s) 128 s =
       Some (snd (arc4_crypt (refill_ctx s) (counter_block (refillNo s))), 128, s1)"
    "randomIndex s1 = randomIndex s" "refillNo s1 = refillNo s + 1"
    "arc4_ctx s1 = fst (arc4_crypt (refill_ctx s) (counter_block (refillNo s)))"
    by blast
  with assms l show ?thesis
    by (auto simp: random_byte_def RANDOM_BUFFER_SIZE_def)
qed

lemma random_byte_buffered:
  assumes "length (randomBuffer s) = 128" and "unat (randomIndex s) mod 128 \<noteq> 0"
  shows "random_byte s = Some (randomBuffer s ! (unat (randomIndex s) mod 128),
           s\<lparr>randomIndex := randomIndex s + 1\<rparr>)"
  using assms by (simp add: random_byte_def RANDOM_BUFFER_SIZE_def)

lemma random_byte_total:
  assumes "rand_wf s"
  shows "\<exists>c s'. random_byte s = Some (c, s') \<and> rand_wf s'"
proof (cases "unat (randomIndex s) mod 128 = 0")
  case True
  from assms have "arc4_wf (refill_ctx s)"
    using arc4_setup_wf by (auto simp: rand_wf_def refill_ctx_def)
  then have "arc4_wf (fst (arc4_crypt (refill_ctx s) (counter_block (refillNo s))))"
    by (rule arc4_crypt_wf)
  moreover have "length (snd (arc4_crypt (refill_ctx s) (counter_block (refillNo s)))) = 128"
    by (simp add: arc4_crypt_keystream)
  ultimately show ?thesis
    using random_byte_refill [of s] True assms
    by (auto simp: rand_wf_def RANDOM_BUFFER_SIZE_def)
next
  case False
  with assms random_byte_buffered [of s] show ?thesis
    by (auto simp: rand_wf_def RANDOM_BUFFER_SIZE_def)
qed

section \<open>The byte stream\<close>

text \<open>
  The specification: block \<open>n\<close> is the counter \<open>n\<close>, padded with zeros to 128 bytes, under the
  keystream at position \<open>128 * n\<close> of the cipher with the constant key.
\<close>

definition rand_ctx :: "nat \<Rightarrow> arc4_context" where
  "rand_ctx n = ((arc4_next ^^ 128) ^^ n) (arc4_setup (replicate 128 0xa) 128)"

definition rand_block :: "nat \<Rightarrow> u8 list" where
  "rand_block n = map2 (XOR) (counter_block (of_nat n)) (arc4_keystream (rand_ctx n) 128)"

definition rand_spec :: "nat \<Rightarrow> u8" where
  "rand_spec n = rand_block (n div 128) ! (n mod 128)"

text \<open>The calls of a client, one after the other.\<close>

fun random_bytes :: "nat \<Rightarrow> rand_state \<Rightarrow> (u8 list \<times> rand_state) option" where
  "random_bytes 0 s = Some ([], s)"
| "random_bytes (Suc n) s = do {
     (cs, s) \<leftarrow> random_bytes n s;
     (c, s) \<leftarrow> random_byte s;
     Some (cs @ [c], s)
   }"

text \<open>The state after \<open>n\<close> bytes.\<close>

definition rand_at :: "nat \<Rightarrow> rand_state \<Rightarrow> bool" where
  "rand_at n s \<longleftrightarrow> length (randomBuffer s) = 128 \<and> randomIndex s = of_nat n \<and>
     refillNo s = of_nat ((n + 127) div 128) \<and>
     (n \<noteq> 0 \<longrightarrow> arc4_ctx s = rand_ctx ((n + 127) div 128)) \<and>
     (n mod 128 \<noteq> 0 \<longrightarrow> randomBuffer s = rand_block (n div 128))"

lemma unat_of_nat_mod_128: "unat (of_nat n :: u32) mod 128 = n mod 128"
  by (simp add: unat_of_nat take_bit_eq_mod mod_mod_cancel)

lemma of_nat_u64_nonzero: "0 < q \<Longrightarrow> q < 2 ^ 64 \<Longrightarrow> (of_nat q :: u64) \<noteq> 0"
  by (simp add: word_of_nat_eq_0_iff nat_dvd_not_less)

lemma rand_refill_ctx:
  assumes "rand_at (128 * q) s" and "q < 2 ^ 64"
  shows "refill_ctx s = rand_ctx q"
proof (cases "q = 0")
  case True
  with assms show ?thesis by (simp add: rand_at_def refill_ctx_def rand_ctx_def)
next
  case False
  with assms of_nat_u64_nonzero [of q] show ?thesis by (simp add: rand_at_def refill_ctx_def)
qed

lemma random_byte_at_refill:
  assumes at: "rand_at (128 * q) s" and bound: "q < 2 ^ 64"
  shows "\<exists>s'. random_byte s = Some (rand_spec (128 * q), s') \<and> rand_at (Suc (128 * q)) s'"
proof -
  have ctx: "refill_ctx s = rand_ctx q"
    using at bound by (rule rand_refill_ctx)
  have blk: "snd (arc4_crypt (refill_ctx s) (counter_block (refillNo s))) = rand_block q"
    using at ctx by (simp add: arc4_crypt_keystream rand_block_def rand_at_def)
  have nxt: "fst (arc4_crypt (refill_ctx s) (counter_block (refillNo s))) = rand_ctx (Suc q)"
    using ctx by (simp add: arc4_crypt_keystream rand_ctx_def)
  from at have "unat (randomIndex s) mod 128 = 0" "length (randomBuffer s) = 128"
    by (simp_all only: rand_at_def unat_of_nat_mod_128) simp
  with random_byte_refill [of s] blk nxt obtain s' where
    "random_byte s = Some (rand_block q ! 0, s')"
    "randomIndex s' = randomIndex s + 1" "refillNo s' = refillNo s + 1"
    "randomBuffer s' = rand_block q" "arc4_ctx s' = rand_ctx (Suc q)"
    by auto
  moreover have "Suc (128 * q) div 128 = q" by (rule div_nat_eqI) simp_all
  ultimately show ?thesis using at
    by (simp add: rand_at_def rand_spec_def rand_block_def add.commute Suc_times_mod_eq)
qed

lemma random_byte_at:
  assumes at: "rand_at n s" and bound: "n < 128 * 2 ^ 64"
  shows "\<exists>s'. random_byte s = Some (rand_spec n, s') \<and> rand_at (Suc n) s'"
proof (cases "n mod 128 = 0")
  case True
  then obtain q where n: "n = 128 * q" by auto
  with bound have "q < 2 ^ 64" by simp
  with at random_byte_at_refill [of q s] show ?thesis unfolding n by simp
next
  case False
  define q r where "q = n div 128" and "r = n mod 128"
  then have n: "n = 128 * q + r" "r < 128" "0 < r" using False by auto
  then have "(Suc n + 127) div 128 = Suc q" "(n + 127) div 128 = Suc q" "n div 128 = q"
    by (intro div_nat_eqI; simp)+
  moreover have "Suc n div 128 = q" if "Suc n mod 128 \<noteq> 0"
  proof -
    from n that have "r \<noteq> 127" by auto
    with n show ?thesis by (intro div_nat_eqI) auto
  qed
  ultimately have q: "(Suc n + 127) div 128 = (n + 127) div 128"
    "Suc n mod 128 \<noteq> 0 \<Longrightarrow> Suc n div 128 = n div 128"
    by auto
  from at have i: "unat (randomIndex s) mod 128 = n mod 128" and "length (randomBuffer s) = 128"
    by (simp_all add: rand_at_def unat_of_nat_mod_128)
  with random_byte_buffered [of s] False
  have "random_byte s = Some (randomBuffer s ! (n mod 128), s\<lparr>randomIndex := randomIndex s + 1\<rparr>)"
    unfolding i by simp
  with at False q show ?thesis
    by (auto simp: rand_at_def rand_spec_def add.commute)
qed

lemma random_bytes_at:
  assumes "n \<le> 128 * 2 ^ 64"
  shows "\<exists>s. random_bytes n rand_init = Some (map rand_spec [0..<n], s) \<and> rand_at n s"
  using assms
proof (induction n)
  case 0
  show ?case by (simp add: rand_at_def rand_init_def RANDOM_BUFFER_SIZE_def)
next
  case (Suc n)
  then obtain s where s: "random_bytes n rand_init = Some (map rand_spec [0..<n], s)" "rand_at n s"
    by auto
  with Suc.prems random_byte_at [of n s] obtain s' where
    "random_byte s = Some (rand_spec n, s')" "rand_at (Suc n) s'" by auto
  with s show ?case by auto
qed

text \<open>C24: The first \<open>n\<close> calls of \<open>random_byte\<close> in a program return the first \<open>n\<close> bytes of the
  specified stream and never access a buffer out of range, for every \<open>n\<close> up to the wrap-around of
  the 64 bit refill counter. In particular nothing happens when the 32 bit index wraps.\<close>

theorem random_bytes_refines_spec:
  assumes "n \<le> 128 * 2 ^ 64"
  shows "\<exists>s. random_bytes n rand_init = Some (map rand_spec [0..<n], s)"
  using random_bytes_at [OF assms] by blast

theorem random_bytes_refines_spec_witness:
  "(2 ^ 33 :: nat) \<le> 128 * 2 ^ 64 \<and>
   (\<exists>s. random_bytes (2 ^ 33) rand_init = Some (map rand_spec [0..<2 ^ 33], s))"
proof -
  have h: "(2 ^ 33 :: nat) \<le> 128 * 2 ^ 64" by simp
  show ?thesis using h random_bytes_refines_spec [OF h] by blast
qed

end
