(* ===== verification/Viper_Mem.thy ===== *)
theory Viper_Mem
  imports Rand
begin

text \<open>
  The global variables of the attestation tool \<open>code/app/viper/simulator.c\<close> and the functions
  that initialise, count and copy them. The firmware image and the coverage maps have one entry
  for each of the \<open>FW_SIZE/4\<close> words of the firmware; a coverage map holds 1 for a word that has
  been read. The register file \<open>g_reg\<close> stands for the 32 MIPS registers and is a function of the
  register number; all its uses in the source have a constant index below \<open>MIPS_REG_NUM\<close>.
\<close>

section \<open>Constants\<close>

abbreviation (input) FW_WORDS :: nat where "FW_WORDS \<equiv> 768"
abbreviation (input) NONCE_NUM :: nat where "NONCE_NUM \<equiv> 300"
abbreviation (input) SWATT_BASE :: u32 where "SWATT_BASE \<equiv> 0x8b00"
abbreviation (input) NONCE_FULL :: u32 where "NONCE_FULL \<equiv> 0"
abbreviation (input) ADDR_MASK :: u32 where "ADDR_MASK \<equiv> 0x7fc"
abbreviation (input) JUMP_MASK :: u32 where "JUMP_MASK \<equiv> 0x1c0"
abbreviation (input) NONCE_COUNT :: u32 where "NONCE_COUNT \<equiv> 300"
abbreviation (input) SWATT_LOOP_NUM :: u32 where "SWATT_LOOP_NUM \<equiv> 300"
abbreviation (input) LOOP_COUNT :: u32 where "LOOP_COUNT \<equiv> 100000"
abbreviation (input) I_NUM :: u32 where "I_NUM \<equiv> 4"

section \<open>Globals\<close>

type_synonym regs = "nat \<Rightarrow> u32"

record sim =
  g_swatt_buf :: "u32 list"
  g_swatt_buf_s :: "u32 list"
  g_nonce_pool :: "u32 list"
  g_reg :: regs
  g_reg_state :: regs
  g_checksum :: "(u32 \<times> u32) list"
  g_mm :: "u32 list"
  g_mm_s :: "u32 list"
  g_nonce_count :: u32
  g_rand :: rand_state

definition sim_init :: sim where
  "sim_init = \<lparr>g_swatt_buf = replicate FW_WORDS 0, g_swatt_buf_s = replicate FW_WORDS 0,
     g_nonce_pool = replicate NONCE_NUM 0, g_reg = (\<lambda>_. 0), g_reg_state = (\<lambda>_. 0),
     g_checksum = replicate NONCE_NUM (0, 0), g_mm = replicate FW_WORDS 0,
     g_mm_s = replicate FW_WORDS 0, g_nonce_count = 0, g_rand = rand_init\<rparr>"

definition init_buf :: "'a sim_scheme \<Rightarrow> 'a sim_scheme" where
  "init_buf s = s\<lparr>g_swatt_buf := replicate FW_WORDS 0, g_swatt_buf_s := replicate FW_WORDS 0,
     g_mm := replicate FW_WORDS 0, g_mm_s := replicate FW_WORDS 0\<rparr>"

section \<open>Coverage\<close>

text \<open>The range of words whose coverage is counted.\<close>

definition cov_start :: nat where
  "cov_start = (0x8c00 - 0x8b00) div 4"

definition cov_end :: nat where
  "cov_end = (0x8c00 - 0x8b00 + 16 * 4 * 8 + 8 + 2048) div 4"

definition count_range :: "(nat \<Rightarrow> bool) \<Rightarrow> u32" where
  "count_range P = fold (\<lambda>i count. if P i then count + 1 else count) [cov_start..<cov_end] 0"

definition mms_left :: "'a sim_scheme \<Rightarrow> u32" where
  "mms_left s = count_range (\<lambda>i. g_mm_s s ! i = 0)"

definition mm_left :: "'a sim_scheme \<Rightarrow> u32" where
  "mm_left s = count_range (\<lambda>i. g_mm s ! i = 0)"

definition mms_updated :: "'a sim_scheme \<Rightarrow> u32" where
  "mms_updated s = count_range (\<lambda>i. g_mm s ! i = 0 \<and> g_mm_s s ! i = 1)"

definition zero_mms :: "'a sim_scheme \<Rightarrow> 'a sim_scheme" where
  "zero_mms s = s\<lparr>g_mm_s := replicate FW_WORDS 0\<rparr>"

definition copy_mms2mm :: "'a sim_scheme \<Rightarrow> 'a sim_scheme" where
  "copy_mms2mm s = s\<lparr>g_mm := g_mm_s s\<rparr>"

definition copy_mm2mms :: "'a sim_scheme \<Rightarrow> 'a sim_scheme" where
  "copy_mm2mms s = s\<lparr>g_mm_s := g_mm s\<rparr>"

section \<open>Registers\<close>

definition clear_regs :: "'a sim_scheme \<Rightarrow> 'a sim_scheme" where
  "clear_regs s = s\<lparr>g_reg := of_nat\<rparr>"

definition save_regs :: "'a sim_scheme \<Rightarrow> 'a sim_scheme" where
  "save_regs s = s\<lparr>g_reg_state := g_reg s\<rparr>"

definition restore_regs :: "'a sim_scheme \<Rightarrow> 'a sim_scheme" where
  "restore_regs s = s\<lparr>g_reg := g_reg_state s\<rparr>"

section \<open>Counting\<close>

lemma cov_bounds: "cov_start = 64" "cov_end = 706"
  by (simp_all add: cov_start_def cov_end_def)

lemma count_fold:
  "fold (\<lambda>i count. if P i then count + 1 else count) xs (c :: u32) =
     c + of_nat (length (filter P xs))"
  by (induction xs arbitrary: c) auto

lemma count_range_length: "count_range P = of_nat (length (filter P [cov_start..<cov_end]))"
  unfolding count_range_def by (simp only: count_fold add_0)

lemma unat_count_range: "unat (count_range P) = card {i. cov_start \<le> i \<and> i < cov_end \<and> P i}"
proof -
  have l: "length (filter P [cov_start..<cov_end]) \<le> 642"
    using length_filter_le [of P "[cov_start..<cov_end]"] by (simp only: length_upt cov_bounds)
  have "length (filter P [cov_start..<cov_end]) = card (set (filter P [cov_start..<cov_end]))"
    by (rule distinct_card [symmetric]) simp
  also have "set (filter P [cov_start..<cov_end]) = {i. cov_start \<le> i \<and> i < cov_end \<and> P i}"
    by auto
  finally have c: "length (filter P [cov_start..<cov_end]) =
      card {i. cov_start \<le> i \<and> i < cov_end \<and> P i}" .
  from l show ?thesis
    unfolding count_range_length by (simp add: unat_of_nat take_bit_nat_eq_self flip: c)
qed

lemma count_range_ge_1: "1 \<le> count_range P \<longleftrightarrow> (\<exists>i. cov_start \<le> i \<and> i < cov_end \<and> P i)"
proof -
  have "1 \<le> count_range P \<longleftrightarrow> 0 < card {i. cov_start \<le> i \<and> i < cov_end \<and> P i}"
    by (simp add: word_le_nat_alt Suc_le_eq flip: unat_count_range)
  also have "\<dots> \<longleftrightarrow> (\<exists>i. cov_start \<le> i \<and> i < cov_end \<and> P i)"
    by (subst card_gt_0_iff) auto
  finally show ?thesis .
qed

lemma unat_mms_left: "unat (mms_left s) = card {i. 64 \<le> i \<and> i < 706 \<and> g_mm_s s ! i = 0}"
  by (simp add: mms_left_def unat_count_range cov_bounds)

end
