(* ===== verification/Viper_Blocks.thy ===== *)
theory Viper_Blocks
  imports Viper_Mem
begin

text \<open>
  The eight checksum blocks of \<open>code/app/viper/simulator.c\<close>. The source holds two copies of
  them, one in \<open>generate_nonce\<close> (which marks the words it reads in \<open>g_mm_s\<close>) and one in
  \<open>checksum_simulator\<close> (which marks them in \<open>g_swatt_buf_s\<close>); both copies are modelled, each
  from its own lines. A block works on the registers, the marks and the counter \<open>icount\<close>, and
  ends with a \<open>goto\<close>, which is the label it returns. \<open>DEBUG\<close> output is left out: the macros that
  guard it are \<open>if(0)\<close>.

  The interface \<open>swatt_blocks\<close> states what the control flow relies on: a block keeps the
  registers that hold addresses in range, stays inside the firmware image, marks only words it
  reads, and computes registers that do not depend on the marks. Both copies are interpreted, and
  a whole round of blocks for one nonce is analysed once, inside the interface.
\<close>

datatype label =
    Block0 | Block1 | Block2 | Block3 | Block4 | Block5 | Block6 | Block7
  | Jump_table | Checksum_end | Return

type_synonym blk = "regs \<times> u32 list \<times> u32"

section \<open>Pieces shared by the blocks\<close>

text \<open>\<open>tmp = r[5] - SWATT_BASE; marks[tmp/4] = 1; r[6] = buf[tmp/4];\<close>\<close>

definition touch :: "u32 list \<Rightarrow> u32 list \<Rightarrow> u32 \<Rightarrow> (u32 \<times> u32 list) option" where
  "touch buf marks addr = do {
     let tmp = addr - SWATT_BASE;
     marks \<leftarrow> arr_set marks (unat (tmp div 4)) 1;
     v \<leftarrow> arr_get buf (unat (tmp div 4));
     Some (v, marks)
   }"

text \<open>The end of blocks 0 to 6: only a round that reaches block 7 ends with \<open>icount == I_NUM\<close>.\<close>

definition block_end :: "u32 \<Rightarrow> blk \<Rightarrow> (label \<times> blk) option" where
  "block_end ret = (\<lambda>(r, marks, icount).
     let icount = icount + 1 in
     if icount \<ge> I_NUM then Some (Checksum_end, r, marks, I_NUM + 1)
     else Some (Jump_table, r(10 := ret), marks, icount))"

definition block7_end :: "blk \<Rightarrow> (label \<times> blk) option" where
  "block7_end = (\<lambda>(r, marks, icount). Some (Checksum_end, r, marks, icount + 1))"

section \<open>The blocks of generate\_nonce\<close>

definition gen_block0 :: "u32 list \<Rightarrow> blk \<Rightarrow> (label \<times> blk) option" where
  "gen_block0 buf = (\<lambda>(r, marks, icount). do {
     let r = r(5 := r 10 + r 7);
     (v, marks) \<leftarrow> touch buf marks (r 5);
     let r = r(6 := v);
     let r = r(5 := r 6 XOR r 5);
     let r = r(11 := r 26 XOR r 5);
     let r = r(7 := r 11 AND ADDR_MASK);
     let r = r(5 := r 9 + r 7);
     (v, marks) \<leftarrow> touch buf marks (r 5);
     let r = r(6 := v);
     let r = r(5 := r 6 XOR r 5);
     let r = r(2 := r 27 XOR r 5);
     let r = r(3 := r 2 + r 2);
     let r = r(7 := r 3 AND ADDR_MASK);
     let r = r(5 := r 3 AND JUMP_MASK);
     let r = r(9 := r 9 XOR r 5);
     block_end (0x8c00 + 16 * 4 + 8 - 8) (r, marks, icount)
   })"

definition gen_block1 :: "u32 list \<Rightarrow> blk \<Rightarrow> (label \<times> blk) option" where
  "gen_block1 buf = (\<lambda>(r, marks, icount). do {
     let r = r(5 := r 9 + r 8);
     (v, marks) \<leftarrow> touch buf marks (r 5);
     let r = r(6 := v);
     let r = r(5 := r 6 + r 5);
     let r = r(11 := r 2 + r 5);
     let r = r(8 := r 11 AND ADDR_MASK);
     let r = r(5 := r 10 + r 8);
     (v, marks) \<leftarrow> touch buf marks (r 5);
     let r = r(6 := v);
     let r = r(5 := r 6 + r 5);
     let r = r(12 := r 2 + r 5);
     let r = r(13 := r 11 XOR r 12);
     let r = r(8 := r 13 AND ADDR_MASK);
     let r = r(5 := r 13 AND JUMP_MASK);
     let r = r(9 := r 9 XOR r 5);
     block_end (0x8c00 + 32 * 4 + 8 - 8) (r, marks, icount)
   })"

definition gen_block2 :: "u32 list \<Rightarrow> blk \<Rightarrow> (label \<times> blk) option" where
  "gen_block2 buf = (\<lambda>(r, marks, icount). do {
     let r = r(5 := r 10 + r 7);
     (v, marks) \<leftarrow> touch buf marks (r 5);
     let r = r(6 := v);
     let r = r(5 := r 6 XOR r 5);
     let r = r(14 := r 11 XOR r 5);
     let r = r(7 := r 14 AND ADDR_MASK);
     let r = r(5 := r 9 + r 7);
     (v, marks) \<leftarrow> touch buf marks (r 5);
     let r = r(6 := v);
     let r = r(5 := r 6 XOR r 5);
     let r = r(15 := r 2 XOR r 5);
     let r = r(16 := r 3 + r 15);
     let r = r(7 := r 16 AND ADDR_MASK);
     let r = r(5 := r 16 AND JUMP_MASK);
     let r = r(9 := r 9 XOR r 5);
     block_end (0x8c00 + 16 * 4 * 3 + 8 - 8) (r, marks, icount)
   })"

definition gen_block3 :: "u32 list \<Rightarrow> blk \<Rightarrow> (label \<times> blk) option" where
  "gen_block3 buf = (\<lambda>(r, marks, icount). do {
     let r = r(5 := r 9 + r 8);
     (v, marks) \<leftarrow> touch buf marks (r 5);
     let r = r(6 := v);
     let r = r(5 := r 6 + r 5);
     let r = r(17 := r 11 + r 5);
     let r = r(8 := r 17 AND ADDR_MASK);
     let r = r(5 := r 10 + r 8);
     (v, marks) \<leftarrow> touch buf marks (r 5);
     let r = r(6 := v);
     let r = r(5 := r 5 + r 6);
     let r = r(18 := r 12 + r 5);
     let r = r(19 := r 13 XOR r 18);
     let r = r(8 := r 19 AND ADDR_MASK);
     let r = r(5 := r 19 AND JUMP_MASK);
     let r = r(9 := r 9 XOR r 5);
     block_end (0x8c00 + 16 * 4 * 4 + 8 - 8) (r, marks, icount)
   })"

definition gen_block4 :: "u32 list \<Rightarrow> blk \<Rightarrow> (label \<times> blk) option" where
  "gen_block4 buf = (\<lambda>(r, marks, icount). do {
     let r = r(5 := r 10 + r 7);
     (v, marks) \<leftarrow> touch buf marks (r 5);
     let r = r(6 := v);
     let r = r(5 := r 6 XOR r 5);
     let r = r(20 := r 14 XOR r 5);
     let r = r(7 := r 20 AND ADDR_MASK);
     let r = r(5 := r 9 + r 7);
     (v, marks) \<leftarrow> touch buf marks (r 5);
     let r = r(6 := v);
     let r = r(5 := r 6 XOR r 5);
     let r = r(21 := r 15 XOR r 5);
     let r = r(22 := r 26 + r 21);
     let r = r(7 := r 22 AND ADDR_MASK);
     let r = r(5 := r 22 AND JUMP_MASK);
     let r = r(9 := r 9 XOR r 5);
     block_end (0x8c00 + 16 * 4 * 5 + 8 - 8) (r, marks, icount)
   })"

definition gen_block5 :: "u32 list \<Rightarrow> blk \<Rightarrow> (label \<times> blk) option" where
  "gen_block5 buf = (\<lambda>(r, marks, icount). do {
     let r = r(5 := r 9 + r 8);
     (v, marks) \<leftarrow> touch buf marks (r 5);
     let r = r(6 := v);
     let r = r(5 := r 6 + r 5);
     let r = r(23 := r 17 + r 5);
     let r = r(8 := r 23 AND ADDR_MASK);
     let r = r(5 := r 10 + r 8);
     (v, marks) \<leftarrow> touch buf marks (r 5);
     let r = r(6 := v);
     let r = r(5 := r 6 + r 5);
     let r = r(24 := r 18 + r 5);
     let r = r(25 := r 19 XOR r 24);
     let r = r(8 := r 25 AND ADDR_MASK);
     let r = r(5 := r 25 AND JUMP_MASK);
     let r = r(9 := r 9 XOR r 5);
     block_end (0x8c00 + 16 * 4 * 6 + 8 - 8) (r, marks, icount)
   })"

definition gen_block6 :: "u32 list \<Rightarrow> blk \<Rightarrow> (label \<times> blk) option" where
  "gen_block6 buf = (\<lambda>(r, marks, icount). do {
     let r = r(5 := r 10 + r 7);
     (v, marks) \<leftarrow> touch buf marks (r 5);
     let r = r(6 := v);
     let r = r(5 := r 6 XOR r 5);
     let r = r(26 := r 20 XOR r 5);
     let r = r(7 := r 26 AND ADDR_MASK);
     let r = r(5 := r 9 + r 7);
     (v, marks) \<leftarrow> touch buf marks (r 5);
     let r = r(6 := v);
     let r = r(5 := r 6 XOR r 5);
     let r = r(27 := r 21 XOR r 5);
     let r = r(28 := r 22 + r 27);
     let r = r(7 := r 28 AND ADDR_MASK);
     let r = r(5 := r 28 AND JUMP_MASK);
     let r = r(9 := r 9 XOR r 5);
     block_end (0x8c00 + 16 * 4 * 7 + 8 - 8) (r, marks, icount)
   })"

definition gen_block7 :: "u32 list \<Rightarrow> blk \<Rightarrow> (label \<times> blk) option" where
  "gen_block7 buf = (\<lambda>(r, marks, icount). do {
     let r = r(5 := r 9 + r 8);
     (v, marks) \<leftarrow> touch buf marks (r 5);
     let r = r(6 := v);
     let r = r(5 := r 6 + r 5);
     let r = r(2 := r 23 + r 5);
     let r = r(8 := r 2 AND ADDR_MASK);
     let r = r(5 := r 10 + r 8);
     (v, marks) \<leftarrow> touch buf marks (r 5);
     let r = r(6 := v);
     let r = r(5 := r 6 + r 5);
     let r = r(3 := r 24 + r 5);
     let r = r(11 := r 25 XOR r 3);
     let r = r(8 := r 11 AND ADDR_MASK);
     let r = r(5 := r 11 AND JUMP_MASK);
     let r = r(9 := r 9 XOR r 5);
     let r = r(10 := 0x8c00 + 16 * 4 * 8 + 8 - 8);
     block7_end (r, marks, icount)
   })"

definition gen_block :: "label \<Rightarrow> u32 list \<Rightarrow> blk \<Rightarrow> (label \<times> blk) option" where
  "gen_block l buf b =
     (case l of
          Block0 \<Rightarrow> gen_block0 buf b
        | Block1 \<Rightarrow> gen_block1 buf b
        | Block2 \<Rightarrow> gen_block2 buf b
        | Block3 \<Rightarrow> gen_block3 buf b
        | Block4 \<Rightarrow> gen_block4 buf b
        | Block5 \<Rightarrow> gen_block5 buf b
        | Block6 \<Rightarrow> gen_block6 buf b
        | Block7 \<Rightarrow> gen_block7 buf b
      | _ \<Rightarrow> Some (l, b))"

definition gen_jump_table :: "u32 \<Rightarrow> label" where
  "gen_jump_table r9 =
     (if r9 = 0x8c00 then Block0
      else if r9 = 0x8c40 then Block1
      else if r9 = 0x8c80 then Block2
      else if r9 = 0x8cc0 then Block3
      else if r9 = 0x8d00 then Block4
      else if r9 = 0x8d40 then Block5
      else if r9 = 0x8d80 then Block6
      else if r9 = 0x8dc0 then Block7
      else Return)"

section \<open>The blocks of checksum\_simulator\<close>

definition chk_block0 :: "u32 list \<Rightarrow> blk \<Rightarrow> (label \<times> blk) option" where
  "chk_block0 buf = (\<lambda>(r, marks, icount). do {
     let r = r(5 := r 10 + r 7);
     (v, marks) \<leftarrow> touch buf marks (r 5);
     let r = r(6 := v);
     let r = r(5 := r 6 XOR r 5);
     let r = r(11 := r 26 XOR r 5);
     let r = r(7 := r 11 AND ADDR_MASK);
     let r = r(5 := r 9 + r 7);
     (v, marks) \<leftarrow> touch buf marks (r 5);
     let r = r(6 := v);
     let r = r(5 := r 6 XOR r 5);
     let r = r(2 := r 27 XOR r 5);
     let r = r(3 := r 2 + r 2);
     let r = r(7 := r 3 AND ADDR_MASK);
     let r = r(5 := r 3 AND JUMP_MASK);
     let r = r(9 := r 9 XOR r 5);
     block_end (0x8c00 + 16 * 4 + 8 - 8) (r, marks, icount)
   })"

definition chk_block1 :: "u32 list \<Rightarrow> blk \<Rightarrow> (label \<times> blk) option" where
  "chk_block1 buf = (\<lambda>(r, marks, icount). do {
     let r = r(5 := r 9 + r 8);
     (v, marks) \<leftarrow> touch buf marks (r 5);
     let r = r(6 := v);
     let r = r(5 := r 6 + r 5);
     let r = r(11 := r 2 + r 5);
     let r = r(8 := r 11 AND ADDR_MASK);
     let r = r(5 := r 10 + r 8);
     (v, marks) \<leftarrow> touch buf marks (r 5);
     let r = r(6 := v);
     let r = r(5 := r 6 + r 5);
     let r = r(12 := r 2 + r 5);
     let r = r(13 := r 11 XOR r 12);
     let r = r(8 := r 13 AND ADDR_MASK);
     let r = r(5 := r 13 AND JUMP_MASK);
     let r = r(9 := r 9 XOR r 5);
     block_end (0x8c00 + 32 * 4 + 8 - 8) (r, marks, icount)
   })"

definition chk_block2 :: "u32 list \<Rightarrow> blk \<Rightarrow> (label \<times> blk) option" where
  "chk_block2 buf = (\<lambda>(r, marks, icount). do {
     let r = r(5 := r 10 + r 7);
     (v, marks) \<leftarrow> touch buf marks (r 5);
     let r = r(6 := v);
     let r = r(5 := r 6 XOR r 5);
     let r = r(14 := r 11 XOR r 5);
     let r = r(7 := r 14 AND ADDR_MASK);
     let r = r(5 := r 9 + r 7);
     (v, marks) \<leftarrow> touch buf marks (r 5);
     let r = r(6 := v);
     let r = r(5 := r 6 XOR r 5);
     let r = r(15 := r 2 XOR r 5);
     let r = r(16 := r 3 + r 15);
     let r = r(7 := r 16 AND ADDR_MASK);
     let r = r(5 := r 16 AND JUMP_MASK);
     let r = r(9 := r 9 XOR r 5);
     block_end (0x8c00 + 16 * 4 * 3 + 8 - 8) (r, marks, icount)
   })"

definition chk_block3 :: "u32 list \<Rightarrow> blk \<Rightarrow> (label \<times> blk) option" where
  "chk_block3 buf = (\<lambda>(r, marks, icount). do {
     let r = r(5 := r 9 + r 8);
     (v, marks) \<leftarrow> touch buf marks (r 5);
     let r = r(6 := v);
     let r = r(5 := r 6 + r 5);
     let r = r(17 := r 11 + r 5);
     let r = r(8 := r 17 AND ADDR_MASK);
     let r = r(5 := r 10 + r 8);
     (v, marks) \<leftarrow> touch buf marks (r 5);
     let r = r(6 := v);
     let r = r(5 := r 5 + r 6);
     let r = r(18 := r 12 + r 5);
     let r = r(19 := r 13 XOR r 18);
     let r = r(8 := r 19 AND ADDR_MASK);
     let r = r(5 := r 19 AND JUMP_MASK);
     let r = r(9 := r 9 XOR r 5);
     block_end (0x8c00 + 16 * 4 * 4 + 8 - 8) (r, marks, icount)
   })"

definition chk_block4 :: "u32 list \<Rightarrow> blk \<Rightarrow> (label \<times> blk) option" where
  "chk_block4 buf = (\<lambda>(r, marks, icount). do {
     let r = r(5 := r 10 + r 7);
     (v, marks) \<leftarrow> touch buf marks (r 5);
     let r = r(6 := v);
     let r = r(5 := r 6 XOR r 5);
     let r = r(20 := r 14 XOR r 5);
     let r = r(7 := r 20 AND ADDR_MASK);
     let r = r(5 := r 9 + r 7);
     (v, marks) \<leftarrow> touch buf marks (r 5);
     let r = r(6 := v);
     let r = r(5 := r 6 XOR r 5);
     let r = r(21 := r 15 XOR r 5);
     let r = r(22 := r 26 + r 21);
     let r = r(7 := r 22 AND ADDR_MASK);
     let r = r(5 := r 22 AND JUMP_MASK);
     let r = r(9 := r 9 XOR r 5);
     block_end (0x8c00 + 16 * 4 * 5 + 8 - 8) (r, marks, icount)
   })"

definition chk_block5 :: "u32 list \<Rightarrow> blk \<Rightarrow> (label \<times> blk) option" where
  "chk_block5 buf = (\<lambda>(r, marks, icount). do {
     let r = r(5 := r 9 + r 8);
     (v, marks) \<leftarrow> touch buf marks (r 5);
     let r = r(6 := v);
     let r = r(5 := r 6 + r 5);
     let r = r(23 := r 17 + r 5);
     let r = r(8 := r 23 AND ADDR_MASK);
     let r = r(5 := r 10 + r 8);
     (v, marks) \<leftarrow> touch buf marks (r 5);
     let r = r(6 := v);
     let r = r(5 := r 6 + r 5);
     let r = r(24 := r 18 + r 5);
     let r = r(25 := r 19 XOR r 24);
     let r = r(8 := r 25 AND ADDR_MASK);
     let r = r(5 := r 25 AND JUMP_MASK);
     let r = r(9 := r 9 XOR r 5);
     block_end (0x8c00 + 16 * 4 * 6 + 8 - 8) (r, marks, icount)
   })"

definition chk_block6 :: "u32 list \<Rightarrow> blk \<Rightarrow> (label \<times> blk) option" where
  "chk_block6 buf = (\<lambda>(r, marks, icount). do {
     let r = r(5 := r 10 + r 7);
     (v, marks) \<leftarrow> touch buf marks (r 5);
     let r = r(6 := v);
     let r = r(5 := r 6 XOR r 5);
     let r = r(26 := r 20 XOR r 5);
     let r = r(7 := r 26 AND ADDR_MASK);
     let r = r(5 := r 9 + r 7);
     (v, marks) \<leftarrow> touch buf marks (r 5);
     let r = r(6 := v);
     let r = r(5 := r 6 XOR r 5);
     let r = r(27 := r 21 XOR r 5);
     let r = r(28 := r 22 + r 27);
     let r = r(7 := r 28 AND ADDR_MASK);
     let r = r(5 := r 28 AND JUMP_MASK);
     let r = r(9 := r 9 XOR r 5);
     block_end (0x8c00 + 16 * 4 * 7 + 8 - 8) (r, marks, icount)
   })"

definition chk_block7 :: "u32 list \<Rightarrow> blk \<Rightarrow> (label \<times> blk) option" where
  "chk_block7 buf = (\<lambda>(r, marks, icount). do {
     let r = r(5 := r 9 + r 8);
     (v, marks) \<leftarrow> touch buf marks (r 5);
     let r = r(6 := v);
     let r = r(5 := r 6 + r 5);
     let r = r(2 := r 23 + r 5);
     let r = r(8 := r 2 AND ADDR_MASK);
     let r = r(5 := r 10 + r 8);
     (v, marks) \<leftarrow> touch buf marks (r 5);
     let r = r(6 := v);
     let r = r(5 := r 6 + r 5);
     let r = r(3 := r 24 + r 5);
     let r = r(11 := r 25 XOR r 3);
     let r = r(8 := r 11 AND ADDR_MASK);
     let r = r(5 := r 11 AND JUMP_MASK);
     let r = r(9 := r 9 XOR r 5);
     let r = r(10 := 0x8c00 + 16 * 4 * 8 + 8 - 8);
     block7_end (r, marks, icount)
   })"

definition chk_block :: "label \<Rightarrow> u32 list \<Rightarrow> blk \<Rightarrow> (label \<times> blk) option" where
  "chk_block l buf b =
     (case l of
          Block0 \<Rightarrow> chk_block0 buf b
        | Block1 \<Rightarrow> chk_block1 buf b
        | Block2 \<Rightarrow> chk_block2 buf b
        | Block3 \<Rightarrow> chk_block3 buf b
        | Block4 \<Rightarrow> chk_block4 buf b
        | Block5 \<Rightarrow> chk_block5 buf b
        | Block6 \<Rightarrow> chk_block6 buf b
        | Block7 \<Rightarrow> chk_block7 buf b
      | _ \<Rightarrow> Some (l, b))"

definition chk_jump_table :: "u32 \<Rightarrow> label" where
  "chk_jump_table r9 =
     (if r9 = 0x8c00 then Block0
      else if r9 = 0x8c40 then Block1
      else if r9 = 0x8c80 then Block2
      else if r9 = 0x8cc0 then Block3
      else if r9 = 0x8d00 then Block4
      else if r9 = 0x8d40 then Block5
      else if r9 = 0x8d80 then Block6
      else if r9 = 0x8dc0 then Block7
      else Return)"

lemmas gen_block_defs = gen_block0_def gen_block1_def gen_block2_def gen_block3_def
  gen_block4_def gen_block5_def gen_block6_def gen_block7_def

lemmas chk_block_defs = chk_block0_def chk_block1_def chk_block2_def chk_block3_def
  chk_block4_def chk_block5_def chk_block6_def chk_block7_def

section \<open>Addresses\<close>

text \<open>Register 9 is a block address, register 10 a return address, 7 and 8 hold offsets.\<close>

definition jt_ok :: "u32 \<Rightarrow> bool" where
  "jt_ok w \<longleftrightarrow> w AND NOT JUMP_MASK = 0x8c00"

definition regs_ok :: "regs \<Rightarrow> bool" where
  "regs_ok r \<longleftrightarrow> jt_ok (r 9) \<and> 0x8c00 \<le> r 10 \<and> r 10 \<le> 0x8e00 \<and> r 7 \<le> ADDR_MASK \<and> r 8 \<le> ADDR_MASK"

lemma jt_ok_xor [simp]: "jt_ok (w XOR (x AND JUMP_MASK)) = jt_ok w"
proof -
  have "(w XOR (x AND JUMP_MASK)) AND NOT JUMP_MASK = w AND NOT JUMP_MASK"
    by (rule bit_eqI) (auto simp: bit_simps)
  then show ?thesis by (simp only: jt_ok_def)
qed

lemma JUMP_MASK_eq: "JUMP_MASK = push_bit 6 (mask 3)"
  by (simp add: mask_eq_exp_minus_1 push_bit_eq_mult)

lemma u32_less_8: "k < (8 :: u32) \<Longrightarrow> k \<in> {0, 1, 2, 3, 4, 5, 6, 7}"
  by (simp add: word_less_nat_alt word_unat_eq_iff) arith

lemma jt_ok_cases:
  assumes "jt_ok w"
  shows "w \<in> {0x8c00, 0x8c40, 0x8c80, 0x8cc0, 0x8d00, 0x8d40, 0x8d80, 0x8dc0}"
proof -
  define k where "k = take_bit 3 (drop_bit 6 w)"
  have "w AND JUMP_MASK = push_bit 6 k"
    unfolding k_def JUMP_MASK_eq by (rule bit_eqI) (auto simp: bit_simps)
  moreover have "w = (w AND NOT JUMP_MASK) OR (w AND JUMP_MASK)"
    by (rule bit_eqI) (auto simp: bit_simps)
  ultimately have w: "w = 0x8c00 OR push_bit 6 k" using assms by (simp add: jt_ok_def)
  have "k < 8" unfolding k_def
    using take_bit_nat_less_exp [of 3 "unat (drop_bit 6 w)"]
    by (simp add: word_less_nat_alt unsigned_take_bit_eq)
  then have "k \<in> {0, 1, 2, 3, 4, 5, 6, 7}" by (rule u32_less_8)
  then show ?thesis unfolding w by auto
qed

lemma jt_ok_bounds: "jt_ok w \<Longrightarrow> 0x8c00 \<le> w \<and> w \<le> 0x8e00"
  using jt_ok_cases [of w] by auto

definition widx :: "u32 \<Rightarrow> nat" where
  "widx a = unat ((a - SWATT_BASE) div 4)"

lemma widx_bounds:
  assumes "0x8c00 \<le> b" and "b \<le> 0x8e00" and "off \<le> ADDR_MASK"
  shows "64 \<le> widx (b + off)" and "widx (b + off) < 704"
proof -
  from assms have n: "0x8c00 \<le> unat b" "unat b \<le> 0x8e00" "unat off \<le> 0x7fc"
    by (simp_all add: word_le_nat_alt)
  have s: "unat (b + off) = unat b + unat off"
    using n by (subst unat_add_lem [THEN iffD1]) simp_all
  have "unat (b + off - SWATT_BASE) = unat b + unat off - 0x8b00"
    using n by (subst unat_sub) (simp_all add: word_le_nat_alt s)
  then have "widx (b + off) = (unat b + unat off - 0x8b00) div 4"
    by (simp add: widx_def unat_div)
  with n show "64 \<le> widx (b + off)" "widx (b + off) < 704" by auto
qed

lemma touch_ok:
  assumes "0x8c00 \<le> b" and "b \<le> 0x8e00" and "off \<le> ADDR_MASK"
    and "length buf = FW_WORDS" and "length marks = FW_WORDS"
  shows "touch buf marks (b + off) =
    Some (buf ! widx (b + off), marks[widx (b + off) := 1])"
  using assms widx_bounds [OF assms(1-3)] by (simp add: touch_def widx_def Let_def)

section \<open>The contract of a block\<close>

abbreviation blocks :: "label set" where
  "blocks \<equiv> {Block0, Block1, Block2, Block3, Block4, Block5, Block6, Block7}"

definition blk_next :: "label \<Rightarrow> u32 \<Rightarrow> label \<times> u32" where
  "blk_next l icount =
     (if l = Block7 then (Checksum_end, icount + 1)
      else if icount + 1 \<ge> I_NUM then (Checksum_end, I_NUM + 1)
      else (Jump_table, icount + 1))"

text \<open>
  Block \<open>l\<close>, run on registers \<open>r\<close>, leaves registers \<open>r'\<close> and has read the words \<open>i\<close> and
  \<open>j\<close> of the image, whatever the marks are.
\<close>

definition blk_result ::
  "(label \<Rightarrow> u32 list \<Rightarrow> blk \<Rightarrow> (label \<times> blk) option) \<Rightarrow> label \<Rightarrow> u32 list \<Rightarrow> regs \<Rightarrow> u32 \<Rightarrow>
   regs \<Rightarrow> nat \<Rightarrow> nat \<Rightarrow> bool" where
  "blk_result f l buf r icount r' i j \<longleftrightarrow>
     (\<forall>marks. length marks = FW_WORDS \<longrightarrow>
        f l buf (r, marks, icount) =
        Some (fst (blk_next l icount), r', marks[i := 1, j := 1], snd (blk_next l icount)))"

definition scratch_eq :: "regs \<Rightarrow> regs \<Rightarrow> bool" where
  "scratch_eq r1 r2 \<longleftrightarrow> (\<forall>k. k \<noteq> 5 \<and> k \<noteq> 6 \<longrightarrow> r1 k = r2 k)"

lemma and_le_mask [simp]: "w AND m \<le> (m :: u32)"
  by (rule word_and_le1)

section \<open>The common shape of the blocks\<close>

text \<open>
  Every block reads the word at \<open>r p + r d\<close>, computes an offset from it into \<open>r d\<close>, reads the
  word at \<open>r q + r d\<close>, and computes the next offset and block address from that.
\<close>

definition swatt_block ::
  "nat \<Rightarrow> nat \<Rightarrow> nat \<Rightarrow> (regs \<Rightarrow> regs) \<Rightarrow> (regs \<Rightarrow> regs) \<Rightarrow> u32 list \<Rightarrow> regs \<times> u32 list \<Rightarrow>
   (regs \<times> u32 list) option" where
  "swatt_block p q d f g buf = (\<lambda>(r, marks). do {
     let r = r(5 := r p + r d);
     (v, marks) \<leftarrow> touch buf marks (r 5);
     let r = f (r(6 := v));
     let r = r(5 := r q + r d);
     (v, marks) \<leftarrow> touch buf marks (r 5);
     Some (g (r(6 := v)), marks)
   })"

text \<open>The registers no block writes; those from 32 on do not exist in the source.\<close>

abbreviation kept_regs :: "nat set" where
  "kept_regs \<equiv> {0, 1, 4, 29, 30} \<union> {31..}"

text \<open>A computation that keeps the address registers in range and leaves the unused ones alone.\<close>

definition addr_step :: "(regs \<Rightarrow> regs) \<Rightarrow> bool" where
  "addr_step f \<longleftrightarrow>
     (\<forall>r. (regs_ok r \<longrightarrow> regs_ok (f r)) \<and> (\<forall>k \<in> kept_regs. f r k = r k))"

lemma regs_ok_upd [simp]: "regs_ok (r(5 := x)) = regs_ok r" "regs_ok (r(6 := x)) = regs_ok r"
  by (simp_all add: regs_ok_def)

lemma regs_ok_base:
  assumes "regs_ok r"
  shows "p \<in> {9, 10} \<Longrightarrow> 0x8c00 \<le> r p \<and> r p \<le> 0x8e00" and "d \<in> {7, 8} \<Longrightarrow> r d \<le> ADDR_MASK"
  using assms by (auto simp: regs_ok_def dest: jt_ok_bounds)

lemma swatt_block_result:
  assumes ok: "regs_ok r" and buf: "length buf = FW_WORDS"
    and p: "p \<in> {9, 10}" and q: "q \<in> {9, 10}" and d: "d \<in> {7, 8}"
    and f: "addr_step f" and g: "addr_step g"
  shows "\<exists>r' i j. (\<forall>marks. length marks = FW_WORDS \<longrightarrow>
             swatt_block p q d f g buf (r, marks) = Some (r', marks[i := 1, j := 1])) \<and>
           regs_ok r' \<and> 64 \<le> i \<and> i < 704 \<and> 64 \<le> j \<and> j < 704 \<and>
           (\<forall>k \<in> kept_regs. r' k = r k)"
proof -
  define i where "i = widx (r p + r d)"
  define r1 where "r1 = f (r(5 := r p + r d, 6 := buf ! i))"
  define j where "j = widx (r1 q + r1 d)"
  define r2 where "r2 = g (r1(5 := r1 q + r1 d, 6 := buf ! j))"
  have ok1: "regs_ok r1" unfolding r1_def using f ok by (simp add: addr_step_def)
  have ok2: "regs_ok r2" unfolding r2_def using g ok1 by (simp add: addr_step_def)
  have ne: "p \<noteq> 5" "q \<noteq> 5" "d \<noteq> 5" using p q d by auto
  have t1: "touch buf m (r p + r d) = Some (buf ! i, m[i := 1])" if "length m = FW_WORDS" for m
    unfolding i_def using regs_ok_base(1) [OF ok p] regs_ok_base(2) [OF ok d] buf that
    by (intro touch_ok) simp_all
  have t2: "touch buf m (r1 q + r1 d) = Some (buf ! j, m[j := 1])" if "length m = FW_WORDS" for m
    unfolding j_def using regs_ok_base(1) [OF ok1 q] regs_ok_base(2) [OF ok1 d] buf that
    by (intro touch_ok) simp_all
  have "swatt_block p q d f g buf (r, m) = Some (r2, m[i := 1, j := 1])" if "length m = FW_WORDS" for m
    using that ne by (simp add: swatt_block_def t1 t2 Let_def r2_def flip: r1_def)
  moreover have "64 \<le> i" "i < 704" unfolding i_def
    using widx_bounds [of "r p" "r d"] regs_ok_base(1) [OF ok p] regs_ok_base(2) [OF ok d]
    by simp_all
  moreover have "64 \<le> j" "j < 704" unfolding j_def
    using widx_bounds [of "r1 q" "r1 d"] regs_ok_base(1) [OF ok1 q] regs_ok_base(2) [OF ok1 d]
    by simp_all
  moreover have "\<forall>k \<in> kept_regs. r2 k = r k"
    using f g by (auto simp: addr_step_def r2_def r1_def)
  ultimately show ?thesis using ok2 by (intro exI [of _ r2] exI [of _ i] exI [of _ j]) simp
qed

lemma gen_block0_shape:
  "gen_block0 buf (r, marks, icount) =
     Option.bind (swatt_block 10 9 7
       (\<lambda>r. let r = r(5 := r 6 XOR r 5); r = r(11 := r 26 XOR r 5); r = r(7 := r 11 AND ADDR_MASK) in r)
       (\<lambda>r. let r = r(5 := r 6 XOR r 5); r = r(2 := r 27 XOR r 5); r = r(3 := r 2 + r 2); r = r(7 := r 3 AND ADDR_MASK); r = r(5 := r 3 AND JUMP_MASK); r = r(9 := r 9 XOR r 5) in r)
       buf (r, marks)) (\<lambda>b. block_end (0x8c00 + 16 * 4 + 8 - 8) (fst b, snd b, icount))"
  by (simp add: gen_block0_def swatt_block_def case_prod_unfold Let_def)

lemma gen_block1_shape:
  "gen_block1 buf (r, marks, icount) =
     Option.bind (swatt_block 9 10 8
       (\<lambda>r. let r = r(5 := r 6 + r 5); r = r(11 := r 2 + r 5); r = r(8 := r 11 AND ADDR_MASK) in r)
       (\<lambda>r. let r = r(5 := r 6 + r 5); r = r(12 := r 2 + r 5); r = r(13 := r 11 XOR r 12); r = r(8 := r 13 AND ADDR_MASK); r = r(5 := r 13 AND JUMP_MASK); r = r(9 := r 9 XOR r 5) in r)
       buf (r, marks)) (\<lambda>b. block_end (0x8c00 + 32 * 4 + 8 - 8) (fst b, snd b, icount))"
  by (simp add: gen_block1_def swatt_block_def case_prod_unfold Let_def)

lemma gen_block2_shape:
  "gen_block2 buf (r, marks, icount) =
     Option.bind (swatt_block 10 9 7
       (\<lambda>r. let r = r(5 := r 6 XOR r 5); r = r(14 := r 11 XOR r 5); r = r(7 := r 14 AND ADDR_MASK) in r)
       (\<lambda>r. let r = r(5 := r 6 XOR r 5); r = r(15 := r 2 XOR r 5); r = r(16 := r 3 + r 15); r = r(7 := r 16 AND ADDR_MASK); r = r(5 := r 16 AND JUMP_MASK); r = r(9 := r 9 XOR r 5) in r)
       buf (r, marks)) (\<lambda>b. block_end (0x8c00 + 16 * 4 * 3 + 8 - 8) (fst b, snd b, icount))"
  by (simp add: gen_block2_def swatt_block_def case_prod_unfold Let_def)

lemma gen_block3_shape:
  "gen_block3 buf (r, marks, icount) =
     Option.bind (swatt_block 9 10 8
       (\<lambda>r. let r = r(5 := r 6 + r 5); r = r(17 := r 11 + r 5); r = r(8 := r 17 AND ADDR_MASK) in r)
       (\<lambda>r. let r = r(5 := r 5 + r 6); r = r(18 := r 12 + r 5); r = r(19 := r 13 XOR r 18); r = r(8 := r 19 AND ADDR_MASK); r = r(5 := r 19 AND JUMP_MASK); r = r(9 := r 9 XOR r 5) in r)
       buf (r, marks)) (\<lambda>b. block_end (0x8c00 + 16 * 4 * 4 + 8 - 8) (fst b, snd b, icount))"
  by (simp add: gen_block3_def swatt_block_def case_prod_unfold Let_def)

lemma gen_block4_shape:
  "gen_block4 buf (r, marks, icount) =
     Option.bind (swatt_block 10 9 7
       (\<lambda>r. let r = r(5 := r 6 XOR r 5); r = r(20 := r 14 XOR r 5); r = r(7 := r 20 AND ADDR_MASK) in r)
       (\<lambda>r. let r = r(5 := r 6 XOR r 5); r = r(21 := r 15 XOR r 5); r = r(22 := r 26 + r 21); r = r(7 := r 22 AND ADDR_MASK); r = r(5 := r 22 AND JUMP_MASK); r = r(9 := r 9 XOR r 5) in r)
       buf (r, marks)) (\<lambda>b. block_end (0x8c00 + 16 * 4 * 5 + 8 - 8) (fst b, snd b, icount))"
  by (simp add: gen_block4_def swatt_block_def case_prod_unfold Let_def)

lemma gen_block5_shape:
  "gen_block5 buf (r, marks, icount) =
     Option.bind (swatt_block 9 10 8
       (\<lambda>r. let r = r(5 := r 6 + r 5); r = r(23 := r 17 + r 5); r = r(8 := r 23 AND ADDR_MASK) in r)
       (\<lambda>r. let r = r(5 := r 6 + r 5); r = r(24 := r 18 + r 5); r = r(25 := r 19 XOR r 24); r = r(8 := r 25 AND ADDR_MASK); r = r(5 := r 25 AND JUMP_MASK); r = r(9 := r 9 XOR r 5) in r)
       buf (r, marks)) (\<lambda>b. block_end (0x8c00 + 16 * 4 * 6 + 8 - 8) (fst b, snd b, icount))"
  by (simp add: gen_block5_def swatt_block_def case_prod_unfold Let_def)

lemma gen_block6_shape:
  "gen_block6 buf (r, marks, icount) =
     Option.bind (swatt_block 10 9 7
       (\<lambda>r. let r = r(5 := r 6 XOR r 5); r = r(26 := r 20 XOR r 5); r = r(7 := r 26 AND ADDR_MASK) in r)
       (\<lambda>r. let r = r(5 := r 6 XOR r 5); r = r(27 := r 21 XOR r 5); r = r(28 := r 22 + r 27); r = r(7 := r 28 AND ADDR_MASK); r = r(5 := r 28 AND JUMP_MASK); r = r(9 := r 9 XOR r 5) in r)
       buf (r, marks)) (\<lambda>b. block_end (0x8c00 + 16 * 4 * 7 + 8 - 8) (fst b, snd b, icount))"
  by (simp add: gen_block6_def swatt_block_def case_prod_unfold Let_def)

lemma gen_block7_shape:
  "gen_block7 buf (r, marks, icount) =
     Option.bind (swatt_block 9 10 8
       (\<lambda>r. let r = r(5 := r 6 + r 5); r = r(2 := r 23 + r 5); r = r(8 := r 2 AND ADDR_MASK) in r)
       (\<lambda>r. let r = r(5 := r 6 + r 5); r = r(3 := r 24 + r 5); r = r(11 := r 25 XOR r 3); r = r(8 := r 11 AND ADDR_MASK); r = r(5 := r 11 AND JUMP_MASK); r = r(9 := r 9 XOR r 5); r = r(10 := 0x8c00 + 16 * 4 * 8 + 8 - 8) in r)
       buf (r, marks)) (\<lambda>b. block7_end (fst b, snd b, icount))"
  by (simp add: gen_block7_def swatt_block_def case_prod_unfold Let_def)

lemmas gen_block_shapes = gen_block0_shape gen_block1_shape gen_block2_shape gen_block3_shape
  gen_block4_shape gen_block5_shape gen_block6_shape gen_block7_shape

lemma block_end_next:
  "l \<noteq> Block7 \<Longrightarrow> block_end ret (r, marks, icount) =
     Some (fst (blk_next l icount), (\<lambda>r. if icount + 1 \<ge> I_NUM then r else r(10 := ret)) r, marks,
       snd (blk_next l icount))"
  by (simp add: block_end_def blk_next_def Let_def)

lemma block7_end_next:
  "block7_end (r, marks, icount) =
     Some (fst (blk_next Block7 icount), (\<lambda>r. r) r, marks, snd (blk_next Block7 icount))"
  by (simp add: block7_end_def blk_next_def)

text \<open>Block \<open>l\<close> of the source runs to its end and behaves as \<^const>\<open>blk_result\<close> says.\<close>

definition block_runs ::
  "(label \<Rightarrow> u32 list \<Rightarrow> blk \<Rightarrow> (label \<times> blk) option) \<Rightarrow> label \<Rightarrow> u32 list \<Rightarrow> regs \<Rightarrow> u32 \<Rightarrow> bool" where
  "block_runs h l buf r icount \<longleftrightarrow>
     (\<exists>r' i j. blk_result h l buf r icount r' i j \<and> regs_ok r' \<and>
        64 \<le> i \<and> i < 704 \<and> 64 \<le> j \<and> j < 704 \<and> (\<forall>k \<in> kept_regs. r' k = r k))"

lemma shape_runs:
  assumes shape: "\<And>marks. h l buf (r, marks, icount) =
      Option.bind (swatt_block p q d f g buf (r, marks)) (\<lambda>b. fin (fst b, snd b, icount))"
    and fin: "\<And>r marks. fin (r, marks, icount) =
      Some (fst (blk_next l icount), e r, marks, snd (blk_next l icount))"
    and steps: "addr_step f" "addr_step g" "addr_step e"
    and p: "p \<in> {9, 10}" and q: "q \<in> {9, 10}" and d: "d \<in> {7, 8}"
    and ok: "regs_ok r" and buf: "length buf = FW_WORDS"
  shows "block_runs h l buf r icount"
proof -
  from swatt_block_result [OF ok buf p q d steps(1,2)] obtain r1 i j where r1:
    "\<And>marks. length marks = FW_WORDS \<Longrightarrow>
       swatt_block p q d f g buf (r, marks) = Some (r1, marks[i := 1, j := 1])"
    "regs_ok r1" "64 \<le> i" "i < 704" "64 \<le> j" "j < 704" "\<forall>k \<in> kept_regs. r1 k = r k"
    by blast
  have "blk_result h l buf r icount (e r1) i j"
    unfolding blk_result_def by (simp add: shape r1(1) fin)
  moreover have "regs_ok (e r1)" "\<forall>k \<in> kept_regs. e r1 k = r k"
    using r1(2,7) steps(3) by (auto simp: addr_step_def)
  ultimately show ?thesis unfolding block_runs_def using r1(3-6) by blast
qed

lemmas shape_simps = addr_step_def regs_ok_def Let_def

lemma gen_block_runs:
  assumes "l \<in> blocks" and "regs_ok r" and "length buf = FW_WORDS"
  shows "block_runs gen_block l buf r icount"
proof -
  note runs = shape_runs [where h = gen_block, OF trans [OF _ gen_block0_shape] block_end_next]
    shape_runs [where h = gen_block, OF trans [OF _ gen_block1_shape] block_end_next]
    shape_runs [where h = gen_block, OF trans [OF _ gen_block2_shape] block_end_next]
    shape_runs [where h = gen_block, OF trans [OF _ gen_block3_shape] block_end_next]
    shape_runs [where h = gen_block, OF trans [OF _ gen_block4_shape] block_end_next]
    shape_runs [where h = gen_block, OF trans [OF _ gen_block5_shape] block_end_next]
    shape_runs [where h = gen_block, OF trans [OF _ gen_block6_shape] block_end_next]
    shape_runs [where h = gen_block, OF trans [OF _ gen_block7_shape] block7_end_next]
  consider "l = Block0" | "l = Block1" | "l = Block2" | "l = Block3" | "l = Block4" | "l = Block5"
    | "l = Block6" | "l = Block7" using assms(1) by blast
  then show ?thesis
    using assms(2,3)
    by cases (simp_all only:,
      (rule runs(1), simp_all add: gen_block_def, simp_all add: shape_simps),
      (rule runs(2), simp_all add: gen_block_def, simp_all add: shape_simps),
      (rule runs(3), simp_all add: gen_block_def, simp_all add: shape_simps),
      (rule runs(4), simp_all add: gen_block_def, simp_all add: shape_simps),
      (rule runs(5), simp_all add: gen_block_def, simp_all add: shape_simps),
      (rule runs(6), simp_all add: gen_block_def, simp_all add: shape_simps),
      (rule runs(7), simp_all add: gen_block_def, simp_all add: shape_simps),
      (rule runs(8), simp_all add: gen_block_def, simp_all add: shape_simps))
qed

section \<open>The interface of the control flow to the blocks\<close>

locale swatt_blocks =
  fixes blk :: "label \<Rightarrow> u32 list \<Rightarrow> blk \<Rightarrow> (label \<times> blk) option"
    and table :: "u32 \<Rightarrow> label"
  assumes table_block: "jt_ok w \<Longrightarrow> table w \<in> blocks"
    and blk_runs: "l \<in> blocks \<Longrightarrow> regs_ok r \<Longrightarrow> length buf = FW_WORDS \<Longrightarrow> block_runs blk l buf r icount"
    and blk_scratch: "l \<in> blocks \<Longrightarrow> scratch_eq r1 r2 \<Longrightarrow>
      blk l buf (r1, marks, icount) = blk l buf (r2, marks, icount)"

text \<open>
  The blocks of one nonce: from the jump table until a block goes to \<open>__checksum_end\<close>. At most
  \<open>I_NUM\<close> blocks are run.
\<close>

fun run_blocks ::
  "(label \<Rightarrow> u32 list \<Rightarrow> blk \<Rightarrow> (label \<times> blk) option) \<Rightarrow> (u32 \<Rightarrow> label) \<Rightarrow> nat \<Rightarrow> u32 list \<Rightarrow> blk \<Rightarrow>
   blk option" where
  "run_blocks f tab 0 buf b = None"
| "run_blocks f tab (Suc n) buf (r, marks, icount) = do {
     (l, b) \<leftarrow> f (tab (r 9)) buf (r, marks, icount);
     if l = Jump_table then run_blocks f tab n buf b else Some b
   }"

lemma run_blocks_numeral:
  "run_blocks f tab (numeral k) buf (r, marks, icount) = do {
     (l, b) \<leftarrow> f (tab (r 9)) buf (r, marks, icount);
     if l = Jump_table then run_blocks f tab (pred_numeral k) buf b else Some b
   }"
  by (simp add: numeral_eq_Suc)

definition mark_all :: "nat list \<Rightarrow> u32 list \<Rightarrow> u32 list" where
  "mark_all is marks = fold (\<lambda>i m. m[i := 1]) is marks"

lemma length_mark_all [simp]: "length (mark_all is marks) = length marks"
  unfolding mark_all_def by (induction "is" arbitrary: marks) auto

lemma mark_all_nth:
  "k < length marks \<Longrightarrow> mark_all is marks ! k = (if k \<in> set is then 1 else marks ! k)"
  unfolding mark_all_def by (induction "is" arbitrary: marks) (auto simp: nth_list_update)

lemma mark_all_append: "mark_all js (mark_all is marks) = mark_all (is @ js) marks"
  by (simp add: mark_all_def)

lemma mark_two: "marks[i := 1, j := 1] = mark_all [i, j] marks"
  by (simp add: mark_all_def)

text \<open>
  At label \<open>l\<close> of a round with the result \<open>whole\<close>: what is still to run gives that result.
\<close>

definition round_at ::
  "(label \<Rightarrow> u32 list \<Rightarrow> blk \<Rightarrow> (label \<times> blk) option) \<Rightarrow> (u32 \<Rightarrow> label) \<Rightarrow> u32 list \<Rightarrow> blk option \<Rightarrow> label \<Rightarrow>
   blk \<Rightarrow> bool" where
  "round_at f tab buf whole l = (\<lambda>(r, marks, icount).
     if l = Checksum_end then whole = Some (r, marks, icount)
     else icount < 4 \<and> regs_ok r \<and> length marks = FW_WORDS \<and>
          whole = run_blocks f tab (4 - unat icount) buf (r, marks, icount) \<and>
          (l \<noteq> Jump_table \<longrightarrow> l = tab (r 9)))"

text \<open>The distance of a label from the end of its round.\<close>

definition label_rank :: "label \<Rightarrow> u32 \<Rightarrow> nat" where
  "label_rank l icount =
     (case l of
        Return \<Rightarrow> 0
      | Checksum_end \<Rightarrow> 1
      | Jump_table \<Rightarrow> 3 + 2 * (4 - unat icount)
      | _ \<Rightarrow> 2 + 2 * (4 - unat icount))"

lemma label_rank_block: "l \<in> blocks \<Longrightarrow> label_rank l icount = 2 + 2 * (4 - unat icount)"
  by (auto simp: label_rank_def)

context swatt_blocks
begin

text \<open>A round of blocks stays in the image, and its registers do not depend on the marks.\<close>

lemma run_blocks_total:
  assumes "regs_ok r" and "length buf = FW_WORDS" and "icount < 4" and "4 \<le> unat icount + n"
  shows "\<exists>r' ic' is. (\<forall>marks. length marks = FW_WORDS \<longrightarrow>
             run_blocks blk table n buf (r, marks, icount) = Some (r', mark_all is marks, ic')) \<and>
           regs_ok r' \<and> ic' \<le> 5 \<and> is \<noteq> [] \<and> set is \<subseteq> {64..<704} \<and> (\<forall>k \<in> kept_regs. r' k = r k)"
  using assms
proof (induction n arbitrary: r icount)
  case 0
  then show ?case by (simp add: word_less_nat_alt)
next
  case (Suc n)
  define l where "l = table (r 9)"
  have l: "l \<in> blocks" using Suc.prems(1) unfolding l_def by (intro table_block) (simp add: regs_ok_def)
  with Suc.prems obtain r1 i j where r1: "blk_result blk l buf r icount r1 i j" "regs_ok r1"
    "64 \<le> i" "i < 704" "64 \<le> j" "j < 704" "\<forall>k \<in> kept_regs. r1 k = r k"
    using blk_runs [of l r buf icount] by (auto simp: block_runs_def)
  have b: "blk l buf (r, marks, icount) =
      Some (fst (blk_next l icount), r1, mark_all [i, j] marks, snd (blk_next l icount))"
    if "length marks = FW_WORDS" for marks
    using r1(1) that unfolding blk_result_def mark_two by blast
  have ic: "unat (icount + 1) = unat icount + 1" "icount + 1 \<le> 5"
    using Suc.prems(3) by (auto simp: word_less_nat_alt word_le_nat_alt unat_word_ariths)
  show ?case
  proof (cases "fst (blk_next l icount) = Jump_table")
    case True
    then have n: "snd (blk_next l icount) = icount + 1" "icount + 1 < 4"
      by (auto simp: blk_next_def split: if_splits)
    moreover have "4 \<le> unat (icount + 1) + n" using Suc.prems(4) ic by simp
    ultimately obtain r' ic' ks where
      "\<And>marks. length marks = FW_WORDS \<Longrightarrow>
         run_blocks blk table n buf (r1, marks, icount + 1) = Some (r', mark_all ks marks, ic')"
      "regs_ok r'" "ic' \<le> 5" "set ks \<subseteq> {64..<704}" "\<forall>k \<in> kept_regs. r' k = r1 k"
      using Suc.IH [of r1 "icount + 1"] r1(2) Suc.prems(2) by blast
    with True n b r1 show ?thesis
      by (intro exI [of _ r'] exI [of _ ic'] exI [of _ "[i, j] @ ks"])
        (auto simp: l_def [symmetric] mark_all_append)
  next
    case False
    then have "snd (blk_next l icount) \<le> 5" using ic by (auto simp: blk_next_def)
    with False b r1 show ?thesis
      by (intro exI [of _ r1] exI [of _ "snd (blk_next l icount)"] exI [of _ "[i, j]"])
        (auto simp: l_def [symmetric])
  qed
qed

lemma run_blocks_scratch:
  assumes "scratch_eq r1 r2" and "regs_ok r1"
  shows "run_blocks blk table n buf (r1, marks, icount) = run_blocks blk table n buf (r2, marks, icount)"
proof (cases n)
  case (Suc m)
  from assms(1) have "r1 9 = r2 9" by (simp add: scratch_eq_def)
  moreover have "table (r1 9) \<in> blocks"
    using assms(2) by (intro table_block) (simp add: regs_ok_def)
  ultimately show ?thesis
    using Suc blk_scratch [OF _ assms(1)] by simp
qed simp

lemma round_at_jump:
  assumes "round_at blk table buf whole Jump_table (r, marks, icount)"
  shows "table (r 9) \<in> blocks" and "round_at blk table buf whole (table (r 9)) (r, marks, icount)"
proof -
  from assms have "jt_ok (r 9)" by (simp add: round_at_def regs_ok_def)
  then show "table (r 9) \<in> blocks" by (rule table_block)
  then have "table (r 9) \<noteq> Checksum_end" by auto
  with assms show "round_at blk table buf whole (table (r 9)) (r, marks, icount)"
    by (simp add: round_at_def)
qed

lemma round_at_block:
  assumes at: "round_at blk table buf whole l (r, marks, icount)" and l: "l \<in> blocks"
    and buf: "length buf = FW_WORDS"
  shows "\<exists>l' r' marks' ic'. blk l buf (r, marks, icount) = Some (l', r', marks', ic') \<and>
           round_at blk table buf whole l' (r', marks', ic') \<and>
           (l' = Jump_table \<and> unat ic' = unat icount + 1 \<and> ic' < 4 \<or> l' = Checksum_end)"
proof -
  have "l \<noteq> Checksum_end" "l \<noteq> Jump_table" using l by auto
  with at have at': "icount < 4" "regs_ok r" "length marks = FW_WORDS"
      "whole = run_blocks blk table (4 - unat icount) buf (r, marks, icount)" "l = table (r 9)"
    by (simp_all add: round_at_def)
  obtain r' i j where r': "blk_result blk l buf r icount r' i j" "regs_ok r'"
    using blk_runs [OF l at'(2) buf, of icount] by (auto simp: block_runs_def)
  let ?l' = "fst (blk_next l icount)" and ?ic = "snd (blk_next l icount)"
  have blk: "blk l buf (r, marks, icount) = Some (?l', r', marks[i := 1, j := 1], ?ic)"
    using r'(1) at'(3) by (simp add: blk_result_def)
  have ic: "unat (icount + 1) = unat icount + 1"
    using at'(1) by (simp add: word_less_nat_alt unat_word_ariths)
  obtain n where n: "4 - unat icount = Suc n" and n': "n = 3 - unat icount"
    using at'(1) by (cases "4 - unat icount") (auto simp: word_less_nat_alt)
  have "whole = (if ?l' = Jump_table then run_blocks blk table n buf (r', marks[i := 1, j := 1], ?ic)
      else Some (r', marks[i := 1, j := 1], ?ic))"
    using blk by (simp add: at'(4) n flip: at'(5))
  moreover have nxt: "?l' = Jump_table \<and> ?ic = icount + 1 \<and> icount + 1 < 4 \<or> ?l' = Checksum_end"
    by (auto simp: blk_next_def split: if_splits)
  ultimately have "round_at blk table buf whole ?l' (r', marks[i := 1, j := 1], ?ic)"
    using r'(2) at'(3) ic by (auto simp: round_at_def n')
  with blk nxt ic show ?thesis by auto
qed

end

section \<open>Both copies provide the interface\<close>

lemma gen_jump_table_block: "jt_ok w \<Longrightarrow> gen_jump_table w \<in> blocks"
  using jt_ok_cases [of w] by (auto simp: gen_jump_table_def)

lemma swatt_block_scratch:
  assumes "scratch_eq r1 r2" and "p \<notin> {5, 6}" and "d \<notin> {5, 6}"
  shows "swatt_block p q d f g buf (r1, marks) = swatt_block p q d f g buf (r2, marks)"
proof -
  have "r1(5 := a, 6 := v) = r2(5 := a, 6 := v)" for a v
    using assms(1) by (auto simp: scratch_eq_def)
  moreover have "r1 p = r2 p" "r1 d = r2 d" using assms by (auto simp: scratch_eq_def)
  ultimately show ?thesis by (simp add: swatt_block_def Let_def)
qed

lemma gen_block_scratch:
  assumes "l \<in> blocks" and "scratch_eq r1 r2"
  shows "gen_block l buf (r1, marks, icount) = gen_block l buf (r2, marks, icount)"
proof -
  note eqs = swatt_block_scratch [OF assms(2), of 9 7] swatt_block_scratch [OF assms(2), of 9 8]
    swatt_block_scratch [OF assms(2), of 10 7] swatt_block_scratch [OF assms(2), of 10 8]
  from assms(1) show ?thesis
    by (elim insertE emptyE; simp only: gen_block_def label.case gen_block_shapes; subst eqs; simp)
qed

lemma chk_block_gen: "chk_block l buf b = gen_block l buf b"
  by (cases l) (simp_all only: chk_block_def gen_block_def label.case chk_block_defs gen_block_defs)

lemma chk_jump_table_gen: "chk_jump_table = gen_jump_table"
  unfolding chk_jump_table_def gen_jump_table_def ..

interpretation gen: swatt_blocks gen_block gen_jump_table
  by unfold_locales (rule gen_jump_table_block gen_block_runs gen_block_scratch; assumption)+

interpretation chk: swatt_blocks chk_block chk_jump_table
proof unfold_locales
  show "chk_jump_table w \<in> blocks" if "jt_ok w" for w
    using that by (simp only: chk_jump_table_gen gen_jump_table_block)
  show "block_runs chk_block l buf r icount"
    if "l \<in> blocks" "regs_ok r" "length buf = FW_WORDS" for l r buf icount
    using gen_block_runs [OF that]
    by (simp only: block_runs_def blk_result_def chk_block_gen)
  show "chk_block l buf (r1, marks, icount) = chk_block l buf (r2, marks, icount)"
    if "l \<in> blocks" "scratch_eq r1 r2" for l r1 r2 buf marks icount
    using gen_block_scratch [OF that] by (simp only: chk_block_gen)
qed

end
