(* ===== verification/Viper_Nonce.thy ===== *)
theory Viper_Nonce
  imports Viper_Blocks
begin

text \<open>
  \<open>generate_nonce\<close> of \<open>code/app/viper/simulator.c\<close>: the search for a pool of nonces that make
  the checksum code read new words of the firmware. The function is one \<open>goto\<close> program; each
  label is a case of \<open>gen_step\<close>, and \<open>goto_run\<close> runs it to \<open>__return\<close>.

  The lemmas show that the search always returns, never leaves an array, keeps at most
  \<open>NONCE_COUNT\<close> nonces, covers at least one new word with each of them, can never cover the last
  two words of the range it counts (so the branch that reports a full pool is dead), and that its
  pool can be replayed from the initial registers by a run that sees only the pool.
\<close>

section \<open>The function\<close>

record gen = sim +
  gen_nonce :: u32
  gen_count :: u32
  gen_icount :: u32
  gen_inonce :: u32

definition gen_init_regs :: "regs \<Rightarrow> regs" where
  "gen_init_regs r = (let r = r(2 := 0x2023, 3 := 0x2084, 11 := 0x33f0, 12 := 0x33f1, 13 := 0x33f2,
       14 := 0x33f3, 15 := 0x33f4, 16 := 0x33f5, 17 := 0x33f6, 18 := 0x33f7, 19 := 0x33f8,
       20 := 0x33f9, 21 := 0x33fa, 22 := 0x33fb, 23 := 0x33fc, 24 := 0x33fd, 25 := 0x33fe,
       26 := 0x33ff, 27 := 0x33f0, 28 := 0x33f1);
     r = r(7 := 0x33f2, 8 := 0x33f3);
     r = r(7 := r 7 AND ADDR_MASK);
     r = r(8 := r 8 AND ADDR_MASK)
   in r(9 := 0x8c00, 10 := 0x8c00, 31 := 0xbffe4c))"

text \<open>Four random bytes, read as a 32-bit integer on a little-endian host.\<close>

definition gen_random_nonce :: "rand_state \<Rightarrow> (u32 \<times> rand_state) option" where
  "gen_random_nonce g = do {
     (b0, g) \<leftarrow> random_byte g;
     (b1, g) \<leftarrow> random_byte g;
     (b2, g) \<leftarrow> random_byte g;
     (b3, g) \<leftarrow> random_byte g;
     Some (le32_of_bytes b0 b1 b2 b3, g)
   }"

text \<open>The registers a new nonce sets.\<close>

definition gen_load_nonce :: "u32 \<Rightarrow> regs \<Rightarrow> regs" where
  "gen_load_nonce nonce r = (let r = r(7 := drop_bit 16 nonce AND ADDR_MASK);
     r = r(8 := nonce AND ADDR_MASK)
   in r(9 := r 9 XOR (nonce AND JUMP_MASK)))"

text \<open>
  \<open>__checksum_end\<close> up to the end of the round's bookkeeping. The result says whether the code
  goes to \<open>__return\<close> because no word is left.
\<close>

definition gen_accept :: "gen \<Rightarrow> (bool \<times> gen) option" where
  "gen_accept s =
     (if gen_icount s = I_NUM then
        let inew = mms_updated s; ileft = mms_left s in
        if gen_inonce s \<ge> NONCE_FULL then
          if inew \<ge> 1 then do {
            let s = copy_mms2mm s;
            let s = save_regs s;
            pool \<leftarrow> arr_set (g_nonce_pool s) (unat (gen_inonce s)) (gen_nonce s);
            let s = s\<lparr>g_nonce_pool := pool, gen_inonce := gen_inonce s + 1\<rparr>;
            if ileft = 0 then Some (True, s) else Some (False, copy_mm2mms s)
          }
          else Some (False, copy_mm2mms (restore_regs s))
        else do {
          let s = copy_mms2mm s;
          let s = save_regs s;
          pool \<leftarrow> arr_set (g_nonce_pool s) (unat (gen_inonce s)) (gen_nonce s);
          Some (False, s\<lparr>g_nonce_pool := pool, gen_inonce := gen_inonce s + 1\<rparr>)
        }
      else Some (False, restore_regs (copy_mm2mms s)))"

definition gen_checksum_end :: "gen \<Rightarrow> (label \<times> gen) option" where
  "gen_checksum_end s = do {
     (full, s) \<leftarrow> gen_accept s;
     if full then Some (Return, s)
     else do {
       let s = s\<lparr>gen_icount := 0\<rparr>;
       let s = s\<lparr>gen_count := gen_count s + 1\<rparr>;
       if gen_inonce s \<ge> NONCE_COUNT \<or> gen_count s \<ge> LOOP_COUNT then Some (Return, s)
       else do {
         (nonce, g) \<leftarrow> gen_random_nonce (g_rand s);
         let s = s\<lparr>g_rand := g, gen_nonce := nonce\<rparr>;
         Some (Jump_table, s\<lparr>g_reg := gen_load_nonce nonce (g_reg s)\<rparr>)
       }
     }
   }"

definition gen_step :: "label \<Rightarrow> gen \<Rightarrow> (label \<times> gen) option" where
  "gen_step l s =
     (case l of
        Jump_table \<Rightarrow> Some (gen_jump_table (g_reg s 9), s)
      | Checksum_end \<Rightarrow> gen_checksum_end s
      | Return \<Rightarrow> Some (Return, s)
      | _ \<Rightarrow> do {
          (l, r, mms, icount) \<leftarrow> gen_block l (g_swatt_buf s) (g_reg s, g_mm_s s, gen_icount s);
          Some (l, s\<lparr>g_reg := r, g_mm_s := mms, gen_icount := icount\<rparr>)
        })"

abbreviation gen_final :: "label \<Rightarrow> bool" where
  "gen_final l \<equiv> l = Return"

definition gen_start :: "sim \<Rightarrow> gen" where
  "gen_start s = save_regs (sim.extend (s\<lparr>g_reg := gen_init_regs (g_reg s)\<rparr>)
     \<lparr>gen_nonce = 0x33f233f3, gen_count = 0, gen_icount = 0, gen_inonce = 0\<rparr>)"

definition generate_nonce :: "sim \<Rightarrow> sim option" where
  "generate_nonce s = do {
     s \<leftarrow> goto_run gen_step gen_final Block0 (gen_start s);
     Some (sim.truncate (s\<lparr>g_nonce_count := gen_inonce s\<rparr>))
   }"

section \<open>Replaying a pool\<close>

text \<open>
  The registers after the blocks of one nonce, when the round is accepted: its fourth block is
  block 7.
\<close>

definition swatt_round :: "u32 list \<Rightarrow> regs \<Rightarrow> regs option" where
  "swatt_round buf r =
     (case run_blocks gen_block gen_jump_table 4 buf (r, replicate FW_WORDS 0, 0) of
        Some (r, _, icount) \<Rightarrow> if icount = I_NUM then Some r else None
      | None \<Rightarrow> None)"

text \<open>The registers after a list of nonces, each of which is accepted.\<close>

fun replay :: "u32 list \<Rightarrow> regs \<Rightarrow> u32 list \<Rightarrow> regs option" where
  "replay buf r [] = Some r"
| "replay buf r (n # ns) = Option.bind (swatt_round buf (gen_load_nonce n r)) (\<lambda>r. replay buf r ns)"

lemma replay_append: "replay buf r (ns @ ms) = Option.bind (replay buf r ns) (\<lambda>r. replay buf r ms)"
  by (induction ns arbitrary: r) (auto split: Option.bind_splits)

lemma and_mask_le: "(x :: u32) AND ADDR_MASK \<le> ADDR_MASK"
  using unat_and_le [of x ADDR_MASK] by (simp add: word_le_nat_alt)

lemma regs_ok_load_nonce: "regs_ok r \<Longrightarrow> regs_ok (gen_load_nonce n r)"
  by (simp add: regs_ok_def gen_load_nonce_def and_mask_le)

lemma load_nonce_frame: "k \<notin> {7, 8, 9} \<Longrightarrow> gen_load_nonce n r k = r k"
  by (simp add: gen_load_nonce_def)

lemma regs_ok_init: "regs_ok (gen_init_regs r)"
  by (simp add: regs_ok_def gen_init_regs_def jt_ok_def and_mask_le)

lemma round_result:
  assumes "regs_ok r" and "length buf = FW_WORDS"
  shows "\<exists>r' is ic. regs_ok r' \<and> is \<noteq> [] \<and> set is \<subseteq> {64..<704} \<and> (\<forall>k \<in> kept_regs. r' k = r k) \<and>
      (\<forall>marks. length marks = FW_WORDS \<longrightarrow>
         run_blocks gen_block gen_jump_table 4 buf (r, marks, 0) = Some (r', mark_all is marks, ic)) \<and>
      swatt_round buf r = (if ic = I_NUM then Some r' else None)"
proof -
  obtain r' ic "is" where res: "\<And>marks. length marks = FW_WORDS \<Longrightarrow>
        run_blocks gen_block gen_jump_table 4 buf (r, marks, 0) = Some (r', mark_all is marks, ic)"
      "regs_ok r'" "is \<noteq> []" "set is \<subseteq> {64..<704}" "\<forall>k \<in> kept_regs. r' k = r k"
    using gen.run_blocks_total [OF assms, of 0 4] by auto
  then show ?thesis
    by (intro exI [of _ r'] exI [of _ "is"] exI [of _ ic])
      (simp add: swatt_round_def del: replicate.simps)
qed

section \<open>The invariant of the search\<close>

text \<open>The registers a round starts from; the first round does not load its nonce.\<close>

definition gen_entry :: "gen \<Rightarrow> regs" where
  "gen_entry s = (if gen_count s = 0 then g_reg_state s else gen_load_nonce (gen_nonce s) (g_reg_state s))"

definition gen_whole :: "gen \<Rightarrow> blk option" where
  "gen_whole s = run_blocks gen_block gen_jump_table 4 (g_swatt_buf s) (gen_entry s, g_mm s, 0)"

definition gen_at :: "label \<Rightarrow> gen \<Rightarrow> bool" where
  "gen_at l s =
     (if l = Return then g_reg s = g_reg_state s \<and> g_mm_s s = g_mm s \<and> gen_count s \<noteq> 0
      else round_at gen_block gen_jump_table (g_swatt_buf s) (gen_whole s) l (g_reg s, g_mm_s s, gen_icount s))"

definition gen_core :: "u32 list \<Rightarrow> regs \<Rightarrow> gen \<Rightarrow> bool" where
  "gen_core buf r0 s \<longleftrightarrow>
     g_swatt_buf s = buf \<and> length buf = FW_WORDS \<and> length (g_mm s) = FW_WORDS \<and>
     length (g_nonce_pool s) = NONCE_NUM \<and> length (g_swatt_buf_s s) = FW_WORDS \<and>
     length (g_checksum s) = NONCE_NUM \<and> (\<forall>k \<in> kept_regs. g_reg_state s k = r0 k) \<and> regs_ok (g_reg_state s) \<and> rand_wf (g_rand s) \<and>
     g_mm s ! 704 = 0 \<and> g_mm s ! 705 = 0 \<and> gen_inonce s \<le> 300 \<and>
     unat (gen_inonce s) + unat (mm_left s) \<le> 642 \<and>
     (swatt_round buf r0 = None \<longrightarrow>
        replay buf r0 (take (unat (gen_inonce s)) (g_nonce_pool s)) = Some (g_reg_state s))"

text \<open>An image whose first round is accepted has the initial nonce at the front of its pool.\<close>

definition gen_seed :: "u32 list \<Rightarrow> regs \<Rightarrow> gen \<Rightarrow> bool" where
  "gen_seed buf r0 s \<longleftrightarrow>
     (gen_count s = 0 \<longrightarrow> gen_inonce s = 0 \<and> g_reg_state s = r0 \<and> gen_nonce s = 0x33f233f3 \<and>
        g_mm s = replicate FW_WORDS 0) \<and>
     (swatt_round buf r0 \<noteq> None \<longrightarrow> gen_count s \<noteq> 0 \<longrightarrow>
        gen_inonce s \<noteq> 0 \<and> g_nonce_pool s ! 0 = 0x33f233f3)"

definition gen_inv :: "u32 list \<Rightarrow> regs \<Rightarrow> label \<Rightarrow> gen \<Rightarrow> bool" where
  "gen_inv buf r0 l s \<longleftrightarrow> gen_core buf r0 s \<and> gen_at l s \<and> gen_seed buf r0 s \<and>
     (l \<noteq> Return \<longrightarrow> gen_inonce s < 300 \<and> gen_count s < LOOP_COUNT)"

definition gen_rank :: "label \<Rightarrow> gen \<Rightarrow> nat" where
  "gen_rank l s = (100000 - unat (gen_count s)) * 20 + label_rank l (gen_icount s)"

lemma gen_step_block: "l \<in> blocks \<Longrightarrow> gen_step l s = do {
    (l, r, mms, icount) \<leftarrow> gen_block l (g_swatt_buf s) (g_reg s, g_mm_s s, gen_icount s);
    Some (l, s\<lparr>g_reg := r, g_mm_s := mms, gen_icount := icount\<rparr>) }"
  by (auto simp: gen_step_def)

lemma gen_at_jump:
  assumes "gen_at Jump_table s"
  shows "gen_jump_table (g_reg s 9) \<in> blocks" and "gen_at (gen_jump_table (g_reg s 9)) s"
proof -
  have at: "round_at gen_block gen_jump_table (g_swatt_buf s) (gen_whole s) Jump_table (g_reg s, g_mm_s s, gen_icount s)"
    using assms by (simp add: gen_at_def)
  show l: "gen_jump_table (g_reg s 9) \<in> blocks" using gen.round_at_jump(1) [OF at] .
  then have "gen_jump_table (g_reg s 9) \<noteq> Return" by auto
  with gen.round_at_jump(2) [OF at] show "gen_at (gen_jump_table (g_reg s 9)) s" by (simp add: gen_at_def)
qed

lemma gen_step_jump:
  assumes "gen_inv buf r0 Jump_table s"
  shows "\<exists>l' s'. gen_step Jump_table s = Some (l', s') \<and> gen_inv buf r0 l' s' \<and>
           gen_rank l' s' < gen_rank Jump_table s"
proof -
  let ?l = "gen_jump_table (g_reg s 9)"
  from assms have at: "gen_at Jump_table s" by (simp add: gen_inv_def)
  note l = gen_at_jump(1) [OF at] and at' = gen_at_jump(2) [OF at]
  from l have nr: "?l \<noteq> Return" by auto
  have "gen_rank ?l s < gen_rank Jump_table s"
    by (simp add: gen_rank_def label_rank_block [OF l] label_rank_def [of Jump_table])
  with at' show ?thesis using assms nr by (auto simp: gen_step_def gen_inv_def)
qed

lemma gen_step_in_block:
  assumes inv: "gen_inv buf r0 l s" and l: "l \<in> blocks"
  shows "\<exists>l' s'. gen_step l s = Some (l', s') \<and> gen_inv buf r0 l' s' \<and> gen_rank l' s' < gen_rank l s \<and> l' \<noteq> Return"
proof -
  have nr: "l \<noteq> Return" using l by auto
  with inv have at: "round_at gen_block gen_jump_table (g_swatt_buf s) (gen_whole s) l (g_reg s, g_mm_s s, gen_icount s)"
    and buf: "length (g_swatt_buf s) = FW_WORDS" by (auto simp: gen_inv_def gen_at_def gen_core_def)
  from gen.round_at_block [OF at l buf] obtain l' r' mms' ic' where
    blk: "gen_block l (g_swatt_buf s) (g_reg s, g_mm_s s, gen_icount s) = Some (l', r', mms', ic')"
    and at': "round_at gen_block gen_jump_table (g_swatt_buf s) (gen_whole s) l' (r', mms', ic')"
    and nxt: "l' = Jump_table \<and> unat ic' = unat (gen_icount s) + 1 \<and> ic' < 4 \<or> l' = Checksum_end"
    by blast
  let ?s' = "s\<lparr>g_reg := r', g_mm_s := mms', gen_icount := ic'\<rparr>"
  have "gen_step l s = Some (l', ?s')"
    unfolding gen_step_block [OF l] by (simp add: blk)
  moreover have "gen_at l' ?s'"
    using at' nxt by (auto simp: gen_at_def gen_whole_def gen_entry_def)
  then have "gen_inv buf r0 l' ?s'"
    using inv nr by (simp add: gen_inv_def gen_core_def gen_seed_def mm_left_def)
  moreover have "gen_rank l' ?s' < gen_rank l s"
    using nxt by (auto simp: gen_rank_def label_rank_block [OF l] word_less_nat_alt
        label_rank_def [of Jump_table] label_rank_def [of Checksum_end])
  ultimately show ?thesis using nxt by auto
qed

section \<open>The end of a round\<close>

lemma mm_left_accept:
  assumes "mms_updated s \<ge> 1" and "g_mm_s s = mark_all is (g_mm s)" and "length (g_mm s) = FW_WORDS"
    and "g_mm t = g_mm_s s"
  shows "unat (mm_left t) < unat (mm_left s)"
proof -
  let ?free = "\<lambda>m. {i. cov_start \<le> i \<and> i < cov_end \<and> m ! i = (0 :: u32)}"
  from assms(1) obtain i where i: "cov_start \<le> i" "i < cov_end" "g_mm s ! i = 0" "g_mm_s s ! i = 1"
    by (auto simp: mms_updated_def count_range_ge_1)
  have "g_mm_s s ! k = 0 \<Longrightarrow> g_mm s ! k = 0" if "k < 706" for k
    using that assms(2,3) mark_all_nth [of k "g_mm s" "is"] by (simp split: if_splits)
  then have "?free (g_mm_s s) \<subseteq> ?free (g_mm s)" by (auto simp: cov_bounds)
  moreover have "i \<in> ?free (g_mm s) - ?free (g_mm_s s)" using i by simp
  ultimately have "?free (g_mm_s s) \<subset> ?free (g_mm s)" by blast
  then show ?thesis
    using assms(4) by (simp add: mm_left_def unat_count_range psubset_card_mono)
qed

lemma mms_left_pos:
  assumes "g_mm_s s ! 704 = 0"
  shows "mms_left s \<noteq> 0"
proof -
  have "704 \<in> {i. 64 \<le> i \<and> i < 706 \<and> g_mm_s s ! i = 0}" using assms by simp
  then have "0 < card {i. 64 \<le> i \<and> i < 706 \<and> g_mm_s s ! i = 0}"
    unfolding card_gt_0_iff by fastforce
  then show ?thesis by (auto simp flip: unat_mms_left)
qed

text \<open>The marks and registers at the end of a round.\<close>

lemma gen_at_end:
  assumes "gen_core buf r0 s" and "gen_at Checksum_end s"
  shows "\<exists>is. g_mm_s s = mark_all is (g_mm s) \<and> is \<noteq> [] \<and> set is \<subseteq> {64..<704} \<and> regs_ok (g_reg s) \<and>
           (\<forall>k \<in> kept_regs. g_reg s k = r0 k) \<and>
           swatt_round buf (gen_entry s) = (if gen_icount s = I_NUM then Some (g_reg s) else None)"
proof -
  have "regs_ok (gen_entry s)" "length (g_swatt_buf s) = FW_WORDS" "length (g_mm s) = FW_WORDS"
    "g_swatt_buf s = buf" "\<forall>k \<in> kept_regs. gen_entry s k = r0 k"
    using assms(1) by (auto simp: gen_core_def gen_entry_def regs_ok_load_nonce load_nonce_frame)
  with round_result [of "gen_entry s" buf] obtain r' "is" ic where
    "regs_ok r'" "\<forall>k \<in> kept_regs. r' k = r0 k" "is \<noteq> []" "set is \<subseteq> {64..<704}" "gen_whole s = Some (r', mark_all is (g_mm s), ic)"
    "swatt_round buf (gen_entry s) = (if ic = I_NUM then Some r' else None)"
    by (auto simp: gen_whole_def)
  with assms(2) show ?thesis by (intro exI [of _ "is"]) (auto simp: gen_at_def round_at_def)
qed

definition gen_recorded :: "gen \<Rightarrow> gen" where
  "gen_recorded s = copy_mm2mms (save_regs (copy_mms2mm s)
     \<lparr>g_nonce_pool := (g_nonce_pool s)[unat (gen_inonce s) := gen_nonce s], gen_inonce := gen_inonce s + 1\<rparr>)"

lemma gen_recorded_core:
  assumes inv: "gen_inv buf r0 Checksum_end s" and new: "mms_updated s \<ge> 1" and ic: "gen_icount s = I_NUM"
  shows "gen_core buf r0 (gen_recorded s)"
proof -
  from inv have core: "gen_core buf r0 s" and n: "gen_inonce s < 300"
    and first: "gen_count s = 0 \<Longrightarrow> g_reg_state s = r0" and "gen_at Checksum_end s"
    by (auto simp: gen_inv_def gen_seed_def)
  with gen_at_end [of buf r0 s] ic obtain "is" where i: "g_mm_s s = mark_all is (g_mm s)" "set is \<subseteq> {64..<704}"
      "regs_ok (g_reg s)" "swatt_round buf (gen_entry s) = Some (g_reg s)"
      "\<forall>k \<in> kept_regs. g_reg s k = r0 k" by auto
  let ?t = "gen_recorded s"
  have len: "length (g_mm s) = FW_WORDS" "length (g_nonce_pool s) = NONCE_NUM"
    using core by (auto simp: gen_core_def)
  have un: "unat (gen_inonce s + 1) = Suc (unat (gen_inonce s))" "unat (gen_inonce s) < NONCE_NUM"
    using n by (simp_all add: word_less_nat_alt unat_word_ariths)
  have zero: "g_mm_s s ! k = 0" if "k = 704 \<or> k = 705" for k
    using that core i(2) len(1) by (auto simp: i(1) mark_all_nth gen_core_def)
  have left: "unat (mm_left ?t) < unat (mm_left s)"
    by (rule mm_left_accept [OF new i(1) len(1)])
      (simp add: gen_recorded_def copy_mm2mms_def save_regs_def copy_mms2mm_def)
  have "take (unat (gen_inonce s + 1)) (g_nonce_pool ?t) =
      take (unat (gen_inonce s)) (g_nonce_pool s) @ [gen_nonce s]"
    using un len(2) by (simp add: gen_recorded_def copy_mm2mms_def take_Suc_conv_app_nth)
  moreover have "gen_entry s = gen_load_nonce (gen_nonce s) (g_reg_state s)"
    if "swatt_round buf r0 = None"
    using that first i(4) by (auto simp: gen_entry_def)
  ultimately have "replay buf r0 (take (unat (gen_inonce s + 1)) (g_nonce_pool ?t)) = Some (g_reg s)"
    if "swatt_round buf r0 = None"
    using that core i(4) by (auto simp: gen_core_def replay_append)
  with core left zero un n i show ?thesis
    by (auto simp: gen_core_def gen_recorded_def copy_mm2mms_def save_regs_def copy_mms2mm_def
        word_le_nat_alt word_less_nat_alt)
qed

definition gen_dropped :: "gen \<Rightarrow> gen" where
  "gen_dropped s = copy_mm2mms (restore_regs s)"

lemma gen_end_unmarked:
  assumes "gen_inv buf r0 Checksum_end s"
  shows "g_mm_s s ! 704 = 0"
proof -
  from assms have core: "gen_core buf r0 s" and "gen_at Checksum_end s" by (auto simp: gen_inv_def)
  with gen_at_end obtain "is" where "g_mm_s s = mark_all is (g_mm s)" "set is \<subseteq> {64..<704}" by blast
  with core show ?thesis by (auto simp: gen_core_def mark_all_nth)
qed

text \<open>The round's nonce is recorded if the round ended in block 7 and read a new word.\<close>

lemma gen_accept_result:
  assumes inv: "gen_inv buf r0 Checksum_end s"
  shows "gen_accept s = Some (False,
           if gen_icount s = I_NUM \<and> mms_updated s \<ge> 1 then gen_recorded s else gen_dropped s)"
proof -
  have "unat (gen_inonce s) < length (g_nonce_pool s)"
    using inv by (auto simp: gen_inv_def gen_core_def word_less_nat_alt)
  moreover have "mms_left s \<noteq> 0" by (rule mms_left_pos [OF gen_end_unmarked [OF inv]])
  ultimately show ?thesis
    by (simp add: gen_accept_def gen_recorded_def gen_dropped_def copy_mm2mms_def restore_regs_def
        save_regs_def copy_mms2mm_def arr_set_def)
qed

lemma gen_dropped_core: "gen_core buf r0 s \<Longrightarrow> gen_core buf r0 (gen_dropped s)"
  by (simp add: gen_core_def gen_dropped_def copy_mm2mms_def restore_regs_def mm_left_def)

text \<open>The first round reads only new words, so it is recorded whenever it ends in block 7.\<close>

lemma gen_first_new:
  assumes "gen_inv buf r0 Checksum_end s" and "gen_count s = 0"
  shows "mms_updated s \<ge> 1" and "swatt_round buf r0 \<noteq> None \<longleftrightarrow> gen_icount s = I_NUM"
proof -
  from assms have core: "gen_core buf r0 s" and "gen_at Checksum_end s"
    and zero: "g_mm s = replicate FW_WORDS 0" and entry: "gen_entry s = r0"
    by (auto simp: gen_inv_def gen_seed_def gen_entry_def)
  with gen_at_end [of buf r0 s] obtain "is" where i: "g_mm_s s = mark_all is (g_mm s)" "is \<noteq> []"
      "set is \<subseteq> {64..<704}" "swatt_round buf r0 = (if gen_icount s = I_NUM then Some (g_reg s) else None)"
    by auto
  then obtain k where "k \<in> set is" by (cases "is") auto
  with i have k: "64 \<le> k" "k < 704" by auto
  then have "g_mm s ! k = 0" unfolding zero by (simp only: nth_replicate)
  moreover have "g_mm_s s ! k = 1"
    using k \<open>k \<in> set is\<close> core by (simp add: i(1) mark_all_nth gen_core_def)
  ultimately show "mms_updated s \<ge> 1"
    using k unfolding mms_updated_def count_range_ge_1 cov_bounds by (intro exI [of _ k]) simp
  show "swatt_round buf r0 \<noteq> None \<longleftrightarrow> gen_icount s = I_NUM" using i(4) by simp
qed

lemma gen_seed_end:
  assumes inv: "gen_inv buf r0 Checksum_end s"
    and t: "t = (if gen_icount s = I_NUM \<and> mms_updated s \<ge> 1 then gen_recorded s else gen_dropped s)"
    and u: "gen_inonce u = gen_inonce t" "g_nonce_pool u = g_nonce_pool t" "gen_count u \<noteq> 0"
  shows "gen_seed buf r0 u"
proof (cases "gen_count s = 0")
  case True
  with inv have "gen_inonce s = 0" "gen_nonce s = 0x33f233f3" "length (g_nonce_pool s) = NONCE_NUM"
    by (auto simp: gen_inv_def gen_seed_def gen_core_def)
  then show ?thesis
    using gen_first_new [OF inv True] u t
    by (auto simp: gen_seed_def gen_recorded_def copy_mm2mms_def save_regs_def copy_mms2mm_def)
next
  case False
  have "gen_inonce s + 1 \<noteq> 0" using inv by (auto simp: gen_inv_def word_less_nat_alt unat_word_ariths simp flip: unat_eq_0)
  moreover have "gen_seed buf r0 s" using inv by (simp add: gen_inv_def)
  ultimately show ?thesis
    using False u t unat_eq_zero [of "gen_inonce s"]
    by (auto simp: gen_seed_def gen_recorded_def gen_dropped_def copy_mm2mms_def save_regs_def
        copy_mms2mm_def restore_regs_def)
qed

lemma gen_random_nonce_total:
  assumes "rand_wf g"
  shows "\<exists>n g'. gen_random_nonce g = Some (n, g') \<and> rand_wf g'"
proof -
  from assms obtain b0 g0 where 0: "random_byte g = Some (b0, g0)" "rand_wf g0"
    using random_byte_total by blast
  then obtain b1 g1 where 1: "random_byte g0 = Some (b1, g1)" "rand_wf g1"
    using random_byte_total by blast
  then obtain b2 g2 where 2: "random_byte g1 = Some (b2, g2)" "rand_wf g2"
    using random_byte_total by blast
  then obtain b3 g3 where 3: "random_byte g2 = Some (b3, g3)" "rand_wf g3"
    using random_byte_total by blast
  show ?thesis by (simp add: gen_random_nonce_def 0 1 2 3)
qed

lemma gen_step_end:
  assumes inv: "gen_inv buf r0 Checksum_end s"
  shows "\<exists>l' s'. gen_step Checksum_end s = Some (l', s') \<and> gen_inv buf r0 l' s' \<and>
           gen_rank l' s' < gen_rank Checksum_end s"
proof -
  define t where "t = (if gen_icount s = I_NUM \<and> mms_updated s \<ge> 1 then gen_recorded s else gen_dropped s)"
  define u where "u = t\<lparr>gen_icount := 0, gen_count := gen_count t + 1\<rparr>"
  have "gen_core buf r0 t"
    using inv gen_recorded_core [OF inv] gen_dropped_core by (auto simp: t_def gen_inv_def)
  then have core: "gen_core buf r0 u" by (simp add: u_def gen_core_def mm_left_def)
  have t: "g_reg t = g_reg_state t" "g_mm_s t = g_mm t" "gen_count t = gen_count s"
    by (simp_all add: t_def gen_recorded_def gen_dropped_def copy_mm2mms_def restore_regs_def
        save_regs_def copy_mms2mm_def)
  have cnt: "gen_count s < LOOP_COUNT" using inv by (simp add: gen_inv_def)
  then have cnt': "gen_count u \<noteq> 0" "unat (gen_count u) = unat (gen_count s) + 1"
    by (auto simp: u_def t word_less_nat_alt unat_word_ariths unat_eq_0 [symmetric])
  have rank: "unat (gen_count s) < 100000" using cnt by (simp add: word_less_nat_alt)
  have ne: "gen_checksum_end s = (if gen_inonce u \<ge> NONCE_COUNT \<or> gen_count u \<ge> LOOP_COUNT then Some (Return, u)
      else do { (nonce, g) \<leftarrow> gen_random_nonce (g_rand u);
        Some (Jump_table, u\<lparr>g_rand := g, gen_nonce := nonce, g_reg := gen_load_nonce nonce (g_reg u)\<rparr>) })"
    by (simp add: gen_checksum_end_def gen_accept_result [OF inv] flip: t_def) (simp add: u_def)
  show ?thesis
  proof (cases "gen_inonce u \<ge> NONCE_COUNT \<or> gen_count u \<ge> LOOP_COUNT")
    case True
    have "gen_inv buf r0 Return u"
      using core t gen_seed_end [OF inv t_def, of u] cnt'(1) by (simp add: gen_inv_def gen_at_def u_def)
    moreover have "gen_rank Return u < gen_rank Checksum_end s"
      using cnt'(2) rank by (simp add: gen_rank_def label_rank_def)
    ultimately show ?thesis using ne True by (simp add: gen_step_def)
  next
    case False
    have "rand_wf (g_rand u)" using core by (simp add: gen_core_def)
    then obtain n g where n: "gen_random_nonce (g_rand u) = Some (n, g)" "rand_wf g"
      using gen_random_nonce_total by blast
    let ?v = "u\<lparr>g_rand := g, gen_nonce := n, g_reg := gen_load_nonce n (g_reg u)\<rparr>"
    have "gen_core buf r0 ?v" using core n(2) by (simp add: gen_core_def mm_left_def)
    moreover have "gen_at Jump_table ?v"
      using core cnt'(1) t by (simp add: gen_at_def round_at_def gen_whole_def gen_entry_def u_def gen_core_def regs_ok_load_nonce)
    moreover have "gen_seed buf r0 ?v"
      using gen_seed_end [OF inv t_def, of ?v] cnt'(1) by (simp add: u_def)
    ultimately have "gen_inv buf r0 Jump_table ?v" using cnt' False by (simp add: gen_inv_def not_le)
    moreover have "gen_rank Jump_table ?v < gen_rank Checksum_end s"
      using cnt'(2) rank by (simp add: gen_rank_def label_rank_def u_def)
    ultimately show ?thesis using ne False n(1) by (simp add: gen_step_def)
  qed
qed

interpretation gen_prog: goto_program gen_step gen_final "gen_inv buf r0" gen_rank for buf r0
proof unfold_locales
  fix l s
  assume inv: "gen_inv buf r0 l s" and "l \<noteq> Return"
  then consider "l \<in> blocks" | "l = Jump_table" | "l = Checksum_end" by (cases l) auto
  then show "\<exists>l' s'. gen_step l s = Some (l', s') \<and> gen_inv buf r0 l' s' \<and> gen_rank l' s' < gen_rank l s"
    using inv gen_step_in_block gen_step_jump gen_step_end by cases blast+
qed

section \<open>Properties of the search\<close>

definition sim_wf :: "sim \<Rightarrow> bool" where
  "sim_wf s \<longleftrightarrow> length (g_swatt_buf s) = FW_WORDS \<and> length (g_swatt_buf_s s) = FW_WORDS \<and>
     length (g_mm s) = FW_WORDS \<and> length (g_mm_s s) = FW_WORDS \<and>
     length (g_nonce_pool s) = NONCE_NUM \<and> length (g_checksum s) = NONCE_NUM \<and> rand_wf (g_rand s)"

text \<open>The state \<open>swatt\<close> calls \<open>generate_nonce\<close> in: nothing has been read yet.\<close>

definition sim_ready :: "sim \<Rightarrow> bool" where
  "sim_ready s \<longleftrightarrow> sim_wf s \<and> g_mm s = replicate FW_WORDS 0 \<and> g_mm_s s = replicate FW_WORDS 0"

lemma gen_start_inv:
  assumes "sim_ready s"
  shows "gen_inv (g_swatt_buf s) (gen_init_regs (g_reg s)) Block0 (gen_start s)"
proof -
  let ?t = "gen_start s"
  have eqs: "g_swatt_buf ?t = g_swatt_buf s" "g_swatt_buf_s ?t = g_swatt_buf_s s" "g_mm ?t = g_mm s"
      "g_mm_s ?t = g_mm s" "g_nonce_pool ?t = g_nonce_pool s" "g_checksum ?t = g_checksum s"
      "g_rand ?t = g_rand s" "g_reg ?t = gen_init_regs (g_reg s)" "g_reg_state ?t = gen_init_regs (g_reg s)"
      "gen_count ?t = 0" "gen_icount ?t = 0" "gen_inonce ?t = 0"
    using assms by (simp_all add: gen_start_def save_regs_def sim.defs sim_ready_def)
  have "card {i. 64 \<le> i \<and> i < 706 \<and> g_mm ?t ! i = 0} \<le> card {64..<706 :: nat}"
    by (rule card_mono) auto
  then have left: "unat (mm_left ?t) \<le> 642"
    by (simp only: mm_left_def unat_count_range cov_bounds card_atLeastLessThan)
  have zero: "g_mm s ! i = 0" if "i < FW_WORDS" for i
    using assms that by (simp only: sim_ready_def nth_replicate)
  have "gen_init_regs (g_reg s) 9 = 0x8c00" by (simp add: gen_init_regs_def)
  then have "gen_at Block0 ?t"
    using assms by (simp add: gen_at_def round_at_def eqs regs_ok_init gen_whole_def gen_entry_def gen_jump_table_def
        sim_ready_def sim_wf_def)
  moreover have "gen_core (g_swatt_buf s) (gen_init_regs (g_reg s)) ?t"
    using assms left zero by (simp add: gen_core_def eqs regs_ok_init sim_ready_def sim_wf_def)
  moreover have "gen_seed (g_swatt_buf s) (gen_init_regs (g_reg s)) ?t"
    using assms unfolding gen_seed_def eqs by (simp add: gen_start_def save_regs_def sim.defs sim_ready_def)
  ultimately show ?thesis by (simp add: gen_inv_def eqs)
qed

lemma generate_nonce_result:
  assumes "sim_ready s"
  shows "\<exists>t. generate_nonce s = Some (sim.truncate (t\<lparr>g_nonce_count := gen_inonce t\<rparr>)) \<and>
           gen_inv (g_swatt_buf s) (gen_init_regs (g_reg s)) Return t"
  using gen_prog.goto_run_returns [OF gen_start_inv [OF assms]]
  by (auto simp: generate_nonce_def)

lemma mm_left_2:
  assumes "g_mm s ! 704 = 0" and "g_mm s ! 705 = 0"
  shows "2 \<le> unat (mm_left s)"
proof -
  have "card {704, 705 :: nat} \<le> card {i. cov_start \<le> i \<and> i < cov_end \<and> g_mm s ! i = 0}"
    by (rule card_mono) (use assms in \<open>auto simp: cov_bounds\<close>)
  then show ?thesis by (simp add: mm_left_def unat_count_range)
qed

lemma sim_init_ready: "sim_ready sim_init"
  unfolding sim_ready_def sim_wf_def sim_init_def by (simp only: sim.simps length_replicate rand_init_wf simp_thms)

text \<open>
  C9: The search for nonces always returns. Started on a firmware image with nothing read yet, it
  never leaves an array, never fails to find a jump target, ends after at most \<open>LOOP_COUNT\<close> rounds
  and returns a well-formed state with at most \<open>NONCE_COUNT\<close> nonces and the image unchanged.
\<close>

theorem generate_nonce_returns:
  assumes "sim_ready s"
  shows "\<exists>s'. generate_nonce s = Some s' \<and> sim_wf s' \<and> unat (g_nonce_count s') \<le> NONCE_NUM \<and>
           g_swatt_buf s' = g_swatt_buf s"
proof -
  from generate_nonce_result [OF assms] obtain t where
    t: "generate_nonce s = Some (sim.truncate (t\<lparr>g_nonce_count := gen_inonce t\<rparr>))"
    "gen_core (g_swatt_buf s) (gen_init_regs (g_reg s)) t" "g_mm_s t = g_mm t"
    by (auto simp: gen_inv_def gen_at_def)
  then show ?thesis
    by (auto simp: sim_wf_def gen_core_def sim.defs word_le_nat_alt)
qed

theorem generate_nonce_returns_witness:
  "sim_ready sim_init \<and> (\<exists>s'. generate_nonce sim_init = Some s' \<and> sim_wf s' \<and>
     unat (g_nonce_count s') \<le> NONCE_NUM \<and> g_swatt_buf s' = g_swatt_buf sim_init)"
  using generate_nonce_returns [OF sim_init_ready] sim_init_ready by blast



text \<open>
  The exit that reports a full pool (\<open>ileft == 0\<close>) is dead code, and so is the exit of the
  jump table for an unknown target. Whenever the search reaches the end of a round, words of the
  counted range are left; whenever it reaches the jump table, the table has a block for \<open>r[9]\<close>.
\<close>

theorem generate_nonce_dead_exits:
  assumes "sim_ready s" and "goto_reach gen_step gen_final Block0 (gen_start s) l t"
  shows "(l = Checksum_end \<longrightarrow> mms_left t \<noteq> 0) \<and>
         (l = Jump_table \<longrightarrow> gen_jump_table (g_reg t 9) \<in> blocks)"
proof -
  have inv: "gen_inv (g_swatt_buf s) (gen_init_regs (g_reg s)) l t"
    using gen_prog.goto_reach_inv [OF assms(2) gen_start_inv [OF assms(1)]] .
  have "jt_ok (g_reg t 9)" if "l = Jump_table"
    using inv that by (simp add: gen_inv_def gen_at_def round_at_def regs_ok_def)
  with inv show ?thesis
    using mms_left_pos [OF gen_end_unmarked] gen_jump_table_block by blast
qed

lemma gen_step_return:
  assumes "gen_inv buf r0 l s" and "gen_step l s = Some (Return, s')" and "l \<noteq> Return"
  shows "l = Checksum_end"
proof -
  have "l \<notin> blocks" using gen_step_in_block [OF assms(1)] assms(2) by auto
  moreover have "gen_jump_table (g_reg s 9) \<in> blocks" if "l = Jump_table"
    using assms(1) that gen_at_jump(1) [of s] by (simp only: gen_inv_def)
  then have "l \<noteq> Jump_table" using assms(2) by (auto simp: gen_step_def)
  ultimately show ?thesis using assms(3) by (cases l) auto
qed

lemma gen_reaches_end:
  assumes "sim_ready s"
  shows "\<exists>t. goto_reach gen_step gen_final Block0 (gen_start s) Checksum_end t"
proof -
  note inv = gen_start_inv [OF assms]
  obtain t where "goto_reach gen_step gen_final Block0 (gen_start s) Return t"
    using gen_prog.goto_reach_final [OF inv goto_reach.start] by blast
  then obtain l u where u: "goto_reach gen_step gen_final Block0 (gen_start s) l u" "l \<noteq> Return"
    "gen_step l u = Some (Return, t)"
    by (cases rule: goto_reach.cases) auto
  then have "l = Checksum_end"
    using gen_step_return [OF gen_prog.goto_reach_inv [OF u(1) inv]] by blast
  with u(1) show ?thesis by blast
qed

theorem generate_nonce_dead_exits_witness:
  "sim_ready sim_init \<and> (\<exists>t. goto_reach gen_step gen_final Block0 (gen_start sim_init) Checksum_end t \<and>
     mms_left t \<noteq> 0)"
  using generate_nonce_dead_exits [OF sim_init_ready] gen_reaches_end [OF sim_init_ready]
    sim_init_ready by blast

end
