(* ===== verification/Viper_Checksum.thy ===== *)
theory Viper_Checksum
  imports Viper_Nonce
begin

text \<open>
  \<open>return_checksum\<close> and \<open>checksum_simulator\<close> of \<open>code/app/viper/simulator.c\<close>: the run of the
  checksum code over a pool of nonces, which records one checksum for each nonce after the first.

  The lemmas give the functional behaviour of the whole run for any pool (\<open>chk_log\<close> is its
  specification), and what it does on the pool that \<open>generate_nonce\<close> leaves.
\<close>

section \<open>The functions\<close>

record chk = sim +
  chk_count :: u32
  chk_icount :: u32
  chk_inonce :: u32

text \<open>The register that is returned for an index, and the number it is recorded under.\<close>

definition checksum_regs :: "(nat \<times> u32) list" where
  "checksum_regs = [(2, 0), (3, 1), (11, 2), (12, 3), (13, 4), (14, 5), (15, 6), (16, 7), (17, 8),
     (18, 9), (19, 10), (20, 11), (21, 12), (22, 13), (23, 14), (24, 15), (25, 16), (26, 17),
     (27, 18), (28, 19), (31, 20)]"

text \<open>The indices from 21 start again at \<open>r[2]\<close>.\<close>

definition checksum_regs_again :: "(nat \<times> u32) list" where
  "checksum_regs_again = [(2, 0), (3, 1), (11, 2), (12, 3), (13, 4), (14, 5), (15, 6), (16, 7),
     (17, 8), (18, 9), (19, 10)]"

definition return_checksum :: "u32 \<Rightarrow> u32 \<Rightarrow> 'a sim_scheme \<Rightarrow> 'a sim_scheme option" where
  "return_checksum index nonce_index s = (let r = g_reg s; inonce = nonce_index - 1 in
     case arr_get (checksum_regs @ checksum_regs_again) (unat index) of
       Some (k, tag) \<Rightarrow> do {
         c \<leftarrow> arr_set (g_checksum s) (unat (inonce - 1)) (r k, tag);
         Some (s\<lparr>g_checksum := c\<rparr>)
       }
     | None \<Rightarrow> Some s)"

definition chk_init_regs :: "regs \<Rightarrow> regs" where
  "chk_init_regs r = (let r = r(2 := 0x2023, 3 := 0x2084, 11 := 0x33f0, 12 := 0x33f1, 13 := 0x33f2,
       14 := 0x33f3, 15 := 0x33f4, 16 := 0x33f5, 17 := 0x33f6, 18 := 0x33f7, 19 := 0x33f8,
       20 := 0x33f9, 21 := 0x33fa, 22 := 0x33fb, 23 := 0x33fc, 24 := 0x33fd, 25 := 0x33fe,
       26 := 0x33ff, 27 := 0x33f0, 28 := 0x33f1);
     r = r(7 := 0x33f2, 8 := 0x33f3);
     r = r(7 := r 7 AND ADDR_MASK);
     r = r(8 := r 8 AND ADDR_MASK)
   in r(9 := 0x8c00, 10 := 0x8c00, 31 := 0xbffe4c))"

definition chk_load_nonce :: "u32 \<Rightarrow> regs \<Rightarrow> regs" where
  "chk_load_nonce nonce r = (let r = r(7 := drop_bit 16 nonce AND ADDR_MASK);
     r = r(8 := nonce AND ADDR_MASK)
   in r(9 := r 9 XOR (nonce AND JUMP_MASK)))"

definition chk_checksum_end :: "chk \<Rightarrow> (label \<times> chk) option" where
  "chk_checksum_end s =
     (if chk_icount s \<noteq> I_NUM then Some (Return, s)
      else let s = s\<lparr>chk_icount := 0, chk_count := chk_count s + 1\<rparr> in
        if chk_inonce s \<ge> g_nonce_count s then Some (Return, s)
        else do {
          nonce \<leftarrow> arr_get (g_nonce_pool s) (unat (chk_inonce s));
          let s = s\<lparr>chk_inonce := chk_inonce s + 1\<rparr>;
          let s = s\<lparr>g_reg := chk_load_nonce nonce (g_reg s)\<rparr>;
          s \<leftarrow> return_checksum (nonce AND 0x1f) (chk_inonce s) s;
          if chk_inonce s \<ge> SWATT_LOOP_NUM then Some (Return, s) else Some (Jump_table, s)
        })"

definition chk_step :: "label \<Rightarrow> chk \<Rightarrow> (label \<times> chk) option" where
  "chk_step l s =
     (case l of
        Jump_table \<Rightarrow> Some (chk_jump_table (g_reg s 9), s)
      | Checksum_end \<Rightarrow> chk_checksum_end s
      | Return \<Rightarrow> Some (Return, s)
      | _ \<Rightarrow> do {
          (l, r, buf_s, icount) \<leftarrow> chk_block l (g_swatt_buf s) (g_reg s, g_swatt_buf_s s, chk_icount s);
          Some (l, s\<lparr>g_reg := r, g_swatt_buf_s := buf_s, chk_icount := icount\<rparr>)
        })"

definition chk_start :: "sim \<Rightarrow> chk option" where
  "chk_start s = do {
     let s = s\<lparr>g_reg := chk_init_regs (g_reg s)\<rparr>;
     nonce \<leftarrow> arr_get (g_nonce_pool s) 0;
     let s = s\<lparr>g_reg := chk_load_nonce nonce (g_reg s)\<rparr>;
     Some (sim.extend s \<lparr>chk_count = 0, chk_icount = 0, chk_inonce = 1\<rparr>)
   }"

text \<open>
  The sums that are computed at \<open>__return\<close> are only printed by the debug macros; what remains of
  the epilogue is that the marks are cleared.
\<close>

definition checksum_simulator :: "sim \<Rightarrow> sim option" where
  "checksum_simulator s = do {
     s \<leftarrow> chk_start s;
     s \<leftarrow> goto_run chk_step (\<lambda>l. l = Return) Jump_table s;
     Some (sim.truncate (s\<lparr>g_swatt_buf_s := replicate FW_WORDS 0\<rparr>))
   }"

section \<open>The specification of a run\<close>

definition checksum_entry :: "u32 \<Rightarrow> regs \<Rightarrow> u32 \<times> u32" where
  "checksum_entry nonce r =
     (let (k, tag) = (checksum_regs @ checksum_regs_again) ! unat (nonce AND 0x1f) in (r k, tag))"

text \<open>
  The checksums of a list of nonces: one for each nonce that has a successor, selected by the
  successor, up to the first nonce that is not accepted.
\<close>

fun chk_log :: "u32 list \<Rightarrow> regs \<Rightarrow> u32 list \<Rightarrow> (u32 \<times> u32) list" where
  "chk_log buf r (n # m # ns) =
     (case swatt_round buf (chk_load_nonce n r) of
        Some r \<Rightarrow> checksum_entry m r # chk_log buf r (m # ns)
      | None \<Rightarrow> [])"
| "chk_log buf r _ = []"

definition chk_nonces :: "sim \<Rightarrow> u32 list" where
  "chk_nonces s = take (max 1 (min NONCE_NUM (unat (g_nonce_count s)))) (g_nonce_pool s)"

definition chk_result :: "sim \<Rightarrow> (u32 \<times> u32) list" where
  "chk_result s = chk_log (g_swatt_buf s) (chk_init_regs (g_reg s)) (chk_nonces s)"

lemma unat_index: "unat (n AND 0x1f :: u32) < 32"
  using unat_and_le [of n "0x1f"] by simp

lemma chk_load_nonce_gen: "chk_load_nonce = gen_load_nonce"
  unfolding chk_load_nonce_def gen_load_nonce_def ..

lemma chk_init_regs_gen: "chk_init_regs = gen_init_regs"
  unfolding chk_init_regs_def gen_init_regs_def ..

lemma run_blocks_chk: "run_blocks chk_block chk_jump_table = run_blocks gen_block gen_jump_table"
proof -
  have "chk_block = gen_block" by (intro ext chk_block_gen)
  then show ?thesis by (simp add: chk_jump_table_gen)
qed

lemma checksum_regs_length [simp]: "length (checksum_regs @ checksum_regs_again) = 32"
  by (simp add: checksum_regs_def checksum_regs_again_def)

text \<open>None of the registers that a nonce sets is returned.\<close>

lemma checksum_regs_free: "fst ((checksum_regs @ checksum_regs_again) ! unat (n AND 0x1f :: u32)) \<notin> {7, 8, 9}"
proof -
  have "\<forall>p \<in> set (checksum_regs @ checksum_regs_again). fst p \<notin> {7, 8, 9}"
    by (simp add: checksum_regs_def checksum_regs_again_def)
  then show ?thesis using nth_mem [of "unat (n AND 0x1f)"] unat_index [of n] checksum_regs_length by metis
qed

lemma checksum_entry_load: "checksum_entry m (chk_load_nonce n r) = checksum_entry m r"
  using checksum_regs_free [of m]
  by (simp add: checksum_entry_def chk_load_nonce_gen load_nonce_frame case_prod_unfold)

lemma return_checksum_entry:
  assumes "unat (i - 1 - 1) < length (g_checksum s)"
  shows "return_checksum (n AND 0x1f) i s =
           Some (s\<lparr>g_checksum := (g_checksum s)[unat (i - 1 - 1) := checksum_entry n (g_reg s)]\<rparr>)"
  using assms unat_index [of n] checksum_regs_length
  by (simp add: return_checksum_def checksum_entry_def arr_get_def arr_set_def Let_def case_prod_unfold
      del: length_append)

section \<open>The invariant of a run\<close>

text \<open>What a run from \<open>s0\<close> keeps.\<close>

definition chk_base :: "sim \<Rightarrow> chk \<Rightarrow> bool" where
  "chk_base s0 s \<longleftrightarrow>
     g_swatt_buf s = g_swatt_buf s0 \<and> g_nonce_pool s = g_nonce_pool s0 \<and>
     g_nonce_count s = g_nonce_count s0 \<and> g_mm s = g_mm s0 \<and> g_mm_s s = g_mm_s s0 \<and>
     g_rand s = g_rand s0 \<and> g_reg_state s = g_reg_state s0"

text \<open>
  In the round of nonce \<open>i\<close> the registers before the nonce were \<open>r\<close>, and \<open>sofar\<close> has been recorded.
\<close>

definition chk_pos :: "sim \<Rightarrow> nat \<Rightarrow> regs \<Rightarrow> (u32 \<times> u32) list \<Rightarrow> bool" where
  "chk_pos s0 i r sofar \<longleftrightarrow> 1 \<le> i \<and> i \<le> length (chk_nonces s0) \<and> i < NONCE_NUM \<and> regs_ok r \<and>
     length sofar = i - 1 \<and> chk_result s0 = sofar @ chk_log (g_swatt_buf s0) r (drop (i - 1) (chk_nonces s0))"

abbreviation chk_round :: "u32 list \<Rightarrow> regs \<Rightarrow> u32 list \<Rightarrow> blk option" where
  "chk_round buf r marks \<equiv> run_blocks chk_block chk_jump_table 4 buf (r, marks, 0)"

definition chk_at :: "sim \<Rightarrow> label \<Rightarrow> chk \<Rightarrow> bool" where
  "chk_at s0 l s \<longleftrightarrow> (\<exists>r sofar marks. chk_pos s0 (unat (chk_inonce s)) r sofar \<and> length marks = FW_WORDS \<and>
     g_checksum s = sofar @ drop (length sofar) (g_checksum s0) \<and>
     round_at chk_block chk_jump_table (g_swatt_buf s0)
       (chk_round (g_swatt_buf s0) (chk_load_nonce (chk_nonces s0 ! (unat (chk_inonce s) - 1)) r) marks)
       l (g_reg s, g_swatt_buf_s s, chk_icount s))"

definition chk_inv :: "sim \<Rightarrow> label \<Rightarrow> chk \<Rightarrow> bool" where
  "chk_inv s0 l s \<longleftrightarrow> sim_wf s0 \<and> chk_base s0 s \<and>
     (if l = Return then g_checksum s = chk_result s0 @ drop (length (chk_result s0)) (g_checksum s0)
      else chk_at s0 l s)"

definition chk_rank :: "label \<Rightarrow> chk \<Rightarrow> nat" where
  "chk_rank l s = (300 - unat (chk_inonce s)) * 20 + label_rank l (chk_icount s)"

lemma chk_step_block: "l \<in> blocks \<Longrightarrow> chk_step l s = do {
    (l, r, buf_s, icount) \<leftarrow> chk_block l (g_swatt_buf s) (g_reg s, g_swatt_buf_s s, chk_icount s);
    Some (l, s\<lparr>g_reg := r, g_swatt_buf_s := buf_s, chk_icount := icount\<rparr>) }"
  by (auto simp: chk_step_def)

lemma chk_step_jump:
  assumes inv: "chk_inv s0 Jump_table s"
  shows "\<exists>l' s'. chk_step Jump_table s = Some (l', s') \<and> chk_inv s0 l' s' \<and>
           chk_rank l' s' < chk_rank Jump_table s"
proof -
  let ?l = "chk_jump_table (g_reg s 9)"
  have "chk_at s0 Jump_table s" using inv by (simp add: chk_inv_def)
  then have l: "?l \<in> blocks" and at: "chk_at s0 ?l s"
    using chk.round_at_jump unfolding chk_at_def by blast+
  from l have "?l \<noteq> Return" by auto
  moreover have "chk_rank ?l s < chk_rank Jump_table s"
    by (simp add: chk_rank_def label_rank_block [OF l] label_rank_def [of Jump_table])
  ultimately show ?thesis using inv at by (auto simp: chk_step_def chk_inv_def)
qed

lemma chk_step_in_block:
  assumes inv: "chk_inv s0 l s" and l: "l \<in> blocks"
  shows "\<exists>l' s'. chk_step l s = Some (l', s') \<and> chk_inv s0 l' s' \<and> chk_rank l' s' < chk_rank l s"
proof -
  have nr: "l \<noteq> Return" using l by auto
  with inv have buf: "length (g_swatt_buf s0) = FW_WORDS" "g_swatt_buf s = g_swatt_buf s0" and "chk_at s0 l s"
    by (simp_all add: chk_inv_def sim_wf_def chk_base_def)
  then obtain r sofar marks where pos: "chk_pos s0 (unat (chk_inonce s)) r sofar" "length marks = FW_WORDS"
      "g_checksum s = sofar @ drop (length sofar) (g_checksum s0)"
    and at: "round_at chk_block chk_jump_table (g_swatt_buf s0)
       (chk_round (g_swatt_buf s0) (chk_load_nonce (chk_nonces s0 ! (unat (chk_inonce s) - 1)) r) marks)
       l (g_reg s, g_swatt_buf_s s, chk_icount s)"
    unfolding chk_at_def by blast
  from chk.round_at_block [OF at l buf(1)] obtain l' r' marks' ic' where
    blk: "chk_block l (g_swatt_buf s0) (g_reg s, g_swatt_buf_s s, chk_icount s) = Some (l', r', marks', ic')"
    and at': "round_at chk_block chk_jump_table (g_swatt_buf s0)
       (chk_round (g_swatt_buf s0) (chk_load_nonce (chk_nonces s0 ! (unat (chk_inonce s) - 1)) r) marks)
       l' (r', marks', ic')"
    and nxt: "l' = Jump_table \<and> unat ic' = unat (chk_icount s) + 1 \<and> ic' < 4 \<or> l' = Checksum_end"
    by blast
  let ?s' = "s\<lparr>g_reg := r', g_swatt_buf_s := marks', chk_icount := ic'\<rparr>"
  have "chk_step l s = Some (l', ?s')"
    unfolding chk_step_block [OF l] by (simp add: blk buf(2))
  moreover have "chk_at s0 l' ?s'"
    unfolding chk_at_def using pos at' by auto
  then have "chk_inv s0 l' ?s'"
    using inv nxt by (auto simp: chk_inv_def chk_base_def)
  moreover have "chk_rank l' ?s' < chk_rank l s"
    using nxt by (auto simp: chk_rank_def label_rank_block [OF l] word_less_nat_alt
        label_rank_def [of Jump_table] label_rank_def [of Checksum_end])
  ultimately show ?thesis by blast
qed

lemma chk_log_step:
  assumes "1 \<le> i" and "i < length ns"
  shows "chk_log buf r (drop (i - 1) ns) =
    (case swatt_round buf (chk_load_nonce (ns ! (i - 1)) r) of
       Some r \<Rightarrow> checksum_entry (ns ! i) r # chk_log buf r (drop i ns)
     | None \<Rightarrow> [])"
proof -
  have "drop (i - 1) ns = ns ! (i - 1) # drop i ns" "drop i ns = ns ! i # drop (Suc i) ns"
    using assms Cons_nth_drop_Suc [of "i - 1" ns] Cons_nth_drop_Suc [of i ns] by simp_all
  then show ?thesis by (auto split: option.split)
qed

lemma chk_log_last: "i = length ns \<Longrightarrow> chk_log buf r (drop (i - 1) ns) = []"
  by (cases ns rule: rev_cases) simp_all

lemma chk_log_length: "length (chk_log buf r ns) \<le> length ns - 1"
proof (induction buf r ns rule: chk_log.induct)
  case (1 buf r n m ns)
  then show ?case by (auto split: option.split)
qed simp_all

lemma chk_nonces_nth: "i < length (chk_nonces s) \<Longrightarrow> chk_nonces s ! i = g_nonce_pool s ! i"
  by (simp add: chk_nonces_def)

lemma chk_nonces_length:
  "sim_wf s \<Longrightarrow> length (chk_nonces s) = max 1 (min NONCE_NUM (unat (g_nonce_count s)))"
  by (simp add: chk_nonces_def sim_wf_def)

lemma chk_at_end:
  assumes "chk_inv s0 Checksum_end s"
  shows "\<exists>r sofar. chk_pos s0 (unat (chk_inonce s)) r sofar \<and>
     g_checksum s = sofar @ drop (length sofar) (g_checksum s0) \<and> regs_ok (g_reg s) \<and>
     length (g_swatt_buf_s s) = FW_WORDS \<and>
     swatt_round (g_swatt_buf s0) (chk_load_nonce (chk_nonces s0 ! (unat (chk_inonce s) - 1)) r) =
       (if chk_icount s = I_NUM then Some (g_reg s) else None)"
proof -
  from assms obtain r sofar marks where pos: "chk_pos s0 (unat (chk_inonce s)) r sofar" "length marks = FW_WORDS"
      "g_checksum s = sofar @ drop (length sofar) (g_checksum s0)"
    and whole: "chk_round (g_swatt_buf s0) (chk_load_nonce (chk_nonces s0 ! (unat (chk_inonce s) - 1)) r) marks =
      Some (g_reg s, g_swatt_buf_s s, chk_icount s)" and buf: "length (g_swatt_buf s0) = FW_WORDS"
    by (auto simp: chk_inv_def chk_at_def round_at_def sim_wf_def)
  let ?r = "chk_load_nonce (chk_nonces s0 ! (unat (chk_inonce s) - 1)) r"
  have "regs_ok ?r" using pos(1) by (simp add: chk_pos_def chk_load_nonce_gen regs_ok_load_nonce)
  from round_result [OF this buf] obtain r' "is" ic where "regs_ok r'"
    "run_blocks gen_block gen_jump_table 4 (g_swatt_buf s0) (?r, marks, 0) = Some (r', mark_all is marks, ic)"
    "swatt_round (g_swatt_buf s0) ?r = (if ic = I_NUM then Some r' else None)"
    using pos(2) by blast
  with whole pos show ?thesis by (intro exI [of _ r] exI [of _ sofar]) (auto simp: run_blocks_chk)
qed

lemma chk_step_next:
  assumes pos: "chk_pos s0 (unat (chk_inonce s)) r sofar"
    and cs: "g_checksum s = sofar @ drop (length sofar) (g_checksum s0)" and ok: "regs_ok (g_reg s)"
    and len: "length (g_swatt_buf_s s) = FW_WORDS"
    and rnd: "swatt_round (g_swatt_buf s0) (chk_load_nonce (chk_nonces s0 ! (unat (chk_inonce s) - 1)) r) =
       Some (g_reg s)"
    and wf: "sim_wf s0" and base: "chk_base s0 s"
    and more: "chk_icount s = I_NUM" "chk_inonce s < g_nonce_count s"
  shows "\<exists>l' s'. chk_step Checksum_end s = Some (l', s') \<and> chk_inv s0 l' s' \<and>
           chk_rank l' s' < chk_rank Checksum_end s"
proof -
  let ?ns = "chk_nonces s0" and ?buf = "g_swatt_buf s0" and ?i = "unat (chk_inonce s)"
  from pos have i: "1 \<le> ?i" "?i < 300" "length sofar = ?i - 1"
    and res: "chk_result s0 = sofar @ chk_log ?buf r (drop (?i - 1) ?ns)"
    by (auto simp: chk_pos_def)
  have lns: "?i < length ?ns"
    using more(2) i base wf by (auto simp: chk_nonces_length chk_base_def word_less_nat_alt)
  let ?n = "?ns ! ?i" and ?e = "checksum_entry (?ns ! ?i) (g_reg s)"
  let ?t = "s\<lparr>chk_icount := 0, chk_count := chk_count s + 1, chk_inonce := chk_inonce s + 1,
     g_reg := chk_load_nonce ?n (g_reg s), g_checksum := (sofar @ [?e]) @ drop (length (sofar @ [?e])) (g_checksum s0)\<rparr>"
  have un: "unat (chk_inonce s + 1) = Suc ?i" "unat (chk_inonce s - 1) = ?i - 1"
    using i(1,2) by (auto simp: unat_word_ariths unat_minus_one word_less_nat_alt simp flip: unat_eq_0)
  have c0: "length (g_checksum s0) = NONCE_NUM" and pool: "length (g_nonce_pool s0) = NONCE_NUM"
    using wf by (simp_all add: sim_wf_def)
  have upd: "(g_checksum s)[?i - 1 := ?e] = g_checksum ?t"
    using i c0 by (simp add: cs list_update_append Cons_nth_drop_Suc [symmetric])
  have get: "arr_get (g_nonce_pool s) ?i = Some ?n"
    using lns i(2) base pool by (simp add: arr_get_def chk_base_def chk_nonces_nth)
  have "?i - 1 < length (g_checksum s)" using i c0 by (simp add: cs)
  then have step: "chk_step Checksum_end s =
      Some (if chk_inonce s + 1 \<ge> SWATT_LOOP_NUM then Return else Jump_table, ?t)"
    using more(1) not_le [THEN iffD2, OF more(2)] get upd
    by (simp add: chk_step_def chk_checksum_end_def return_checksum_entry checksum_entry_load un Let_def)
  have rank: "chk_rank l ?t < chk_rank Checksum_end s" if "l = Return \<or> l = Jump_table" for l
    using that i(2) un by (auto simp: chk_rank_def label_rank_def)
  have res': "chk_result s0 = (sofar @ [?e]) @ chk_log ?buf (g_reg s) (drop ?i ?ns)"
    using res rnd chk_log_step [OF i(1) lns, of ?buf r] by simp
  have base': "chk_base s0 ?t" using base by (simp add: chk_base_def)
  show ?thesis
  proof (cases "chk_inonce s + 1 \<ge> SWATT_LOOP_NUM")
    case True
    then have "Suc ?i = length ?ns" using un lns i(2) wf
      by (simp add: word_le_nat_alt chk_nonces_length)
    from chk_log_last [OF this, of ?buf "g_reg s"]
    have "chk_inv s0 Return ?t" using res' base' wf by (simp add: chk_inv_def)
    with step rank [of Return] True show ?thesis by auto
  next
    case False
    then have pos': "chk_pos s0 (Suc ?i) (g_reg s) (sofar @ [?e])"
      using res' lns i ok un by (auto simp: chk_pos_def word_le_nat_alt)
    have "round_at chk_block chk_jump_table ?buf
        (chk_round ?buf (chk_load_nonce ?n (g_reg s)) (g_swatt_buf_s s)) Jump_table
        (chk_load_nonce ?n (g_reg s), g_swatt_buf_s s, 0)"
      using ok len by (simp add: round_at_def chk_load_nonce_gen regs_ok_load_nonce)
    then have "chk_at s0 Jump_table ?t"
      unfolding chk_at_def using pos' len un
      by (intro exI [of _ "g_reg s"] exI [of _ "sofar @ [?e]"] exI [of _ "g_swatt_buf_s s"]) simp
    then have "chk_inv s0 Jump_table ?t" using base' wf by (simp add: chk_inv_def)
    with step rank [of Jump_table] False show ?thesis by auto
  qed
qed

lemma chk_step_end:
  assumes inv: "chk_inv s0 Checksum_end s"
  shows "\<exists>l' s'. chk_step Checksum_end s = Some (l', s') \<and> chk_inv s0 l' s' \<and>
           chk_rank l' s' < chk_rank Checksum_end s"
proof -
  let ?ns = "chk_nonces s0" and ?buf = "g_swatt_buf s0" and ?i = "unat (chk_inonce s)"
  from chk_at_end [OF inv] obtain r sofar where pos: "chk_pos s0 ?i r sofar"
    and cs: "g_checksum s = sofar @ drop (length sofar) (g_checksum s0)" and ok: "regs_ok (g_reg s)"
    and len: "length (g_swatt_buf_s s) = FW_WORDS"
    and rnd: "swatt_round ?buf (chk_load_nonce (?ns ! (?i - 1)) r) =
       (if chk_icount s = I_NUM then Some (g_reg s) else None)" by blast
  from inv have wf: "sim_wf s0" and base: "chk_base s0 s" by (auto simp: chk_inv_def)
  from pos have i: "1 \<le> ?i" "?i \<le> length ?ns" "?i < 300" "length sofar = ?i - 1"
    and res: "chk_result s0 = sofar @ chk_log ?buf r (drop (?i - 1) ?ns)"
    by (auto simp: chk_pos_def)
  let ?s1 = "s\<lparr>chk_icount := 0, chk_count := chk_count s + 1\<rparr>"
  have stop: "\<exists>l' s'. chk_step Checksum_end s = Some (l', s') \<and> chk_inv s0 l' s' \<and>
      chk_rank l' s' < chk_rank Checksum_end s"
    if "chk_checksum_end s = Some (Return, t)" "t = s \<or> t = ?s1"
       "chk_log ?buf r (drop (?i - 1) ?ns) = []" for t
    using that wf base cs res by (auto simp: chk_step_def chk_inv_def chk_base_def chk_rank_def label_rank_def)
  consider "chk_icount s \<noteq> I_NUM" | "chk_icount s = I_NUM" "chk_inonce s \<ge> g_nonce_count s"
    | "chk_icount s = I_NUM" "chk_inonce s < g_nonce_count s" by force
  then show ?thesis
  proof cases
    case 1
    have "chk_log ?buf r (drop (?i - 1) ?ns) = []"
      using i(1,2) rnd 1 chk_log_step [of ?i ?ns ?buf r] chk_log_last [of ?i ?ns ?buf r] by (cases "?i = length ?ns") auto
    then show ?thesis using 1 by (intro stop [of s]) (simp_all add: chk_checksum_end_def)
  next
    case 2
    have "?i = length ?ns"
      using 2(2) i base wf by (auto simp: chk_nonces_length chk_base_def word_le_nat_alt)
    then show ?thesis
      using 2 by (intro stop [of ?s1] chk_log_last) (simp_all add: chk_checksum_end_def)
  next
    case 3
    show ?thesis using chk_step_next [OF pos cs ok len _ wf base] 3 rnd by auto
  qed
qed

interpretation chk_prog: goto_program chk_step "\<lambda>l. l = Return" "chk_inv s0" chk_rank for s0
proof unfold_locales
  fix l s
  assume inv: "chk_inv s0 l s" and "l \<noteq> Return"
  then consider "l \<in> blocks" | "l = Jump_table" | "l = Checksum_end" by (cases l) auto
  then show "\<exists>l' s'. chk_step l s = Some (l', s') \<and> chk_inv s0 l' s' \<and> chk_rank l' s' < chk_rank l s"
    using inv chk_step_in_block chk_step_jump chk_step_end by cases blast+
qed

section \<open>Properties of a run\<close>

lemma chk_start_inv:
  assumes wf: "sim_wf s"
  shows "\<exists>t. chk_start s = Some t \<and> chk_inv s Jump_table t"
proof -
  have len: "length (g_nonce_pool s) = NONCE_NUM" "length (g_swatt_buf_s s) = FW_WORDS"
    using wf by (simp_all add: sim_wf_def)
  then have l: "1 \<le> length (chk_nonces s)" "chk_nonces s ! 0 = g_nonce_pool s ! 0"
    using chk_nonces_length [OF wf] chk_nonces_nth [of 0 s] by simp_all
  let ?n = "g_nonce_pool s ! 0" and ?r = "chk_init_regs (g_reg s)"
  let ?t = "sim.extend (s\<lparr>g_reg := chk_load_nonce ?n ?r\<rparr>) \<lparr>chk_count = 0, chk_icount = 0, chk_inonce = 1\<rparr>"
  have start: "chk_start s = Some ?t"
    using len by (auto simp: chk_start_def arr_get_def)
  have ok: "regs_ok ?r" by (simp add: chk_init_regs_gen regs_ok_init)
  have "chk_pos s 1 ?r []" using l ok by (simp add: chk_pos_def chk_result_def)
  moreover have "round_at chk_block chk_jump_table (g_swatt_buf s)
      (chk_round (g_swatt_buf s) (chk_load_nonce ?n ?r) (g_swatt_buf_s s)) Jump_table
      (chk_load_nonce ?n ?r, g_swatt_buf_s s, 0)"
    using ok len by (simp add: round_at_def chk_load_nonce_gen regs_ok_load_nonce)
  ultimately have "chk_at s Jump_table ?t"
    unfolding chk_at_def using l len
    by (intro exI [of _ ?r] exI [of _ "[]"] exI [of _ "g_swatt_buf_s s"]) (simp add: sim.defs)
  then have "chk_inv s Jump_table ?t" using wf by (simp add: chk_inv_def chk_base_def sim.defs)
  with start show ?thesis by blast
qed

lemma checksum_simulator_result:
  assumes "sim_wf s"
  shows "\<exists>s'. checksum_simulator s = Some s' \<and> sim_wf s' \<and>
           g_checksum s' = chk_result s @ drop (length (chk_result s)) (g_checksum s) \<and>
           g_swatt_buf_s s' = replicate FW_WORDS 0 \<and> g_nonce_pool s' = g_nonce_pool s \<and>
           g_swatt_buf s' = g_swatt_buf s \<and> g_nonce_count s' = g_nonce_count s"
proof -
  from chk_start_inv [OF assms] obtain t where t: "chk_start s = Some t" "chk_inv s Jump_table t" by blast
  from chk_prog.goto_run_returns [OF t(2)] obtain u where
    u: "goto_run chk_step (\<lambda>l. l = Return) Jump_table t = Some u" "chk_inv s Return u" by blast
  let ?s' = "sim.truncate (u\<lparr>g_swatt_buf_s := replicate FW_WORDS 0\<rparr>)"
  have cs: "g_checksum u = chk_result s @ drop (length (chk_result s)) (g_checksum s)"
    and base: "chk_base s u" using u(2) by (simp_all add: chk_inv_def)
  have "length (chk_result s) \<le> NONCE_NUM"
    using chk_log_length [of "g_swatt_buf s" "chk_init_regs (g_reg s)" "chk_nonces s"] chk_nonces_length [OF assms]
    by (simp add: chk_result_def)
  then have "length (g_checksum u) = NONCE_NUM" using assms cs by (simp add: sim_wf_def)
  with assms base cs have "sim_wf ?s'" by (simp add: sim_wf_def chk_base_def sim.defs del: replicate.simps)
  with t u cs base show ?thesis
    by (simp add: checksum_simulator_def chk_base_def sim.defs del: replicate.simps)
qed

lemma scratch_eq_load: "scratch_eq r1 r2 \<Longrightarrow> scratch_eq (gen_load_nonce n r1) (gen_load_nonce n r2)"
  by (simp add: scratch_eq_def gen_load_nonce_def)

lemma swatt_round_scratch:
  "scratch_eq r1 r2 \<Longrightarrow> regs_ok r1 \<Longrightarrow> swatt_round buf r1 = swatt_round buf r2"
  unfolding swatt_round_def by (simp only: gen.run_blocks_scratch [of r1 r2])

lemma replay_scratch:
  assumes "scratch_eq r1 r2" and "regs_ok r1"
  shows "replay buf r1 ns = None \<longleftrightarrow> replay buf r2 ns = None"
proof (cases ns)
  case (Cons n ms)
  have "swatt_round buf (gen_load_nonce n r1) = swatt_round buf (gen_load_nonce n r2)"
    by (rule swatt_round_scratch) (simp_all add: assms scratch_eq_load regs_ok_load_nonce)
  with Cons show ?thesis by simp
qed simp

lemma chk_log_replay: "replay buf r ns \<noteq> None \<Longrightarrow> length (chk_log buf r ns) = length ns - 1"
proof (induction buf r ns rule: chk_log.induct)
  case (1 buf r n m ns)
  then show ?case by (cases "swatt_round buf (gen_load_nonce n r)") (auto simp: chk_load_nonce_gen)
qed simp_all

text \<open>The registers the two functions initialise agree up to the scratch registers.\<close>

lemma init_regs_scratch:
  assumes "\<forall>k \<in> kept_regs. r' k = gen_init_regs r k"
  shows "scratch_eq (gen_init_regs r) (chk_init_regs r')"
proof -
  have set_regs: "gen_init_regs r k = gen_init_regs r' k"
    if "k \<in> {2, 3, 7, 8, 9, 10, 11, 12, 13, 14, 15, 16, 17, 18, 19, 20, 21, 22, 23, 24, 25, 26, 27, 28, 31}" for k
    using that by (elim insertE emptyE; simp only: gen_init_regs_def Let_def; simp)
  have kept: "gen_init_regs r' k = r' k" if "k \<in> kept_regs" "k \<noteq> 31" for k
    using that by (auto simp: gen_init_regs_def)
  have "gen_init_regs r k = gen_init_regs r' k" if "k \<notin> {5, 6}" for k
  proof (cases "k \<in> kept_regs \<and> k \<noteq> 31")
    case True
    then show ?thesis using assms kept by metis
  next
    case False
    with that have "k \<in> {2, 3, 7, 8, 9, 10, 11, 12, 13, 14, 15, 16, 17, 18, 19, 20, 21, 22, 23, 24, 25, 26, 27, 28, 31}"
      by simp presburger
    then show ?thesis by (rule set_regs)
  qed
  then show ?thesis by (simp add: scratch_eq_def chk_init_regs_gen)
qed

text \<open>The jump bits of the initial nonce lead to block 7 at once, which ends its round after one block.\<close>

lemma seed_not_replayed:
  assumes "regs_ok r" and "r 9 = 0x8c00" and "length buf = FW_WORDS"
  shows "swatt_round buf (gen_load_nonce 0x33f233f3 r) = None"
proof -
  let ?r = "gen_load_nonce 0x33f233f3 r"
  have r9: "gen_jump_table (?r 9) = Block7"
    using assms(2) by (simp add: gen_load_nonce_def gen_jump_table_def)
  obtain r' i j where "blk_result gen_block Block7 buf ?r 0 r' i j"
    using gen_block_runs [of Block7 ?r buf 0] assms by (auto simp: block_runs_def regs_ok_load_nonce)
  then have "gen_block Block7 buf (?r, marks, 0) = Some (Checksum_end, r', marks[i := 1, j := 1], 1)"
    if "length marks = FW_WORDS" for marks
    using that by (simp add: blk_result_def blk_next_def)
  with r9 have "run_blocks gen_block gen_jump_table (Suc 3) buf (?r, marks, 0) = Some (r', marks[i := 1, j := 1], 1)"
    if "length marks = FW_WORDS" for marks
    using that unfolding run_blocks.simps by simp
  from this [of "replicate FW_WORDS 0"] show ?thesis
    by (simp add: swatt_round_def)
qed

text \<open>
  What the pool of the search means for the run: the pool replays if the first round was
  rejected, and starts with the initial nonce otherwise.
\<close>

lemma generate_nonce_pool:
  assumes "sim_ready s"
  shows "\<exists>s1. generate_nonce s = Some s1 \<and> sim_wf s1 \<and> g_swatt_buf s1 = g_swatt_buf s \<and>
           unat (g_nonce_count s1) \<le> NONCE_NUM \<and>
           scratch_eq (gen_init_regs (g_reg s)) (chk_init_regs (g_reg s1)) \<and>
           (if swatt_round (g_swatt_buf s) (gen_init_regs (g_reg s)) = None
            then replay (g_swatt_buf s) (gen_init_regs (g_reg s))
                   (take (unat (g_nonce_count s1)) (g_nonce_pool s1)) = Some (g_reg s1)
            else g_nonce_count s1 \<noteq> 0 \<and> g_nonce_pool s1 ! 0 = 0x33f233f3)"
proof -
  let ?buf = "g_swatt_buf s" and ?r = "gen_init_regs (g_reg s)"
  from generate_nonce_result [OF assms] obtain t where
    t: "generate_nonce s = Some (sim.truncate (t\<lparr>g_nonce_count := gen_inonce t\<rparr>))" "gen_inv ?buf ?r Return t"
    by blast
  then have t2: "gen_core ?buf ?r t" "g_reg t = g_reg_state t" "g_mm_s t = g_mm t" "gen_seed ?buf ?r t"
    by (simp_all add: gen_inv_def gen_at_def)
  let ?s1 = "sim.truncate (t\<lparr>g_nonce_count := gen_inonce t\<rparr>)"
  have "\<forall>k \<in> kept_regs. g_reg t k = ?r k" using t2 unfolding gen_core_def by simp
  then have "scratch_eq ?r (chk_init_regs (g_reg t))" by (rule init_regs_scratch)
  moreover have "sim_wf ?s1" "g_swatt_buf t = ?buf" "unat (gen_inonce t) \<le> NONCE_NUM"
    using t2 by (auto simp: sim_wf_def gen_core_def sim.defs word_le_nat_alt)
  moreover have "replay ?buf ?r (take (unat (gen_inonce t)) (g_nonce_pool t)) = Some (g_reg t)"
    if "swatt_round ?buf ?r = None"
    using that t2 by (simp add: gen_core_def)
  moreover have "gen_inonce t \<noteq> 0 \<and> g_nonce_pool t ! 0 = 0x33f233f3" if "swatt_round ?buf ?r \<noteq> None"
    using that t2(4) t(2) by (simp add: gen_seed_def gen_inv_def gen_at_def)
  ultimately show ?thesis using t(1) by (simp add: sim.defs)
qed

text \<open>Two images on which the first round of the search is rejected and accepted.\<close>

lemma swatt_round_zero: "swatt_round (g_swatt_buf sim_init) (gen_init_regs (g_reg sim_init)) = None"
  by code_simp

definition sim_hit :: sim where
  "sim_hit = sim_init\<lparr>g_swatt_buf := (g_swatt_buf sim_init)[316 := 0x414c343c]\<rparr>"

lemma swatt_round_hit: "swatt_round (g_swatt_buf sim_hit) (gen_init_regs (g_reg sim_hit)) \<noteq> None"
  by code_simp

lemma sim_hit_ready: "sim_ready sim_hit"
  unfolding sim_ready_def sim_wf_def sim_hit_def sim_init_def
  by (simp only: sim.simps length_list_update length_replicate rand_init_wf simp_thms)

text \<open>
  C3: The functional behaviour of \<open>checksum_simulator\<close> for every image and every pool: it returns,
  it records exactly the checksums of the specification \<open>chk_log\<close> at the front of \<open>g_checksum\<close>
  (one for each nonce with a successor, until a nonce whose fourth block is not block 7), leaves
  the other entries, the image and the pool alone, and clears the marks.
\<close>

theorem checksum_simulator_functional:
  assumes "sim_wf s"
  shows "\<exists>s'. checksum_simulator s = Some s' \<and> sim_wf s' \<and>
           g_checksum s' = chk_result s @ drop (length (chk_result s)) (g_checksum s) \<and>
           g_swatt_buf_s s' = replicate FW_WORDS 0 \<and> g_nonce_pool s' = g_nonce_pool s \<and>
           g_swatt_buf s' = g_swatt_buf s"
  using checksum_simulator_result [OF assms] by blast

theorem checksum_simulator_functional_witness:
  "sim_wf sim_init \<and> (\<exists>s'. checksum_simulator sim_init = Some s' \<and> sim_wf s' \<and>
     g_checksum s' = chk_result sim_init @ drop (length (chk_result sim_init)) (g_checksum sim_init) \<and>
     g_swatt_buf_s s' = replicate FW_WORDS 0 \<and> g_nonce_pool s' = g_nonce_pool sim_init \<and>
     g_swatt_buf s' = g_swatt_buf sim_init)"
proof -
  have wf: "sim_wf sim_init" using sim_init_ready by (simp only: sim_ready_def)
  show ?thesis by (intro conjI wf checksum_simulator_functional)
qed

text \<open>
  C11: The two functions agree. If the first round of the search is rejected, then the run on the
  generated pool never stops early: it records a checksum for every nonce of the pool but the
  last one.
\<close>

theorem checksum_simulator_replays_pool:
  assumes "sim_ready s" and "swatt_round (g_swatt_buf s) (gen_init_regs (g_reg s)) = None"
  shows "\<exists>s1 s2. generate_nonce s = Some s1 \<and> checksum_simulator s1 = Some s2 \<and>
           length (chk_result s1) = unat (g_nonce_count s1) - 1 \<and>
           take (unat (g_nonce_count s1) - 1) (g_checksum s2) = chk_result s1"
proof -
  from generate_nonce_pool [OF assms(1)] assms(2) obtain s1 where
    s1: "generate_nonce s = Some s1" "sim_wf s1" "g_swatt_buf s1 = g_swatt_buf s"
      "unat (g_nonce_count s1) \<le> NONCE_NUM" "scratch_eq (gen_init_regs (g_reg s)) (chk_init_regs (g_reg s1))"
    and "replay (g_swatt_buf s) (gen_init_regs (g_reg s)) (take (unat (g_nonce_count s1)) (g_nonce_pool s1)) \<noteq> None"
    by auto
  then have rep: "replay (g_swatt_buf s1) (chk_init_regs (g_reg s1))
      (take (unat (g_nonce_count s1)) (g_nonce_pool s1)) \<noteq> None"
    using replay_scratch [OF s1(5) regs_ok_init] s1(3) by simp
  have "length (chk_result s1) = unat (g_nonce_count s1) - 1"
  proof (cases "g_nonce_count s1 = 0")
    case True
    then show ?thesis
      using chk_log_length [of "g_swatt_buf s1" "chk_init_regs (g_reg s1)" "chk_nonces s1"] chk_nonces_length [OF s1(2)]
      by (simp add: chk_result_def)
  next
    case False
    then have "1 \<le> unat (g_nonce_count s1)" by (metis less_one not_le unat_eq_zero)
    then have "chk_nonces s1 = take (unat (g_nonce_count s1)) (g_nonce_pool s1)"
      using s1(4) by (simp add: chk_nonces_def max_def min_def)
    then show ?thesis
      using chk_log_replay [OF rep] chk_nonces_length [OF s1(2)] s1(4) by (simp add: chk_result_def)
  qed
  moreover obtain s2 where "checksum_simulator s1 = Some s2"
    "g_checksum s2 = chk_result s1 @ drop (length (chk_result s1)) (g_checksum s1)"
    using checksum_simulator_result [OF s1(2)] by blast
  ultimately show ?thesis using s1(1) by auto
qed

theorem checksum_simulator_replays_pool_witness:
  "sim_ready sim_init \<and> swatt_round (g_swatt_buf sim_init) (gen_init_regs (g_reg sim_init)) = None \<and>
   (\<exists>s1 s2. generate_nonce sim_init = Some s1 \<and> checksum_simulator s1 = Some s2 \<and>
      length (chk_result s1) = unat (g_nonce_count s1) - 1 \<and>
      take (unat (g_nonce_count s1) - 1) (g_checksum s2) = chk_result s1)"
  by (intro conjI sim_init_ready swatt_round_zero checksum_simulator_replays_pool)

text \<open>
  C38: The search and the run disagree on the initial nonce. The search runs it from block 0 and
  without its jump bits, the run loads it like every other nonce. On an image whose first round is
  accepted, the pool starts with the initial nonce and the run stops in it ("icounter is wrong")
  without recording any checksum.
\<close>

theorem checksum_simulator_seed_mismatch:
  assumes "sim_ready s" and "swatt_round (g_swatt_buf s) (gen_init_regs (g_reg s)) \<noteq> None"
  shows "\<exists>s1 s2. generate_nonce s = Some s1 \<and> g_nonce_count s1 \<noteq> 0 \<and>
           checksum_simulator s1 = Some s2 \<and> g_checksum s2 = g_checksum s1"
proof -
  from generate_nonce_pool [OF assms(1)] assms(2) obtain s1 where
    s1: "generate_nonce s = Some s1" "sim_wf s1" "g_nonce_count s1 \<noteq> 0" "g_nonce_pool s1 ! 0 = 0x33f233f3"
    by auto
  have "1 \<le> length (chk_nonces s1)" using chk_nonces_length [OF s1(2)] by simp
  then have "chk_nonces s1 ! 0 = 0x33f233f3"
    using chk_nonces_nth [of 0 s1] s1(4) by (cases "chk_nonces s1") auto
  with \<open>1 \<le> _\<close> obtain ns where ns: "chk_nonces s1 = 0x33f233f3 # ns"
    by (cases "chk_nonces s1") auto
  have "swatt_round (g_swatt_buf s1) (chk_load_nonce 0x33f233f3 (chk_init_regs (g_reg s1))) = None"
    unfolding chk_load_nonce_gen chk_init_regs_gen
    by (rule seed_not_replayed [OF regs_ok_init]) (use s1(2) in \<open>simp_all add: sim_wf_def gen_init_regs_def\<close>)
  then have "chk_result s1 = []" unfolding chk_result_def ns by (cases ns) simp_all
  with checksum_simulator_result [OF s1(2)] s1 show ?thesis by auto
qed

theorem checksum_simulator_seed_mismatch_witness:
  "sim_ready sim_hit \<and> swatt_round (g_swatt_buf sim_hit) (gen_init_regs (g_reg sim_hit)) \<noteq> None \<and>
   (\<exists>s1 s2. generate_nonce sim_hit = Some s1 \<and> g_nonce_count s1 \<noteq> 0 \<and>
      checksum_simulator s1 = Some s2 \<and> g_checksum s2 = g_checksum s1)"
  by (intro conjI sim_hit_ready swatt_round_hit checksum_simulator_seed_mismatch)

lemma swatt_round_kept:
  assumes "swatt_round buf r = Some r'" and "regs_ok r" and "length buf = FW_WORDS"
  shows "regs_ok r'" and "r' 31 = r 31"
  using round_result [OF assms(2,3)] assms(1) by (auto split: if_splits)

lemma chk_log_31:
  assumes "regs_ok r" and "length buf = FW_WORDS" and "e \<in> set (chk_log buf r ns)" and "snd e = 20"
  shows "fst e = r 31"
  using assms
proof (induction buf r ns rule: chk_log.induct)
  case (1 buf r n m ns)
  obtain r' where r': "swatt_round buf (chk_load_nonce n r) = Some r'"
    and e: "e = checksum_entry m r' \<or> e \<in> set (chk_log buf r' (m # ns))"
    using 1(4) by (cases "swatt_round buf (chk_load_nonce n r)") auto
  have "regs_ok (chk_load_nonce n r)" using 1 by (simp add: chk_load_nonce_gen regs_ok_load_nonce)
  note kept = swatt_round_kept [OF r' this 1(3)]
  have r31: "r' 31 = r 31" using kept(2) by (simp add: chk_load_nonce_gen load_nonce_frame)
  have "\<forall>p \<in> set (checksum_regs @ checksum_regs_again). snd p = 20 \<longrightarrow> fst p = 31"
    by (simp add: checksum_regs_def checksum_regs_again_def)
  then have "fst (checksum_entry m r') = r' 31" if "snd (checksum_entry m r') = 20"
    using that nth_mem [of "unat (m AND 0x1f)" "checksum_regs @ checksum_regs_again"] unat_index [of m]
    by (auto simp: checksum_entry_def case_prod_unfold Let_def simp del: length_append)
  with e r31 1(1) [OF r' kept(1) 1(3)] 1(5) show ?case by auto
qed simp_all

text \<open>
  A checksum with the number 20 says nothing about the firmware: it is register 31, which no
  block writes, so it is the constant \<open>0xbffe4c\<close> for every image and every pool.
\<close>

theorem checksum_20_constant:
  assumes "sim_wf s" and "(c, 20) \<in> set (chk_result s)"
  shows "c = 0xbffe4c"
  using chk_log_31 [of "chk_init_regs (g_reg s)" "g_swatt_buf s" "(c, 20)" "chk_nonces s"] assms
  by (simp add: chk_result_def sim_wf_def chk_init_regs_gen regs_ok_init) (simp add: gen_init_regs_def)

definition sim_two :: sim where
  "sim_two = sim_init\<lparr>g_nonce_pool := (g_nonce_pool sim_init)[0 := 0xf4bea973, 1 := 20], g_nonce_count := 2\<rparr>"

theorem checksum_20_constant_witness:
  "sim_wf sim_two \<and> (\<exists>c. (c, 20) \<in> set (chk_result sim_two) \<and> c = 0xbffe4c)"
proof -
  have wf: "sim_wf sim_two"
    unfolding sim_wf_def sim_two_def sim_init_def
    by (simp only: sim.simps length_list_update length_replicate rand_init_wf simp_thms)
  have "(0xbffe4c, 20) \<in> set (chk_result sim_two)" by code_simp
  with checksum_20_constant [OF wf] wf show ?thesis by blast
qed

end
