(* ===== verification/Viper_Main.thy ===== *)
theory Viper_Main
  imports Viper_Checksum
begin

text \<open>
  The part of \<open>code/app/viper/simulator.c\<close> that talks to the network card: shared memory accesses
  through \<open>ioctl\<close>, the dump of the firmware, its round trip through \<open>fw.bin\<close>, and \<open>main\<close>; and the
  small client \<open>code/app/app/simulator.c\<close>. The driver behind \<open>ioctl\<close> and the file system are not
  part of the repository: \<open>ioctl\<close> is a parameter, an arbitrary function of a request and of the
  state of the card, and the outcome of the file operations is a parameter too. The host is
  little-endian with a 64-bit \<open>unsigned long\<close>; \<open>ntohl\<close> and \<open>htonl\<close> are the byte swap.
\<close>

section \<open>Requests and the state of the program\<close>

datatype ioc_cmd = READ_SMEM | WRITE_SMEM | SWATT | SWATT_B | SWATT_READ_SHA1

record acenic_ioc_req =
  cardoffset :: u64
  data :: u32
  nonce_num :: u32
  nonce :: "u32 list"
  checksum :: "u32 list"
  sha1 :: "u32 list"

type_synonym 'w ioctl = "ioc_cmd \<Rightarrow> acenic_ioc_req \<Rightarrow> 'w \<Rightarrow> bool \<times> acenic_ioc_req \<times> 'w"

datatype verdict = Ioctl_fails | CPU_B_trusted | CPU_B_fails | CPU_A_trusted | CPU_A_fails | Sha1 "u32 list"

text \<open>
  \<open>st_nic\<close> is the state of the card, \<open>st_trace\<close> the requests that were made, \<open>st_out\<close> the verdicts
  that were printed.
\<close>

record 'w st =
  st_req :: acenic_ioc_req
  st_nic :: 'w
  st_sim :: sim
  st_file :: "u8 list"
  st_trace :: "(ioc_cmd \<times> acenic_ioc_req) list"
  st_out :: "verdict list"

section \<open>Shared memory\<close>

definition other_endian :: "u32 \<Rightarrow> u32" where
  "other_endian val = push_bit 24 (val AND 0xff) OR push_bit 8 (val AND 0xff00) OR
     drop_bit 8 (val AND 0xff0000) OR drop_bit 24 (val AND 0xff000000)"

abbreviation (input) ntohl :: "u32 \<Rightarrow> u32" where "ntohl \<equiv> other_endian"
abbreviation (input) htonl :: "u32 \<Rightarrow> u32" where "htonl \<equiv> other_endian"

definition call_ioctl :: "'w ioctl \<Rightarrow> ioc_cmd \<Rightarrow> 'w st \<Rightarrow> bool \<times> 'w st" where
  "call_ioctl io cmd s = (let (err, req, w) = io cmd (st_req s) (st_nic s) in
     (err, s\<lparr>st_req := req, st_nic := w, st_trace := st_trace s @ [(cmd, st_req s)]\<rparr>))"

definition read_smem :: "'w ioctl \<Rightarrow> u32 \<Rightarrow> 'w st \<Rightarrow> bool \<times> u32 \<times> 'w st" where
  "read_smem io offset s = (let s = s\<lparr>st_req := (st_req s)\<lparr>cardoffset := ucast offset\<rparr>\<rparr>;
     (err, s) = call_ioctl io READ_SMEM s
   in (\<not> err, other_endian (data (st_req s)), s))"

definition write_smem :: "'w ioctl \<Rightarrow> u32 \<Rightarrow> u32 \<Rightarrow> 'w st \<Rightarrow> bool \<times> 'w st" where
  "write_smem io offset d s =
     (let s = s\<lparr>st_req := (st_req s)\<lparr>cardoffset := ucast offset, data := other_endian d\<rparr>\<rparr>;
        (err, s) = call_ioctl io WRITE_SMEM s
      in (\<not> err, s))"

section \<open>Reading the firmware\<close>

fun read_tbuf_loop :: "'w ioctl \<Rightarrow> nat \<Rightarrow> u32 \<Rightarrow> u32 \<Rightarrow> 'w st \<Rightarrow> u32 list \<times> 'w st" where
  "read_tbuf_loop io 0 current frame_base s = ([], s)"
| "read_tbuf_loop io (Suc n) current frame_base s =
     (let (frame_base, s) =
            (if current AND 0xfffff800 \<noteq> frame_base
             then (current AND 0xfffff800, snd (write_smem io 0x68 (ntohl (current AND 0xfffff800)) s))
             else (frame_base, s));
          (_, v, s) = read_smem io ((current AND 0x7ff) + 0x800) s;
          (vs, s) = read_tbuf_loop io n (current + 4) frame_base s
      in (v # vs, s))"

definition read_tbuf :: "'w ioctl \<Rightarrow> u32 \<Rightarrow> 'w st \<Rightarrow> u32 list \<times> 'w st" where
  "read_tbuf io offset s = (let (_, frame_base, s) = read_smem io 0x68 s;
     (vs, s) = read_tbuf_loop io 8 offset (htonl frame_base) s
   in (map ntohl vs, s))"

partial_function (option) dump_loop :: "'w ioctl \<Rightarrow> u32 \<Rightarrow> u32 \<Rightarrow> nat \<Rightarrow> 'w st \<Rightarrow> 'w st option" where
  "dump_loop io stop p entry s =
     (if p < stop then
        Option.bind (arr_blit (g_swatt_buf (st_sim s)) entry (fst (read_tbuf io p s)))
          (\<lambda>buf. dump_loop io stop (p + 32) (entry + 8)
             ((snd (read_tbuf io p s))\<lparr>st_sim := (st_sim s)\<lparr>g_swatt_buf := buf\<rparr>\<rparr>))
      else Some s)"

definition dump_swatt_code :: "'w ioctl \<Rightarrow> u32 \<Rightarrow> u32 \<Rightarrow> 'w st \<Rightarrow> 'w st option" where
  "dump_swatt_code io tstart tlen s = dump_loop io (tstart + tlen) tstart 0 s"

section \<open>The round trip through fw.bin\<close>

text \<open>
  What the file system does: whether \<open>fopen\<close> gives a file for writing and for reading, and how many
  bytes \<open>fwrite\<close> and \<open>fread\<close> transfer. A null file pointer, and a second \<open>fclose\<close> of a file, are
  undefined behaviour.
\<close>

record fs =
  fopen_w :: bool
  fwrite_n :: nat
  fopen_r :: bool
  fread_n :: nat

definition save_swatt_code :: "fs \<Rightarrow> 'w st \<Rightarrow> 'w st option" where
  "save_swatt_code f s =
     (if fopen_w f
      then Some (s\<lparr>st_file := take (fwrite_n f) (concat (map bytes_of_le32 (g_swatt_buf (st_sim s))))\<rparr>)
      else None)"

definition read_swatt_code :: "fs \<Rightarrow> 'w st \<Rightarrow> 'w st option" where
  "read_swatt_code f s =
     (let s = s\<lparr>st_sim := (st_sim s)\<lparr>g_swatt_buf := replicate FW_WORDS 0\<rparr>\<rparr> in
      if \<not> fopen_r f then None
      else if length (st_file s) \<noteq> 4 * FW_WORDS then Some s
      else let n = min (fread_n f) (4 * FW_WORDS);
               s = s\<lparr>st_sim := (st_sim s)\<lparr>g_swatt_buf :=
                   words_of_bytes (take n (st_file s) @ replicate (4 * FW_WORDS - n) 0)\<rparr>\<rparr> in
           if n \<noteq> 4 * FW_WORDS then None else Some s)"

section \<open>The main program\<close>

text \<open>A step of \<open>main\<close> ends the process with a status or goes on.\<close>

datatype ('s, 'a) outcome = Exit int 's | Go 'a

definition swatt :: "'w ioctl \<Rightarrow> ioc_cmd \<Rightarrow> u32 \<Rightarrow> u32 \<Rightarrow> 'w st \<Rightarrow> bool \<times> u32 \<times> u32 option \<times> 'w st" where
  "swatt io cmd offset exp_num s =
     (let s = s\<lparr>st_req := (st_req s)\<lparr>cardoffset := ucast offset, data := exp_num\<rparr>\<rparr>;
          (err, s) = call_ioctl io cmd s
      in if err then (False, other_endian (data (st_req s)), None, s)
         else (True, other_endian (data (st_req s)), Some (other_endian (ucast (cardoffset (st_req s)))), s))"

text \<open>Stop both CPUs and read their state; the results are the two CPU states and the window base.\<close>

definition main_stop :: "'w ioctl \<Rightarrow> 'w st \<Rightarrow> ('w st, u32 \<times> u32 \<times> u32 \<times> 'w st) outcome" where
  "main_stop io s =
     (let (ok, o_state, s) = read_smem io 0x140 s in
      if \<not> ok then Exit (-1) s
      else let o_state = ntohl o_state; (ok, s) = write_smem io 0x140 (ntohl (o_state OR 0x10000)) s in
      if \<not> ok then Exit (-1) s
      else let (ok, o_state_b, s) = read_smem io 0x240 s in
      if \<not> ok then Exit (-1) s
      else let o_state_b = ntohl o_state_b; (ok, s) = write_smem io 0x240 (ntohl (o_state_b OR 0x10000)) s in
      if \<not> ok then Exit (-1) s
      else let (_, pc, s) = read_smem io 0x144 s;
               (_, pc_b, s) = read_smem io 0x244 s;
               (_, ra, s) = read_smem io 0x1f4 s;
               (_, ra_b, s) = read_smem io 0x2f4 s;
               (_, o_frame_base, s) = read_smem io 0x68 s
           in Go (o_state, o_state_b, htonl o_frame_base, s))"

definition main_simulate :: "'w ioctl \<Rightarrow> fs \<Rightarrow> u32 \<times> u32 \<times> u32 \<times> 'w st \<Rightarrow> 'w st option" where
  "main_simulate io f = (\<lambda>(o_state, o_state_b, o_frame_base, s). do {
     let s = s\<lparr>st_sim := init_buf (st_sim s)\<rparr>;
     s \<leftarrow> dump_swatt_code io SWATT_BASE (4 * of_nat FW_WORDS) s;
     let s = snd (write_smem io 0x68 (ntohl o_frame_base) s);
     s \<leftarrow> save_swatt_code f s;
     s \<leftarrow> read_swatt_code f s;
     m \<leftarrow> generate_nonce (st_sim s);
     m \<leftarrow> checksum_simulator m;
     let s = s\<lparr>st_sim := m\<rparr>;
     let s = snd (write_smem io 0x140 (ntohl (o_state AND NOT 0x10000)) s);
     Some (snd (write_smem io 0x240 (ntohl (o_state_b AND NOT 0x10000)) s))
   })"

text \<open>Copy the pairs of nonces and checksums into the request.\<close>

definition copy_pairs :: "'w st \<Rightarrow> 'w st option" where
  "copy_pairs s = do {
     let n = unat (g_nonce_count (st_sim s));
     let s = s\<lparr>st_req := (st_req s)\<lparr>nonce_num := g_nonce_count (st_sim s)\<rparr>\<rparr>;
     ns \<leftarrow> arr_slice (g_nonce_pool (st_sim s)) 0 n;
     cs \<leftarrow> arr_slice (map fst (g_checksum (st_sim s))) 0 n;
     ns \<leftarrow> arr_blit (nonce (st_req s)) 0 ns;
     cs \<leftarrow> arr_blit (checksum (st_req s)) 0 cs;
     Some (s\<lparr>st_req := (st_req s)\<lparr>nonce := ns, checksum := cs\<rparr>\<rparr>)
   }"

text \<open>Print the last five results: the reads of \<open>checksum[n-6]\<close> to \<open>checksum[n-2]\<close>, and of \<open>nonce\<close>.\<close>

definition last_five :: "u32 list \<Rightarrow> u32 \<Rightarrow> u32 list option" where
  "last_five xs n = do {
     a \<leftarrow> arr_get xs (unat (n - 6));
     b \<leftarrow> arr_get xs (unat (n - 5));
     c \<leftarrow> arr_get xs (unat (n - 4));
     d \<leftarrow> arr_get xs (unat (n - 3));
     e \<leftarrow> arr_get xs (unat (n - 2));
     Some [a, b, c, d, e]
   }"

definition say :: "verdict \<Rightarrow> 'w st \<Rightarrow> 'w st" where
  "say v s = s\<lparr>st_out := st_out s @ [v]\<rparr>"

definition attest_cpu_b :: "'w ioctl \<Rightarrow> u32 \<Rightarrow> 'w st \<Rightarrow> ('w st, 'w st) outcome option" where
  "attest_cpu_b io exp_num s = do {
     s \<leftarrow> copy_pairs s;
     let (ok, ra_b, rb_b, s) = swatt io SWATT_B 0x658 exp_num s;
     if \<not> ok then Some (Exit 0 (say Ioctl_fails s))
     else if ntohl ra_b = 1 then do {
       _ \<leftarrow> last_five (checksum (st_req s)) (nonce_num (st_req s));
       _ \<leftarrow> last_five (nonce (st_req s)) (nonce_num (st_req s));
       Some (Go (say CPU_B_trusted s))
     }
     else Some (Exit 0 (say CPU_B_fails s))
   }"

definition attest_cpu_a :: "'w ioctl \<Rightarrow> u32 \<Rightarrow> 'w st \<Rightarrow> ('w st, 'w st) outcome option" where
  "attest_cpu_a io exp_num s = do {
     s \<leftarrow> copy_pairs s;
     let (ok, ra_b, rb_b, s) = swatt io SWATT 0x658 exp_num s;
     if \<not> ok then Some (Exit 0 (say Ioctl_fails s))
     else if ntohl ra_b = 1 then do {
       _ \<leftarrow> last_five (checksum (st_req s)) (nonce_num (st_req s));
       _ \<leftarrow> last_five (nonce (st_req s)) (nonce_num (st_req s));
       let s = say CPU_A_trusted s;
       let (ok, ra_b, rb_b, s) = swatt io SWATT_READ_SHA1 0x658 exp_num s;
       if \<not> ok then Some (Exit 0 (say Ioctl_fails s))
       else Some (Exit 0 (say (Sha1 (take 5 (sha1 (st_req s)))) s))
     }
     else Some (Exit 0 (say CPU_A_fails s))
   }"

definition req_zero :: acenic_ioc_req where
  "req_zero = \<lparr>cardoffset = 0, data = 0, nonce_num = 0, nonce = replicate NONCE_NUM 0,
     checksum = replicate NONCE_NUM 0, sha1 = replicate 5 0\<rparr>"

text \<open>
  \<open>argc\<close>, the length of the interface name, the effective user and \<open>atoi(argv[2])\<close> are arguments.
  \<open>die\<close> exits with status -1.
\<close>

definition main :: "'w ioctl \<Rightarrow> fs \<Rightarrow> nat \<Rightarrow> nat \<Rightarrow> nat \<Rightarrow> u32 \<Rightarrow> 'w st \<Rightarrow> ('w st, 'w st) outcome option" where
  "main io f argc if_len euid exp_num s =
     (if argc \<noteq> 3 \<or> if_len \<ge> 16 \<or> euid \<noteq> 0 then Some (Exit (-1) s)
      else case main_stop io (s\<lparr>st_req := req_zero\<rparr>) of
        Exit c s \<Rightarrow> Some (Exit c s)
      | Go x \<Rightarrow> do {
          s \<leftarrow> main_simulate io f x;
          r \<leftarrow> attest_cpu_b io exp_num s;
          case r of Exit c s \<Rightarrow> Some (Exit c s) | Go s \<Rightarrow> attest_cpu_a io exp_num s
        })"

section \<open>The small client\<close>

text \<open>
  \<open>code/app/app/simulator.c\<close>: one attestation \<open>ioctl\<close>, timed with \<open>gettimeofday\<close>. The two times,
  in seconds and microseconds, are arguments; the result is the printed difference.
\<close>

definition app_swatt :: "'w ioctl \<Rightarrow> 'w st \<Rightarrow> bool \<times> u32 \<times> 'w st" where
  "app_swatt io s = (let (err, s) = call_ioctl io SWATT s in
     (\<not> err, other_endian (data (st_req s)), s))"

definition app_main ::
  "'w ioctl \<Rightarrow> nat \<Rightarrow> nat \<Rightarrow> nat \<Rightarrow> int \<times> int \<Rightarrow> int \<times> int \<Rightarrow> 'w st \<Rightarrow> ('w st, int \<times> 'w st) outcome" where
  "app_main io argc if_len euid tv tvend s =
     (if argc \<noteq> 3 \<or> if_len \<ge> 16 \<or> euid \<noteq> 0 then Exit 0 s
      else let (ok, o_state, s) = app_swatt io (s\<lparr>st_req := req_zero\<rparr>) in
        if \<not> ok then Exit (-1) s
        else Go ((fst tvend - fst tv) * 1000000 + (snd tvend - snd tv), s))"

section \<open>Byte order and bytes\<close>

lemma byte_masks: "(0xff :: u32) = mask 8" "(0xff00 :: u32) = push_bit 8 (mask 8)"
  "(0xff0000 :: u32) = push_bit 16 (mask 8)" "(0xff000000 :: u32) = push_bit 24 (mask 8)"
  by (simp_all add: mask_eq_exp_minus_1 push_bit_eq_mult)

lemma bit_other_endian:
  "bit (other_endian w) n \<longleftrightarrow> n < 32 \<and>
     bit w (if n < 8 then 24 + n else if n < 16 then 8 + n else if n < 24 then n - 8 else n - 24)"
  unfolding other_endian_def byte_masks
  by (auto simp: bit_simps not_less less_diff_conv2 simp del: push_bit_mask_eq)

lemma other_endian_other_endian [simp]: "other_endian (other_endian w) = w"
  by (rule bit_word_eqI) (auto simp: bit_other_endian)

section \<open>A card with a memory window\<close>

text \<open>
  The behaviour of the card and its driver that the dump relies on: the word at offset \<open>0x68\<close> is
  the base of a window, and the 2048 bytes from offset \<open>0x800\<close> show the memory \<open>mem\<close> of the card
  from that base on.
\<close>

definition nic_window :: "'w ioctl \<Rightarrow> ('w \<Rightarrow> u32) \<Rightarrow> (u32 \<Rightarrow> u32) \<Rightarrow> bool" where
  "nic_window io win mem \<longleftrightarrow> (\<forall>req w.
     (cardoffset req = 0x68 \<longrightarrow>
        (\<exists>w'. io READ_SMEM req w = (False, req\<lparr>data := win w\<rparr>, w') \<and> win w' = win w) \<and>
        (\<exists>w'. io WRITE_SMEM req w = (False, req, w') \<and> win w' = data req)) \<and>
     (\<forall>k < 0x800. cardoffset req = ucast (k + 0x800 :: u32) \<longrightarrow>
        (\<exists>w'. io READ_SMEM req w = (False, req\<lparr>data := mem (win w + k)\<rparr>, w') \<and> win w' = win w)))"

lemma window_split: "(c AND 0xfffff800) + (c AND 0x7ff) = (c :: u32)"
proof -
  have m: "(0xfffff800 :: u32) = NOT (mask 11)" "(0x7ff :: u32) = mask 11"
    by (simp_all add: mask_eq_exp_minus_1)
  have "(c AND NOT (mask 11)) + (c AND mask 11) = (c AND NOT (mask 11)) OR (c AND mask 11)"
    by (rule disjunctive_add) (auto simp: bit_simps)
  also have "\<dots> = c" by (rule bit_word_eqI) (auto simp: bit_simps)
  finally show ?thesis unfolding m .
qed

lemma and_7ff_less: "c AND 0x7ff < (0x800 :: u32)"
  using unat_and_le [of c "0x7ff"] by (simp add: word_less_nat_alt)

lemma nic_windowD:
  assumes "nic_window io win mem"
  shows "cardoffset req = 0x68 \<Longrightarrow>
      \<exists>w'. io READ_SMEM req w = (False, req\<lparr>data := win w\<rparr>, w') \<and> win w' = win w"
    and "cardoffset req = 0x68 \<Longrightarrow> \<exists>w'. io WRITE_SMEM req w = (False, req, w') \<and> win w' = data req"
    and "cardoffset req = ucast (k + 0x800 :: u32) \<Longrightarrow> k < 0x800 \<Longrightarrow>
      \<exists>w'. io READ_SMEM req w = (False, req\<lparr>data := mem (win w + k)\<rparr>, w') \<and> win w' = win w"
  using assms unfolding nic_window_def by blast+

lemma read_window:
  assumes "nic_window io win mem"
  shows "\<exists>s'. read_smem io 0x68 s = (True, other_endian (win (st_nic s)), s') \<and>
           win (st_nic s') = win (st_nic s) \<and> st_sim s' = st_sim s \<and> st_file s' = st_file s"
  using nic_windowD(1) [OF assms, of "(st_req s)\<lparr>cardoffset := 0x68\<rparr>" "st_nic s"]
  by (auto simp: read_smem_def call_ioctl_def)

lemma write_window:
  assumes "nic_window io win mem"
  shows "\<exists>s'. write_smem io 0x68 d s = (True, s') \<and>
           win (st_nic s') = other_endian d \<and> st_sim s' = st_sim s \<and> st_file s' = st_file s"
  using nic_windowD(2) [OF assms, of "(st_req s)\<lparr>cardoffset := 0x68, data := other_endian d\<rparr>" "st_nic s"]
  by (auto simp: write_smem_def call_ioctl_def)

lemma read_through_window:
  assumes "nic_window io win mem"
  shows "\<exists>s'. read_smem io ((c AND 0x7ff) + 0x800) s =
             (True, other_endian (mem (win (st_nic s) + (c AND 0x7ff))), s') \<and>
           win (st_nic s') = win (st_nic s) \<and> st_sim s' = st_sim s \<and> st_file s' = st_file s"
  using nic_windowD(3) [OF assms, of "(st_req s)\<lparr>cardoffset := ucast ((c AND 0x7ff) + 0x800)\<rparr>"
      "c AND 0x7ff" "st_nic s"] and_7ff_less [of c]
  by (auto simp: read_smem_def call_ioctl_def)

lemma read_tbuf_loop_window:
  assumes "nic_window io win mem" and "win (st_nic s) = frame_base"
  shows "\<exists>s'. read_tbuf_loop io n current frame_base s =
             (map (\<lambda>i. other_endian (mem (current + 4 * of_nat i))) [0..<n], s') \<and>
           st_sim s' = st_sim s \<and> st_file s' = st_file s"
  using assms(2)
proof (induction n arbitrary: current frame_base s)
  case (Suc n)
  let ?fb = "current AND 0xfffff800"
  obtain s1 where s1: "(if ?fb \<noteq> frame_base then (?fb, snd (write_smem io 0x68 (ntohl ?fb) s)) else (frame_base, s)) =
      (?fb, s1)" "win (st_nic s1) = ?fb" "st_sim s1 = st_sim s" "st_file s1 = st_file s"
    using write_window [OF assms(1), of "ntohl ?fb" s] Suc.prems by (cases "?fb = frame_base") auto
  obtain s2 where s2: "read_smem io ((current AND 0x7ff) + 0x800) s1 =
      (True, other_endian (mem current), s2)" "win (st_nic s2) = ?fb" "st_sim s2 = st_sim s" "st_file s2 = st_file s"
    using read_through_window [OF assms(1), of current s1] s1(2-) by (auto simp: window_split)
  obtain s3 where s3: "read_tbuf_loop io n (current + 4) ?fb s2 =
      (map (\<lambda>i. other_endian (mem (current + 4 + 4 * of_nat i))) [0..<n], s3)" "st_sim s3 = st_sim s" "st_file s3 = st_file s"
    using Suc.IH [OF s2(2)] s2(3,4) by auto
  have "map (\<lambda>i. other_endian (mem (current + 4 * of_nat i))) [0..<Suc n] =
      other_endian (mem current) # map (\<lambda>i. other_endian (mem (current + 4 + 4 * of_nat i))) [0..<n]"
    by (simp only: upt_conv_Cons map_Suc_upt [symmetric]) (simp add: comp_def algebra_simps)
  then show ?case
    unfolding read_tbuf_loop.simps(2) s1(1) by (simp add: s2(1) s3 del: upt_Suc)
qed simp

lemma read_tbuf_window:
  assumes "nic_window io win mem"
  shows "\<exists>s'. read_tbuf io offset s = (map (\<lambda>i. mem (offset + 4 * of_nat i)) [0..<8], s') \<and>
           st_sim s' = st_sim s \<and> st_file s' = st_file s"
proof -
  obtain s1 where s1: "read_smem io 0x68 s = (True, other_endian (win (st_nic s)), s1)"
      "win (st_nic s1) = win (st_nic s)" "st_sim s1 = st_sim s" "st_file s1 = st_file s"
    using read_window [OF assms, of s] by blast
  obtain s2 where s2: "read_tbuf_loop io 8 offset (win (st_nic s)) s1 =
      (map (\<lambda>i. other_endian (mem (offset + 4 * of_nat i))) [0..<8], s2)" "st_sim s2 = st_sim s1" "st_file s2 = st_file s1"
    using read_tbuf_loop_window [OF assms s1(2), of 8 offset] by blast
  have "map other_endian (map (\<lambda>i. other_endian (mem (offset + 4 * of_nat i))) [0..<8]) =
      map (\<lambda>i. mem (offset + 4 * of_nat i)) [0..<8]"
    by (simp only: map_map comp_def other_endian_other_endian)
  with s1 s2 show ?thesis
    unfolding read_tbuf_def by (simp del: upt_rec_numeral)
qed

text \<open>The image of the firmware in the memory of the card.\<close>

definition nic_image :: "(u32 \<Rightarrow> u32) \<Rightarrow> u32 list" where
  "nic_image mem = map (\<lambda>i. mem (SWATT_BASE + 4 * of_nat i)) [0..<FW_WORDS]"

lemma length_nic_image [simp]: "length (nic_image mem) = FW_WORDS"
  by (simp add: nic_image_def del: upt_rec_numeral)

lemma dump_loop_window:
  assumes io: "nic_window io win mem" and "j \<le> 96" and len: "length (g_swatt_buf (st_sim s)) = FW_WORDS"
    and "take (8 * j) (g_swatt_buf (st_sim s)) = take (8 * j) (nic_image mem)"
  shows "\<exists>s'. dump_loop io (SWATT_BASE + 3072) (SWATT_BASE + 32 * of_nat j) (8 * j) s = Some s' \<and>
           st_sim s' = (st_sim s)\<lparr>g_swatt_buf := nic_image mem\<rparr> \<and> st_file s' = st_file s"
  using assms(2-)
proof (induction "96 - j" arbitrary: j s)
  case 0
  then have "j = 96" by simp
  moreover have "g_swatt_buf (st_sim s) = nic_image mem"
    using 0 by (simp add: nic_image_def)
  ultimately show ?case by (subst dump_loop.simps) simp
next
  case (Suc k)
  let ?p = "SWATT_BASE + 32 * of_nat j :: u32"
  have j: "j < 96" using Suc.hyps(2) by simp
  have "unat (32 * of_nat j :: u32) = 32 * j"
    using j by (simp add: unat_word_ariths unat_of_nat take_bit_nat_eq_self)
  then have p: "?p < SWATT_BASE + 3072"
    using j by (simp add: word_less_nat_alt unat_word_ariths)
  obtain s1 where s1: "read_tbuf io ?p s = (map (\<lambda>i. mem (?p + 4 * of_nat i)) [0..<8], s1)"
      "st_sim s1 = st_sim s" "st_file s1 = st_file s"
    using read_tbuf_window [OF io, of ?p s] by blast
  let ?vs = "map (\<lambda>i. mem (?p + 4 * of_nat i)) [0..<8]"
  define buf where "buf = take (8 * j) (g_swatt_buf (st_sim s)) @ ?vs @ drop (8 * j + 8) (g_swatt_buf (st_sim s))"
  let ?s2 = "s1\<lparr>st_sim := (st_sim s)\<lparr>g_swatt_buf := buf\<rparr>\<rparr>"
  have vs: "?vs = take 8 (drop (8 * j) (nic_image mem))"
  proof (rule nth_equalityI)
    show "length ?vs = length (take 8 (drop (8 * j) (nic_image mem)))" using j by (simp add: nic_image_def)
    fix i
    assume "i < length ?vs"
    then have "i < 8" by simp
    then show "?vs ! i = take 8 (drop (8 * j) (nic_image mem)) ! i"
      using j by (simp add: nic_image_def algebra_simps)
  qed
  have blit: "arr_blit (g_swatt_buf (st_sim s)) (8 * j) ?vs = Some buf"
    using j Suc.prems(2) by (simp add: arr_blit_def buf_def del: upt_rec_numeral)
  have "take (8 * Suc j) buf = take (8 * j) (nic_image mem) @ ?vs"
    using j Suc.prems by (simp add: buf_def del: upt_rec_numeral)
  also have "\<dots> = take (8 * Suc j) (nic_image mem)"
    unfolding vs by (simp add: take_add [symmetric] add.commute)
  finally have tk: "take (8 * Suc j) (g_swatt_buf (st_sim ?s2)) = take (8 * Suc j) (nic_image mem)" by simp
  have ln: "length (g_swatt_buf (st_sim ?s2)) = FW_WORDS" using j Suc.prems(2) by (simp add: buf_def)
  have "k = 96 - Suc j" "Suc j \<le> 96" using Suc.hyps(2) by simp_all
  from Suc.hyps(1) [OF this ln tk] obtain s' where
    s': "dump_loop io (SWATT_BASE + 3072) (SWATT_BASE + 32 * of_nat (Suc j)) (8 * Suc j) ?s2 = Some s'"
      "st_sim s' = (st_sim ?s2)\<lparr>g_swatt_buf := nic_image mem\<rparr>" "st_file s' = st_file ?s2" by blast
  have "?p + 32 = SWATT_BASE + 32 * of_nat (Suc j)" "8 * j + 8 = 8 * Suc j" by (simp_all add: algebra_simps)
  then have "dump_loop io (SWATT_BASE + 3072) ?p (8 * j) s = Some s'"
    by (subst dump_loop.simps) (simp only: p if_True s1(1) fst_conv snd_conv blit Option.bind.bind_lunit s'(1))
  with s' s1(3) show ?case by simp
qed

lemma dump_window:
  assumes "nic_window io win mem" and "length (g_swatt_buf (st_sim s)) = FW_WORDS"
  shows "\<exists>s'. dump_swatt_code io SWATT_BASE 3072 s = Some s' \<and>
           st_sim s' = (st_sim s)\<lparr>g_swatt_buf := nic_image mem\<rparr> \<and> st_file s' = st_file s"
  using dump_loop_window [OF assms(1) _ assms(2), of 0] by (simp add: dump_swatt_code_def)

text \<open>A file system on which every operation succeeds.\<close>

definition fs_ok :: "fs \<Rightarrow> bool" where
  "fs_ok f \<longleftrightarrow> fopen_w f \<and> fopen_r f \<and> fwrite_n f \<ge> 4 * FW_WORDS \<and> fread_n f \<ge> 4 * FW_WORDS"

lemma save_read_swatt_code:
  assumes "fs_ok f" and "length (g_swatt_buf (st_sim s)) = FW_WORDS"
  shows "\<exists>s1 s2. save_swatt_code f s = Some s1 \<and> read_swatt_code f s1 = Some s2 \<and> st_sim s2 = st_sim s"
proof -
  let ?bytes = "concat (map bytes_of_le32 (g_swatt_buf (st_sim s)))"
  have len: "length ?bytes = 4 * FW_WORDS" using assms(2) by simp
  have save: "save_swatt_code f s = Some (s\<lparr>st_file := ?bytes\<rparr>)"
    using assms(1) len by (simp add: save_swatt_code_def fs_ok_def)
  have "min (fread_n f) (4 * FW_WORDS) = 4 * FW_WORDS" using assms(1) by (simp add: fs_ok_def)
  then show ?thesis
    using assms(1) len words_of_bytes_of_words [of "g_swatt_buf (st_sim s)"]
    by (simp add: save read_swatt_code_def Let_def fs_ok_def)
qed

lemma write_smem_sim [simp]: "st_sim (snd (write_smem io offset d s)) = st_sim s"
  by (simp add: write_smem_def call_ioctl_def Let_def case_prod_unfold)

lemma init_buf_ready: "sim_wf s \<Longrightarrow> sim_ready ((init_buf s)\<lparr>g_swatt_buf := nic_image mem\<rparr>)"
  unfolding sim_ready_def sim_wf_def init_buf_def
  by (cases s) (simp only: sim.simps length_replicate length_nic_image simp_thms)

text \<open>
  C10: What the tool attests. On a card with the memory window, with a working file system, the part
  of \<open>main\<close> between stopping and restarting the CPUs returns, and the pool and the checksums it
  leaves are those of the firmware in the card's memory from \<open>SWATT_BASE\<close> on.
\<close>

theorem main_simulate_image:
  assumes "nic_window io win mem" and "fs_ok f" and "sim_wf (st_sim s)"
  shows "\<exists>s' s1. main_simulate io f (o_state, o_state_b, o_frame_base, s) = Some s' \<and>
           generate_nonce ((init_buf (st_sim s))\<lparr>g_swatt_buf := nic_image mem\<rparr>) = Some s1 \<and>
           checksum_simulator s1 = Some (st_sim s') \<and> g_swatt_buf (st_sim s') = nic_image mem"
proof -
  let ?m = "(init_buf (st_sim s))\<lparr>g_swatt_buf := nic_image mem\<rparr>"
  let ?s0 = "s\<lparr>st_sim := init_buf (st_sim s)\<rparr>"
  have "length (g_swatt_buf (st_sim ?s0)) = FW_WORDS" by (simp add: init_buf_def)
  from dump_window [OF assms(1) this] obtain sa where sa:
    "dump_swatt_code io SWATT_BASE 3072 ?s0 = Some sa" "st_sim sa = ?m" by auto
  let ?sb = "snd (write_smem io 0x68 (ntohl o_frame_base) sa)"
  have "length (g_swatt_buf (st_sim ?sb)) = FW_WORDS" by (simp add: sa(2))
  from save_read_swatt_code [OF assms(2) this] obtain sc sd where sd:
    "save_swatt_code f ?sb = Some sc" "read_swatt_code f sc = Some sd" "st_sim sd = ?m"
    by (auto simp: sa(2))
  obtain m1 where m1: "generate_nonce ?m = Some m1" "sim_wf m1" "g_swatt_buf m1 = nic_image mem"
    using generate_nonce_pool [OF init_buf_ready [OF assms(3)]] by auto
  obtain m2 where m2: "checksum_simulator m1 = Some m2" "g_swatt_buf m2 = nic_image mem"
    using checksum_simulator_result [OF m1(2)] m1(3) by auto
  show ?thesis
    using sa(1) sd m1 m2 by (simp add: main_simulate_def)
qed

text \<open>A card that is nothing but its memory and its window.\<close>

definition window_card :: "(u32 \<Rightarrow> u32) \<Rightarrow> u32 ioctl" where
  "window_card mem cmd req w =
     (case cmd of
        READ_SMEM \<Rightarrow> (False, req\<lparr>data := if cardoffset req = 0x68 then w else mem (w + (ucast (cardoffset req) - 0x800))\<rparr>, w)
      | WRITE_SMEM \<Rightarrow> (False, req, if cardoffset req = 0x68 then data req else w)
      | _ \<Rightarrow> (True, req, w))"

lemma unat_ucast_u64 [simp]: "unat (ucast (w :: u32) :: u64) = unat w"
proof -
  have "unat w < 2 ^ LENGTH(32)" by (rule unsigned_less)
  then have "unat w < 2 ^ 64" by simp
  then show ?thesis by (simp add: unsigned_ucast_eq take_bit_nat_eq_self)
qed

lemma ucast_ucast_u64 [simp]: "ucast (ucast (w :: u32) :: u64) = w"
  by (rule bit_word_eqI) (simp add: bit_simps)

lemma ucast_window: "k < 0x800 \<Longrightarrow> (ucast (k + 0x800 :: u32) :: u64) \<noteq> 0x68"
proof
  assume k: "k < 0x800" and "(ucast (k + 0x800 :: u32) :: u64) = 0x68"
  then have "unat (ucast (k + 0x800) :: u64) = 0x68" by simp
  then have "unat (k + 0x800 :: u32) = 0x68" by simp
  moreover have "unat (k + 0x800) = unat k + 0x800"
    using k by (simp add: unat_word_ariths word_less_nat_alt)
  ultimately show False by simp
qed

lemma window_card_window: "nic_window (window_card mem) (\<lambda>w. w) mem"
  by (auto simp: nic_window_def window_card_def ucast_window)

definition st_zero :: "'w \<Rightarrow> 'w st" where
  "st_zero w = \<lparr>st_req = req_zero, st_nic = w, st_sim = sim_init, st_file = [], st_trace = [], st_out = []\<rparr>"

theorem main_simulate_image_witness:
  "\<exists>s' s1. main_simulate (window_card (\<lambda>a. a)) \<lparr>fopen_w = True, fwrite_n = 3072, fopen_r = True, fread_n = 3072\<rparr>
       (0, 0, 0, st_zero 0) = Some s' \<and>
     generate_nonce ((init_buf sim_init)\<lparr>g_swatt_buf := nic_image (\<lambda>a. a)\<rparr>) = Some s1 \<and>
     checksum_simulator s1 = Some (st_sim s') \<and> g_swatt_buf (st_sim s') = nic_image (\<lambda>a. a)"
proof -
  have "fs_ok \<lparr>fopen_w = True, fwrite_n = 3072, fopen_r = True, fread_n = 3072\<rparr>" by (simp add: fs_ok_def)
  moreover have sim: "st_sim (st_zero 0) = sim_init" by (simp add: st_zero_def)
  moreover have "sim_wf (st_sim (st_zero 0))" using sim_init_ready by (simp only: sim sim_ready_def)
  ultimately show ?thesis using main_simulate_image [OF window_card_window] by metis
qed

text \<open>
  Printing the last five results is defined only for 6 to 301 results. With fewer than six
  nonces the indices wrap around and \<open>main\<close> reads outside of the arrays.
\<close>

theorem last_five_defined:
  "length xs = NONCE_NUM \<Longrightarrow> last_five xs n \<noteq> None \<longleftrightarrow> 6 \<le> n \<and> n \<le> 301"
proof
  assume len: "length xs = NONCE_NUM" and some: "last_five xs n \<noteq> None"
  then have a: "unat (n - 6) < NONCE_NUM" and e: "unat (n - 2) < NONCE_NUM"
    by (auto simp: last_five_def arr_get_def split: if_splits)
  have "6 \<le> n"
  proof (rule ccontr)
    assume "\<not> 6 \<le> n"
    then have "unat n < 6" by (simp add: word_le_nat_alt)
    then have "unat n \<in> {0, 1, 2, 3, 4, 5}" by auto
    moreover have "n = of_nat (unat n)" by simp
    ultimately have "n \<in> {0, 1, 2, 3, 4, 5}" by (elim insertE emptyE; simp)
    with a show False by (auto simp: unsigned_minus_1_eq_mask mask_eq_exp_minus_1)
  qed
  moreover from this have "unat (n - 2) = unat n - 2"
    using unat_sub [of 2 n] by (simp add: word_le_nat_alt)
  with e have "n \<le> 301" by (simp add: word_le_nat_alt)
  ultimately show "6 \<le> n \<and> n \<le> 301" ..
next
  assume len: "length xs = NONCE_NUM" and n: "6 \<le> n \<and> n \<le> 301"
  have "unat (n - k) < NONCE_NUM" if "2 \<le> k" "k \<le> 6" for k
  proof -
    have "unat (n - k) = unat n - unat k" using n that by (intro unat_sub) (simp add: word_le_nat_alt)
    moreover have "unat n \<le> 301" "2 \<le> unat k" using n that by (simp_all add: word_le_nat_alt)
    ultimately show ?thesis by linarith
  qed
  from this [of 6] this [of 5] this [of 4] this [of 3] this [of 2] show "last_five xs n \<noteq> None"
    using len by (simp add: last_five_def word_le_nat_alt)
qed

theorem last_five_defined_witness:
  "length (replicate 300 0 :: u32 list) = NONCE_NUM \<and> last_five (replicate 300 0) 5 = None \<and>
   last_five (replicate 300 0) 300 \<noteq> None"
  using last_five_defined [of "replicate 300 0" 5] last_five_defined [of "replicate 300 0" 300]
  by (simp only: length_replicate simp_thms) simp

end
