(* ===== verification/Arm_Machine.thy ===== *)
theory Arm_Machine
  imports Vet_Prelude
begin

text \<open>
  The part of the ARM architecture that the inline assembly of
  \<open>code/nic-driver/smsc/smsc911x.c\<close> uses: registers, status register, word memory, and the
  instructions of the checksum functions with their effect on the flags. A program is a list of
  instructions at a base address; a program point is an index into it, and register 15 reads as the
  address of the instruction plus 8.

  Accesses that are not word aligned are not part of the model (the result is \<open>None\<close>), and neither
  are logical operations that set flags. \<open>push {r13}\<close> and \<open>pop {r13}\<close> are unpredictable in the
  architecture: what they store and load is a parameter.
\<close>

section \<open>Machine state and instructions\<close>

record arm =
  reg :: "nat \<Rightarrow> u32"
  cpsr :: u32
  mem :: "u32 \<Rightarrow> u32"

datatype op2 = Imm u32 | Reg nat | Lsr nat nat | Ror nat nat

datatype cond = AL | CS | NE

datatype dp = Dadd | Dadc | Dsub | Deor | Dorr | Dand | Dbic | Dmov

datatype instr =
    DP cond dp bool nat nat op2
  | MULS nat nat nat
  | Ldr nat nat u32
  | Str nat nat u32
  | BR cond nat
  | MRS nat
  | MSR_c nat
  | PUSH nat
  | POP nat

text \<open>What \<open>push {r13}\<close> stores for a stack pointer, and what \<open>pop {r13}\<close> leaves in it.\<close>

type_synonym sp_ops = "(u32 \<Rightarrow> u32) \<times> (u32 \<Rightarrow> u32 \<Rightarrow> u32)"

section \<open>Flags\<close>

definition flag_N :: "u32 \<Rightarrow> bool" where "flag_N c = bit c 31"
definition flag_Z :: "u32 \<Rightarrow> bool" where "flag_Z c = bit c 30"
definition flag_C :: "u32 \<Rightarrow> bool" where "flag_C c = bit c 29"
definition flag_V :: "u32 \<Rightarrow> bool" where "flag_V c = bit c 28"

definition set_flags :: "bool \<Rightarrow> bool \<Rightarrow> bool \<Rightarrow> bool \<Rightarrow> u32 \<Rightarrow> u32" where
  "set_flags n z c v w = take_bit 28 w OR push_bit 31 (of_bool n) OR push_bit 30 (of_bool z) OR
     push_bit 29 (of_bool c) OR push_bit 28 (of_bool v)"

definition cond_ok :: "cond \<Rightarrow> arm \<Rightarrow> bool" where
  "cond_ok c s = (case c of AL \<Rightarrow> True | CS \<Rightarrow> flag_C (cpsr s) | NE \<Rightarrow> \<not> flag_Z (cpsr s))"

section \<open>Execution\<close>

definition rreg :: "u32 \<Rightarrow> nat \<Rightarrow> arm \<Rightarrow> nat \<Rightarrow> u32" where
  "rreg A pc s k = (if k = 15 then A + 4 * of_nat pc + 8 else reg s k)"

definition op2_val :: "u32 \<Rightarrow> nat \<Rightarrow> arm \<Rightarrow> op2 \<Rightarrow> u32" where
  "op2_val A pc s q =
     (case q of
        Imm v \<Rightarrow> v
      | Reg k \<Rightarrow> rreg A pc s k
      | Lsr k n \<Rightarrow> drop_bit n (rreg A pc s k)
      | Ror k n \<Rightarrow> word_rotr n (rreg A pc s k))"

text \<open>Sum, carry and overflow of an addition with carry.\<close>

definition add_carry :: "u32 \<Rightarrow> u32 \<Rightarrow> bool \<Rightarrow> u32 \<times> bool \<times> bool" where
  "add_carry x y c = (let r = x + y + of_bool c in
     (r, unat x + unat y + of_bool c \<ge> 2 ^ 32, sint r \<noteq> sint x + sint y + of_bool c))"

definition dp_result :: "dp \<Rightarrow> u32 \<Rightarrow> u32 \<Rightarrow> u32 \<Rightarrow> u32 \<times> (bool \<times> bool) option" where
  "dp_result d c x y =
     (case d of
        Dadd \<Rightarrow> (let (r, c, v) = add_carry x y False in (r, Some (c, v)))
      | Dadc \<Rightarrow> (let (r, c, v) = add_carry x y (flag_C c) in (r, Some (c, v)))
      | Dsub \<Rightarrow> (let (r, c, v) = add_carry x (NOT y) True in (r, Some (c, v)))
      | Deor \<Rightarrow> (x XOR y, None)
      | Dorr \<Rightarrow> (x OR y, None)
      | Dand \<Rightarrow> (x AND y, None)
      | Dbic \<Rightarrow> (x AND NOT y, None)
      | Dmov \<Rightarrow> (y, None))"

definition arm_exec :: "sp_ops \<Rightarrow> u32 \<Rightarrow> nat \<Rightarrow> instr \<Rightarrow> arm \<Rightarrow> arm option" where
  "arm_exec sp A pc i s =
     (case i of
        DP cnd d f k n q \<Rightarrow>
          if \<not> cond_ok cnd s then Some s
          else let (r, cv) = dp_result d (cpsr s) (rreg A pc s n) (op2_val A pc s q);
                   t = s\<lparr>reg := (reg s)(k := r)\<rparr> in
               if \<not> f then Some t
               else (case cv of
                       Some (c, v) \<Rightarrow> Some (t\<lparr>cpsr := set_flags (bit r 31) (r = 0) c v (cpsr s)\<rparr>)
                     | None \<Rightarrow> None)
      | MULS k m n \<Rightarrow> let r = reg s m * reg s n in
          Some (s\<lparr>reg := (reg s)(k := r),
            cpsr := set_flags (bit r 31) (r = 0) (flag_C (cpsr s)) (flag_V (cpsr s)) (cpsr s)\<rparr>)
      | Ldr k n d \<Rightarrow> let a = rreg A pc s n + d in
          if a AND 3 \<noteq> 0 then None else Some (s\<lparr>reg := (reg s)(k := mem s a)\<rparr>)
      | Str k n d \<Rightarrow> let a = rreg A pc s n + d in
          if a AND 3 \<noteq> 0 then None else Some (s\<lparr>mem := (mem s)(a := rreg A pc s k)\<rparr>)
      | BR c t \<Rightarrow> Some s
      | MRS k \<Rightarrow> Some (s\<lparr>reg := (reg s)(k := cpsr s)\<rparr>)
      | MSR_c k \<Rightarrow> Some (s\<lparr>cpsr := (cpsr s AND 0xffffff00) OR (reg s k AND 0xff)\<rparr>)
      | PUSH k \<Rightarrow> let a = reg s 13 - 4 in
          if a AND 3 \<noteq> 0 then None
          else Some (s\<lparr>mem := (mem s)(a := if k = 13 then fst sp (reg s 13) else reg s k), reg := (reg s)(13 := a)\<rparr>)
      | POP k \<Rightarrow> let a = reg s 13; v = mem s a in
          if a AND 3 \<noteq> 0 then None
          else Some (s\<lparr>reg := (if k = 13 then (reg s)(13 := snd sp v (a + 4)) else (reg s)(13 := a + 4, k := v))\<rparr>))"

fun is_branch :: "instr \<Rightarrow> bool" where
  "is_branch (BR c t) = True"
| "is_branch _ = False"

definition arm_step :: "sp_ops \<Rightarrow> instr list \<Rightarrow> u32 \<Rightarrow> nat \<Rightarrow> arm \<Rightarrow> (nat \<times> arm) option" where
  "arm_step sp code A pc s = do {
     i \<leftarrow> arr_get code pc;
     s' \<leftarrow> arm_exec sp A pc i s;
     Some (case i of BR c t \<Rightarrow> if cond_ok c s then t else pc + 1 | _ \<Rightarrow> pc + 1, s')
   }"

text \<open>A run ends when it falls off the end of the program.\<close>

definition arm_run :: "sp_ops \<Rightarrow> instr list \<Rightarrow> u32 \<Rightarrow> nat \<Rightarrow> arm \<Rightarrow> arm option" where
  "arm_run sp code A pc s = goto_run (arm_step sp code A) (\<lambda>pc. pc = length code) pc s"

text \<open>A list of instructions without branches, executed from program point \<open>pc\<close>.\<close>

fun arm_exec_list :: "sp_ops \<Rightarrow> u32 \<Rightarrow> nat \<Rightarrow> instr list \<Rightarrow> arm \<Rightarrow> arm option" where
  "arm_exec_list sp A pc [] s = Some s"
| "arm_exec_list sp A pc (i # is) s = Option.bind (arm_exec sp A pc i s) (arm_exec_list sp A (pc + 1) is)"

lemma arm_exec_list_append:
  "arm_exec_list sp A pc (is @ js) s =
     Option.bind (arm_exec_list sp A pc is s) (arm_exec_list sp A (pc + length is) js)"
  by (induction "is" arbitrary: pc s) (auto split: Option.bind_splits)

lemma arm_run_end [simp]: "arm_run sp code A (length code) s = Some s"
  by (simp add: arm_run_def goto_run_final)

lemma arm_run_branch:
  assumes "pc < length code" and "code ! pc = BR c t"
  shows "arm_run sp code A pc s = arm_run sp code A (if cond_ok c s then t else pc + 1) s"
  unfolding arm_run_def
  by (rule goto_run_step) (use assms in \<open>simp_all add: arm_step_def arm_exec_def\<close>)

lemma arm_run_straight:
  assumes "code = pre @ is @ post" and "length pre = pc" and "list_all (\<lambda>i. \<not> is_branch i) is"
    and "arm_exec_list sp A pc is s = Some s'"
  shows "arm_run sp code A pc s = arm_run sp code A (pc + length is) s'"
  using assms
proof (induction "is" arbitrary: pre pc s)
  case (Cons i "is")
  from Cons.prems(4) obtain t where t: "arm_exec sp A pc i s = Some t" "arm_exec_list sp A (pc + 1) is t = Some s'"
    by (auto simp: bind_eq_Some_conv)
  have "arm_step sp code A pc s = Some (pc + 1, t)"
    using t(1) Cons.prems(1-3) by (cases i) (auto simp: arm_step_def nth_append)
  moreover have "pc \<noteq> length code" using Cons.prems(1,2) by simp
  ultimately have "arm_run sp code A pc s = arm_run sp code A (pc + 1) t"
    unfolding arm_run_def by (intro goto_run_step) simp_all
  also have "\<dots> = arm_run sp code A (pc + 1 + length is) s'"
    by (rule Cons.IH [of "pre @ [i]"]) (use Cons.prems t(2) in simp_all)
  finally show ?case by simp
qed simp

lemma arm_run_slice:
  assumes "take (length is) (drop pc code) = is" and "pc \<le> length code"
    and "list_all (\<lambda>i. \<not> is_branch i) is" and "arm_exec_list sp A pc is s = Some s'"
  shows "arm_run sp code A pc s = arm_run sp code A (pc + length is) s'"
proof (rule arm_run_straight [OF _ _ assms(3,4)])
  show "code = take pc code @ is @ drop (pc + length is) code"
    by (metis append_take_drop_id assms(1) add.commute drop_drop)
  show "length (take pc code) = pc" using assms(2) by simp
qed

text \<open>Instructions that do not read register 15 behave the same everywhere.\<close>

fun op2_pc :: "op2 \<Rightarrow> bool" where
  "op2_pc (Imm v) = False"
| "op2_pc (Reg k) = (k = 15)"
| "op2_pc (Lsr k n) = (k = 15)"
| "op2_pc (Ror k n) = (k = 15)"

fun reads_pc :: "instr \<Rightarrow> bool" where
  "reads_pc (DP c d f k n q) = (n = 15 \<or> op2_pc q)"
| "reads_pc (Ldr k n d) = (n = 15)"
| "reads_pc (Str k n d) = (n = 15 \<or> k = 15)"
| "reads_pc _ = False"

lemma op2_val_pc: "\<not> op2_pc q \<Longrightarrow> op2_val A pc s q = op2_val A pc' s q"
  by (cases q) (simp_all add: op2_val_def rreg_def)

lemma arm_exec_pc: "\<not> reads_pc i \<Longrightarrow> arm_exec sp A pc i s = arm_exec sp A pc' i s"
  by (cases i) (simp_all add: arm_exec_def rreg_def Let_def op2_val_pc [of _ A pc s pc'])

lemma arm_exec_list_pc:
  "list_all (\<lambda>i. \<not> reads_pc i) is \<Longrightarrow> arm_exec_list sp A pc is s = arm_exec_list sp A pc' is s"
proof (induction "is" arbitrary: pc pc' s)
  case (Cons i "is")
  then have "arm_exec_list sp A (pc + 1) is = arm_exec_list sp A (pc' + 1) is" by (intro ext) simp
  with Cons.prems arm_exec_pc [of i sp A pc s pc'] show ?case by simp
qed simp

lemma aligned_iff: "w AND 3 = 0 \<longleftrightarrow> unat (w :: u32) mod 4 = 0"
proof -
  have m: "(3 :: u32) = mask 2" by (simp add: mask_eq_exp_minus_1)
  have "unat (w AND 3) = unat w mod 4"
    unfolding m by (simp add: take_bit_eq_mod unat_mod flip: take_bit_eq_mask)
  then show ?thesis by (metis unat_eq_zero)
qed

lemma aligned_add:
  assumes "a AND 3 = 0" and "b AND 3 = (0 :: u32)"
  shows "(a + b) AND 3 = 0"
proof -
  have "unat (a + b) mod 4 = (unat a + unat b) mod 4"
    by (simp add: unat_word_ariths mod_mod_cancel)
  then show ?thesis using assms unfolding aligned_iff by presburger
qed

section \<open>Instructions that only compute\<close>

text \<open>
  An instruction of this kind does not touch memory, does not write the registers \<open>K\<close>, and leaves
  the low 28 bits of the status register alone.
\<close>

fun calm :: "nat set \<Rightarrow> instr \<Rightarrow> bool" where
  "calm K (DP c d f k n q) = (k \<notin> K \<and> (f \<longrightarrow> d \<in> {Dadd, Dadc, Dsub}))"
| "calm K (MULS k m n) = (k \<notin> K)"
| "calm K (MRS k) = (k \<notin> K)"
| "calm K _ = False"

lemma take_bit_set_flags [simp]: "take_bit 28 (set_flags n z c v w) = take_bit 28 w"
  by (rule bit_word_eqI) (auto simp: set_flags_def bit_simps)

lemma flags_set [simp]: "flag_Z (set_flags n z c v w) = z" "flag_C (set_flags n z c v w) = c"
  by (auto simp: set_flags_def flag_Z_def flag_C_def bit_simps)

definition calm_result :: "nat set \<Rightarrow> arm \<Rightarrow> (arm \<Rightarrow> arm option) \<Rightarrow> bool" where
  "calm_result K s f \<longleftrightarrow> (\<exists>r c. (\<forall>m. f (s\<lparr>mem := m\<rparr>) = Some (s\<lparr>reg := r, cpsr := c, mem := m\<rparr>)) \<and>
     (\<forall>k \<in> K. r k = reg s k) \<and> take_bit 28 c = take_bit 28 (cpsr s))"

lemma reg_mem_swap: "s\<lparr>mem := m, reg := r\<rparr> = s\<lparr>reg := r, mem := m\<rparr>"
  by simp

lemma rreg_mem [simp]: "rreg A pc (s\<lparr>mem := m\<rparr>) k = rreg A pc s k"
  by (simp add: rreg_def)

lemma op2_val_mem [simp]: "op2_val A pc (s\<lparr>mem := m\<rparr>) q = op2_val A pc s q"
  by (simp add: op2_val_def cong: op2.case_cong)

lemma cond_ok_mem [simp]: "cond_ok c (s\<lparr>mem := m\<rparr>) = cond_ok c s"
  by (simp add: cond_ok_def cong: cond.case_cong)

lemma dp_result_flags: "d \<in> {Dadd, Dadc, Dsub} \<Longrightarrow> \<exists>r c v. dp_result d w x y = (r, Some (c, v))"
  by (auto simp: dp_result_def add_carry_def Let_def)

lemma calm_DP:
  assumes "k \<notin> K" and "f \<longrightarrow> d \<in> {Dadd, Dadc, Dsub}"
  shows "calm_result K s (arm_exec sp A pc (DP cnd d f k n q))"
proof (cases "cond_ok cnd s")
  case True
  obtain r cv where r: "dp_result d (cpsr s) (rreg A pc s n) (op2_val A pc s q) = (r, cv)" by fastforce
  show ?thesis
  proof (cases f)
    case f: True
    with assms(2) r obtain c v where "cv = Some (c, v)"
      using dp_result_flags [of d "cpsr s" "rreg A pc s n" "op2_val A pc s q"] by auto
    with True r f show ?thesis
      unfolding calm_result_def using assms(1)
      by (intro exI [of _ "(reg s)(k := r)"] exI [of _ "set_flags (bit r 31) (r = 0) c v (cpsr s)"])
        (auto simp: arm_exec_def)
  next
    case False
    with True r show ?thesis
      unfolding calm_result_def using assms(1)
      by (intro exI [of _ "(reg s)(k := r)"] exI [of _ "cpsr s"]) (auto simp: arm_exec_def)
  qed
next
  case False
  then show ?thesis
    unfolding calm_result_def
    by (intro exI [of _ "reg s"] exI [of _ "cpsr s"]) (simp add: arm_exec_def)
qed

lemma arm_exec_calm: "calm K i \<Longrightarrow> calm_result K s (arm_exec sp A pc i)"
proof (cases i)
  case (DP c d f k n q)
  assume "calm K i"
  with DP show ?thesis by (simp add: calm_DP del: insert_iff)
next
  case (MULS k m n)
  assume "calm K i"
  let ?r = "reg s m * reg s n"
  from MULS \<open>calm K i\<close> show ?thesis
    unfolding calm_result_def
    by (intro exI [of _ "(reg s)(k := ?r)"]
        exI [of _ "set_flags (bit ?r 31) (?r = 0) (flag_C (cpsr s)) (flag_V (cpsr s)) (cpsr s)"])
      (auto simp: arm_exec_def Let_def)
next
  case (MRS k)
  assume "calm K i"
  with MRS show ?thesis
    unfolding calm_result_def
    by (intro exI [of _ "(reg s)(k := cpsr s)"] exI [of _ "cpsr s"]) (auto simp: arm_exec_def)
qed simp_all

lemma arm_exec_list_calm: "list_all (calm K) is \<Longrightarrow> calm_result K s (arm_exec_list sp A pc is)"
proof (induction "is" arbitrary: pc s)
  case Nil
  then show ?case unfolding calm_result_def by (intro exI [of _ "reg s"] exI [of _ "cpsr s"]) simp
next
  case (Cons i "is")
  from Cons.prems obtain r c where i: "\<And>m. arm_exec sp A pc i (s\<lparr>mem := m\<rparr>) = Some (s\<lparr>reg := r, cpsr := c, mem := m\<rparr>)"
    "\<forall>k \<in> K. r k = reg s k" "take_bit 28 c = take_bit 28 (cpsr s)"
    using arm_exec_calm [of K i s sp A pc] by (auto simp: calm_result_def)
  let ?t = "s\<lparr>reg := r, cpsr := c\<rparr>"
  from Cons obtain r' c' where "\<And>m. arm_exec_list sp A (pc + 1) is (?t\<lparr>mem := m\<rparr>) = Some (?t\<lparr>reg := r', cpsr := c', mem := m\<rparr>)"
    "\<forall>k \<in> K. r' k = reg ?t k" "take_bit 28 c' = take_bit 28 (cpsr ?t)"
    using Cons.IH [of ?t "pc + 1"] by (auto simp: calm_result_def)
  with i show ?case
    unfolding calm_result_def by (intro exI [of _ r'] exI [of _ c']) simp
qed

section \<open>Stack\<close>

text \<open>The word the (\<open>j\<close> + 1)-st \<open>push\<close> writes when the stack pointer is \<open>S\<close> at the start.\<close>

definition slot :: "u32 \<Rightarrow> nat \<Rightarrow> u32" where
  "slot S j = S - 4 * of_nat (Suc j)"

fun push_mem :: "(nat \<Rightarrow> u32) \<Rightarrow> u32 \<Rightarrow> nat \<Rightarrow> (u32 \<Rightarrow> u32) \<Rightarrow> u32 \<Rightarrow> u32" where
  "push_mem v S 0 m = m"
| "push_mem v S (Suc n) m = (push_mem v S n m)(slot S n := v n)"

definition pushed :: "sp_ops \<Rightarrow> arm \<Rightarrow> nat \<Rightarrow> u32" where
  "pushed sp s k = (if k = 13 then fst sp (reg s 13 - 4 * 13) else reg s k)"

lemma aligned_dvd: "w AND 3 = 0 \<longleftrightarrow> (4 :: u32) dvd w"
proof -
  have m: "(3 :: u32) = mask 2" by (simp add: mask_eq_exp_minus_1)
  show ?thesis unfolding m by (simp add: take_bit_eq_0_iff flip: take_bit_eq_mask)
qed

lemma slot_aligned [simp]: "S AND 3 = 0 \<Longrightarrow> slot S j AND 3 = 0"
  unfolding aligned_dvd slot_def by simp

lemma words_distinct:
  assumes "j < 2 ^ 30" and "k < 2 ^ 30"
  shows "(4 * of_nat j :: u32) = 4 * of_nat k \<longleftrightarrow> j = k"
proof
  assume e: "(4 * of_nat j :: u32) = 4 * of_nat k"
  have "unat (4 * of_nat j :: u32) = 4 * j" if "j < 2 ^ 30" for j
    using that by (simp add: unat_word_ariths unat_of_nat)
  with assms e show "j = k" by (metis mult_left_cancel zero_neq_numeral)
qed simp

lemma slot_inj: "j < 64 \<Longrightarrow> k < 64 \<Longrightarrow> slot S j = slot S k \<longleftrightarrow> j = k"
  unfolding slot_def using words_distinct [of "Suc j" "Suc k"] by (auto simp del: of_nat_Suc)

lemma push_mem_slot: "k < n \<Longrightarrow> n \<le> 64 \<Longrightarrow> push_mem v S n m (slot S k) = v k"
  by (induction n) (auto simp: slot_inj less_Suc_eq)

lemma push_mem_other: "(\<And>k. k < n \<Longrightarrow> a \<noteq> slot S k) \<Longrightarrow> push_mem v S n m a = m a"
  by (induction n) auto

lemma push_mem_cong: "m a = m' a \<Longrightarrow> push_mem v S n m a = push_mem v S n m' a"
  by (induction n) auto

lemma arm_exec_pushes:
  assumes "reg s 13 AND 3 = 0"
  shows "arm_exec_list sp A pc (map PUSH [0..<n]) s =
    Some (s\<lparr>reg := (reg s)(13 := reg s 13 - 4 * of_nat n), mem := push_mem (pushed sp s) (reg s 13) n (mem s)\<rparr>)"
proof (induction n)
  case 0
  then show ?case by (cases s) simp
next
  case (Suc n)
  define t where "t = s\<lparr>reg := (reg s)(13 := reg s 13 - 4 * of_nat n),
    mem := push_mem (pushed sp s) (reg s 13) n (mem s)\<rparr>"
  have e: "reg s 13 - 4 * of_nat n - 4 = slot (reg s 13) n" "reg s 13 - 4 * of_nat (Suc n) = slot (reg s 13) n"
    by (simp_all add: slot_def)
  have "arm_exec sp A (pc + n) (PUSH n) t =
      Some (t\<lparr>mem := (mem t)(slot (reg s 13) n := pushed sp s n), reg := (reg t)(13 := slot (reg s 13) n)\<rparr>)"
    using assms by (simp add: arm_exec_def t_def e pushed_def Let_def)
  also have "t\<lparr>mem := (mem t)(slot (reg s 13) n := pushed sp s n), reg := (reg t)(13 := slot (reg s 13) n)\<rparr> =
      s\<lparr>reg := (reg s)(13 := slot (reg s 13) n), mem := push_mem (pushed sp s) (reg s 13) (Suc n) (mem s)\<rparr>"
    by (simp add: t_def)
  finally have "arm_exec sp A (pc + n) (PUSH n) t =
      Some (s\<lparr>reg := (reg s)(13 := slot (reg s 13) n), mem := push_mem (pushed sp s) (reg s 13) (Suc n) (mem s)\<rparr>)" .
  moreover have "arm_exec_list sp A pc (map PUSH [0..<n]) s = Some t" using Suc by (simp only: t_def)
  ultimately show ?case unfolding e(2) by (simp add: arm_exec_list_append fun_upd_def del: push_mem.simps)
qed

lemma arm_exec_pops:
  assumes "S AND 3 = 0"
  shows "reg t 13 = S - 4 * of_nat n \<Longrightarrow> (13 < n \<longrightarrow> snd sp (mem t (slot S 13)) (S - 4 * 13) = S - 4 * 13) \<Longrightarrow>
    arm_exec_list sp A pc (map POP (rev [0..<n])) t =
    Some (t\<lparr>reg := \<lambda>k. if k = 13 then S else if k < n then mem t (slot S k) else reg t k\<rparr>)"
proof (induction n arbitrary: t pc)
  case 0
  then have "(\<lambda>k. if k = 13 then S else if k < 0 then mem t (slot S k) else reg t k) = reg t" by auto
  then show ?case by (simp only:) simp
next
  case (Suc n)
  have a: "reg t 13 = slot S n" "slot S n + 4 = S - 4 * of_nat n" using Suc.prems(1) by (simp_all add: slot_def)
  define t' where "t' = t\<lparr>reg := (if n = 13 then (reg t)(13 := snd sp (mem t (slot S n)) (S - 4 * of_nat n))
      else (reg t)(13 := S - 4 * of_nat n, n := mem t (slot S n)))\<rparr>"
  have "arm_exec sp A pc (POP n) t = Some t'"
    using assms unfolding arm_exec_def t'_def a instr.case Let_def by (auto simp: a(2))
  moreover have "reg t' 13 = S - 4 * of_nat n"
    using Suc.prems(2) by (cases "n = 13") (simp_all add: t'_def)
  moreover have "mem t' = mem t" by (simp add: t'_def)
  ultimately have "arm_exec_list sp A pc (map POP (rev [0..<Suc n])) t =
      Some (t'\<lparr>reg := \<lambda>k. if k = 13 then S else if k < n then mem t (slot S k) else reg t' k\<rparr>)"
    using Suc.IH [of t' "pc + 1"] Suc.prems(2) by (simp cong: if_cong)
  also have "t'\<lparr>reg := \<lambda>k. if k = 13 then S else if k < n then mem t (slot S k) else reg t' k\<rparr> =
      t\<lparr>reg := \<lambda>k. if k = 13 then S else if k < Suc n then mem t (slot S k) else reg t k\<rparr>"
    by (auto simp: t'_def fun_eq_iff less_Suc_eq)
  finally show ?case .
qed

end
