(* ===== verification/Arm_Swatt.thy ===== *)
theory Arm_Swatt
  imports Arm_Machine
begin

text \<open>
  The checksum functions of \<open>code/nic-driver/smsc/smsc911x.c\<close>, as the assembler sees them:
  \<open>swattARM\<close>, its forged version \<open>swattARM_db_attack\<close> and \<open>swattARM_fake\<close>. Every instruction of
  the inline assembly is an element of a list, in the order of the source; the macros and the
  blocks of the loop are lists of their own. Labels are positions counted from the label after
  \<open>.align 8\<close>, which is at the 256-byte aligned address \<open>A\<close>.

  The interface \<open>checksum_code\<close> states what the analysis relies on: the code runs its eight blocks
  one after the other on the memory seen at a fixed distance. The original and the forged code are
  interpreted with distance 0 and \<open>0x500\<close>, and the results are proved once: the functions return,
  restore the registers, depend only on 768 bytes of memory, and the forged version computes the
  checksum of a copy.
\<close>

section \<open>The code\<close>

definition save_reglist :: "instr list" where
  "save_reglist =
    [PUSH 0, PUSH 1, PUSH 2, PUSH 3, PUSH 4, PUSH 5, PUSH 6, PUSH 7, PUSH 8, PUSH 9, PUSH 10,
     PUSH 11, PUSH 12, PUSH 13, PUSH 14]"

definition restore_reglist :: "instr list" where
  "restore_reglist =
    [POP 14, POP 13, POP 12, POP 11, POP 10, POP 9, POP 8, POP 7, POP 6, POP 5, POP 4, POP 3,
     POP 2, POP 1, POP 0]"

definition init_checksum :: "instr list" where
  "init_checksum =
    [Ldr 1 0 0, Ldr 2 0 4, Ldr 3 0 8, Ldr 4 0 12, Ldr 5 0 16, Ldr 6 0 20, Ldr 7 0 24, Ldr 8 0 28,
     Ldr 9 0 32, Ldr 10 0 36, Ldr 11 0 40, Ldr 12 0 44, Ldr 14 0 48]"

definition save_checksum :: "instr list" where
  "save_checksum =
    [Str 1 0 0, Str 2 0 4, Str 3 0 8, Str 4 0 12, Str 5 0 16, Str 6 0 20, Str 7 0 24, Str 8 0 28,
     Str 9 0 32, Str 10 0 36, Str 11 0 40, Str 12 0 44, Str 14 0 48]"

definition no_block1 :: "instr list" where
  "no_block1 =
    [MULS 11 10 10, DP AL Dorr False 11 11 (Imm 0x5), DP AL Dadd False 10 10 (Reg 11),
     DP AL Deor False 11 15 (Lsr 10 24), DP AL Dand False 11 11 (Imm 0xfffffffc), Ldr 9 11 0,
     DP AL Dadc True 1 1 (Reg 9), DP AL Deor False 1 1 (Reg 7), DP AL Dadc True 1 1 (Reg 10),
     DP AL Deor False 1 1 (Reg 15), DP AL Deor False 1 1 (Reg 8), DP AL Dadc False 1 1 (Reg 11),
     MRS 11, DP AL Deor False 1 1 (Reg 11), DP CS Dadd False 1 12 (Ror 1 1),
     DP AL Deor False 10 10 (Reg 1), DP AL Dsub False 12 12 (Imm 1)]"

definition no_block2 :: "instr list" where
  "no_block2 =
    [MULS 11 10 10, DP AL Dorr False 11 11 (Imm 0x5), DP AL Dadd False 10 10 (Reg 11),
     DP AL Deor False 11 15 (Lsr 10 24), DP AL Dand False 11 11 (Imm 0xfffffffc), Ldr 9 11 0,
     DP AL Deor False 2 2 (Reg 9), DP AL Dadc True 2 2 (Reg 7), DP AL Deor False 2 2 (Reg 10),
     DP AL Dadc True 2 2 (Reg 15), DP AL Dadc True 2 2 (Reg 1), DP AL Deor False 2 2 (Reg 11),
     MRS 11, DP AL Dadc True 2 2 (Reg 11), DP AL Deor False 2 12 (Ror 2 1),
     DP AL Dadc False 10 10 (Reg 2), DP AL Dsub False 12 12 (Imm 1)]"

definition no_block3 :: "instr list" where
  "no_block3 =
    [MULS 11 10 10, DP AL Dorr False 11 11 (Imm 0x5), DP AL Dadd False 10 10 (Reg 11),
     DP AL Deor False 11 15 (Lsr 10 24), DP AL Dand False 11 11 (Imm 0xfffffffc), Ldr 9 11 0,
     DP AL Dadc True 3 3 (Reg 9), DP AL Deor False 3 3 (Reg 1), DP AL Dadc True 3 3 (Reg 10),
     DP AL Deor False 3 3 (Reg 15), DP AL Deor False 3 3 (Reg 2), DP AL Dadc False 3 3 (Reg 11),
     MRS 11, DP AL Deor False 3 3 (Reg 11), DP CS Dadd False 3 12 (Ror 3 1),
     DP AL Deor False 10 10 (Reg 3), DP AL Dsub False 12 12 (Imm 1)]"

definition no_block4 :: "instr list" where
  "no_block4 =
    [MULS 11 10 10, DP AL Dorr False 11 11 (Imm 0x5), DP AL Dadd False 10 10 (Reg 11),
     DP AL Deor False 11 15 (Lsr 10 24), DP AL Dand False 11 11 (Imm 0xfffffffc), Ldr 9 11 0,
     DP AL Deor False 4 4 (Reg 9), DP AL Dadc True 4 4 (Reg 1), DP AL Deor False 4 4 (Reg 10),
     DP AL Dadc True 4 4 (Reg 15), DP AL Dadc True 4 4 (Reg 3), DP AL Deor False 4 4 (Reg 11),
     MRS 11, DP AL Dadc True 4 4 (Reg 11), DP AL Deor False 4 12 (Ror 4 1),
     DP AL Dadc False 10 10 (Reg 4), DP AL Dsub False 12 12 (Imm 1)]"

definition no_block5 :: "instr list" where
  "no_block5 =
    [MULS 11 10 10, DP AL Dorr False 11 11 (Imm 0x5), DP AL Dadd False 10 10 (Reg 11),
     DP AL Deor False 11 15 (Lsr 10 24), DP AL Dand False 11 11 (Imm 0xfffffffc), Ldr 9 11 0,
     DP AL Dadc True 5 5 (Reg 9), DP AL Deor False 5 5 (Reg 3), DP AL Dadc True 5 5 (Reg 10),
     DP AL Deor False 5 5 (Reg 15), DP AL Deor False 5 5 (Reg 4), DP AL Dadc False 5 5 (Reg 11),
     MRS 11, DP AL Deor False 5 5 (Reg 11), DP CS Dadd False 5 12 (Ror 5 1),
     DP AL Deor False 10 10 (Reg 5), DP AL Dsub False 12 12 (Imm 1)]"

definition no_block6 :: "instr list" where
  "no_block6 =
    [MULS 11 10 10, DP AL Dorr False 11 11 (Imm 0x5), DP AL Dadd False 10 10 (Reg 11),
     DP AL Deor False 11 15 (Lsr 10 24), DP AL Dand False 11 11 (Imm 0xfffffffc), Ldr 9 11 0,
     DP AL Deor False 6 6 (Reg 9), DP AL Dadc True 6 6 (Reg 3), DP AL Deor False 6 6 (Reg 10),
     DP AL Dadc True 6 6 (Reg 15), DP AL Dadc True 6 6 (Reg 5), DP AL Deor False 6 6 (Reg 11),
     MRS 11, DP AL Dadc True 6 6 (Reg 11), DP AL Deor False 6 12 (Ror 6 1),
     DP AL Dadc False 10 10 (Reg 6), DP AL Dsub False 12 12 (Imm 1)]"

definition no_block7 :: "instr list" where
  "no_block7 =
    [MULS 11 10 10, DP AL Dorr False 11 11 (Imm 0x5), DP AL Dadd False 10 10 (Reg 11),
     DP AL Deor False 11 15 (Lsr 10 24), DP AL Dand False 11 11 (Imm 0xfffffffc), Ldr 9 11 0,
     DP AL Dadc True 7 7 (Reg 9), DP AL Deor False 7 7 (Reg 5), DP AL Dadc True 7 7 (Reg 10),
     DP AL Deor False 7 7 (Reg 15), DP AL Deor False 7 7 (Reg 6), DP AL Dadc False 7 7 (Reg 11),
     MRS 11, DP AL Deor False 7 7 (Reg 11), DP CS Dadd False 7 12 (Ror 7 1),
     DP AL Deor False 10 10 (Reg 7), DP AL Dsub False 12 12 (Imm 1)]"

definition no_block8 :: "instr list" where
  "no_block8 =
    [MULS 11 10 10, DP AL Dorr False 11 11 (Imm 0x5), DP AL Dadd False 10 10 (Reg 11),
     DP AL Deor False 11 15 (Lsr 10 24), DP AL Dand False 11 11 (Imm 0xfffffffc), Ldr 9 11 0,
     DP AL Deor False 8 8 (Reg 9), DP AL Dadc True 8 8 (Reg 5), DP AL Deor False 8 8 (Reg 10),
     DP AL Dadc True 8 8 (Reg 15), DP AL Dadc True 8 8 (Reg 7), DP AL Deor False 8 8 (Reg 11),
     MRS 11, DP AL Dadc True 8 8 (Reg 11), DP AL Deor False 8 12 (Ror 8 1),
     DP AL Dadc False 10 10 (Reg 8), DP AL Dsub True 12 12 (Imm 1)]"

definition swattARM_code :: "instr list" where
  "swattARM_code =
     init_checksum @
     [MRS 11, DP AL Dorr False 11 11 (Imm 0xd3), MSR_c 11] @
     no_block1 @
     no_block2 @
     no_block3 @
     no_block4 @
     no_block5 @
     no_block6 @
     no_block7 @
     no_block8 @
     [BR NE 16] @
     save_checksum @
     [MRS 11, DP AL Dbic False 11 11 (Imm 0xc0), MSR_c 11] @
     restore_reglist"

definition db_block1 :: "instr list" where
  "db_block1 =
    [MULS 11 10 10, DP AL Dorr False 11 11 (Imm 0x5), DP AL Dadd False 10 10 (Reg 11),
     DP AL Deor False 11 15 (Lsr 10 24), DP AL Dand False 11 11 (Imm 0xfffffffc), BR AL 167,
     DP AL Dadc True 1 1 (Reg 9), DP AL Deor False 1 1 (Reg 7), DP AL Dadc True 1 1 (Reg 10),
     DP AL Deor False 1 1 (Reg 15), DP AL Deor False 1 1 (Reg 8), DP AL Dadc False 1 1 (Reg 11),
     MRS 11, DP AL Deor False 1 1 (Reg 11), DP CS Dadd False 1 12 (Ror 1 1),
     DP AL Deor False 10 10 (Reg 1), DP AL Dsub False 12 12 (Imm 1)]"

definition db_block2 :: "instr list" where
  "db_block2 =
    [MULS 11 10 10, DP AL Dorr False 11 11 (Imm 0x5), DP AL Dadd False 10 10 (Reg 11),
     DP AL Deor False 11 15 (Lsr 10 24), DP AL Dand False 11 11 (Imm 0xfffffffc), BR AL 171,
     DP AL Deor False 2 2 (Reg 9), DP AL Dadc True 2 2 (Reg 7), DP AL Deor False 2 2 (Reg 10),
     DP AL Dadc True 2 2 (Reg 15), DP AL Dadc True 2 2 (Reg 1), DP AL Deor False 2 2 (Reg 11),
     MRS 11, DP AL Dadc True 2 2 (Reg 11), DP AL Deor False 2 12 (Ror 2 1),
     DP AL Dadc False 10 10 (Reg 2), DP AL Dsub False 12 12 (Imm 1)]"

definition db_block3 :: "instr list" where
  "db_block3 =
    [MULS 11 10 10, DP AL Dorr False 11 11 (Imm 0x5), DP AL Dadd False 10 10 (Reg 11),
     DP AL Deor False 11 15 (Lsr 10 24), DP AL Dand False 11 11 (Imm 0xfffffffc), BR AL 175,
     DP AL Dadc True 3 3 (Reg 9), DP AL Deor False 3 3 (Reg 1), DP AL Dadc True 3 3 (Reg 10),
     DP AL Deor False 3 3 (Reg 15), DP AL Deor False 3 3 (Reg 2), DP AL Dadc False 3 3 (Reg 11),
     MRS 11, DP AL Deor False 3 3 (Reg 11), DP CS Dadd False 3 12 (Ror 3 1),
     DP AL Deor False 10 10 (Reg 3), DP AL Dsub False 12 12 (Imm 1)]"

definition db_block4 :: "instr list" where
  "db_block4 =
    [MULS 11 10 10, DP AL Dorr False 11 11 (Imm 0x5), DP AL Dadd False 10 10 (Reg 11),
     DP AL Deor False 11 15 (Lsr 10 24), DP AL Dand False 11 11 (Imm 0xfffffffc), BR AL 179,
     DP AL Deor False 4 4 (Reg 9), DP AL Dadc True 4 4 (Reg 1), DP AL Deor False 4 4 (Reg 10),
     DP AL Dadc True 4 4 (Reg 15), DP AL Dadc True 4 4 (Reg 3), DP AL Deor False 4 4 (Reg 11),
     MRS 11, DP AL Dadc True 4 4 (Reg 11), DP AL Deor False 4 12 (Ror 4 1),
     DP AL Dadc False 10 10 (Reg 4), DP AL Dsub False 12 12 (Imm 1)]"

definition db_block5 :: "instr list" where
  "db_block5 =
    [MULS 11 10 10, DP AL Dorr False 11 11 (Imm 0x5), DP AL Dadd False 10 10 (Reg 11),
     DP AL Deor False 11 15 (Lsr 10 24), DP AL Dand False 11 11 (Imm 0xfffffffc), BR AL 183,
     DP AL Dadc True 5 5 (Reg 9), DP AL Deor False 5 5 (Reg 3), DP AL Dadc True 5 5 (Reg 10),
     DP AL Deor False 5 5 (Reg 15), DP AL Deor False 5 5 (Reg 4), DP AL Dadc False 5 5 (Reg 11),
     MRS 11, DP AL Deor False 5 5 (Reg 11), DP CS Dadd False 5 12 (Ror 5 1),
     DP AL Deor False 10 10 (Reg 5), DP AL Dsub False 12 12 (Imm 1)]"

definition db_block6 :: "instr list" where
  "db_block6 =
    [MULS 11 10 10, DP AL Dorr False 11 11 (Imm 0x5), DP AL Dadd False 10 10 (Reg 11),
     DP AL Deor False 11 15 (Lsr 10 24), DP AL Dand False 11 11 (Imm 0xfffffffc), BR AL 187,
     DP AL Deor False 6 6 (Reg 9), DP AL Dadc True 6 6 (Reg 3), DP AL Deor False 6 6 (Reg 10),
     DP AL Dadc True 6 6 (Reg 15), DP AL Dadc True 6 6 (Reg 5), DP AL Deor False 6 6 (Reg 11),
     MRS 11, DP AL Dadc True 6 6 (Reg 11), DP AL Deor False 6 12 (Ror 6 1),
     DP AL Dadc False 10 10 (Reg 6), DP AL Dsub False 12 12 (Imm 1)]"

definition db_block7 :: "instr list" where
  "db_block7 =
    [MULS 11 10 10, DP AL Dorr False 11 11 (Imm 0x5), DP AL Dadd False 10 10 (Reg 11),
     DP AL Deor False 11 15 (Lsr 10 24), DP AL Dand False 11 11 (Imm 0xfffffffc), BR AL 191,
     DP AL Dadc True 7 7 (Reg 9), DP AL Deor False 7 7 (Reg 5), DP AL Dadc True 7 7 (Reg 10),
     DP AL Deor False 7 7 (Reg 15), DP AL Deor False 7 7 (Reg 6), DP AL Dadc False 7 7 (Reg 11),
     MRS 11, DP AL Deor False 7 7 (Reg 11), DP CS Dadd False 7 12 (Ror 7 1),
     DP AL Deor False 10 10 (Reg 7), DP AL Dsub False 12 12 (Imm 1)]"

definition db_block8 :: "instr list" where
  "db_block8 =
    [MULS 11 10 10, DP AL Dorr False 11 11 (Imm 0x5), DP AL Dadd False 10 10 (Reg 11),
     DP AL Deor False 11 15 (Lsr 10 24), DP AL Dand False 11 11 (Imm 0xfffffffc), BR AL 195,
     DP AL Deor False 8 8 (Reg 9), DP AL Dadc True 8 8 (Reg 5), DP AL Deor False 8 8 (Reg 10),
     DP AL Dadc True 8 8 (Reg 15), DP AL Dadc True 8 8 (Reg 7), DP AL Deor False 8 8 (Reg 11),
     MRS 11, DP AL Dadc True 8 8 (Reg 11), DP AL Deor False 8 12 (Ror 8 1),
     DP AL Dadc False 10 10 (Reg 8), DP AL Dsub True 12 12 (Imm 1)]"

definition swattARM_db_attack_code :: "instr list" where
  "swattARM_db_attack_code =
     init_checksum @
     [MRS 11, DP AL Dorr False 11 11 (Imm 0xd3), MSR_c 11] @
     db_block1 @
     db_block2 @
     db_block3 @
     db_block4 @
     db_block5 @
     db_block6 @
     db_block7 @
     db_block8 @
     [BR NE 16] @
     save_checksum @
     [BR AL 199, DP AL Dadd False 11 11 (Imm 0x500), Ldr 9 11 0, DP AL Dsub False 11 11 (Imm 0x500),
     BR AL 22, DP AL Dadd False 11 11 (Imm 0x500), Ldr 9 11 0, DP AL Dsub False 11 11 (Imm 0x500),
     BR AL 39, DP AL Dadd False 11 11 (Imm 0x500), Ldr 9 11 0, DP AL Dsub False 11 11 (Imm 0x500),
     BR AL 56, DP AL Dadd False 11 11 (Imm 0x500), Ldr 9 11 0, DP AL Dsub False 11 11 (Imm 0x500),
     BR AL 73, DP AL Dadd False 11 11 (Imm 0x500), Ldr 9 11 0, DP AL Dsub False 11 11 (Imm 0x500),
     BR AL 90, DP AL Dadd False 11 11 (Imm 0x500), Ldr 9 11 0, DP AL Dsub False 11 11 (Imm 0x500),
     BR AL 107, DP AL Dadd False 11 11 (Imm 0x500), Ldr 9 11 0, DP AL Dsub False 11 11 (Imm 0x500),
     BR AL 124, DP AL Dadd False 11 11 (Imm 0x500), Ldr 9 11 0, DP AL Dsub False 11 11 (Imm 0x500),
     BR AL 141, MRS 11, DP AL Dbic False 11 11 (Imm 0xc0), MSR_c 11] @
     restore_reglist"

definition dp_block1 :: "instr list" where
  "dp_block1 =
    [MULS 11 10 10, DP AL Dorr False 11 11 (Imm 0x5), DP AL Dadd False 10 10 (Reg 11),
     DP AL Deor False 11 15 (Lsr 10 24), DP AL Dand False 11 11 (Imm 0xfffffffc), Ldr 9 11 0,
     DP AL Dadc True 1 1 (Reg 9), DP AL Deor False 1 1 (Reg 7), DP AL Dadc True 1 1 (Reg 10),
     DP AL Deor False 1 1 (Reg 15), DP AL Deor False 1 1 (Reg 8), DP AL Dadc False 1 1 (Reg 11),
     MRS 11, DP AL Deor False 1 1 (Reg 11), DP CS Dadd False 1 12 (Ror 1 1),
     DP AL Deor False 10 10 (Reg 1), DP AL Dsub False 12 12 (Imm 1)]"

definition dp_block2 :: "instr list" where
  "dp_block2 =
    [MULS 11 10 10, DP AL Dorr False 11 11 (Imm 0x5), DP AL Dadd False 10 10 (Reg 11),
     DP AL Deor False 11 15 (Lsr 10 24), DP AL Dand False 11 11 (Imm 0xfffffffc), Ldr 9 11 0,
     DP AL Deor False 2 2 (Reg 9), DP AL Dadc True 2 2 (Reg 7), DP AL Deor False 2 2 (Reg 10),
     DP AL Dadc True 2 2 (Reg 15), DP AL Dadc True 2 2 (Reg 1), DP AL Deor False 2 2 (Reg 11),
     MRS 11, DP AL Dadc True 2 2 (Reg 11), DP AL Deor False 2 12 (Ror 2 1),
     DP AL Dadc False 10 10 (Reg 2), DP AL Dsub False 12 12 (Imm 1)]"

definition dp_block3 :: "instr list" where
  "dp_block3 =
    [MULS 11 10 10, DP AL Dorr False 11 11 (Imm 0x5), DP AL Dadd False 10 10 (Reg 11),
     DP AL Deor False 11 15 (Lsr 10 24), DP AL Dand False 11 11 (Imm 0xfffffffc), Ldr 9 11 0,
     DP AL Dadc True 3 3 (Reg 9), DP AL Deor False 3 3 (Reg 1), DP AL Dadc True 3 3 (Reg 10),
     DP AL Deor False 3 3 (Reg 15), DP AL Deor False 3 3 (Reg 2), DP AL Dadc False 3 3 (Reg 11),
     MRS 11, DP AL Deor False 3 3 (Reg 11), DP CS Dadd False 3 12 (Ror 3 1),
     DP AL Deor False 10 10 (Reg 3), DP AL Dsub False 12 12 (Imm 1)]"

definition dp_block4 :: "instr list" where
  "dp_block4 =
    [MULS 11 10 10, DP AL Dorr False 11 11 (Imm 0x5), DP AL Dadd False 10 10 (Reg 11),
     DP AL Deor False 11 15 (Lsr 10 24), DP AL Dand False 11 11 (Imm 0xfffffffc), Ldr 9 11 0,
     DP AL Deor False 4 4 (Reg 9), DP AL Dadc True 4 4 (Reg 1), DP AL Deor False 4 4 (Reg 10),
     DP AL Dadc True 4 4 (Reg 15), DP AL Dadc True 4 4 (Reg 3), DP AL Deor False 4 4 (Reg 11),
     MRS 11, DP AL Dadc True 4 4 (Reg 11), DP AL Deor False 4 12 (Ror 4 1),
     DP AL Dadc False 10 10 (Reg 4), DP AL Dsub False 12 12 (Imm 1)]"

definition dp_block5 :: "instr list" where
  "dp_block5 =
    [MULS 11 10 10, DP AL Dorr False 11 11 (Imm 0x5), DP AL Dadd False 10 10 (Reg 11),
     DP AL Deor False 11 15 (Lsr 10 24), DP AL Dand False 11 11 (Imm 0xfffffffc), Ldr 9 11 0,
     DP AL Dadc True 5 5 (Reg 9), DP AL Deor False 5 5 (Reg 3), DP AL Dadc True 5 5 (Reg 10),
     DP AL Deor False 5 5 (Reg 15), DP AL Deor False 5 5 (Reg 4), DP AL Dadc False 5 5 (Reg 11),
     MRS 11, DP AL Deor False 5 5 (Reg 11), DP CS Dadd False 5 12 (Ror 5 1),
     DP AL Deor False 10 10 (Reg 5), DP AL Dsub False 12 12 (Imm 1)]"

definition dp_block6 :: "instr list" where
  "dp_block6 =
    [MULS 11 10 10, DP AL Dorr False 11 11 (Imm 0x5), DP AL Dadd False 10 10 (Reg 11),
     DP AL Deor False 11 15 (Lsr 10 24), DP AL Dand False 11 11 (Imm 0xfffffffc), Ldr 9 11 0,
     DP AL Deor False 6 6 (Reg 9), DP AL Dadc True 6 6 (Reg 3), DP AL Deor False 6 6 (Reg 10),
     DP AL Dadc True 6 6 (Reg 15), DP AL Dadc True 6 6 (Reg 5), DP AL Deor False 6 6 (Reg 11),
     MRS 11, DP AL Dadc True 6 6 (Reg 11), DP AL Deor False 6 12 (Ror 6 1),
     DP AL Dadc False 10 10 (Reg 6), DP AL Dsub False 12 12 (Imm 1)]"

definition dp_block7 :: "instr list" where
  "dp_block7 =
    [MULS 11 10 10, DP AL Dorr False 11 11 (Imm 0x5), DP AL Dadd False 10 10 (Reg 11),
     DP AL Deor False 11 15 (Lsr 10 24), DP AL Dand False 11 11 (Imm 0xfffffffc), Ldr 9 11 0,
     DP AL Dadc True 7 7 (Reg 9), DP AL Deor False 7 7 (Reg 5), DP AL Dadc True 7 7 (Reg 10),
     DP AL Deor False 7 7 (Reg 15), DP AL Deor False 7 7 (Reg 6), DP AL Dadc False 7 7 (Reg 11),
     MRS 11, DP AL Deor False 7 7 (Reg 11), DP CS Dadd False 7 12 (Ror 7 1),
     DP AL Deor False 10 10 (Reg 7), DP AL Dsub False 12 12 (Imm 1)]"

definition dp_block8 :: "instr list" where
  "dp_block8 =
    [MULS 11 10 10, DP AL Dorr False 11 11 (Imm 0x5), DP AL Dadd False 10 10 (Reg 11),
     DP AL Deor False 11 15 (Lsr 10 24), DP AL Dand False 11 11 (Imm 0xfffffffc), Ldr 9 11 0,
     DP AL Deor False 8 8 (Reg 9), DP AL Dadc True 8 8 (Reg 5), DP AL Deor False 8 8 (Reg 10),
     DP AL Dadc True 8 8 (Reg 15), DP AL Dadc True 8 8 (Reg 7), DP AL Deor False 8 8 (Reg 11),
     MRS 11, DP AL Dadc True 8 8 (Reg 11), DP AL Deor False 8 12 (Ror 8 1),
     DP AL Dadc False 10 10 (Reg 8), DP AL Dsub True 12 12 (Imm 1)]"

definition swattARM_fake_code :: "instr list" where
  "swattARM_fake_code =
     init_checksum @
     [MRS 11, DP AL Dorr False 11 11 (Imm 0xd3), MSR_c 11] @
     dp_block1 @
     dp_block2 @
     dp_block3 @
     dp_block4 @
     dp_block5 @
     dp_block6 @
     dp_block7 @
     dp_block8 @
     [BR NE 16] @
     save_checksum @
     [MRS 11, DP AL Dbic False 11 11 (Imm 0xc0), MSR_c 11] @
     restore_reglist"

section \<open>The functions\<close>

text \<open>
  \<open>challenge[11] = counter\<close>, the check of the size, then the assembly with the address of the
  challenge in register \<open>ra\<close>, which the compiler chooses.
\<close>

definition call_checksum ::
  "instr list \<Rightarrow> u32 \<Rightarrow> sp_ops \<Rightarrow> u32 \<Rightarrow> nat \<Rightarrow> u32 \<Rightarrow> int \<Rightarrow> arm \<Rightarrow> arm option" where
  "call_checksum code counter sp A ra challenge sz s =
     (let s = s\<lparr>mem := (mem s)(challenge + 44 := counter)\<rparr> in
      if sz \<noteq> 52 then Some s
      else do {
        let s = s\<lparr>reg := (reg s)(ra := challenge)\<rparr>;
        s \<leftarrow> arm_exec_list sp A 0 (save_reglist @ [DP AL Dmov False 0 0 (Reg ra)]) s;
        arm_run sp code A 0 s
      })"

definition swattARM :: "sp_ops \<Rightarrow> u32 \<Rightarrow> nat \<Rightarrow> u32 \<Rightarrow> int \<Rightarrow> arm \<Rightarrow> arm option" where
  "swattARM = call_checksum swattARM_code 0x1000000"

definition swattARM_db_attack :: "sp_ops \<Rightarrow> u32 \<Rightarrow> nat \<Rightarrow> u32 \<Rightarrow> int \<Rightarrow> arm \<Rightarrow> arm option" where
  "swattARM_db_attack = call_checksum swattARM_db_attack_code 0x1000000"

definition swattARM_fake :: "sp_ops \<Rightarrow> u32 \<Rightarrow> nat \<Rightarrow> u32 \<Rightarrow> int \<Rightarrow> arm \<Rightarrow> arm option" where
  "swattARM_fake = call_checksum swattARM_fake_code (16 * 1024 * 16)"

section \<open>The blocks\<close>

definition no_blocks :: "instr list list" where
  "no_blocks = [no_block1, no_block2, no_block3, no_block4, no_block5, no_block6, no_block7, no_block8]"

lemmas no_block_defs = no_block1_def no_block2_def no_block3_def no_block4_def no_block5_def
  no_block6_def no_block7_def no_block8_def

text \<open>The start of a block: the next random number and the address to read.\<close>

definition block_pre :: "instr list" where
  "block_pre = [MULS 11 10 10, DP AL Dorr False 11 11 (Imm 0x5), DP AL Dadd False 10 10 (Reg 11),
     DP AL Deor False 11 15 (Lsr 10 24), DP AL Dand False 11 11 (Imm 0xfffffffc)]"

definition block_mid :: "nat \<Rightarrow> instr list" where
  "block_mid k = butlast (drop 6 (no_blocks ! k))"

abbreviation loop_kept :: "nat set" where
  "loop_kept \<equiv> {0, 12, 13, 14}"

lemma block_cases:
  assumes "k < (8 :: nat)"
  obtains "k = 0" | "k = 1" | "k = 2" | "k = 3" | "k = 4" | "k = 5" | "k = 6" | "k = 7"
  using assms by linarith

lemma block_shape:
  assumes "k < 8"
  shows "no_blocks ! k = block_pre @ [Ldr 9 11 0] @ block_mid k @ [DP AL Dsub (k = 7) 12 12 (Imm 1)]"
    and "list_all (calm loop_kept) (block_mid k)" and "length (block_mid k) = 10"
proof -
  have "no_blocks ! k = block_pre @ [Ldr 9 11 0] @ block_mid k @ [DP AL Dsub (k = 7) 12 12 (Imm 1)] \<and>
      list_all (calm loop_kept) (block_mid k) \<and> length (block_mid k) = 10"
    using assms
    by (cases rule: block_cases; simp add: no_blocks_def block_mid_def block_pre_def no_block_defs)
  then show "no_blocks ! k = block_pre @ [Ldr 9 11 0] @ block_mid k @ [DP AL Dsub (k = 7) 12 12 (Imm 1)]"
    and "list_all (calm loop_kept) (block_mid k)" and "length (block_mid k) = 10" by auto
qed

text \<open>The words a block can read.\<close>

definition window :: "u32 \<Rightarrow> u32 \<Rightarrow> bool" where
  "window A a \<longleftrightarrow> a - A < 0x300"

lemma low_byte: "(0xff :: u32) = mask 8" "(3 :: u32) = mask 2" "(0xfffffffc :: u32) = NOT (mask 2)"
  by (simp_all add: mask_eq_exp_minus_1)

lemma byte_split: "(w AND NOT (mask 8)) + (w AND mask 8) = (w :: u32)"
proof -
  have "(w AND NOT (mask 8)) + (w AND mask 8) = (w AND NOT (mask 8)) OR (w AND mask 8)"
    by (rule disjunctive_add) (auto simp: bit_simps)
  also have "\<dots> = w" by (rule bit_word_eqI) (auto simp: bit_simps)
  finally show ?thesis .
qed

lemma daddr_high:
  "(((p XOR drop_bit 24 x) AND 0xfffffffc) AND NOT (mask 8)) = (p AND NOT (mask 8) :: u32)"
  unfolding low_byte by (rule bit_word_eqI) (auto simp: bit_simps dest: bit_imp_le_length)

lemma daddr_aligned: "((p XOR drop_bit 24 x) AND 0xfffffffc) AND 3 = (0 :: u32)"
  unfolding low_byte by (rule bit_word_eqI) (auto simp: bit_simps)

lemma window_daddr:
  assumes "A AND 0xff = 0" and "c AND NOT (mask 8) \<le> 0x200"
  shows "window A (((A + c) XOR drop_bit 24 x) AND 0xfffffffc)"
proof -
  define a where "a = ((A + c) XOR drop_bit 24 x) AND 0xfffffffc"
  define z where "z = a AND mask 8"
  define h where "h = c AND NOT (mask 8)"
  have m: "unat (w AND mask 8) = unat w mod 256" for w :: u32
    by (simp add: take_bit_eq_mod unat_mod flip: take_bit_eq_mask)
  have "unat A mod 256 = 0" using m [of A] assms(1) unfolding low_byte by simp
  moreover have "unat (A + c) mod 256 = (unat A + unat c) mod 256"
    by (simp add: unat_word_ariths mod_mod_cancel)
  ultimately have "unat ((A + c) AND mask 8) = unat (c AND mask 8)"
    unfolding m by (simp add: mod_add_left_eq [symmetric, of "unat A"] del: mod_add_left_eq)
  then have low: "(A + c) AND mask 8 = c AND mask 8" by (rule unsigned_word_eqI)
  have "((A + c) AND NOT (mask 8)) + (c AND mask 8) = A + c"
    using byte_split [of "A + c"] unfolding low .
  also have "\<dots> = (A + h) + (c AND mask 8)"
    using byte_split [of c] unfolding h_def by (simp add: add.assoc)
  finally have "(A + c) AND NOT (mask 8) = A + h" by (rule add_right_imp_eq)
  then have "a AND NOT (mask 8) = A + h" unfolding a_def daddr_high .
  then have "a = A + h + z" using byte_split [of a] unfolding z_def by simp
  then have e: "a - A = h + z" by (simp add: add.assoc)
  have "unat z \<le> unat (mask 8 :: u32)" unfolding z_def by (rule unat_and_le)
  then have "unat z \<le> 0xff" by (simp add: mask_eq_exp_minus_1)
  moreover have "unat h \<le> 0x200" using assms(2) by (simp add: word_le_nat_alt h_def)
  ultimately have "unat (h + z) < 0x300" by (simp add: unat_word_ariths)
  then show ?thesis unfolding window_def a_def [symmetric] e by (simp add: word_less_nat_alt)
qed

section \<open>One block\<close>

definition block_exec :: "sp_ops \<Rightarrow> u32 \<Rightarrow> nat \<Rightarrow> arm \<Rightarrow> arm option" where
  "block_exec sp A k = arm_exec_list sp A (16 + 17 * k) (no_blocks ! k)"

definition pre_state :: "u32 \<Rightarrow> nat \<Rightarrow> arm \<Rightarrow> arm" where
  "pre_state A pc s = (let r = reg s 10 * reg s 10; x = reg s 10 + (r OR 5) in
     s\<lparr>reg := (reg s)(10 := x, 11 := ((A + (4 * of_nat pc + 20)) XOR drop_bit 24 x) AND 0xfffffffc),
       cpsr := set_flags (bit r 31) (r = 0) (flag_C (cpsr s)) (flag_V (cpsr s)) (cpsr s)\<rparr>)"

lemma block_pre_exec: "arm_exec_list sp A pc block_pre s = Some (pre_state A pc s)"
  by (simp add: block_pre_def arm_exec_def dp_result_def add_carry_def rreg_def op2_val_def cond_ok_def
      pre_state_def Let_def fun_upd_twist algebra_simps)

text \<open>
  A block reads one word, in the window; its result is a function of that word, and it keeps what
  the loop relies on.
\<close>

definition block_ok :: "nat \<Rightarrow> arm \<Rightarrow> arm \<Rightarrow> bool" where
  "block_ok k s t \<longleftrightarrow> reg t 0 = reg s 0 \<and> reg t 13 = reg s 13 \<and> reg t 14 = reg s 14 \<and>
     reg t 12 = reg s 12 - 1 \<and> take_bit 28 (cpsr t) = take_bit 28 (cpsr s) \<and>
     (k = 7 \<longrightarrow> flag_Z (cpsr t) = (reg t 12 = 0))"

lemma pre_state_mem: "pre_state A pc (s\<lparr>mem := m\<rparr>) = (pre_state A pc s)\<lparr>mem := m\<rparr>"
  by (simp add: pre_state_def Let_def)

lemma pre_state_daddr:
  assumes "k < 8" and "A AND 0xff = 0"
  shows "window A (reg (pre_state A (16 + 17 * k) s) 11)"
proof -
  have "(4 * of_nat (16 + 17 * k) + 20) AND NOT (mask 8) \<le> (0x200 :: u32)"
    using assms(1) by (cases rule: block_cases) (simp_all add: mask_eq_exp_minus_1)
  then show ?thesis using window_daddr [OF assms(2)] by (simp add: pre_state_def Let_def)
qed

lemma pre_state_aligned: "reg (pre_state A pc s) 11 AND 3 = 0"
  using daddr_aligned by (simp add: pre_state_def Let_def)

lemma block_rest:
  assumes "k < 8"
  shows "\<exists>t. (\<forall>m. arm_exec_list sp A pc (block_mid k @ [DP AL Dsub (k = 7) 12 12 (Imm 1)]) (s\<lparr>mem := m\<rparr>) =
           Some (t\<lparr>mem := m\<rparr>)) \<and> block_ok k s t"
proof -
  obtain r c where rc: "\<And>m. arm_exec_list sp A pc (block_mid k) (s\<lparr>mem := m\<rparr>) = Some (s\<lparr>reg := r, cpsr := c, mem := m\<rparr>)"
    "\<forall>i \<in> loop_kept. r i = reg s i" "take_bit 28 c = take_bit 28 (cpsr s)"
    using arm_exec_list_calm [OF block_shape(2) [OF assms], of s sp A pc] by (auto simp: calm_result_def)
  let ?x = "r 12 - 1"
  define c' where "c' = (if k = 7 then set_flags (bit ?x 31) (?x = 0) (fst (snd (add_carry (r 12) (NOT 1) True)))
     (snd (snd (add_carry (r 12) (NOT 1) True))) c else c)"
  have x: "r 12 + NOT 1 + 1 = ?x" by (simp add: not_eq_complement)
  have "arm_exec_list sp A pc (block_mid k @ [DP AL Dsub (k = 7) 12 12 (Imm 1)]) (s\<lparr>mem := m\<rparr>) =
      Some (s\<lparr>reg := r(12 := ?x), cpsr := c', mem := m\<rparr>)" for m
    by (simp add: arm_exec_list_append rc(1) arm_exec_def cond_ok_def dp_result_def add_carry_def rreg_def
        op2_val_def Let_def x c'_def)
  moreover have "block_ok k s (s\<lparr>reg := r(12 := ?x), cpsr := c'\<rparr>)"
    using rc(2,3) by (simp add: block_ok_def c'_def)
  ultimately show ?thesis by (intro exI [of _ "s\<lparr>reg := r(12 := ?x), cpsr := c'\<rparr>"]) simp
qed

abbreviation block_tail :: "nat \<Rightarrow> instr list" where
  "block_tail k \<equiv> block_mid k @ [DP AL Dsub (k = 7) 12 12 (Imm 1)]"

lemma block_result:
  fixes s A k
  assumes k: "k < 8"
  defines "p \<equiv> pre_state A (16 + 17 * k) s"
  shows "\<exists>f. (\<forall>m v. arm_exec_list sp A (22 + 17 * k) (block_tail k) (p\<lparr>reg := (reg p)(9 := v), mem := m\<rparr>) =
             Some ((f v)\<lparr>mem := m\<rparr>)) \<and>
           (\<forall>m. block_exec sp A k (s\<lparr>mem := m\<rparr>) = Some ((f (m (reg p 11)))\<lparr>mem := m\<rparr>)) \<and>
           (\<forall>v. block_ok k s (f v))"
proof -
  have "\<exists>t. (\<forall>m. arm_exec_list sp A (22 + 17 * k) (block_tail k) (p\<lparr>reg := (reg p)(9 := v), mem := m\<rparr>) =
      Some (t\<lparr>mem := m\<rparr>)) \<and> block_ok k (p\<lparr>reg := (reg p)(9 := v)\<rparr>) t" for v
    using block_rest [OF k, of sp A "22 + 17 * k" "p\<lparr>reg := (reg p)(9 := v)\<rparr>"] by simp
  then obtain f where f: "\<And>m v. arm_exec_list sp A (22 + 17 * k) (block_tail k) (p\<lparr>reg := (reg p)(9 := v), mem := m\<rparr>) =
      Some ((f v)\<lparr>mem := m\<rparr>)" "\<And>v. block_ok k (p\<lparr>reg := (reg p)(9 := v)\<rparr>) (f v)"
    by metis
  have "block_exec sp A k (s\<lparr>mem := m\<rparr>) = Some ((f (m (reg p 11)))\<lparr>mem := m\<rparr>)" for m
  proof -
    have "block_exec sp A k (s\<lparr>mem := m\<rparr>) =
        arm_exec_list sp A (16 + 17 * k) (block_pre @ [Ldr 9 11 0] @ block_tail k) (s\<lparr>mem := m\<rparr>)"
      by (simp add: block_exec_def block_shape(1) [OF k])
    also have "\<dots> = arm_exec_list sp A (21 + 17 * k) ([Ldr 9 11 0] @ block_tail k) (p\<lparr>mem := m\<rparr>)"
      by (simp only: arm_exec_list_append [of sp A _ block_pre] block_pre_exec pre_state_mem)
        (simp add: block_pre_def p_def add.commute)
    also have "\<dots> = arm_exec_list sp A (22 + 17 * k) (block_tail k) (p\<lparr>reg := (reg p)(9 := m (reg p 11)), mem := m\<rparr>)"
      using pre_state_aligned [of A "16 + 17 * k" s]
      by (simp add: arm_exec_def rreg_def p_def reg_mem_swap)
    finally show ?thesis by (simp add: f(1))
  qed
  moreover have "block_ok k s (f v)" for v
    using f(2) [of v] by (simp add: block_ok_def p_def pre_state_def Let_def)
  ultimately show ?thesis using f(1) by blast
qed

section \<open>The loop\<close>

fun blocks_exec :: "sp_ops \<Rightarrow> u32 \<Rightarrow> nat \<Rightarrow> arm \<Rightarrow> arm option" where
  "blocks_exec sp A 0 s = Some s"
| "blocks_exec sp A (Suc n) s = Option.bind (blocks_exec sp A n s) (block_exec sp A n)"

fun loop_exec :: "sp_ops \<Rightarrow> u32 \<Rightarrow> nat \<Rightarrow> arm \<Rightarrow> arm option" where
  "loop_exec sp A 0 s = Some s"
| "loop_exec sp A (Suc n) s = Option.bind (blocks_exec sp A 8 s) (loop_exec sp A n)"

definition loop_frame :: "arm \<Rightarrow> arm \<Rightarrow> bool" where
  "loop_frame s t \<longleftrightarrow> mem t = mem s \<and> reg t 0 = reg s 0 \<and> reg t 13 = reg s 13 \<and> reg t 14 = reg s 14 \<and>
     take_bit 28 (cpsr t) = take_bit 28 (cpsr s)"

lemma block_exec_total:
  assumes "k < 8"
  shows "\<exists>t. block_exec sp A k s = Some t \<and> block_ok k s t \<and> mem t = mem s"
proof -
  obtain f a where "\<And>m. block_exec sp A k (s\<lparr>mem := m\<rparr>) = Some ((f (m a))\<lparr>mem := m\<rparr>)" "\<And>v. block_ok k s (f v)"
    using block_result [OF assms, of sp A s] by blast
  from this(1) [of "mem s"] this(2) show ?thesis by (auto simp: block_ok_def)
qed

lemma blocks_exec_total:
  "n \<le> 8 \<Longrightarrow> \<exists>t. blocks_exec sp A n s = Some t \<and> loop_frame s t \<and> reg t 12 = reg s 12 - of_nat n \<and>
     (n = 8 \<longrightarrow> flag_Z (cpsr t) = (reg t 12 = 0))"
proof (induction n)
  case 0
  then show ?case by (simp add: loop_frame_def)
next
  case (Suc n)
  then obtain t where t: "blocks_exec sp A n s = Some t" "loop_frame s t" "reg t 12 = reg s 12 - of_nat n" by auto
  from Suc.prems obtain u where "block_exec sp A n t = Some u" "block_ok n t u" "mem u = mem t"
    using block_exec_total [of n sp A t] by auto
  with t show ?case by (auto simp: loop_frame_def block_ok_def)
qed

text \<open>Memories that agree on the window give the same result.\<close>

lemma block_exec_agree:
  assumes "k < 8" and "A AND 0xff = 0" and "\<And>a. window A a \<Longrightarrow> m1 a = m2 a"
    and "block_exec sp A k (s\<lparr>mem := m1\<rparr>) = Some t"
  shows "block_exec sp A k (s\<lparr>mem := m2\<rparr>) = Some (t\<lparr>mem := m2\<rparr>) \<and> mem t = m1"
proof -
  let ?a = "reg (pre_state A (16 + 17 * k) s) 11"
  obtain f where f: "\<And>m. block_exec sp A k (s\<lparr>mem := m\<rparr>) = Some ((f (m ?a))\<lparr>mem := m\<rparr>)"
    using block_result [OF assms(1), of sp A s] by blast
  have "m1 ?a = m2 ?a" using assms(3) pre_state_daddr [OF assms(1,2)] by blast
  with f [of m1] f [of m2] assms(4) show ?thesis by auto
qed

lemma blocks_exec_agree:
  assumes "A AND 0xff = 0" and "\<And>a. window A a \<Longrightarrow> m1 a = m2 a"
  shows "n \<le> 8 \<Longrightarrow> blocks_exec sp A n (s\<lparr>mem := m1\<rparr>) = Some t \<Longrightarrow>
    blocks_exec sp A n (s\<lparr>mem := m2\<rparr>) = Some (t\<lparr>mem := m2\<rparr>) \<and> mem t = m1"
proof (induction n arbitrary: t)
  case (Suc n)
  from Suc.prems(2) obtain u where u: "blocks_exec sp A n (s\<lparr>mem := m1\<rparr>) = Some u" "block_exec sp A n u = Some t"
    by (auto simp: bind_eq_Some_conv)
  with Suc have u2: "blocks_exec sp A n (s\<lparr>mem := m2\<rparr>) = Some (u\<lparr>mem := m2\<rparr>)" "mem u = m1" by auto
  then have "block_exec sp A n (u\<lparr>mem := m1\<rparr>) = Some t" using u(2) by auto
  from block_exec_agree [OF _ assms this] Suc.prems(1) u2(1) show ?case by simp
qed auto

lemma loop_exec_agree:
  assumes "A AND 0xff = 0" and "\<And>a. window A a \<Longrightarrow> m1 a = m2 a"
  shows "loop_exec sp A n (s\<lparr>mem := m1\<rparr>) = Some t \<Longrightarrow>
    loop_exec sp A n (s\<lparr>mem := m2\<rparr>) = Some (t\<lparr>mem := m2\<rparr>) \<and> mem t = m1"
proof (induction n arbitrary: s)
  case (Suc n)
  from Suc.prems obtain u where u: "blocks_exec sp A 8 (s\<lparr>mem := m1\<rparr>) = Some u" "loop_exec sp A n u = Some t"
    by (auto simp: bind_eq_Some_conv)
  with blocks_exec_agree [OF assms, where n = 8 and sp = sp and s = s and t = u]
  have u2: "blocks_exec sp A 8 (s\<lparr>mem := m2\<rparr>) = Some (u\<lparr>mem := m2\<rparr>)" "mem u = m1" by auto
  then have "loop_exec sp A n (u\<lparr>mem := m1\<rparr>) = Some t" using u(2) by auto
  from Suc.IH [OF this] u2(1) show ?case by simp
qed auto

section \<open>The interface of a checksum function\<close>

definition irq_off :: "instr list" where
  "irq_off = [MRS 11, DP AL Dorr False 11 11 (Imm 0xd3), MSR_c 11]"

definition irq_on :: "instr list" where
  "irq_on = [MRS 11, DP AL Dbic False 11 11 (Imm 0xc0), MSR_c 11]"

abbreviation seen :: "u32 \<Rightarrow> arm \<Rightarrow> arm" where
  "seen d s \<equiv> s\<lparr>mem := \<lambda>a. mem s (a + d)\<rparr>"

locale checksum_code =
  fixes code :: "instr list" and shift :: u32
  assumes code_init: "arm_exec_list sp A 0 (init_checksum @ irq_off) s = Some t \<Longrightarrow>
      arm_run sp code A 0 s = arm_run sp code A 16 t"
    and code_block: "k < 8 \<Longrightarrow> block_exec sp A k (seen shift s) = Some t \<Longrightarrow>
      arm_run sp code A (16 + 17 * k) s = arm_run sp code A (16 + 17 * Suc k) (t\<lparr>mem := mem s\<rparr>)"
    and code_loop: "arm_run sp code A 152 s = arm_run sp code A (if flag_Z (cpsr s) then 153 else 16) s"
    and code_exit: "arm_exec_list sp A 153 (save_checksum @ irq_on @ restore_reglist) s = Some t \<Longrightarrow>
      arm_run sp code A 153 s = Some t"
begin

lemma run_blocks_exec:
  "n \<le> 8 \<Longrightarrow> blocks_exec sp A n (seen shift s) = Some t \<Longrightarrow>
   arm_run sp code A 16 s = arm_run sp code A (16 + 17 * n) (t\<lparr>mem := mem s\<rparr>)"
proof (induction n arbitrary: t)
  case (Suc n)
  then obtain u where u: "blocks_exec sp A n (seen shift s) = Some u" "block_exec sp A n u = Some t"
    by (auto simp: bind_eq_Some_conv)
  have "mem u = (\<lambda>a. mem s (a + shift))"
    using blocks_exec_total [of n sp A "seen shift s"] u(1) Suc.prems(1) by (auto simp: loop_frame_def)
  then have "seen shift (u\<lparr>mem := mem s\<rparr>) = u" by simp
  then have "arm_run sp code A (16 + 17 * n) (u\<lparr>mem := mem s\<rparr>) = arm_run sp code A (16 + 17 * Suc n) (t\<lparr>mem := mem s\<rparr>)"
    using code_block [of n sp A "u\<lparr>mem := mem s\<rparr>" t] u(2) Suc.prems(1) by simp
  with Suc.IH [OF _ u(1)] Suc.prems(1) show ?case by simp
qed (cases s; auto)

lemma run_loop:
  assumes "reg s 12 = of_nat (8 * n)" and "0 < n" and "8 * n < 2 ^ 32"
  shows "\<exists>t. loop_exec sp A n (seen shift s) = Some t \<and> loop_frame (seen shift s) t \<and> reg t 12 = 0 \<and>
           arm_run sp code A 16 s = arm_run sp code A 153 (t\<lparr>mem := mem s\<rparr>)"
  using assms
proof (induction n arbitrary: s)
  case (Suc n)
  obtain u where u: "blocks_exec sp A 8 (seen shift s) = Some u" "loop_frame (seen shift s) u"
      "reg u 12 = reg s 12 - 8" "flag_Z (cpsr u) = (reg u 12 = 0)"
    using blocks_exec_total [of 8 sp A "seen shift s"] by auto
  let ?u = "u\<lparr>mem := mem s\<rparr>"
  have sn: "seen shift ?u = u" using u(2) by (simp add: loop_frame_def)
  have r12: "reg ?u 12 = of_nat (8 * n)" using u(3) Suc.prems(1) by simp
  have run: "arm_run sp code A 16 s = arm_run sp code A (if flag_Z (cpsr u) then 153 else 16) ?u"
    using run_blocks_exec [OF _ u(1)] code_loop [of sp A ?u] by simp
  show ?case
  proof (cases "n = 0")
    case True
    then show ?thesis using u run r12 by (auto simp: loop_frame_def)
  next
    case False
    have "unat (of_nat (8 * n) :: u32) = 8 * n"
      using Suc.prems(3) by (simp only: unat_of_nat) simp
    then have "reg u 12 \<noteq> 0" using False r12 by auto
    then have "arm_run sp code A 16 s = arm_run sp code A 16 ?u" using run u(4) by simp
    moreover obtain t where "loop_exec sp A n u = Some t" "loop_frame u t" "reg t 12 = 0"
      "arm_run sp code A 16 ?u = arm_run sp code A 153 (t\<lparr>mem := mem s\<rparr>)"
      using Suc.IH [OF r12, unfolded sn] False Suc.prems(3) by auto
    ultimately show ?thesis using u(1,2) by (auto simp: loop_frame_def)
  qed
qed simp

end

section \<open>The functions provide the interface\<close>

lemmas code_defs = swattARM_code_def swattARM_db_attack_code_def init_checksum_def irq_off_def irq_on_def
  save_checksum_def restore_reglist_def

lemmas db_block_defs = db_block1_def db_block2_def db_block3_def db_block4_def db_block5_def
  db_block6_def db_block7_def db_block8_def

lemma no_blocks_straight: "k < 8 \<Longrightarrow> list_all (\<lambda>i. \<not> is_branch i) (no_blocks ! k) \<and> length (no_blocks ! k) = 17"
  by (erule block_cases) (simp_all add: no_blocks_def no_block_defs)

lemma no_code_slices:
  "length swattARM_code = 184" "take 16 swattARM_code = init_checksum @ irq_off"
  "swattARM_code ! 152 = BR NE 16" "drop 153 swattARM_code = save_checksum @ irq_on @ restore_reglist"
  by (simp_all add: code_defs no_block_defs)

lemma no_code_blocks: "k < 8 \<Longrightarrow> take 17 (drop (16 + 17 * k) swattARM_code) = no_blocks ! k"
  by (erule block_cases) (simp_all add: code_defs no_blocks_def no_block_defs)

lemma init_straight: "list_all (\<lambda>i. \<not> is_branch i) (init_checksum @ irq_off)" "length (init_checksum @ irq_off) = 16"
  "list_all (\<lambda>i. \<not> is_branch i) (save_checksum @ irq_on @ restore_reglist)"
  "length (save_checksum @ irq_on @ restore_reglist) = 31"
  by (simp_all add: code_defs)

interpretation no: checksum_code swattARM_code 0
proof unfold_locales
  fix sp A s t
  assume t: "arm_exec_list sp A 0 (init_checksum @ irq_off) s = Some t"
  show "arm_run sp swattARM_code A 0 s = arm_run sp swattARM_code A 16 t"
    using arm_run_slice [OF _ _ init_straight(1) t, where code = swattARM_code] init_straight(2) no_code_slices(2)
    by (simp only: drop_0) simp
next
  fix k sp A s t
  assume k: "k < 8" and t: "block_exec sp A k (seen 0 s) = Some t"
  have "mem t = mem s" using block_exec_total [OF k, of sp A "seen 0 s"] t by auto
  then have "t\<lparr>mem := mem s\<rparr> = t" by (cases t) simp
  then show "arm_run sp swattARM_code A (16 + 17 * k) s = arm_run sp swattARM_code A (16 + 17 * Suc k) (t\<lparr>mem := mem s\<rparr>)"
    using arm_run_slice [of "no_blocks ! k" "16 + 17 * k" swattARM_code sp A s t] no_blocks_straight [OF k]
      no_code_blocks [OF k] k t no_code_slices(1) by (simp add: block_exec_def algebra_simps)
next
  fix sp A s
  show "arm_run sp swattARM_code A 152 s = arm_run sp swattARM_code A (if flag_Z (cpsr s) then 153 else 16) s"
    using arm_run_branch [of 152 swattARM_code NE 16 sp A s] no_code_slices by (simp add: cond_ok_def)
next
  fix sp A s t
  assume t: "arm_exec_list sp A 153 (save_checksum @ irq_on @ restore_reglist) s = Some t"
  show "arm_run sp swattARM_code A 153 s = Some t"
    using arm_run_slice [OF _ _ init_straight(3) t, where code = swattARM_code] init_straight(4) no_code_slices(1,4)
      arm_run_end [of sp swattARM_code A t] by simp
qed

text \<open>The detour of the forged code: the load is done at a distance of \<open>0x500\<close>.\<close>

definition db_detour :: "instr list" where
  "db_detour = [DP AL Dadd False 11 11 (Imm 0x500), Ldr 9 11 0, DP AL Dsub False 11 11 (Imm 0x500)]"

lemma db_code_slices:
  "length swattARM_db_attack_code = 217" "take 16 swattARM_db_attack_code = init_checksum @ irq_off"
  "swattARM_db_attack_code ! 152 = BR NE 16" "take 13 (drop 153 swattARM_db_attack_code) = save_checksum"
  "swattARM_db_attack_code ! 166 = BR AL 199" "drop 199 swattARM_db_attack_code = irq_on @ restore_reglist"
  by (simp_all add: code_defs db_block_defs)

lemma db_code_blocks:
  assumes "k < 8"
  shows "take 5 (drop (16 + 17 * k) swattARM_db_attack_code) = block_pre \<and>
    swattARM_db_attack_code ! (21 + 17 * k) = BR AL (167 + 4 * k) \<and>
    take 3 (drop (167 + 4 * k) swattARM_db_attack_code) = db_detour \<and>
    swattARM_db_attack_code ! (170 + 4 * k) = BR AL (22 + 17 * k) \<and>
    take 11 (drop (22 + 17 * k) swattARM_db_attack_code) = block_tail k"
  using assms
  by (rule block_cases)
    (simp_all add: code_defs db_block_defs no_blocks_def no_block_defs block_mid_def block_pre_def db_detour_def)

lemma db_detour_exec:
  assumes "reg p 11 AND 3 = 0"
  shows "arm_exec_list sp A pc db_detour p = Some (p\<lparr>reg := (reg p)(9 := mem p (reg p 11 + 0x500))\<rparr>)"
proof -
  have "(reg p 11 + 0x500) AND 3 = 0" by (rule aligned_add [OF assms]) simp
  then show ?thesis
    by (simp add: db_detour_def arm_exec_def cond_ok_def dp_result_def add_carry_def rreg_def op2_val_def
        not_eq_complement Let_def fun_upd_twist)
qed

lemma calm_not_branch: "list_all (calm K) is \<Longrightarrow> list_all (\<lambda>i. \<not> is_branch i) is"
proof (induction "is")
  case (Cons i "is")
  then show ?case by (cases i) auto
qed simp

lemma pre_detour_straight:
  "length block_pre = 5" "list_all (\<lambda>i. \<not> is_branch i) block_pre"
  "length db_detour = 3" "list_all (\<lambda>i. \<not> is_branch i) db_detour"
  by (simp_all add: block_pre_def db_detour_def)

lemma db_block_run:
  assumes k: "k < 8" and t: "block_exec sp A k (seen 0x500 s) = Some t"
  shows "arm_run sp swattARM_db_attack_code A (16 + 17 * k) s =
    arm_run sp swattARM_db_attack_code A (16 + 17 * Suc k) (t\<lparr>mem := mem s\<rparr>)"
proof -
  let ?c = swattARM_db_attack_code and ?p = "pre_state A (16 + 17 * k) s"
  let ?q = "?p\<lparr>reg := (reg ?p)(9 := mem s (reg ?p 11 + 0x500))\<rparr>"
  note slices = db_code_blocks [OF k] and len = db_code_slices(1)
  obtain f where f: "\<And>m v. arm_exec_list sp A (22 + 17 * k) (block_tail k) (?p\<lparr>reg := (reg ?p)(9 := v), mem := m\<rparr>) =
        Some ((f v)\<lparr>mem := m\<rparr>)" "\<And>m. block_exec sp A k (s\<lparr>mem := m\<rparr>) = Some ((f (m (reg ?p 11)))\<lparr>mem := m\<rparr>)"
    using block_result [OF k, of sp A s] by blast
  have mem: "mem ?p = mem s" by (simp add: pre_state_def Let_def)
  have "arm_run sp ?c A (16 + 17 * k) s = arm_run sp ?c A (21 + 17 * k) ?p"
    using arm_run_slice [of block_pre "16 + 17 * k" ?c sp A s ?p] slices len k block_pre_exec
    by (simp add: pre_detour_straight)
  also have "\<dots> = arm_run sp ?c A (167 + 4 * k) ?p"
    using arm_run_branch [of "21 + 17 * k" ?c AL "167 + 4 * k" sp A ?p] slices len k by (simp add: cond_ok_def)
  also have "\<dots> = arm_run sp ?c A (170 + 4 * k) ?q"
    using arm_run_slice [of db_detour "167 + 4 * k" ?c sp A ?p ?q] slices len k db_detour_exec pre_state_aligned mem
    by (simp add: pre_detour_straight)
  also have "\<dots> = arm_run sp ?c A (22 + 17 * k) ?q"
    using arm_run_branch [of "170 + 4 * k" ?c AL "22 + 17 * k" sp A ?q] slices len k by (simp add: cond_ok_def)
  also have "\<dots> = arm_run sp ?c A (33 + 17 * k) ((f (mem s (reg ?p 11 + 0x500)))\<lparr>mem := mem s\<rparr>)"
  proof -
    have q: "?q = ?p\<lparr>reg := (reg ?p)(9 := mem s (reg ?p 11 + 0x500)), mem := mem s\<rparr>" using mem by (cases "?p") simp
    have "list_all (\<lambda>i. \<not> is_branch i) (block_tail k)" "length (block_tail k) = 11"
      using calm_not_branch [OF block_shape(2) [OF k]] block_shape(3) [OF k] by simp_all
    moreover have "arm_exec_list sp A (22 + 17 * k) (block_tail k) ?q =
        Some ((f (mem s (reg ?p 11 + 0x500)))\<lparr>mem := mem s\<rparr>)"
      by (subst q) (rule f(1))
    moreover have "take 11 (drop (22 + 17 * k) ?c) = block_tail k" "22 + 17 * k \<le> length ?c" using slices len k by simp_all
    ultimately have "arm_run sp ?c A (22 + 17 * k) ?q =
        arm_run sp ?c A (22 + 17 * k + 11) ((f (mem s (reg ?p 11 + 0x500)))\<lparr>mem := mem s\<rparr>)"
      using arm_run_slice [of "block_tail k" "22 + 17 * k" ?c sp A ?q] by metis
    moreover have "22 + 17 * k + 11 = 33 + 17 * k" by simp
    ultimately show ?thesis by (simp only:)
  qed
  also have "(f (mem s (reg ?p 11 + 0x500)))\<lparr>mem := mem s\<rparr> = t\<lparr>mem := mem s\<rparr>"
    using f(2) [of "\<lambda>a. mem s (a + 0x500)"] t by auto
  finally show ?thesis by (simp add: algebra_simps)
qed

lemma exit_pc: "list_all (\<lambda>i. \<not> reads_pc i) (irq_on @ restore_reglist)"
  "list_all (\<lambda>i. \<not> is_branch i) (irq_on @ restore_reglist)" "length (irq_on @ restore_reglist) = 18"
  "list_all (\<lambda>i. \<not> is_branch i) save_checksum" "length save_checksum = 13"
  by (simp_all add: code_defs)

interpretation db: checksum_code swattARM_db_attack_code "0x500"
proof unfold_locales
  fix sp A s t
  assume t: "arm_exec_list sp A 0 (init_checksum @ irq_off) s = Some t"
  show "arm_run sp swattARM_db_attack_code A 0 s = arm_run sp swattARM_db_attack_code A 16 t"
    using arm_run_slice [OF _ _ init_straight(1) t, where code = swattARM_db_attack_code] init_straight(2) db_code_slices(2)
    by (simp only: drop_0) simp
next
  fix k sp A s t
  assume "k < 8" and "block_exec sp A k (seen 0x500 s) = Some t"
  then show "arm_run sp swattARM_db_attack_code A (16 + 17 * k) s =
      arm_run sp swattARM_db_attack_code A (16 + 17 * Suc k) (t\<lparr>mem := mem s\<rparr>)"
    by (rule db_block_run)
next
  fix sp A s
  show "arm_run sp swattARM_db_attack_code A 152 s =
      arm_run sp swattARM_db_attack_code A (if flag_Z (cpsr s) then 153 else 16) s"
    using arm_run_branch [of 152 swattARM_db_attack_code NE 16 sp A s] db_code_slices by (simp add: cond_ok_def)
next
  fix sp A s t
  assume "arm_exec_list sp A 153 (save_checksum @ irq_on @ restore_reglist) s = Some t"
  then obtain u where u1: "arm_exec_list sp A 153 save_checksum s = Some u"
      and "arm_exec_list sp A (153 + length save_checksum) (irq_on @ restore_reglist) u = Some t"
    unfolding arm_exec_list_append [of sp A 153 save_checksum] by (auto simp: bind_eq_Some_conv)
  then have u: "arm_exec_list sp A 153 save_checksum s = Some u"
      "arm_exec_list sp A 199 (irq_on @ restore_reglist) u = Some t"
    using arm_exec_list_pc [OF exit_pc(1), of sp A "153 + length save_checksum" u 199] by simp_all
  let ?c = swattARM_db_attack_code
  have "arm_run sp ?c A 153 s = arm_run sp ?c A 166 u"
    using arm_run_slice [OF _ _ exit_pc(4) u(1), where code = ?c] exit_pc(5) db_code_slices(1,4) by simp
  also have "\<dots> = arm_run sp ?c A 199 u"
    using arm_run_branch [of 166 ?c AL 199 sp A u] db_code_slices by (simp add: cond_ok_def)
  also have "\<dots> = Some t"
    using arm_run_slice [OF _ _ exit_pc(2) u(2), where code = ?c] exit_pc(3) db_code_slices(1,6)
      arm_run_end [of sp ?c A t] by simp
  finally show "arm_run sp ?c A 153 s = Some t" .
qed

end
