(* ===== verification/Arm_Calls.thy ===== *)
theory Arm_Calls
  imports Arm_Swatt
begin

text \<open>
  The calls of the checksum functions of \<open>code/nic-driver/smsc/smsc911x.c\<close> from C: saving and
  restoring the registers on the stack, loading the challenge, the whole loop, storing the checksum.
  The client lemmas are proved once for the interface \<open>checksum_code\<close> and read off for the
  original and for the forged function.

  The calls are studied in supervisor mode, where the kernel runs: writing the control bits of the
  status register then leaves the register bank as it is.
\<close>

section \<open>The environment of a call\<close>

text \<open>The words of the challenge and the registers they are loaded to.\<close>

definition cw :: "u32 \<Rightarrow> nat \<Rightarrow> u32" where
  "cw ch i = ch + 4 * of_nat i"

definition creg :: "nat \<Rightarrow> nat" where
  "creg i = (if i = 12 then 14 else Suc i)"

text \<open>
  \<open>push {r13}\<close> stores the old stack pointer, and \<open>pop {r13}\<close> loads it when it agrees with the
  incremented one.
\<close>

definition stack_ok :: "sp_ops \<Rightarrow> bool" where
  "stack_ok sp \<longleftrightarrow> (\<forall>w. fst sp w = w \<and> snd sp w w = w)"

text \<open>
  The code is aligned, the compiler passes the address in a register that is not clobbered, the
  challenge and the stack are aligned and do not overlap.
\<close>

definition swatt_env :: "sp_ops \<Rightarrow> u32 \<Rightarrow> nat \<Rightarrow> u32 \<Rightarrow> arm \<Rightarrow> bool" where
  "swatt_env sp A ra ch s \<longleftrightarrow> stack_ok sp \<and> A AND 0xff = 0 \<and> ra \<in> {11, 12, 14} \<and> ch AND 3 = 0 \<and>
     reg s 13 AND 3 = 0 \<and> (\<forall>i < 13. \<forall>j < 15. cw ch i \<noteq> slot (reg s 13) j)"

text \<open>The states at the start of the assembly, after the registers are saved, and at the loop.\<close>

definition entry :: "u32 \<Rightarrow> nat \<Rightarrow> u32 \<Rightarrow> arm \<Rightarrow> arm" where
  "entry counter ra ch s = s\<lparr>mem := (mem s)(ch + 44 := counter), reg := (reg s)(ra := ch)\<rparr>"

definition saved :: "sp_ops \<Rightarrow> arm \<Rightarrow> arm" where
  "saved sp s = s\<lparr>reg := (reg s)(13 := reg s 13 - 60), mem := push_mem (pushed sp s) (reg s 13) 15 (mem s)\<rparr>"

definition loaded :: "u32 \<Rightarrow> arm \<Rightarrow> arm" where
  "loaded ch s = s\<lparr>
     reg := (reg s)(0 := ch, 1 := mem s ch, 2 := mem s (ch + 4), 3 := mem s (ch + 8), 4 := mem s (ch + 12),
       5 := mem s (ch + 16), 6 := mem s (ch + 20), 7 := mem s (ch + 24), 8 := mem s (ch + 28),
       9 := mem s (ch + 32), 10 := mem s (ch + 36), 12 := mem s (ch + 44), 14 := mem s (ch + 48),
       11 := cpsr s OR 0xd3),
     cpsr := (cpsr s AND 0xffffff00) OR ((cpsr s OR 0xd3) AND 0xff)\<rparr>"

definition at_loop :: "sp_ops \<Rightarrow> u32 \<Rightarrow> nat \<Rightarrow> u32 \<Rightarrow> arm \<Rightarrow> arm" where
  "at_loop sp counter ra ch s = loaded ch (saved sp (entry counter ra ch s))"

fun store_mem :: "(nat \<Rightarrow> u32) \<Rightarrow> u32 \<Rightarrow> nat \<Rightarrow> (u32 \<Rightarrow> u32) \<Rightarrow> u32 \<Rightarrow> u32" where
  "store_mem v ch 0 m = m"
| "store_mem v ch (Suc n) m = (store_mem v ch n m)(cw ch n := v n)"

section \<open>Straight parts of a call\<close>

lemma reglists: "save_reglist = map PUSH [0..<15]" "restore_reglist = map POP (rev [0..<15])"
  by (simp_all add: save_reglist_def restore_reglist_def upt_rec)

lemma save_checksum_eq: "save_checksum = map (\<lambda>i. Str (creg i) 0 (4 * of_nat i)) [0..<13]"
  by (simp add: save_checksum_def creg_def upt_rec)

lemma cw_inj: "i < 64 \<Longrightarrow> j < 64 \<Longrightarrow> cw ch i = cw ch j \<longleftrightarrow> i = j"
  unfolding cw_def using words_distinct [of i j] by auto

lemma cw_aligned: "ch AND 3 = 0 \<Longrightarrow> cw ch i AND 3 = 0"
  unfolding aligned_dvd cw_def by simp

lemma store_mem_cw: "i < n \<Longrightarrow> n \<le> 64 \<Longrightarrow> store_mem v ch n m (cw ch i) = v i"
  by (induction n) (auto simp: cw_inj less_Suc_eq)

lemma store_mem_other: "(\<And>i. i < n \<Longrightarrow> a \<noteq> cw ch i) \<Longrightarrow> store_mem v ch n m a = m a"
  by (induction n) auto

lemma exec_save:
  assumes "swatt_env sp A ra ch s"
  shows "arm_exec_list sp A 0 (save_reglist @ [DP AL Dmov False 0 0 (Reg ra)]) (entry counter ra ch s) =
    Some ((saved sp (entry counter ra ch s))\<lparr>reg := (reg (saved sp (entry counter ra ch s)))(0 := ch)\<rparr>)"
proof -
  let ?e = "entry counter ra ch s"
  have "reg ?e 13 AND 3 = 0" using assms by (auto simp: swatt_env_def entry_def)
  from arm_exec_pushes [OF this, of sp A 0 15]
  have p: "arm_exec_list sp A 0 save_reglist ?e = Some (saved sp ?e)"
    by (simp add: reglists saved_def)
  have "reg (saved sp ?e) ra = ch" "ra \<noteq> 15"
    using assms by (auto simp: swatt_env_def saved_def entry_def)
  then show ?thesis
    by (simp add: arm_exec_list_append p arm_exec_def cond_ok_def op2_val_def rreg_def dp_result_def)
qed

lemma exec_init:
  assumes "ch AND 3 = 0" and "reg s 0 = ch"
  shows "arm_exec_list sp A 0 (init_checksum @ irq_off) s = Some (loaded ch s)"
proof -
  have al: "(ch + i) AND 3 = 0" if "i AND 3 = 0" for i using aligned_add [OF assms(1) that] .
  have r: "(reg s)(0 := ch) = reg s" using assms(2) by auto
  show ?thesis
    by (simp add: init_checksum_def irq_off_def arm_exec_def cond_ok_def op2_val_def rreg_def dp_result_def
        assms al Let_def loaded_def r)
qed

lemma exec_store:
  assumes "ch AND 3 = 0" and "reg t 0 = ch"
  shows "n \<le> 13 \<Longrightarrow> arm_exec_list sp A pc (map (\<lambda>i. Str (creg i) 0 (4 * of_nat i)) [0..<n]) t =
    Some (t\<lparr>mem := store_mem (\<lambda>i. reg t (creg i)) ch n (mem t)\<rparr>)"
proof (induction n)
  case (Suc n)
  have "creg n \<noteq> 15" using Suc.prems by (simp add: creg_def)
  moreover have "ch + 4 * of_nat n = cw ch n" "cw ch n AND 3 = 0" using cw_aligned [OF assms(1)] by (simp_all add: cw_def)
  ultimately show ?case
    using Suc assms(2) by (simp add: arm_exec_list_append arm_exec_def rreg_def fun_upd_def)
qed simp

definition irq_word :: "u32 \<Rightarrow> u32" where
  "irq_word c = (c AND 0xffffff00) OR ((c AND NOT 0xc0) AND 0xff)"

lemma irq_word_bits: "\<not> bit (irq_word c) 6" "\<not> bit (irq_word c) 7"
  by (simp_all add: irq_word_def bit_simps)


lemma exec_exit:
  assumes "ch AND 3 = 0" and "reg t 0 = ch" and "S AND 3 = 0" and "reg t 13 = S - 60"
    and "stack_ok sp" and "mem t (slot S 13) = S - 52" and "\<And>i j. i < 13 \<Longrightarrow> j < 15 \<Longrightarrow> cw ch i \<noteq> slot S j"
  shows "arm_exec_list sp A pc (save_checksum @ irq_on @ restore_reglist) t =
    Some (t\<lparr>mem := store_mem (\<lambda>i. reg t (creg i)) ch 13 (mem t), cpsr := irq_word (cpsr t),
      reg := \<lambda>k. if k = 13 then S else if k < 15 then mem t (slot S k) else reg t k\<rparr>)"
proof -
  define m where "m = store_mem (\<lambda>i. reg t (creg i)) ch 13 (mem t)"
  define v where "v = t\<lparr>mem := m, cpsr := irq_word (cpsr t), reg := (reg t)(11 := cpsr t AND NOT 0xc0)\<rparr>"
  have m: "m (slot S j) = mem t (slot S j)" if "j < 15" for j
    unfolding m_def using assms(7) [OF _ that] by (intro store_mem_other) metis
  have "arm_exec_list sp A pc save_checksum t = Some (t\<lparr>mem := m\<rparr>)"
    unfolding save_checksum_eq m_def by (rule exec_store) (use assms(1,2) in simp_all)
  moreover have "arm_exec_list sp A pc' irq_on (t\<lparr>mem := m\<rparr>) = Some v" for pc'
    by (simp add: irq_on_def arm_exec_def cond_ok_def op2_val_def rreg_def dp_result_def v_def irq_word_def Let_def)
  moreover have "arm_exec_list sp A pc' restore_reglist v =
      Some (v\<lparr>reg := \<lambda>k. if k = 13 then S else if k < 15 then mem v (slot S k) else reg v k\<rparr>)" for pc'
    unfolding reglists
    by (rule arm_exec_pops) (use assms(3-6) in \<open>simp_all add: v_def m stack_ok_def\<close>)
  moreover have "v\<lparr>reg := \<lambda>k. if k = 13 then S else if k < 15 then mem v (slot S k) else reg v k\<rparr> =
      t\<lparr>mem := m, cpsr := irq_word (cpsr t), reg := \<lambda>k. if k = 13 then S else if k < 15 then mem t (slot S k) else reg t k\<rparr>"
    by (auto simp: v_def m fun_eq_iff)
  ultimately show ?thesis by (simp add: arm_exec_list_append m_def)
qed

section \<open>A whole call\<close>

text \<open>What a call leaves, when the loop ends in the state \<open>t\<close>.\<close>

definition call_result :: "sp_ops \<Rightarrow> u32 \<Rightarrow> nat \<Rightarrow> u32 \<Rightarrow> arm \<Rightarrow> arm \<Rightarrow> arm \<Rightarrow> bool" where
  "call_result sp counter ra ch s t u \<longleftrightarrow> (\<forall>k < 15. reg u k = ((reg s)(ra := ch)) k) \<and>
     mem u = store_mem (\<lambda>i. reg t (creg i)) ch 13 (mem (at_loop sp counter ra ch s)) \<and>
     cpsr u = irq_word (cpsr t)"

lemma at_loop_mem:
  "mem (at_loop sp counter ra ch s) =
     push_mem (pushed sp (entry counter ra ch s)) (reg (entry counter ra ch s) 13) 15 ((mem s)(ch + 44 := counter))"
  by (simp add: at_loop_def loaded_def saved_def entry_def)

lemma cw_44: "ch + 44 = cw ch 11" "ch + 48 = cw ch 12" "ch = cw ch 0"
  by (simp_all add: cw_def)

lemma at_loop_cw:
  assumes "swatt_env sp A ra ch s" and "i < 13"
  shows "mem (at_loop sp counter ra ch s) (cw ch i) = (if i = 11 then counter else mem s (cw ch i))"
proof -
  have "cw ch i \<noteq> slot (reg s 13) j" if "j < 15" for j using assms that by (auto simp: swatt_env_def)
  moreover have "reg (entry counter ra ch s) 13 = reg s 13" using assms(1) by (auto simp: swatt_env_def entry_def)
  ultimately show ?thesis
    unfolding at_loop_mem cw_44(1) using assms(2) by (subst push_mem_other) (auto simp: cw_inj)
qed

context checksum_code
begin

lemma call_returns:
  assumes env: "swatt_env sp A ra ch s" and n: "counter = of_nat (8 * n)" "0 < n" "8 * n < 2 ^ 32"
  shows "\<exists>t u. loop_exec sp A n (seen shift (at_loop sp counter ra ch s)) = Some t \<and>
    loop_frame (seen shift (at_loop sp counter ra ch s)) t \<and> reg t 12 = 0 \<and>
    call_checksum code counter sp A ra ch 52 s = Some u \<and> call_result sp counter ra ch s t u"
proof -
  let ?e = "entry counter ra ch s" and ?q = "at_loop sp counter ra ch s"
  let ?p = "(saved sp ?e)\<lparr>reg := (reg (saved sp ?e))(0 := ch)\<rparr>"
  have S: "reg ?e 13 = reg s 13" using env by (auto simp: swatt_env_def entry_def)
  have "loaded ch ?p = ?q" by (simp add: at_loop_def loaded_def)
  then have init: "arm_exec_list sp A 0 (init_checksum @ irq_off) ?p = Some ?q"
    using exec_init [of ch ?p sp A] env by (simp add: swatt_env_def)
  have q: "reg ?q 12 = counter" "reg ?q 0 = ch" "reg ?q 13 = reg s 13 - 60"
    using at_loop_cw [OF env, of 11 counter] S by (simp_all add: at_loop_def loaded_def saved_def cw_44)
  then obtain t where t: "loop_exec sp A n (seen shift ?q) = Some t" "loop_frame (seen shift ?q) t" "reg t 12 = 0"
      "arm_run sp code A 16 ?q = arm_run sp code A 153 (t\<lparr>mem := mem ?q\<rparr>)"
    using run_loop [of ?q n sp A] n by auto
  have slots: "mem ?q (slot (reg s 13) j) = pushed sp ?e j" if "j < 15" for j
    unfolding at_loop_mem S using that by (simp add: push_mem_slot)
  have "mem ?q (slot (reg s 13) 13) = reg s 13 - 52"
    using env S by (simp add: slots pushed_def swatt_env_def stack_ok_def)
  then have "arm_exec_list sp A 153 (save_checksum @ irq_on @ restore_reglist) (t\<lparr>mem := mem ?q\<rparr>) = Some (t\<lparr>
      mem := store_mem (\<lambda>i. reg t (creg i)) ch 13 (mem ?q), cpsr := irq_word (cpsr t),
      reg := \<lambda>k. if k = 13 then reg s 13 else if k < 15 then mem ?q (slot (reg s 13) k) else reg t k\<rparr>)"
    using env t(2) q
    by (subst exec_exit [where S = "reg s 13" and ch = ch]) (auto simp: loop_frame_def swatt_env_def cong: if_cong)
  then have "call_checksum code counter sp A ra ch 52 s = Some (t\<lparr>
      mem := store_mem (\<lambda>i. reg t (creg i)) ch 13 (mem ?q), cpsr := irq_word (cpsr t),
      reg := \<lambda>k. if k = 13 then reg s 13 else if k < 15 then mem ?q (slot (reg s 13) k) else reg t k\<rparr>)"
    using exec_save [OF env, of counter] code_init [OF init] t(4) code_exit
    by (simp add: call_checksum_def entry_def)
  moreover have "mem ?q (slot (reg s 13) k) = ((reg s)(ra := ch)) k" if "k < 15" "k \<noteq> 13" for k
    using slots [OF that(1)] that by (simp add: pushed_def entry_def)
  ultimately show ?thesis
    using t(1-3) env by (auto simp: call_result_def swatt_env_def)
qed

end

section \<open>What a call leaves in memory\<close>

definition challenge_words :: "u32 \<Rightarrow> (u32 \<Rightarrow> u32) \<Rightarrow> u32 list" where
  "challenge_words ch m = map (\<lambda>i. m (cw ch i)) [0..<13]"

lemma call_result_words:
  "call_result sp counter ra ch s t u \<Longrightarrow> challenge_words ch (mem u) = map (\<lambda>i. reg t (creg i)) [0..<13]"
  by (simp add: call_result_def challenge_words_def store_mem_cw)

lemma call_result_frame:
  assumes "swatt_env sp A ra ch s" and "call_result sp counter ra ch s t u"
    and "\<And>i. i < 13 \<Longrightarrow> a \<noteq> cw ch i" and "\<And>j. j < 15 \<Longrightarrow> a \<noteq> slot (reg s 13) j"
  shows "mem u a = mem s a"
proof -
  have "reg (entry counter ra ch s) 13 = reg s 13" using assms(1) by (auto simp: swatt_env_def entry_def)
  then have "mem (at_loop sp counter ra ch s) a = ((mem s)(ch + 44 := counter)) a"
    unfolding at_loop_mem using assms(4) by (simp add: push_mem_other)
  also have "\<dots> = mem s a" using assms(3) [of 11] by (simp add: cw_44)
  finally show ?thesis using assms(2,3) by (simp add: call_result_def store_mem_other)
qed

text \<open>Two runs that start with the same registers and see the same words in the window.\<close>

lemma loops_agree:
  assumes env: "swatt_env sp A ra ch s" "swatt_env sp A ra ch s'"
    and same: "reg s' = reg s" "cpsr s' = cpsr s" "challenge_words ch (mem s') = challenge_words ch (mem s)"
    and win: "\<And>a. window A a \<Longrightarrow>
      mem (at_loop sp counter ra ch s) (a + d) = mem (at_loop sp counter ra ch s') (a + d')"
    and t: "loop_exec sp A n (seen d (at_loop sp counter ra ch s)) = Some t"
      "loop_exec sp A n (seen d' (at_loop sp counter ra ch s')) = Some t'"
  shows "reg t' = reg t \<and> cpsr t' = cpsr t"
proof -
  let ?q = "at_loop sp counter ra ch s" and ?q' = "at_loop sp counter ra ch s'"
  have c: "mem s' (cw ch i) = mem s (cw ch i)" if "i < 13" for i
    using same(3) that by (simp add: challenge_words_def)
  have l: "mem (saved sp (entry counter ra ch s')) (cw ch i) = mem (saved sp (entry counter ra ch s)) (cw ch i)"
    if "i < 13" for i
    using at_loop_cw [OF env(1) that, of counter] at_loop_cw [OF env(2) that, of counter] c [OF that]
    by (simp add: at_loop_def loaded_def)
  have "reg ?q' = reg ?q" "cpsr ?q' = cpsr ?q"
    using l [of 0] l [of 1] l [of 2] l [of 3] l [of 4] l [of 5] l [of 6] l [of 7] l [of 8] l [of 9] l [of 11]
      l [of 12] same
    by (simp_all add: at_loop_def loaded_def cw_def saved_def entry_def)
  then have "seen d' ?q' = (seen d ?q)\<lparr>mem := \<lambda>a. mem ?q' (a + d')\<rparr>" by simp
  moreover have "loop_exec sp A n ((seen d ?q)\<lparr>mem := \<lambda>a. mem ?q (a + d)\<rparr>) = Some t" using t(1) by simp
  ultimately have "t' = t\<lparr>mem := \<lambda>a. mem ?q' (a + d')\<rparr>"
    using loop_exec_agree [of A "\<lambda>a. mem ?q (a + d)" "\<lambda>a. mem ?q' (a + d')" sp n "seen d ?q" t] win t(2) env(1)
    by (simp add: swatt_env_def)
  then show ?thesis by simp
qed

text \<open>The words read do not overlap with the challenge and the saved registers.\<close>

definition apart :: "u32 \<Rightarrow> u32 \<Rightarrow> u32 \<Rightarrow> arm \<Rightarrow> bool" where
  "apart A d ch s \<longleftrightarrow> (\<forall>i < 13. \<not> window A (cw ch i - d)) \<and> (\<forall>j < 15. \<not> window A (slot (reg s 13) j - d))"

lemma apart_mem:
  assumes "swatt_env sp A ra ch s" and "apart A d ch s" and "window A a"
  shows "mem (at_loop sp counter ra ch s) (a + d) = mem s (a + d)"
proof -
  have n: "a + d \<noteq> b" if "\<not> window A (b - d)" for b using assms(3) that by auto
  have "reg (entry counter ra ch s) 13 = reg s 13" using assms(1) by (auto simp: swatt_env_def entry_def)
  moreover have "a + d \<noteq> slot (reg s 13) j" if "j < 15" for j using n assms(2) that by (simp add: apart_def)
  moreover have "a + d \<noteq> ch + 44" unfolding cw_44(1) using n assms(2) by (simp add: apart_def)
  ultimately show ?thesis unfolding at_loop_mem by (simp add: push_mem_other)
qed

section \<open>Properties of the functions\<close>

lemma swattARM_call:
  assumes "swatt_env sp A ra ch s"
  shows "\<exists>t u. loop_exec sp A 0x200000 (seen 0 (at_loop sp 0x1000000 ra ch s)) = Some t \<and>
    loop_frame (seen 0 (at_loop sp 0x1000000 ra ch s)) t \<and> reg t 12 = 0 \<and>
    swattARM sp A ra ch 52 s = Some u \<and> call_result sp 0x1000000 ra ch s t u"
  using no.call_returns [OF assms, of "0x1000000" "0x200000"] by (simp add: swattARM_def)

lemma swattARM_db_attack_call:
  assumes "swatt_env sp A ra ch s"
  shows "\<exists>t u. loop_exec sp A 0x200000 (seen 0x500 (at_loop sp 0x1000000 ra ch s)) = Some t \<and>
    loop_frame (seen 0x500 (at_loop sp 0x1000000 ra ch s)) t \<and> reg t 12 = 0 \<and>
    swattARM_db_attack sp A ra ch 52 s = Some u \<and> call_result sp 0x1000000 ra ch s t u"
  using db.call_returns [OF assms, of "0x1000000" "0x200000"] by (simp add: swattARM_db_attack_def)

text \<open>An example state for the witnesses.\<close>

definition example_sp :: sp_ops where
  "example_sp = (\<lambda>w. w, \<lambda>v w. v)"

definition example_arm :: "(u32 \<Rightarrow> u32) \<Rightarrow> arm" where
  "example_arm m = \<lparr>reg = (\<lambda>_. 7)(13 := 0x90000000), cpsr = 0x60000093, mem = m\<rparr>"

lemma all_less_numeral:
  "(\<forall>i < (13 :: nat). P i) \<longleftrightarrow> list_all P [0..<13]" "(\<forall>i < (15 :: nat). P i) \<longleftrightarrow> list_all P [0..<15]"
  by (auto simp: list_all_iff)

lemma example_env: "swatt_env example_sp 0x40000000 12 0x80000000 (example_arm m)"
  by (simp add: swatt_env_def stack_ok_def example_sp_def example_arm_def all_less_numeral cw_def slot_def upt_rec)

lemma example_apart: "apart 0x40000000 0 0x80000000 (example_arm m)" "apart 0x40000000 0x500 0x80000000 (example_arm m)"
  by (simp_all add: apart_def example_arm_def all_less_numeral cw_def slot_def window_def upt_rec)

text \<open>
  C26: A call of \<open>swattARM\<close> with the size 52 ends: it restores registers 0 to 14, leaves
  the counter word of the challenge at 0 and its last word as it was, changes no other memory than
  the challenge and the stack below the stack pointer, and returns with interrupts enabled,
  whether or not they were enabled before.
\<close>

theorem swattARM_returns:
  assumes "swatt_env sp A ra ch s"
  shows "\<exists>u. swattARM sp A ra ch 52 s = Some u \<and> (\<forall>k < 15. reg u k = ((reg s)(ra := ch)) k) \<and>
    mem u (ch + 44) = 0 \<and> mem u (ch + 48) = mem s (ch + 48) \<and>
    (\<forall>a. (\<forall>i < 13. a \<noteq> cw ch i) \<and> (\<forall>j < 15. a \<noteq> slot (reg s 13) j) \<longrightarrow> mem u a = mem s a) \<and>
    \<not> bit (cpsr u) 6 \<and> \<not> bit (cpsr u) 7"
proof -
  let ?q = "at_loop sp 0x1000000 ra ch s"
  obtain t u where t: "loop_frame (seen 0 ?q) t" "reg t 12 = 0" "swattARM sp A ra ch 52 s = Some u"
      "call_result sp 0x1000000 ra ch s t u"
    using swattARM_call [OF assms] by blast
  have w: "mem u (cw ch i) = reg t (creg i)" if "i < 13" for i
    using t(4) that by (simp add: call_result_def store_mem_cw)
  have "reg t 14 = reg ?q 14" using t(1) by (simp add: loop_frame_def)
  also have "\<dots> = mem ?q (cw ch 12)" by (simp add: at_loop_def loaded_def cw_44)
  finally have "mem u (cw ch 12) = mem s (cw ch 12)"
    using at_loop_cw [OF assms, of 12 "0x1000000"] w [of 12] by (simp add: creg_def)
  moreover have "mem u (cw ch 11) = 0" using w [of 11] t(2) by (simp add: creg_def)
  ultimately show ?thesis
    using t(3,4) call_result_frame [OF assms t(4)] irq_word_bits [of "cpsr t"]
    unfolding cw_44(1,2) by (auto simp: call_result_def)
qed

lemma swattARM_returns_witness:
  "\<exists>u. swattARM example_sp 0x40000000 12 0x80000000 52 (example_arm (\<lambda>a. a)) = Some u \<and> reg u 4 = 7 \<and>
     mem u 0x8000002c = 0 \<and> mem u 0x80000030 = 0x80000030 \<and> \<not> bit (cpsr u) 7"
proof -
  obtain u where "swattARM example_sp 0x40000000 12 0x80000000 52 (example_arm (\<lambda>a. a)) = Some u"
      "\<forall>k < 15. reg u k = ((reg (example_arm (\<lambda>a. a)))(12 := 0x80000000)) k"
      "mem u 0x8000002c = 0" "mem u 0x80000030 = mem (example_arm (\<lambda>a. a)) 0x80000030" "\<not> bit (cpsr u) 7"
    using swattARM_returns [OF example_env, of "\<lambda>a. a"] by auto
  then show ?thesis by (simp add: example_arm_def)
qed

text \<open>
  C27: The checksum depends on 768 bytes of memory only: two machines with the same registers
  and challenge whose memories agree on the window of 0x300 bytes at the code compute the same 13
  words, whatever the rest of the memory is. (The comment above the function speaks of 8 kilobytes.)
\<close>

theorem swattARM_reads_window:
  assumes "swatt_env sp A ra ch s" and "reg s' = reg s" and "cpsr s' = cpsr s"
    and "challenge_words ch (mem s') = challenge_words ch (mem s)" and "\<And>a. window A a \<Longrightarrow> mem s' a = mem s a"
  shows "\<exists>u u'. swattARM sp A ra ch 52 s = Some u \<and> swattARM sp A ra ch 52 s' = Some u' \<and>
    challenge_words ch (mem u') = challenge_words ch (mem u)"
proof -
  let ?q = "at_loop sp 0x1000000 ra ch"
  have env: "swatt_env sp A ra ch s'" using assms(1,2) by (simp add: swatt_env_def)
  obtain t u where t: "loop_exec sp A 0x200000 (seen 0 (?q s)) = Some t" "swattARM sp A ra ch 52 s = Some u"
      "call_result sp 0x1000000 ra ch s t u"
    using swattARM_call [OF assms(1)] by blast
  obtain t' u' where t': "loop_exec sp A 0x200000 (seen 0 (?q s')) = Some t'" "swattARM sp A ra ch 52 s' = Some u'"
      "call_result sp 0x1000000 ra ch s' t' u'"
    using swattARM_call [OF env] by blast
  have p: "pushed sp (entry 0x1000000 ra ch s') = pushed sp (entry 0x1000000 ra ch s)"
    "reg (entry 0x1000000 ra ch s') 13 = reg (entry 0x1000000 ra ch s) 13"
    using assms(2) by (auto simp: pushed_def entry_def fun_eq_iff)
  have "mem (?q s) (a + 0) = mem (?q s') (a + 0)" if "window A a" for a
    unfolding at_loop_mem p using assms(5) [OF that] by (intro push_mem_cong) simp
  then have "reg t' = reg t" using loops_agree [OF assms(1) env assms(2-4) _ t(1) t'(1)] by blast
  then show ?thesis using t(2) t'(2) call_result_words [OF t(3)] call_result_words [OF t'(3)] by auto
qed

lemma swattARM_reads_window_witness:
  "\<exists>u u'. swattARM example_sp 0x40000000 12 0x80000000 52 (example_arm (\<lambda>a. a)) = Some u \<and>
     swattARM example_sp 0x40000000 12 0x80000000 52 (example_arm (\<lambda>a. if a = 0x40000300 then 0 else a)) = Some u' \<and>
     challenge_words 0x80000000 (mem u') = challenge_words 0x80000000 (mem u)"
  by (rule swattARM_reads_window [OF example_env])
    (auto simp: example_arm_def challenge_words_def cw_def window_def upt_rec)

text \<open>
  C12: The forged function computes the checksum of a copy: run on a machine that keeps the
  genuine words at the distance 0x500, \<open>swattARM_db_attack\<close> leaves in the challenge exactly what
  \<open>swattARM\<close> leaves on a genuine machine. The checksum alone does not tell them apart.
\<close>

theorem swattARM_db_attack_forges:
  assumes "swatt_env sp A ra ch s" and "reg s' = reg s" and "cpsr s' = cpsr s"
    and "challenge_words ch (mem s') = challenge_words ch (mem s)"
    and "apart A 0x500 ch s" and "apart A 0 ch s" and "\<And>a. window A a \<Longrightarrow> mem s' a = mem s (a + 0x500)"
  shows "\<exists>u u'. swattARM_db_attack sp A ra ch 52 s = Some u \<and> swattARM sp A ra ch 52 s' = Some u' \<and>
    challenge_words ch (mem u') = challenge_words ch (mem u)"
proof -
  let ?q = "at_loop sp 0x1000000 ra ch"
  have env: "swatt_env sp A ra ch s'" using assms(1,2) by (simp add: swatt_env_def)
  have ap: "apart A 0 ch s'" using assms(2,6) by (simp add: apart_def)
  obtain t u where t: "loop_exec sp A 0x200000 (seen 0x500 (?q s)) = Some t" "swattARM_db_attack sp A ra ch 52 s = Some u"
      "call_result sp 0x1000000 ra ch s t u"
    using swattARM_db_attack_call [OF assms(1)] by blast
  obtain t' u' where t': "loop_exec sp A 0x200000 (seen 0 (?q s')) = Some t'" "swattARM sp A ra ch 52 s' = Some u'"
      "call_result sp 0x1000000 ra ch s' t' u'"
    using swattARM_call [OF env] by blast
  have "mem (?q s) (a + 0x500) = mem (?q s') (a + 0)" if "window A a" for a
    using apart_mem [OF assms(1,5) that] apart_mem [OF env ap that] assms(7) [OF that] by simp
  then have "reg t' = reg t" using loops_agree [OF assms(1) env assms(2-4) _ t(1) t'(1)] by blast
  then show ?thesis using t(2) t'(2) call_result_words [OF t(3)] call_result_words [OF t'(3)] by auto
qed

lemma swattARM_db_attack_forges_witness:
  "\<exists>u u'. swattARM_db_attack example_sp 0x40000000 12 0x80000000 52 (example_arm (\<lambda>a. a)) = Some u \<and>
     swattARM example_sp 0x40000000 12 0x80000000 52 (example_arm (\<lambda>a. if a < 0x80000000 then a + 0x500 else a)) = Some u' \<and>
     challenge_words 0x80000000 (mem u') = challenge_words 0x80000000 (mem u)"
proof (rule swattARM_db_attack_forges [OF example_env _ _ _ example_apart(2,1)])
  fix a :: u32
  assume "window 0x40000000 a"
  then have "a < 0x80000000"
    by (simp add: window_def word_less_nat_alt unat_sub_if' split: if_splits)
  then show "mem (example_arm (\<lambda>a. if a < 0x80000000 then a + 0x500 else a)) a = mem (example_arm (\<lambda>a. a)) (a + 0x500)"
    by (simp add: example_arm_def)
qed (simp_all add: example_arm_def challenge_words_def cw_def upt_rec)

end
