(* ===== verification/Arm_Spec.thy ===== *)
theory Arm_Spec
  imports Arm_Calls
begin

text \<open>
  A specification of the checksum of \<open>code/nic-driver/smsc/smsc911x.c\<close> in terms of checksum
  words, random number, counter and status word, after the pseudo code in the comment above
  \<open>swattARM\<close> (with the carries, and with the two places where the code departs from the comment),
  and the proof that the instructions implement it.
\<close>

section \<open>The specification\<close>

type_synonym spec_state = "u32 list \<times> u32 \<times> u32 \<times> u32"

text \<open>
  Block \<open>i\<close> reads the word at \<open>daddr\<close>. Even blocks add it to \<open>C[i]\<close> and rotate and add the counter
  only when the last addition has a carry; odd blocks take \<open>C[i-3]\<close> where the comment has
  \<open>C[i-2]\<close>.
\<close>

definition spec_even :: "u32 \<Rightarrow> u32 \<Rightarrow> u32 \<Rightarrow> u32 \<Rightarrow> u32 \<Rightarrow> u32 \<Rightarrow> u32 \<Rightarrow> u32 \<Rightarrow> u32 \<Rightarrow> u32 \<times> u32 \<times> u32" where
  "spec_even c c2 c1 w x daddr pc n cp =
     (let (r1, f1, _) = add_carry c w (flag_C cp);
          (r2, f2, v2) = add_carry (r1 XOR c2) x f1;
          status = set_flags (bit r2 31) (r2 = 0) f2 v2 cp;
          r3 = ((r2 XOR pc) XOR c1) + daddr + of_bool f2;
          r4 = r3 XOR status;
          r5 = (if f2 then n + word_rotr 1 r4 else r4) in
      (r5, x XOR r5, status))"

definition spec_odd :: "u32 \<Rightarrow> u32 \<Rightarrow> u32 \<Rightarrow> u32 \<Rightarrow> u32 \<Rightarrow> u32 \<Rightarrow> u32 \<Rightarrow> u32 \<Rightarrow> u32 \<Rightarrow> u32 \<times> u32 \<times> u32" where
  "spec_odd c c3 c1 w x daddr pc n cp =
     (let (r1, f1, _) = add_carry (c XOR w) c3 (flag_C cp);
          (r2, f2, _) = add_carry (r1 XOR x) pc f1;
          (r3, f3, v3) = add_carry r2 c1 f2;
          status = set_flags (bit r3 31) (r3 = 0) f3 v3 cp;
          (r4, f4, v4) = add_carry (r3 XOR daddr) status f3;
          r5 = n XOR word_rotr 1 r4 in
      (r5, x + r5 + of_bool f4, set_flags (bit r4 31) (r4 = 0) f4 v4 cp))"

definition spec_block :: "u32 \<Rightarrow> (u32 \<Rightarrow> u32) \<Rightarrow> nat \<Rightarrow> spec_state \<Rightarrow> spec_state" where
  "spec_block A m i st =
     (let (C, x, n, cp) = st;
          x = x + (x * x OR 5);
          pc = (\<lambda>j. A + 4 * of_nat (16 + 17 * i + j) + 8);
          daddr = (pc 3 XOR drop_bit 24 x) AND 0xfffffffc;
          (c, x, cp) =
            (if even i then spec_even (C ! i) (C ! ((i + 6) mod 8)) (C ! ((i + 7) mod 8)) (m daddr) x daddr (pc 9) n cp
             else spec_odd (C ! i) (C ! ((i + 5) mod 8)) (C ! ((i + 7) mod 8)) (m daddr) x daddr (pc 9) n cp);
          cp = (if i = 7 then let (r, f, v) = add_carry n (NOT 1) True in set_flags (bit r 31) (r = 0) f v cp else cp) in
      (C[i := c], x, n - 1, cp))"

fun spec_loop :: "u32 \<Rightarrow> (u32 \<Rightarrow> u32) \<Rightarrow> nat \<Rightarrow> spec_state \<Rightarrow> spec_state" where
  "spec_loop A m 0 st = st"
| "spec_loop A m (Suc n) st = spec_loop A m n (fold (spec_block A m) [0..<8] st)"

section \<open>The blocks as instances of two patterns\<close>

definition even_code :: "nat \<Rightarrow> nat \<Rightarrow> nat \<Rightarrow> instr list" where
  "even_code j p q =
    [Ldr 9 11 0,
     DP AL Dadc True j j (Reg 9), DP AL Deor False j j (Reg p), DP AL Dadc True j j (Reg 10),
     DP AL Deor False j j (Reg 15), DP AL Deor False j j (Reg q), DP AL Dadc False j j (Reg 11),
     MRS 11, DP AL Deor False j j (Reg 11), DP CS Dadd False j 12 (Ror j 1),
     DP AL Deor False 10 10 (Reg j), DP AL Dsub False 12 12 (Imm 1)]"

definition odd_code :: "bool \<Rightarrow> nat \<Rightarrow> nat \<Rightarrow> nat \<Rightarrow> instr list" where
  "odd_code f j p q =
    [Ldr 9 11 0,
     DP AL Deor False j j (Reg 9), DP AL Dadc True j j (Reg p), DP AL Deor False j j (Reg 10),
     DP AL Dadc True j j (Reg 15), DP AL Dadc True j j (Reg q), DP AL Deor False j j (Reg 11),
     MRS 11, DP AL Dadc True j j (Reg 11), DP AL Deor False j 12 (Ror j 1),
     DP AL Dadc False 10 10 (Reg j), DP AL Dsub f 12 12 (Imm 1)]"

definition block_regs :: "nat \<Rightarrow> nat \<times> nat \<times> nat" where
  "block_regs i = (Suc i, Suc ((i + (if even i then 6 else 5)) mod 8), Suc ((i + 7) mod 8))"

lemma blocks_by_pattern:
  assumes "i < 8"
  shows "no_blocks ! i = block_pre @
    (case block_regs i of (j, p, q) \<Rightarrow> if even i then even_code j p q else odd_code (i = 7) j p q)"
  using assms
  by (cases rule: block_cases) (simp_all add: no_blocks_def no_block_defs block_pre_def even_code_def odd_code_def block_regs_def)

lemma set_flags_twice [simp]: "set_flags n z c v (set_flags n' z' c' v' w) = set_flags n z c v w"
  by (simp add: set_flags_def take_bit_set_flags [unfolded set_flags_def])

abbreviation plain_reg :: "nat \<Rightarrow> bool" where
  "plain_reg j \<equiv> 1 \<le> j \<and> j \<le> 8"

section \<open>Execution of the patterns\<close>

lemma exec_plain:
  "arm_exec sp A pc (DP cnd d False k n q) s =
     Some (if cond_ok cnd s then s\<lparr>reg := (reg s)(k := fst (dp_result d (cpsr s) (rreg A pc s n) (op2_val A pc s q)))\<rparr> else s)"
  by (simp add: arm_exec_def case_prod_unfold Let_def)

lemma exec_adcs:
  assumes "add_carry (rreg A pc s n) (op2_val A pc s q) (flag_C (cpsr s)) = (r, c, v)"
  shows "arm_exec sp A pc (DP AL Dadc True k n q) s =
    Some (s\<lparr>reg := (reg s)(k := r), cpsr := set_flags (bit r 31) (r = 0) c v (cpsr s)\<rparr>)"
  using assms by (simp add: arm_exec_def cond_ok_def dp_result_def)

lemma exec_subs:
  assumes "add_carry (rreg A pc s n) (NOT (op2_val A pc s q)) True = (r, c, v)"
  shows "arm_exec sp A pc (DP AL Dsub True k n q) s =
    Some (s\<lparr>reg := (reg s)(k := r), cpsr := set_flags (bit r 31) (r = 0) c v (cpsr s)\<rparr>)"
  using assms by (simp add: arm_exec_def cond_ok_def dp_result_def)

lemma fst_dp_result:
  "fst (dp_result Dadd c x y) = x + y" "fst (dp_result Dadc c x y) = x + y + of_bool (flag_C c)"
  "fst (dp_result Dsub c x y) = x - y" "fst (dp_result Deor c x y) = x XOR y"
  by (simp_all add: dp_result_def add_carry_def Let_def not_eq_complement)

lemma exec_ldr: "(reg s n + d) AND 3 = 0 \<Longrightarrow> n \<noteq> 15 \<Longrightarrow>
    arm_exec sp A pc (Ldr k n d) s = Some (s\<lparr>reg := (reg s)(k := mem s (reg s n + d))\<rparr>)"
  by (simp add: arm_exec_def rreg_def)

lemma exec_mrs: "arm_exec sp A pc (MRS k) s = Some (s\<lparr>reg := (reg s)(k := cpsr s)\<rparr>)"
  by (simp add: arm_exec_def)

lemmas exec_rules = exec_plain exec_ldr exec_mrs exec_adcs exec_subs fst_dp_result rreg_def op2_val_def cond_ok_def

lemma exec_even:
  assumes "reg s 11 AND 3 = 0" and "plain_reg j" "plain_reg p" "plain_reg q" and "p \<noteq> j" "q \<noteq> j"
    and "spec_even (reg s j) (reg s p) (reg s q) (mem s (reg s 11)) (reg s 10) (reg s 11) (A + 4 * of_nat (pc + 4) + 8)
      (reg s 12) (cpsr s) = (c, x, cp)"
  shows "\<exists>v w. arm_exec_list sp A pc (even_code j p q) s =
    Some (s\<lparr>reg := (reg s)(9 := v, 11 := w, j := c, 10 := x, 12 := reg s 12 - 1), cpsr := cp\<rparr>)"
proof -
  obtain r1 f1 v1 where a1: "add_carry (reg s j) (mem s (reg s 11)) (flag_C (cpsr s)) = (r1, f1, v1)"
    by (metis prod_cases3)
  obtain r2 f2 v2 where a2: "add_carry (r1 XOR reg s p) (reg s 10) f1 = (r2, f2, v2)"
    by (metis prod_cases3)
  have n: "j \<noteq> 15" "p \<noteq> 15" "q \<noteq> 15" "j \<noteq> 9" "j \<noteq> 10" "j \<noteq> 11" "j \<noteq> 12" "p \<noteq> 9" "q \<noteq> 9" "p \<noteq> 11" "q \<noteq> 11"
    using assms(2-4) by auto
  have "arm_exec_list sp A pc (even_code j p q) s =
      Some (s\<lparr>reg := (reg s)(9 := mem s (reg s 11), 11 := set_flags (bit r2 31) (r2 = 0) f2 v2 (cpsr s),
        j := c, 10 := x, 12 := reg s 12 - 1), cpsr := cp\<rparr>)"
    using assms(1,5-7) n
    by (auto simp: even_code_def exec_rules a1 a2 spec_even_def Let_def)
  then show ?thesis by blast
qed

lemma exec_odd:
  assumes "reg s 11 AND 3 = 0" and "plain_reg j" "plain_reg p" "plain_reg q" and "p \<noteq> j" "q \<noteq> j"
    and "spec_odd (reg s j) (reg s p) (reg s q) (mem s (reg s 11)) (reg s 10) (reg s 11) (A + 4 * of_nat (pc + 4) + 8)
      (reg s 12) (cpsr s) = (c, x, cp)"
  shows "\<exists>v w. arm_exec_list sp A pc (odd_code f j p q) s =
    Some (s\<lparr>reg := (reg s)(9 := v, 11 := w, j := c, 10 := x, 12 := reg s 12 - 1),
      cpsr := if f then let (r, g, v) = add_carry (reg s 12) (NOT 1) True in set_flags (bit r 31) (r = 0) g v cp else cp\<rparr>)"
proof -
  obtain r1 f1 v1 where a1: "add_carry (reg s j XOR mem s (reg s 11)) (reg s p) (flag_C (cpsr s)) = (r1, f1, v1)"
    by (metis prod_cases3)
  obtain r2 f2 v2 where a2: "add_carry (r1 XOR reg s 10) (A + 4 * of_nat (pc + 4) + 8) f1 = (r2, f2, v2)"
    by (metis prod_cases3)
  obtain r3 f3 v3 where a3: "add_carry r2 (reg s q) f2 = (r3, f3, v3)"
    by (metis prod_cases3)
  define status where "status = set_flags (bit r3 31) (r3 = 0) f3 v3 (cpsr s)"
  obtain r4 f4 v4 where a4: "add_carry (r3 XOR reg s 11) status f3 = (r4, f4, v4)"
    by (metis prod_cases3)
  obtain r5 f5 v5 where a5: "add_carry (reg s 12) (NOT 1) True = (r5, f5, v5)"
    by (metis prod_cases3)
  have r5: "r5 = reg s 12 - 1" using a5 by (simp add: add_carry_def Let_def not_eq_complement)
  have n: "j \<noteq> 15" "p \<noteq> 15" "q \<noteq> 15" "j \<noteq> 9" "j \<noteq> 10" "j \<noteq> 11" "j \<noteq> 12" "p \<noteq> 9" "q \<noteq> 9" "p \<noteq> 11" "q \<noteq> 11"
    using assms(2-4) by auto
  have pc: "A + 4 * of_nat (Suc (Suc (Suc (Suc pc)))) + 8 = A + 4 * of_nat (pc + 4) + 8" by simp
  have "arm_exec_list sp A pc (odd_code f j p q) s =
      Some (s\<lparr>reg := (reg s)(9 := mem s (reg s 11), 11 := status, j := c, 10 := x, 12 := reg s 12 - 1),
      cpsr := if f then let (r, g, v) = add_carry (reg s 12) (NOT 1) True in set_flags (bit r 31) (r = 0) g v cp else cp\<rparr>)"
    using assms(1,5-7) n
    by (cases f)
      (auto simp: odd_code_def exec_rules a1 a2 [simplified] a3 a4 [unfolded status_def] a5 [simplified] r5 spec_odd_def status_def pc Let_def)
  then show ?thesis by blast
qed

section \<open>Refinement\<close>

definition abs_arm :: "arm \<Rightarrow> spec_state" where
  "abs_arm s = (map (reg s) [1..<9], reg s 10, reg s 12, cpsr s)"

lemma checksum_regs_nth: "i < 8 \<Longrightarrow> map (reg s) [1..<9] ! i = reg s (Suc i)"
  by (simp del: upt_Suc)

lemma spec_flags:
  "spec_even c c2 c1 w x d pc n (set_flags a b (flag_C cp) e cp) = spec_even c c2 c1 w x d pc n cp"
  "spec_odd c c2 c1 w x d pc n (set_flags a b (flag_C cp) e cp) = spec_odd c c2 c1 w x d pc n cp"
  by (simp_all add: spec_even_def spec_odd_def)

lemma checksum_regs_update:
  "i < 8 \<Longrightarrow> map ((reg s)(9 := v, 11 := w, Suc i := c, 10 := x, 12 := n)) [1..<9] = (map (reg s) [1..<9])[i := c]"
  by (rule nth_equalityI) (auto simp: nth_list_update simp del: upt_Suc)

lemma block_refines:
  assumes k: "k < 8" and t: "block_exec sp A k s = Some t"
  shows "abs_arm t = spec_block A (mem s) k (abs_arm s)"
proof -
  let ?p = "pre_state A (16 + 17 * k) s" and ?j = "Suc k" and ?q = "Suc ((k + 7) mod 8)"
  let ?r = "Suc ((k + (if even k then 6 else 5)) mod 8)"
  define d where "d = ((A + 4 * of_nat (16 + 17 * k + 3) + 8) XOR drop_bit 24 (reg s 10 + (reg s 10 * reg s 10 OR 5))) AND 0xfffffffc"
  define pc where "pc = A + 4 * of_nat (16 + 17 * k + 9) + 8"
  have p: "reg ?p 11 = d" "reg ?p 10 = reg s 10 + (reg s 10 * reg s 10 OR 5)" "reg ?p 12 = reg s 12" "mem ?p = mem s"
    by (auto simp: pre_state_def Let_def d_def algebra_simps)
  have pr: "reg ?p i = reg s i" if "plain_reg i" for i
    using that by (auto simp: pre_state_def Let_def)
  have e: "arm_exec_list sp A (21 + 17 * k) (if even k then even_code ?j ?r ?q else odd_code (k = 7) ?j ?r ?q) ?p = Some t"
    using t blocks_by_pattern [OF k] by (simp add: block_exec_def block_regs_def arm_exec_list_append block_pre_exec pre_detour_straight)
  have plain: "plain_reg ?j" "plain_reg ?r" "plain_reg ?q" "?r \<noteq> ?j" "?q \<noteq> ?j" "(k + 7) mod 8 < 8"
      "(k + (if even k then 6 else 5)) mod 8 < 8"
    using k by (auto elim: block_cases)
  have cp: "cpsr ?p = set_flags (bit (reg s 10 * reg s 10) 31) (reg s 10 * reg s 10 = 0) (flag_C (cpsr s)) (flag_V (cpsr s)) (cpsr s)"
    by (simp add: pre_state_def Let_def)
  have pc4: "A + 4 * of_nat (21 + 17 * k + 4) + 8 = pc" by (simp add: pc_def)
  define f where "f = (if even k then spec_even else spec_odd)"
  obtain c x y where f: "f (reg ?p ?j) (reg ?p ?r) (reg ?p ?q) (mem ?p (reg ?p 11)) (reg ?p 10) (reg ?p 11) pc
      (reg ?p 12) (cpsr ?p) = (c, x, y)"
    by (metis prod_cases3)
  define z where "z = (if k = 7 then let (r, g, v) = add_carry (reg s 12) (NOT 1) True in set_flags (bit r 31) (r = 0) g v y else y)"
  have "\<exists>v w. t = ?p\<lparr>reg := (reg ?p)(9 := v, 11 := w, ?j := c, 10 := x, 12 := reg s 12 - 1), cpsr := z\<rparr>"
  proof (cases "even k")
    case True
    then have "k \<noteq> 7" by auto
    with True show ?thesis
      using exec_even [OF pre_state_aligned plain(1-5), of A "16 + 17 * k" s A "21 + 17 * k" c x y sp] e f unfolding pc4 f_def z_def p by (simp del: if_split)
  next
    case False
    then show ?thesis
      using exec_odd [OF pre_state_aligned plain(1-5), of A "16 + 17 * k" s A "21 + 17 * k" c x y sp "k = 7"] e f unfolding pc4 f_def z_def p by (simp del: if_split)
  qed
  then obtain v w where "t = ?p\<lparr>reg := (reg ?p)(9 := v, 11 := w, ?j := c, 10 := x, 12 := reg s 12 - 1), cpsr := z\<rparr>"
    by blast
  moreover have "map (reg ?p) [1..<9] = map (reg s) [1..<9]" using pr by (intro map_cong) auto
  ultimately have "abs_arm t = ((map (reg s) [1..<9])[k := c], x, reg s 12 - 1, z)"
    using checksum_regs_update [OF k, of ?p] by (simp add: abs_arm_def del: upt_Suc One_nat_def map_eq_conv)
  moreover have "f (reg s ?j) (reg s ?r) (reg s ?q) (mem s d) (reg s 10 + (reg s 10 * reg s 10 OR 5)) d pc
      (reg s 12) (cpsr s) = (c, x, y)"
    using f unfolding cp p pr [OF plain(1)] pr [OF plain(2)] pr [OF plain(3)] f_def by (auto simp: spec_flags split: if_splits)
  then have "spec_block A (mem s) k (abs_arm s) = ((map (reg s) [1..<9])[k := c], x, reg s 12 - 1, z)"
    unfolding spec_block_def abs_arm_def Let_def prod.case d_def [symmetric] pc_def [symmetric]
      checksum_regs_nth [OF k] f_def z_def
    using plain(6,7) by (cases "even k") (auto simp: checksum_regs_nth simp del: upt_Suc)
  ultimately show ?thesis by simp
qed

lemma blocks_refine:
  "n \<le> 8 \<Longrightarrow> blocks_exec sp A n s = Some t \<Longrightarrow> abs_arm t = fold (spec_block A (mem s)) [0..<n] (abs_arm s)"
proof (induction n arbitrary: t)
  case (Suc n)
  then obtain u where u: "blocks_exec sp A n s = Some u" "block_exec sp A n u = Some t"
    by (auto simp: bind_eq_Some_conv)
  have "mem u = mem s" using blocks_exec_total [of n sp A s] u(1) Suc.prems(1) by (auto simp: loop_frame_def)
  then show ?case using block_refines [OF _ u(2)] Suc.IH [OF _ u(1)] Suc.prems(1) by simp
qed simp

lemma loop_refines:
  "loop_exec sp A n s = Some t \<Longrightarrow> abs_arm t = spec_loop A (mem s) n (abs_arm s)"
proof (induction n arbitrary: s)
  case (Suc n)
  then obtain u where u: "blocks_exec sp A 8 s = Some u" "loop_exec sp A n u = Some t"
    by (auto simp: bind_eq_Some_conv)
  have "mem u = mem s" using blocks_exec_total [of 8 sp A s] u(1) by (auto simp: loop_frame_def)
  then show ?case using blocks_refine [OF _ u(1)] Suc.IH [OF u(2)] by (simp del: upt_Suc upt_rec_numeral)
qed simp

lemma spec_block_window:
  assumes "k < 8" and "A AND 0xff = 0" and "\<And>a. window A a \<Longrightarrow> m a = m' a"
  shows "spec_block A m k st = spec_block A m' k st"
proof -
  have "(4 * of_nat (16 + 17 * k + 3) + 8) AND NOT (mask 8) \<le> (0x200 :: u32)"
    using assms(1) by (cases rule: block_cases) (simp_all add: mask_eq_exp_minus_1)
  then have "m (((A + (4 * of_nat (16 + 17 * k + 3) + 8)) XOR drop_bit 24 x) AND 0xfffffffc) =
      m' (((A + (4 * of_nat (16 + 17 * k + 3) + 8)) XOR drop_bit 24 x) AND 0xfffffffc)" for x
    using assms(3) window_daddr [OF assms(2)] by blast
  then show ?thesis unfolding spec_block_def Let_def add.assoc [of A] by presburger
qed

lemma spec_loop_window:
  assumes "A AND 0xff = 0" and "\<And>a. window A a \<Longrightarrow> m a = m' a"
  shows "spec_loop A m n st = spec_loop A m' n st"
proof (induction n arbitrary: st)
  case (Suc n)
  have "fold (spec_block A m) [0..<8] st = fold (spec_block A m') [0..<8] st"
    using spec_block_window [OF _ assms] by (intro fold_cong) auto
  with Suc show ?case by (simp del: upt_Suc upt_rec_numeral)
qed simp

text \<open>The state the specification starts in: the challenge, the counter and the status word.\<close>

definition spec_start :: "u32 \<Rightarrow> arm \<Rightarrow> spec_state" where
  "spec_start ch s = (map (\<lambda>i. mem s (cw ch i)) [0..<8], mem s (cw ch 9), 0x1000000,
     (cpsr s AND 0xffffff00) OR ((cpsr s OR 0xd3) AND 0xff))"

lemma abs_at_loop:
  assumes "swatt_env sp A ra ch s"
  shows "abs_arm (at_loop sp 0x1000000 ra ch s) = spec_start ch s"
proof -
  let ?q = "at_loop sp 0x1000000 ra ch s"
  note c = at_loop_cw [OF assms, of _ "0x1000000"]
  have "reg ?q (Suc i) = mem ?q (cw ch i)" if "i < 8" for i
    using that by (elim block_cases) (simp_all add: at_loop_def loaded_def cw_def)
  then have "map (reg ?q) [1..<9] = map (\<lambda>i. mem s (cw ch i)) [0..<8]"
    using c by (intro nth_equalityI) (simp_all del: upt_Suc)
  moreover have "reg ?q 10 = mem ?q (cw ch 9)" "reg ?q 12 = mem ?q (cw ch 11)"
    "cpsr ?q = (cpsr s AND 0xffffff00) OR ((cpsr s OR 0xd3) AND 0xff)"
    by (simp_all add: at_loop_def loaded_def cw_def saved_def entry_def)
  ultimately show ?thesis using c [of 9] c [of 11] by (simp add: abs_arm_def spec_start_def)
qed

lemma swattARM_words:
  assumes "swatt_env sp A ra ch s" and "apart A 0 ch s"
  shows "\<exists>u. swattARM sp A ra ch 52 s = Some u \<and>
    take 8 (challenge_words ch (mem u)) = fst (spec_loop A (mem s) 0x200000 (spec_start ch s))"
proof -
  let ?q = "at_loop sp 0x1000000 ra ch s"
  obtain t u where t: "loop_exec sp A 0x200000 (seen 0 ?q) = Some t" "swattARM sp A ra ch 52 s = Some u"
      "call_result sp 0x1000000 ra ch s t u"
    using swattARM_call [OF assms(1)] by blast
  have "fst (abs_arm t) = fst (spec_loop A (mem ?q) 0x200000 (spec_start ch s))"
    using loop_refines [OF t(1)] abs_at_loop [OF assms(1)] by simp
  also have "spec_loop A (mem ?q) 0x200000 (spec_start ch s) = spec_loop A (mem s) 0x200000 (spec_start ch s)"
    using apart_mem [OF assms] assms(1) by (intro spec_loop_window) (auto simp: swatt_env_def)
  also have "fst (abs_arm t) = take 8 (challenge_words ch (mem u))"
    unfolding call_result_words [OF t(3)] abs_arm_def
    by (rule nth_equalityI) (auto simp: creg_def simp del: upt_Suc)
  finally show ?thesis using t(2) by auto
qed

text \<open>
  C4: The checksum \<open>swattARM\<close> computes is the one of the specification: the first eight words it
  leaves in the challenge are the checksum words after 0x200000 rounds of eight blocks on the
  memory of the call.
\<close>

theorem swattARM_refines_spec:
  assumes "swatt_env sp A ra ch s" and "apart A 0 ch s"
  shows "\<exists>u. swattARM sp A ra ch 52 s = Some u \<and>
    take 8 (challenge_words ch (mem u)) = fst (spec_loop A (mem s) 0x200000 (spec_start ch s))"
  using assms by (rule swattARM_words)

lemma swattARM_refines_spec_witness:
  "\<exists>u. swattARM example_sp 0x40000000 12 0x80000000 52 (example_arm (\<lambda>a. a)) = Some u \<and>
    take 8 (challenge_words 0x80000000 (mem u)) =
      fst (spec_loop 0x40000000 (\<lambda>a. a) 0x200000 (spec_start 0x80000000 (example_arm (\<lambda>a. a))))"
  using swattARM_refines_spec [OF example_env example_apart(1), of "\<lambda>a. a"] by (simp add: example_arm_def)

end
