(* ===== verification/Smsc_Regs.thy ===== *)
theory Smsc_Regs
  imports Vet_Prelude
begin

text \<open>
  The constants of \<open>code/nic-driver/smsc/smsc911x.h\<close> that the driver uses (register offsets and the
  bits of the registers; the trailing underscore of the bit names is dropped), and those of the
  kernel headers \<open>mii.h\<close>, \<open>smscphy.h\<close> and \<open>smsc911x.h\<close>. They are input abbreviations: terms show the
  numbers.
\<close>

abbreviation (input) TX_FIFO_LOW_THRESHOLD :: u32 where "TX_FIFO_LOW_THRESHOLD \<equiv> 1600"
abbreviation (input) SMSC911X_EEPROM_SIZE :: u32 where "SMSC911X_EEPROM_SIZE \<equiv> 128"
abbreviation (input) SMSC_NAPI_WEIGHT :: u32 where "SMSC_NAPI_WEIGHT \<equiv> 16"
abbreviation (input) RX_DATA_FIFO :: u32 where "RX_DATA_FIFO \<equiv> 0x00"
abbreviation (input) TX_DATA_FIFO :: u32 where "TX_DATA_FIFO \<equiv> 0x20"
abbreviation (input) TX_CMD_A_FIRST_SEG :: u32 where "TX_CMD_A_FIRST_SEG \<equiv> 0x00002000"
abbreviation (input) TX_CMD_A_LAST_SEG :: u32 where "TX_CMD_A_LAST_SEG \<equiv> 0x00001000"
abbreviation (input) RX_STATUS_FIFO :: u32 where "RX_STATUS_FIFO \<equiv> 0x40"
abbreviation (input) RX_STS_ES :: u32 where "RX_STS_ES \<equiv> 0x00008000"
abbreviation (input) RX_STS_LENGTH_ERR :: u32 where "RX_STS_LENGTH_ERR \<equiv> 0x00001000"
abbreviation (input) RX_STS_MCAST :: u32 where "RX_STS_MCAST \<equiv> 0x00000400"
abbreviation (input) RX_STS_FRAME_TYPE :: u32 where "RX_STS_FRAME_TYPE \<equiv> 0x00000020"
abbreviation (input) RX_STS_CRC_ERR :: u32 where "RX_STS_CRC_ERR \<equiv> 0x00000002"
abbreviation (input) TX_STATUS_FIFO :: u32 where "TX_STATUS_FIFO \<equiv> 0x48"
abbreviation (input) TX_STS_ES :: u32 where "TX_STS_ES \<equiv> 0x00008000"
abbreviation (input) TX_STS_LOST_CARRIER :: u32 where "TX_STS_LOST_CARRIER \<equiv> 0x00000800"
abbreviation (input) TX_STS_LATE_COL :: u32 where "TX_STS_LATE_COL \<equiv> 0x00000200"
abbreviation (input) TX_STS_EXCESS_COL :: u32 where "TX_STS_EXCESS_COL \<equiv> 0x00000100"
abbreviation (input) ID_REV :: u32 where "ID_REV \<equiv> 0x50"
abbreviation (input) INT_CFG :: u32 where "INT_CFG \<equiv> 0x54"
abbreviation (input) INT_CFG_IRQ_EN :: u32 where "INT_CFG_IRQ_EN \<equiv> 0x00000100"
abbreviation (input) INT_CFG_IRQ_POL :: u32 where "INT_CFG_IRQ_POL \<equiv> 0x00000010"
abbreviation (input) INT_CFG_IRQ_TYPE :: u32 where "INT_CFG_IRQ_TYPE \<equiv> 0x00000001"
abbreviation (input) INT_STS :: u32 where "INT_STS \<equiv> 0x58"
abbreviation (input) INT_STS_SW_INT :: u32 where "INT_STS_SW_INT \<equiv> 0x80000000"
abbreviation (input) INT_STS_RXSTOP_INT :: u32 where "INT_STS_RXSTOP_INT \<equiv> 0x01000000"
abbreviation (input) INT_STS_RXE :: u32 where "INT_STS_RXE \<equiv> 0x00004000"
abbreviation (input) INT_STS_TDFA :: u32 where "INT_STS_TDFA \<equiv> 0x00000200"
abbreviation (input) INT_STS_RSFL :: u32 where "INT_STS_RSFL \<equiv> 0x00000008"
abbreviation (input) INT_EN :: u32 where "INT_EN \<equiv> 0x5c"
abbreviation (input) INT_EN_SW_INT_EN :: u32 where "INT_EN_SW_INT_EN \<equiv> 0x80000000"
abbreviation (input) INT_EN_RXSTOP_INT_EN :: u32 where "INT_EN_RXSTOP_INT_EN \<equiv> 0x01000000"
abbreviation (input) INT_EN_TDFA_EN :: u32 where "INT_EN_TDFA_EN \<equiv> 0x00000200"
abbreviation (input) INT_EN_RSFL_EN :: u32 where "INT_EN_RSFL_EN \<equiv> 0x00000008"
abbreviation (input) BYTE_TEST :: u32 where "BYTE_TEST \<equiv> 0x64"
abbreviation (input) FIFO_INT :: u32 where "FIFO_INT \<equiv> 0x68"
abbreviation (input) FIFO_INT_TX_AVAIL_LEVEL :: u32 where "FIFO_INT_TX_AVAIL_LEVEL \<equiv> 0xff000000"
abbreviation (input) FIFO_INT_RX_STS_LEVEL :: u32 where "FIFO_INT_RX_STS_LEVEL \<equiv> 0x000000ff"
abbreviation (input) RX_CFG :: u32 where "RX_CFG \<equiv> 0x6c"
abbreviation (input) TX_CFG :: u32 where "TX_CFG \<equiv> 0x70"
abbreviation (input) TX_CFG_TX_ON :: u32 where "TX_CFG_TX_ON \<equiv> 0x00000002"
abbreviation (input) HW_CFG :: u32 where "HW_CFG \<equiv> 0x74"
abbreviation (input) HW_CFG_SF :: u32 where "HW_CFG_SF \<equiv> 0x00100000"
abbreviation (input) HW_CFG_TX_FIF_SZ :: u32 where "HW_CFG_TX_FIF_SZ \<equiv> 0x000f0000"
abbreviation (input) HW_CFG_SRST :: u32 where "HW_CFG_SRST \<equiv> 0x00000001"
abbreviation (input) HW_CFG_PHY_CLK_SEL :: u32 where "HW_CFG_PHY_CLK_SEL \<equiv> 0x00000060"
abbreviation (input) HW_CFG_PHY_CLK_SEL_EXT_PHY :: u32 where "HW_CFG_PHY_CLK_SEL_EXT_PHY \<equiv> 0x00000020"
abbreviation (input) HW_CFG_PHY_CLK_SEL_CLK_DIS :: u32 where "HW_CFG_PHY_CLK_SEL_CLK_DIS \<equiv> 0x00000040"
abbreviation (input) HW_CFG_SMI_SEL :: u32 where "HW_CFG_SMI_SEL \<equiv> 0x00000010"
abbreviation (input) HW_CFG_EXT_PHY_DET :: u32 where "HW_CFG_EXT_PHY_DET \<equiv> 0x00000008"
abbreviation (input) HW_CFG_EXT_PHY_EN :: u32 where "HW_CFG_EXT_PHY_EN \<equiv> 0x00000004"
abbreviation (input) RX_DP_CTRL :: u32 where "RX_DP_CTRL \<equiv> 0x78"
abbreviation (input) RX_DP_CTRL_RX_FFWD :: u32 where "RX_DP_CTRL_RX_FFWD \<equiv> 0x80000000"
abbreviation (input) RX_FIFO_INF :: u32 where "RX_FIFO_INF \<equiv> 0x7c"
abbreviation (input) RX_FIFO_INF_RXSUSED :: u32 where "RX_FIFO_INF_RXSUSED \<equiv> 0x00ff0000"
abbreviation (input) TX_FIFO_INF :: u32 where "TX_FIFO_INF \<equiv> 0x80"
abbreviation (input) TX_FIFO_INF_TSUSED :: u32 where "TX_FIFO_INF_TSUSED \<equiv> 0x00ff0000"
abbreviation (input) TX_FIFO_INF_TDFREE :: u32 where "TX_FIFO_INF_TDFREE \<equiv> 0x0000ffff"
abbreviation (input) PMT_CTRL :: u32 where "PMT_CTRL \<equiv> 0x84"
abbreviation (input) PMT_CTRL_PM_MODE_D1 :: u32 where "PMT_CTRL_PM_MODE_D1 \<equiv> 0x00001000"
abbreviation (input) PMT_CTRL_WOL_EN :: u32 where "PMT_CTRL_WOL_EN \<equiv> 0x00000200"
abbreviation (input) PMT_CTRL_ED_EN :: u32 where "PMT_CTRL_ED_EN \<equiv> 0x00000100"
abbreviation (input) PMT_CTRL_PME_EN :: u32 where "PMT_CTRL_PME_EN \<equiv> 0x00000002"
abbreviation (input) PMT_CTRL_READY :: u32 where "PMT_CTRL_READY \<equiv> 0x00000001"
abbreviation (input) GPIO_CFG :: u32 where "GPIO_CFG \<equiv> 0x88"
abbreviation (input) GPIO_CFG_LED1_EN :: u32 where "GPIO_CFG_LED1_EN \<equiv> 0x10000000"
abbreviation (input) GPIO_CFG_EEPR_EN :: u32 where "GPIO_CFG_EEPR_EN \<equiv> 0x00700000"
abbreviation (input) GPIO_CFG_GPIOBUF0 :: u32 where "GPIO_CFG_GPIOBUF0 \<equiv> 0x00010000"
abbreviation (input) GPIO_CFG_GPIODIR0 :: u32 where "GPIO_CFG_GPIODIR0 \<equiv> 0x00000100"
abbreviation (input) GPIO_CFG_GPIOD0 :: u32 where "GPIO_CFG_GPIOD0 \<equiv> 0x00000001"
abbreviation (input) WORD_SWAP :: u32 where "WORD_SWAP \<equiv> 0x98"
abbreviation (input) RX_DROP :: u32 where "RX_DROP \<equiv> 0xa0"
abbreviation (input) MAC_CSR_CMD :: u32 where "MAC_CSR_CMD \<equiv> 0xa4"
abbreviation (input) MAC_CSR_CMD_CSR_BUSY :: u32 where "MAC_CSR_CMD_CSR_BUSY \<equiv> 0x80000000"
abbreviation (input) MAC_CSR_CMD_R_NOT_W :: u32 where "MAC_CSR_CMD_R_NOT_W \<equiv> 0x40000000"
abbreviation (input) MAC_CSR_DATA :: u32 where "MAC_CSR_DATA \<equiv> 0xa8"
abbreviation (input) AFC_CFG :: u32 where "AFC_CFG \<equiv> 0xac"
abbreviation (input) E2P_CMD :: u32 where "E2P_CMD \<equiv> 0xb0"
abbreviation (input) E2P_CMD_EPC_BUSY :: u32 where "E2P_CMD_EPC_BUSY \<equiv> 0x80000000"
abbreviation (input) E2P_CMD_EPC_CMD_READ :: u32 where "E2P_CMD_EPC_CMD_READ \<equiv> 0x00000000"
abbreviation (input) E2P_CMD_EPC_CMD_EWDS :: u32 where "E2P_CMD_EPC_CMD_EWDS \<equiv> 0x10000000"
abbreviation (input) E2P_CMD_EPC_CMD_EWEN :: u32 where "E2P_CMD_EPC_CMD_EWEN \<equiv> 0x20000000"
abbreviation (input) E2P_CMD_EPC_CMD_WRITE :: u32 where "E2P_CMD_EPC_CMD_WRITE \<equiv> 0x30000000"
abbreviation (input) E2P_CMD_EPC_CMD_ERASE :: u32 where "E2P_CMD_EPC_CMD_ERASE \<equiv> 0x50000000"
abbreviation (input) E2P_CMD_EPC_TIMEOUT :: u32 where "E2P_CMD_EPC_TIMEOUT \<equiv> 0x00000200"
abbreviation (input) E2P_DATA :: u32 where "E2P_DATA \<equiv> 0xb4"
abbreviation (input) MAC_CR :: u32 where "MAC_CR \<equiv> 0x01"
abbreviation (input) MAC_CR_HBDIS :: u32 where "MAC_CR_HBDIS \<equiv> 0x10000000"
abbreviation (input) MAC_CR_FDPX :: u32 where "MAC_CR_FDPX \<equiv> 0x00100000"
abbreviation (input) MAC_CR_MCPAS :: u32 where "MAC_CR_MCPAS \<equiv> 0x00080000"
abbreviation (input) MAC_CR_PRMS :: u32 where "MAC_CR_PRMS \<equiv> 0x00040000"
abbreviation (input) MAC_CR_HPFILT :: u32 where "MAC_CR_HPFILT \<equiv> 0x00002000"
abbreviation (input) MAC_CR_TXEN :: u32 where "MAC_CR_TXEN \<equiv> 0x00000008"
abbreviation (input) MAC_CR_RXEN :: u32 where "MAC_CR_RXEN \<equiv> 0x00000004"
abbreviation (input) ADDRH :: u32 where "ADDRH \<equiv> 0x02"
abbreviation (input) ADDRL :: u32 where "ADDRL \<equiv> 0x03"
abbreviation (input) HASHH :: u32 where "HASHH \<equiv> 0x04"
abbreviation (input) HASHL :: u32 where "HASHL \<equiv> 0x05"
abbreviation (input) MII_ACC :: u32 where "MII_ACC \<equiv> 0x06"
abbreviation (input) MII_ACC_MII_WRITE :: u32 where "MII_ACC_MII_WRITE \<equiv> 0x00000002"
abbreviation (input) MII_ACC_MII_BUSY :: u32 where "MII_ACC_MII_BUSY \<equiv> 0x00000001"
abbreviation (input) MII_DATA :: u32 where "MII_DATA \<equiv> 0x07"
abbreviation (input) FLOW :: u32 where "FLOW \<equiv> 0x08"
abbreviation (input) VLAN1 :: u32 where "VLAN1 \<equiv> 0x09"
abbreviation (input) WUCSR :: u32 where "WUCSR \<equiv> 0x0c"
abbreviation (input) MII_BMCR :: u32 where "MII_BMCR \<equiv> 0x00"
abbreviation (input) MII_ADVERTISE :: u32 where "MII_ADVERTISE \<equiv> 0x04"
abbreviation (input) MII_LPA :: u32 where "MII_LPA \<equiv> 0x05"
abbreviation (input) BMCR_FULLDPLX :: u32 where "BMCR_FULLDPLX \<equiv> 0x0100"
abbreviation (input) BMCR_LOOPBACK :: u32 where "BMCR_LOOPBACK \<equiv> 0x4000"
abbreviation (input) BMCR_RESET :: u32 where "BMCR_RESET \<equiv> 0x8000"
abbreviation (input) ADVERTISE_PAUSE_CAP :: u32 where "ADVERTISE_PAUSE_CAP \<equiv> 0x0400"
abbreviation (input) ADVERTISE_PAUSE_ASYM :: u32 where "ADVERTISE_PAUSE_ASYM \<equiv> 0x0800"
abbreviation (input) FLOW_CTRL_TX :: u32 where "FLOW_CTRL_TX \<equiv> 0x01"
abbreviation (input) FLOW_CTRL_RX :: u32 where "FLOW_CTRL_RX \<equiv> 0x02"
abbreviation (input) MII_LAN83C185_CTRL_STATUS :: u32 where "MII_LAN83C185_CTRL_STATUS \<equiv> 17"
abbreviation (input) MII_LAN83C185_EDPWRDOWN :: u32 where "MII_LAN83C185_EDPWRDOWN \<equiv> 0x2000"
abbreviation (input) MII_LAN83C185_ENERGYON :: u32 where "MII_LAN83C185_ENERGYON \<equiv> 0x2"
abbreviation (input) SMSC911X_IRQ_POLARITY_ACTIVE_HIGH :: u32 where "SMSC911X_IRQ_POLARITY_ACTIVE_HIGH \<equiv> 1"
abbreviation (input) SMSC911X_IRQ_TYPE_PUSH_PULL :: u32 where "SMSC911X_IRQ_TYPE_PUSH_PULL \<equiv> 1"
abbreviation (input) SMSC911X_USE_16BIT :: u32 where "SMSC911X_USE_16BIT \<equiv> 0x1"
abbreviation (input) SMSC911X_USE_32BIT :: u32 where "SMSC911X_USE_32BIT \<equiv> 0x2"
abbreviation (input) SMSC911X_FORCE_INTERNAL_PHY :: u32 where "SMSC911X_FORCE_INTERNAL_PHY \<equiv> 0x4"
abbreviation (input) SMSC911X_FORCE_EXTERNAL_PHY :: u32 where "SMSC911X_FORCE_EXTERNAL_PHY \<equiv> 0x8"
abbreviation (input) SMSC911X_SAVE_MAC_ADDRESS :: u32 where "SMSC911X_SAVE_MAC_ADDRESS \<equiv> 0x10"
abbreviation (input) SMSC911X_SWAP_FIFO :: u32 where "SMSC911X_SWAP_FIFO \<equiv> 0x20"

end
