(* ===== verification/Smsc_Bus.thy ===== *)
theory Smsc_Bus
  imports Smsc_Regs
begin

text \<open>
  The state of the network driver \<open>code/nic-driver/smsc/smsc911x.c\<close> and its accesses to the chip:
  \<open>__smsc911x_reg_read\<close> and the functions around it up to \<open>smsc911x_rx_readfifo_shift\<close>.

  The chip is a parameter: a state of any type \<open>'d\<close> and four functions that say what the bus cycles
  do to it. All results hold for every chip; where a result needs a chip that follows its data
  sheet, that is a hypothesis.

  A driver function takes the state of the driver (with the chip in it) and returns the new one and
  its result. \<open>None\<close> stands for a run that does not return in a defined way: \<open>BUG()\<close>, a spin lock
  taken twice, the assertion \<open>SMSC_ASSERT_MAC_LOCK\<close> violated, an access outside of a buffer.
  Delays and messages are not part of the model.
\<close>

section \<open>The chip\<close>

record 'd hw =
  readl :: "u32 \<Rightarrow> 'd \<Rightarrow> u32 \<times> 'd"
  readw :: "u32 \<Rightarrow> 'd \<Rightarrow> u16 \<times> 'd"
  writel :: "u32 \<Rightarrow> u32 \<Rightarrow> 'd \<Rightarrow> 'd"
  writew :: "u32 \<Rightarrow> u16 \<Rightarrow> 'd \<Rightarrow> 'd"

section \<open>The state of the driver\<close>

record smsc911x_platform_config =
  irq_polarity :: u32
  irq_type :: u32
  cfg_flags :: u32
  shift :: u32
  cfg_mac :: "u8 list"

datatype smsc911x_ops = standard_smsc911x_ops | shifted_smsc911x_ops

text \<open>The PHY as the library of the kernel keeps it (\<open>struct phy_device\<close> of \<open>linux/include/linux/phy.h\<close>).\<close>

datatype phy_state = PHY_DOWN | PHY_STARTING | PHY_READY | PHY_PENDING | PHY_UP | PHY_AN | PHY_RUNNING | PHY_NOLINK |
  PHY_FORCING | PHY_CHANGELINK | PHY_HALTED | PHY_RESUMING

text \<open>The drivers of \<open>linux/drivers/net/phy/smsc.c\<close> and the generic one.\<close>

datatype phy_driver = genphy_driver | lan83c185_driver | lan8187_driver | lan8700_driver | lan911x_int_driver | lan8710_driver

record phy_device =
  phy_addr :: u32
  duplex :: int
  phy_id :: u32
  phy_drv :: phy_driver
  phy_st :: phy_state
  phy_speed :: int
  phy_pause :: int
  phy_asym_pause :: int
  phy_link :: int
  phy_interrupts :: u32
  phy_supported :: u32
  phy_advertising :: u32
  phy_autoneg :: int
  phy_link_timeout :: int
  phy_irq :: int
  phy_lock :: bool

text \<open>\<open>unsigned long\<close> has 32 bits on the target.\<close>

record net_device_stats =
  rx_packets :: u32
  tx_packets :: u32
  rx_bytes :: u32
  tx_bytes :: u32
  rx_errors :: u32
  tx_errors :: u32
  rx_dropped :: u32
  multicast :: u32
  collisions :: u32
  rx_length_errors :: u32
  rx_crc_errors :: u32
  tx_aborted_errors :: u32
  tx_carrier_errors :: u32

text \<open>
  The private data of the driver, followed by what it uses of the network device (address, flags,
  statistics, transmit queue, carrier) and of NAPI (the bit \<open>NAPI_STATE_SCHED\<close>).
\<close>

record 'd smsc911x_data =
  chip :: 'd
  ioaddr :: u32
  idrev :: u32
  generation :: u32
  config :: smsc911x_platform_config
  mac_lock :: bool
  dev_lock :: bool
  phy_dev :: "phy_device option"
  using_extphy :: u32
  last_duplex :: int
  last_carrier :: int
  gpio_setting :: u32
  gpio_orig_setting :: u32
  software_irq_signal :: u32
  loopback_tx_pkt :: "u8 list"
  loopback_rx_pkt :: "u8 list"
  resetcount :: u32
  multicast_update_pending :: u32
  set_bits_mask :: u32
  clear_bits_mask :: u32
  hashhi :: u32
  hashlo :: u32
  ops :: smsc911x_ops
  dev_addr :: "u8 list"
  promisc :: bool
  allmulti :: bool
  mc_list :: "u8 list list"
  stats :: net_device_stats
  running :: bool
  carrier :: bool
  queue_stopped :: bool
  napi_sched :: bool

text \<open>Updates of the chip and of \<open>mac_lock\<close> come first in the normal form of a state.\<close>

lemma chip_first [simp]:
  fixes s :: "'d smsc911x_data"
  shows
  "s\<lparr>ioaddr := x1, chip := d\<rparr> = s\<lparr>chip := d, ioaddr := x1\<rparr>"
  "s\<lparr>idrev := x2, chip := d\<rparr> = s\<lparr>chip := d, idrev := x2\<rparr>"
  "s\<lparr>generation := x3, chip := d\<rparr> = s\<lparr>chip := d, generation := x3\<rparr>"
  "s\<lparr>config := x4, chip := d\<rparr> = s\<lparr>chip := d, config := x4\<rparr>"
  "s\<lparr>mac_lock := x5, chip := d\<rparr> = s\<lparr>chip := d, mac_lock := x5\<rparr>"
  "s\<lparr>dev_lock := x6, chip := d\<rparr> = s\<lparr>chip := d, dev_lock := x6\<rparr>"
  "s\<lparr>phy_dev := x7, chip := d\<rparr> = s\<lparr>chip := d, phy_dev := x7\<rparr>"
  "s\<lparr>using_extphy := x8, chip := d\<rparr> = s\<lparr>chip := d, using_extphy := x8\<rparr>"
  "s\<lparr>last_duplex := x9, chip := d\<rparr> = s\<lparr>chip := d, last_duplex := x9\<rparr>"
  "s\<lparr>last_carrier := x10, chip := d\<rparr> = s\<lparr>chip := d, last_carrier := x10\<rparr>"
  "s\<lparr>gpio_setting := x11, chip := d\<rparr> = s\<lparr>chip := d, gpio_setting := x11\<rparr>"
  "s\<lparr>gpio_orig_setting := x12, chip := d\<rparr> = s\<lparr>chip := d, gpio_orig_setting := x12\<rparr>"
  "s\<lparr>software_irq_signal := x13, chip := d\<rparr> = s\<lparr>chip := d, software_irq_signal := x13\<rparr>"
  "s\<lparr>loopback_tx_pkt := x14, chip := d\<rparr> = s\<lparr>chip := d, loopback_tx_pkt := x14\<rparr>"
  "s\<lparr>loopback_rx_pkt := x15, chip := d\<rparr> = s\<lparr>chip := d, loopback_rx_pkt := x15\<rparr>"
  "s\<lparr>resetcount := x16, chip := d\<rparr> = s\<lparr>chip := d, resetcount := x16\<rparr>"
  "s\<lparr>multicast_update_pending := x17, chip := d\<rparr> = s\<lparr>chip := d, multicast_update_pending := x17\<rparr>"
  "s\<lparr>set_bits_mask := x18, chip := d\<rparr> = s\<lparr>chip := d, set_bits_mask := x18\<rparr>"
  "s\<lparr>clear_bits_mask := x19, chip := d\<rparr> = s\<lparr>chip := d, clear_bits_mask := x19\<rparr>"
  "s\<lparr>hashhi := x20, chip := d\<rparr> = s\<lparr>chip := d, hashhi := x20\<rparr>"
  "s\<lparr>hashlo := x21, chip := d\<rparr> = s\<lparr>chip := d, hashlo := x21\<rparr>"
  "s\<lparr>ops := x22, chip := d\<rparr> = s\<lparr>chip := d, ops := x22\<rparr>"
  "s\<lparr>dev_addr := x23, chip := d\<rparr> = s\<lparr>chip := d, dev_addr := x23\<rparr>"
  "s\<lparr>promisc := x24, chip := d\<rparr> = s\<lparr>chip := d, promisc := x24\<rparr>"
  "s\<lparr>allmulti := x25, chip := d\<rparr> = s\<lparr>chip := d, allmulti := x25\<rparr>"
  "s\<lparr>mc_list := x26, chip := d\<rparr> = s\<lparr>chip := d, mc_list := x26\<rparr>"
  "s\<lparr>stats := x27, chip := d\<rparr> = s\<lparr>chip := d, stats := x27\<rparr>"
  "s\<lparr>running := x28, chip := d\<rparr> = s\<lparr>chip := d, running := x28\<rparr>"
  "s\<lparr>carrier := x29, chip := d\<rparr> = s\<lparr>chip := d, carrier := x29\<rparr>"
  "s\<lparr>queue_stopped := x30, chip := d\<rparr> = s\<lparr>chip := d, queue_stopped := x30\<rparr>"
  "s\<lparr>napi_sched := x31, chip := d\<rparr> = s\<lparr>chip := d, napi_sched := x31\<rparr>"
  by simp_all

lemma mac_lock_first [simp]:
  fixes s :: "'d smsc911x_data"
  shows
  "s\<lparr>ioaddr := x1, mac_lock := l\<rparr> = s\<lparr>mac_lock := l, ioaddr := x1\<rparr>"
  "s\<lparr>idrev := x2, mac_lock := l\<rparr> = s\<lparr>mac_lock := l, idrev := x2\<rparr>"
  "s\<lparr>generation := x3, mac_lock := l\<rparr> = s\<lparr>mac_lock := l, generation := x3\<rparr>"
  "s\<lparr>config := x4, mac_lock := l\<rparr> = s\<lparr>mac_lock := l, config := x4\<rparr>"
  "s\<lparr>dev_lock := x6, mac_lock := l\<rparr> = s\<lparr>mac_lock := l, dev_lock := x6\<rparr>"
  "s\<lparr>phy_dev := x7, mac_lock := l\<rparr> = s\<lparr>mac_lock := l, phy_dev := x7\<rparr>"
  "s\<lparr>using_extphy := x8, mac_lock := l\<rparr> = s\<lparr>mac_lock := l, using_extphy := x8\<rparr>"
  "s\<lparr>last_duplex := x9, mac_lock := l\<rparr> = s\<lparr>mac_lock := l, last_duplex := x9\<rparr>"
  "s\<lparr>last_carrier := x10, mac_lock := l\<rparr> = s\<lparr>mac_lock := l, last_carrier := x10\<rparr>"
  "s\<lparr>gpio_setting := x11, mac_lock := l\<rparr> = s\<lparr>mac_lock := l, gpio_setting := x11\<rparr>"
  "s\<lparr>gpio_orig_setting := x12, mac_lock := l\<rparr> = s\<lparr>mac_lock := l, gpio_orig_setting := x12\<rparr>"
  "s\<lparr>software_irq_signal := x13, mac_lock := l\<rparr> = s\<lparr>mac_lock := l, software_irq_signal := x13\<rparr>"
  "s\<lparr>loopback_tx_pkt := x14, mac_lock := l\<rparr> = s\<lparr>mac_lock := l, loopback_tx_pkt := x14\<rparr>"
  "s\<lparr>loopback_rx_pkt := x15, mac_lock := l\<rparr> = s\<lparr>mac_lock := l, loopback_rx_pkt := x15\<rparr>"
  "s\<lparr>resetcount := x16, mac_lock := l\<rparr> = s\<lparr>mac_lock := l, resetcount := x16\<rparr>"
  "s\<lparr>multicast_update_pending := x17, mac_lock := l\<rparr> = s\<lparr>mac_lock := l, multicast_update_pending := x17\<rparr>"
  "s\<lparr>set_bits_mask := x18, mac_lock := l\<rparr> = s\<lparr>mac_lock := l, set_bits_mask := x18\<rparr>"
  "s\<lparr>clear_bits_mask := x19, mac_lock := l\<rparr> = s\<lparr>mac_lock := l, clear_bits_mask := x19\<rparr>"
  "s\<lparr>hashhi := x20, mac_lock := l\<rparr> = s\<lparr>mac_lock := l, hashhi := x20\<rparr>"
  "s\<lparr>hashlo := x21, mac_lock := l\<rparr> = s\<lparr>mac_lock := l, hashlo := x21\<rparr>"
  "s\<lparr>ops := x22, mac_lock := l\<rparr> = s\<lparr>mac_lock := l, ops := x22\<rparr>"
  "s\<lparr>dev_addr := x23, mac_lock := l\<rparr> = s\<lparr>mac_lock := l, dev_addr := x23\<rparr>"
  "s\<lparr>promisc := x24, mac_lock := l\<rparr> = s\<lparr>mac_lock := l, promisc := x24\<rparr>"
  "s\<lparr>allmulti := x25, mac_lock := l\<rparr> = s\<lparr>mac_lock := l, allmulti := x25\<rparr>"
  "s\<lparr>mc_list := x26, mac_lock := l\<rparr> = s\<lparr>mac_lock := l, mc_list := x26\<rparr>"
  "s\<lparr>stats := x27, mac_lock := l\<rparr> = s\<lparr>mac_lock := l, stats := x27\<rparr>"
  "s\<lparr>running := x28, mac_lock := l\<rparr> = s\<lparr>mac_lock := l, running := x28\<rparr>"
  "s\<lparr>carrier := x29, mac_lock := l\<rparr> = s\<lparr>mac_lock := l, carrier := x29\<rparr>"
  "s\<lparr>queue_stopped := x30, mac_lock := l\<rparr> = s\<lparr>mac_lock := l, queue_stopped := x30\<rparr>"
  "s\<lparr>napi_sched := x31, mac_lock := l\<rparr> = s\<lparr>mac_lock := l, napi_sched := x31\<rparr>"
  by simp_all

section \<open>Results and what holds of them\<close>

definition holds :: "'a option \<Rightarrow> ('a \<Rightarrow> bool) \<Rightarrow> bool" where
  "holds x P = (case x of None \<Rightarrow> False | Some a \<Rightarrow> P a)"

named_theorems drv_rules \<open>what the operations of the driver keep\<close>

lemma holds_simps [simp]:
  "holds (Some a) P = P a" "holds None P = False"
  "holds (if b then x else y) P = (if b then holds x P else holds y P)"
  by (auto simp: holds_def split: option.splits)

lemma holds_bind [simp]: "holds (Option.bind x f) P = holds x (\<lambda>a. holds (f a) P)"
  by (auto simp: holds_def split: option.splits)

lemma holds_arr_get [simp]: "holds (arr_get xs i) P = (i < length xs \<and> P (xs ! i))"
  by (simp add: arr_get_def)

lemma holds_case_prod [simp]:
  "holds (case p of (a, b) \<Rightarrow> f a b) P = (case p of (a, b) \<Rightarrow> holds (f a b) P)"
  by (simp add: case_prod_unfold)

lemma holds_mono: "holds x Q \<Longrightarrow> (\<And>a. Q a \<Longrightarrow> P a) \<Longrightarrow> holds x P"
  by (auto simp: holds_def split: option.splits)

lemma holdsD: "holds x P \<Longrightarrow> \<exists>a. x = Some a \<and> P a"
  by (auto simp: holds_def split: option.splits)

section \<open>Locks\<close>

definition spin_lock_dev :: "'d smsc911x_data \<Rightarrow> 'd smsc911x_data option" where
  "spin_lock_dev s = (if dev_lock s then None else Some (s\<lparr>dev_lock := True\<rparr>))"

definition spin_unlock_dev :: "'d smsc911x_data \<Rightarrow> 'd smsc911x_data" where
  "spin_unlock_dev s = s\<lparr>dev_lock := False\<rparr>"

definition spin_lock_mac :: "'d smsc911x_data \<Rightarrow> 'd smsc911x_data option" where
  "spin_lock_mac s = (if mac_lock s then None else Some (s\<lparr>mac_lock := True\<rparr>))"

definition spin_unlock_mac :: "'d smsc911x_data \<Rightarrow> 'd smsc911x_data" where
  "spin_unlock_mac s = s\<lparr>mac_lock := False\<rparr>"

definition SMSC_ASSERT_MAC_LOCK :: "'d smsc911x_data \<Rightarrow> unit option" where
  "SMSC_ASSERT_MAC_LOCK s = (if mac_lock s then Some () else None)"

section \<open>Bus cycles\<close>

definition bus_readl :: "'d hw \<Rightarrow> u32 \<Rightarrow> 'd smsc911x_data \<Rightarrow> u32 \<times> 'd smsc911x_data" where
  "bus_readl h a s = (let (v, d) = readl h a (chip s) in (v, s\<lparr>chip := d\<rparr>))"

definition bus_readw :: "'d hw \<Rightarrow> u32 \<Rightarrow> 'd smsc911x_data \<Rightarrow> u32 \<times> 'd smsc911x_data" where
  "bus_readw h a s = (let (v, d) = readw h a (chip s) in (ucast v, s\<lparr>chip := d\<rparr>))"

definition bus_writel :: "'d hw \<Rightarrow> u32 \<Rightarrow> u32 \<Rightarrow> 'd smsc911x_data \<Rightarrow> 'd smsc911x_data" where
  "bus_writel h v a s = s\<lparr>chip := writel h a v (chip s)\<rparr>"

definition bus_writew :: "'d hw \<Rightarrow> u32 \<Rightarrow> u32 \<Rightarrow> 'd smsc911x_data \<Rightarrow> 'd smsc911x_data" where
  "bus_writew h v a s = s\<lparr>chip := writew h a (ucast v) (chip s)\<rparr>"

text \<open>\<open>readsl\<close> and \<open>writesl\<close> repeat the cycle at one address.\<close>

fun bus_readsl :: "'d hw \<Rightarrow> u32 \<Rightarrow> nat \<Rightarrow> 'd smsc911x_data \<Rightarrow> u32 list \<times> 'd smsc911x_data" where
  "bus_readsl h a 0 s = ([], s)"
| "bus_readsl h a (Suc n) s = (let (v, s) = bus_readl h a s; (vs, s) = bus_readsl h a n s in (v # vs, s))"

fun bus_writesl :: "'d hw \<Rightarrow> u32 \<Rightarrow> u32 list \<Rightarrow> 'd smsc911x_data \<Rightarrow> 'd smsc911x_data" where
  "bus_writesl h a [] s = s"
| "bus_writesl h a (v # vs) s = bus_writesl h a vs (bus_writel h v a s)"

section \<open>Registers\<close>

definition flag_set :: "u32 \<Rightarrow> 'd smsc911x_data \<Rightarrow> bool" where
  "flag_set f s \<longleftrightarrow> cfg_flags (config s) AND f \<noteq> 0"

definition smsc_shift :: "'d smsc911x_data \<Rightarrow> u32 \<Rightarrow> u32" where
  "smsc_shift s reg = push_bit (unat (shift (config s))) reg"

definition raw_reg_read :: "'d hw \<Rightarrow> u32 \<Rightarrow> 'd smsc911x_data \<Rightarrow> (u32 \<times> 'd smsc911x_data) option" where
  "raw_reg_read h reg s =
     (if flag_set SMSC911X_USE_32BIT s then Some (bus_readl h (ioaddr s + reg) s)
      else if flag_set SMSC911X_USE_16BIT s then
        (let (lo, s) = bus_readw h (ioaddr s + reg) s;
             (hi, s) = bus_readw h (ioaddr s + reg + 2) s in
         Some ((lo AND 0xffff) OR push_bit 16 (hi AND 0xffff), s))
      else None)"

definition raw_reg_read_shift :: "'d hw \<Rightarrow> u32 \<Rightarrow> 'd smsc911x_data \<Rightarrow> (u32 \<times> 'd smsc911x_data) option" where
  "raw_reg_read_shift h reg s =
     (if flag_set SMSC911X_USE_32BIT s then Some (bus_readl h (ioaddr s + smsc_shift s reg) s)
      else if flag_set SMSC911X_USE_16BIT s then
        (let (lo, s) = bus_readw h (ioaddr s + smsc_shift s reg) s;
             (hi, s) = bus_readw h (ioaddr s + smsc_shift s (reg + 2)) s in
         Some ((lo AND 0xffff) OR push_bit 16 (hi AND 0xffff), s))
      else None)"

definition raw_reg_write :: "'d hw \<Rightarrow> u32 \<Rightarrow> u32 \<Rightarrow> 'd smsc911x_data \<Rightarrow> 'd smsc911x_data option" where
  "raw_reg_write h reg val s =
     (if flag_set SMSC911X_USE_32BIT s then Some (bus_writel h val (ioaddr s + reg) s)
      else if flag_set SMSC911X_USE_16BIT s then
        (let s = bus_writew h (val AND 0xffff) (ioaddr s + reg) s;
             s = bus_writew h (drop_bit 16 val AND 0xffff) (ioaddr s + reg + 2) s in
         Some s)
      else None)"

definition raw_reg_write_shift :: "'d hw \<Rightarrow> u32 \<Rightarrow> u32 \<Rightarrow> 'd smsc911x_data \<Rightarrow> 'd smsc911x_data option" where
  "raw_reg_write_shift h reg val s =
     (if flag_set SMSC911X_USE_32BIT s then Some (bus_writel h val (ioaddr s + smsc_shift s reg) s)
      else if flag_set SMSC911X_USE_16BIT s then
        (let s = bus_writew h (val AND 0xffff) (ioaddr s + smsc_shift s reg) s;
             s = bus_writew h (drop_bit 16 val AND 0xffff) (ioaddr s + smsc_shift s (reg + 2)) s in
         Some s)
      else None)"

text \<open>The calls through \<open>pdata->ops\<close>.\<close>

definition ops_reg_read :: "'d hw \<Rightarrow> u32 \<Rightarrow> 'd smsc911x_data \<Rightarrow> (u32 \<times> 'd smsc911x_data) option" where
  "ops_reg_read h reg s =
     (case ops s of standard_smsc911x_ops \<Rightarrow> raw_reg_read h reg s
      | shifted_smsc911x_ops \<Rightarrow> raw_reg_read_shift h reg s)"

definition ops_reg_write :: "'d hw \<Rightarrow> u32 \<Rightarrow> u32 \<Rightarrow> 'd smsc911x_data \<Rightarrow> 'd smsc911x_data option" where
  "ops_reg_write h reg val s =
     (case ops s of standard_smsc911x_ops \<Rightarrow> raw_reg_write h reg val s
      | shifted_smsc911x_ops \<Rightarrow> raw_reg_write_shift h reg val s)"

definition smsc911x_reg_read :: "'d hw \<Rightarrow> u32 \<Rightarrow> 'd smsc911x_data \<Rightarrow> (u32 \<times> 'd smsc911x_data) option" where
  "smsc911x_reg_read h reg s = do {
     s \<leftarrow> spin_lock_dev s;
     (data, s) \<leftarrow> ops_reg_read h reg s;
     Some (data, spin_unlock_dev s)
   }"

definition smsc911x_reg_write :: "'d hw \<Rightarrow> u32 \<Rightarrow> u32 \<Rightarrow> 'd smsc911x_data \<Rightarrow> 'd smsc911x_data option" where
  "smsc911x_reg_write h reg val s = do {
     s \<leftarrow> spin_lock_dev s;
     s \<leftarrow> ops_reg_write h reg val s;
     Some (spin_unlock_dev s)
   }"

section \<open>Packets\<close>

definition swab32 :: "u32 \<Rightarrow> u32" where
  "swab32 w = push_bit 24 (w AND 0xff) OR push_bit 8 (w AND 0xff00) OR
     (drop_bit 8 w AND 0xff00) OR (drop_bit 24 w AND 0xff)"

fun write_words :: "(u32 \<Rightarrow> 'd smsc911x_data \<Rightarrow> 'd smsc911x_data option) \<Rightarrow> u32 list \<Rightarrow> 'd smsc911x_data \<Rightarrow> 'd smsc911x_data option" where
  "write_words f [] s = Some s"
| "write_words f (w # ws) s = Option.bind (f w s) (write_words f ws)"

fun read_words :: "('d smsc911x_data \<Rightarrow> (u32 \<times> 'd smsc911x_data) option) \<Rightarrow> nat \<Rightarrow> 'd smsc911x_data \<Rightarrow> (u32 list \<times> 'd smsc911x_data) option" where
  "read_words f 0 s = Some ([], s)"
| "read_words f (Suc n) s = do {
     (w, s) \<leftarrow> f s;
     (ws, s) \<leftarrow> read_words f n s;
     Some (w # ws, s)
   }"

text \<open>The words of \<open>buf\<close> are the argument, so \<open>wordcount\<close> is their number.\<close>

definition smsc911x_tx_writefifo :: "'d hw \<Rightarrow> u32 list \<Rightarrow> 'd smsc911x_data \<Rightarrow> 'd smsc911x_data option" where
  "smsc911x_tx_writefifo h buf s = do {
     s \<leftarrow> spin_lock_dev s;
     s \<leftarrow> (if flag_set SMSC911X_SWAP_FIFO s then write_words (\<lambda>w. raw_reg_write h TX_DATA_FIFO (swab32 w)) buf s
           else if flag_set SMSC911X_USE_32BIT s then Some (bus_writesl h (ioaddr s + TX_DATA_FIFO) buf s)
           else if flag_set SMSC911X_USE_16BIT s then write_words (raw_reg_write h TX_DATA_FIFO) buf s
           else None);
     Some (spin_unlock_dev s)
   }"

definition smsc911x_tx_writefifo_shift :: "'d hw \<Rightarrow> u32 list \<Rightarrow> 'd smsc911x_data \<Rightarrow> 'd smsc911x_data option" where
  "smsc911x_tx_writefifo_shift h buf s = do {
     s \<leftarrow> spin_lock_dev s;
     s \<leftarrow> (if flag_set SMSC911X_SWAP_FIFO s then write_words (\<lambda>w. raw_reg_write_shift h TX_DATA_FIFO (swab32 w)) buf s
           else if flag_set SMSC911X_USE_32BIT s then Some (bus_writesl h (ioaddr s + smsc_shift s TX_DATA_FIFO) buf s)
           else if flag_set SMSC911X_USE_16BIT s then write_words (raw_reg_write_shift h TX_DATA_FIFO) buf s
           else None);
     Some (spin_unlock_dev s)
   }"

definition smsc911x_rx_readfifo :: "'d hw \<Rightarrow> u32 \<Rightarrow> 'd smsc911x_data \<Rightarrow> (u32 list \<times> 'd smsc911x_data) option" where
  "smsc911x_rx_readfifo h wordcount s = do {
     s \<leftarrow> spin_lock_dev s;
     (ws, s) \<leftarrow>
       (if flag_set SMSC911X_SWAP_FIFO s then do {
          (ws, s) \<leftarrow> read_words (raw_reg_read h RX_DATA_FIFO) (unat wordcount) s;
          Some (map swab32 ws, s) }
        else if flag_set SMSC911X_USE_32BIT s then Some (bus_readsl h (ioaddr s + RX_DATA_FIFO) (unat wordcount) s)
        else if flag_set SMSC911X_USE_16BIT s then read_words (raw_reg_read h RX_DATA_FIFO) (unat wordcount) s
        else None);
     Some (ws, spin_unlock_dev s)
   }"

definition smsc911x_rx_readfifo_shift :: "'d hw \<Rightarrow> u32 \<Rightarrow> 'd smsc911x_data \<Rightarrow> (u32 list \<times> 'd smsc911x_data) option" where
  "smsc911x_rx_readfifo_shift h wordcount s = do {
     s \<leftarrow> spin_lock_dev s;
     (ws, s) \<leftarrow>
       (if flag_set SMSC911X_SWAP_FIFO s then do {
          (ws, s) \<leftarrow> read_words (raw_reg_read_shift h RX_DATA_FIFO) (unat wordcount) s;
          Some (map swab32 ws, s) }
        else if flag_set SMSC911X_USE_32BIT s then
          Some (bus_readsl h (ioaddr s + smsc_shift s RX_DATA_FIFO) (unat wordcount) s)
        else if flag_set SMSC911X_USE_16BIT s then read_words (raw_reg_read_shift h RX_DATA_FIFO) (unat wordcount) s
        else None);
     Some (ws, spin_unlock_dev s)
   }"

definition ops_tx_writefifo :: "'d hw \<Rightarrow> u32 list \<Rightarrow> 'd smsc911x_data \<Rightarrow> 'd smsc911x_data option" where
  "ops_tx_writefifo h buf s =
     (case ops s of standard_smsc911x_ops \<Rightarrow> smsc911x_tx_writefifo h buf s
      | shifted_smsc911x_ops \<Rightarrow> smsc911x_tx_writefifo_shift h buf s)"

definition ops_rx_readfifo :: "'d hw \<Rightarrow> u32 \<Rightarrow> 'd smsc911x_data \<Rightarrow> (u32 list \<times> 'd smsc911x_data) option" where
  "ops_rx_readfifo h wordcount s =
     (case ops s of standard_smsc911x_ops \<Rightarrow> smsc911x_rx_readfifo h wordcount s
      | shifted_smsc911x_ops \<Rightarrow> smsc911x_rx_readfifo_shift h wordcount s)"

section \<open>The interface of register access\<close>

text \<open>
  What the rest of the driver relies on: every access is one cell of the chip, read or written in
  one or two bus cycles at addresses that \<open>addr\<close> gives, and nothing but the chip changes.
\<close>

abbreviation width_ok :: "smsc911x_platform_config \<Rightarrow> bool" where
  "width_ok c \<equiv> cfg_flags c AND SMSC911X_USE_32BIT \<noteq> 0 \<or> cfg_flags c AND SMSC911X_USE_16BIT \<noteq> 0"

definition cell_read :: "'d hw \<Rightarrow> smsc911x_platform_config \<Rightarrow> u32 \<Rightarrow> u32 \<Rightarrow> 'd \<Rightarrow> u32 \<times> 'd" where
  "cell_read h c a b d =
     (if cfg_flags c AND SMSC911X_USE_32BIT \<noteq> 0 then readl h a d
      else let (lo, d) = readw h a d; (hi, d) = readw h b d in (ucast lo OR push_bit 16 (ucast hi), d))"

definition cell_write :: "'d hw \<Rightarrow> smsc911x_platform_config \<Rightarrow> u32 \<Rightarrow> u32 \<Rightarrow> u32 \<Rightarrow> 'd \<Rightarrow> 'd" where
  "cell_write h c a b v d =
     (if cfg_flags c AND SMSC911X_USE_32BIT \<noteq> 0 then writel h a v d
      else writew h b (ucast (drop_bit 16 v)) (writew h a (ucast v) d))"

fun cells_read :: "('d \<Rightarrow> u32 \<times> 'd) \<Rightarrow> nat \<Rightarrow> 'd \<Rightarrow> u32 list \<times> 'd" where
  "cells_read f 0 d = ([], d)"
| "cells_read f (Suc n) d = (let (v, d) = f d; (vs, d) = cells_read f n d in (v # vs, d))"

definition fifo_swap :: "smsc911x_platform_config \<Rightarrow> u32 \<Rightarrow> u32" where
  "fifo_swap c w = (if cfg_flags c AND SMSC911X_SWAP_FIFO \<noteq> 0 then swab32 w else w)"

lemma length_cells_read [simp]: "length (fst (cells_read f n d)) = n"
  by (induction n arbitrary: d) (auto simp: case_prod_unfold Let_def)

lemma ucast_and_16 [simp]: "ucast (v :: u16) AND 0xffff = (ucast v :: u32)"
proof -
  have m: "(0xffff :: u32) = mask 16" by (simp add: mask_eq_exp_minus_1)
  show ?thesis unfolding m by (rule bit_word_eqI) (auto simp: bit_simps dest: bit_imp_le_length)
qed

lemma push_ucast_16 [simp]: "push_bit 16 (ucast (v :: u16)) AND 0xffff0000 = (push_bit 16 (ucast v) :: u32)"
  using push_bit_and [of 16 "ucast v" "0xffff :: u32"] by simp

lemma ucast_16_and [simp]: "ucast (w AND 0xffff) = (ucast (w :: u32) :: u16)"
proof -
  have m: "(0xffff :: u32) = mask 16" by (simp add: mask_eq_exp_minus_1)
  show ?thesis unfolding m by (rule bit_word_eqI) (auto simp: bit_simps)
qed

locale register_access =
  fixes addr :: "'d smsc911x_data \<Rightarrow> u32 \<Rightarrow> u32"
    and rd :: "'d hw \<Rightarrow> u32 \<Rightarrow> 'd smsc911x_data \<Rightarrow> (u32 \<times> 'd smsc911x_data) option"
    and wr :: "'d hw \<Rightarrow> u32 \<Rightarrow> u32 \<Rightarrow> 'd smsc911x_data \<Rightarrow> 'd smsc911x_data option"
    and rx :: "'d hw \<Rightarrow> u32 \<Rightarrow> 'd smsc911x_data \<Rightarrow> (u32 list \<times> 'd smsc911x_data) option"
    and tx :: "'d hw \<Rightarrow> u32 list \<Rightarrow> 'd smsc911x_data \<Rightarrow> 'd smsc911x_data option"
  assumes addr_frame: "addr (s\<lparr>chip := d, dev_lock := l\<rparr>) = addr s"
    and rd_cell: "width_ok (config s) \<Longrightarrow>
      rd h r s = Some (let (v, d) = cell_read h (config s) (addr s r) (addr s (r + 2)) (chip s) in (v, s\<lparr>chip := d\<rparr>))"
    and wr_cell: "width_ok (config s) \<Longrightarrow>
      wr h r v s = Some (s\<lparr>chip := cell_write h (config s) (addr s r) (addr s (r + 2)) v (chip s)\<rparr>)"
    and rx_cells: "width_ok (config s) \<Longrightarrow> \<not> dev_lock s \<Longrightarrow>
      rx h n s = Some (let (ws, d) = cells_read (cell_read h (config s) (addr s RX_DATA_FIFO) (addr s (RX_DATA_FIFO + 2)))
          (unat n) (chip s) in (map (fifo_swap (config s)) ws, s\<lparr>chip := d\<rparr>))"
    and tx_cells: "width_ok (config s) \<Longrightarrow> \<not> dev_lock s \<Longrightarrow>
      tx h ws s = Some (s\<lparr>chip := fold (\<lambda>w. cell_write h (config s) (addr s TX_DATA_FIFO) (addr s (TX_DATA_FIFO + 2))
          (fifo_swap (config s) w)) ws (chip s)\<rparr>)"
begin

lemma locked_rd:
  assumes "width_ok (config s)" and "\<not> dev_lock s"
  shows "Option.bind (spin_lock_dev s) (\<lambda>s. Option.bind (rd h r s) (\<lambda>(v, s). Some (v, spin_unlock_dev s))) =
    Some (let (v, d) = cell_read h (config s) (addr s r) (addr s (r + 2)) (chip s) in (v, s\<lparr>chip := d\<rparr>))"
proof -
  have "addr (s\<lparr>dev_lock := True\<rparr>) = addr s" using addr_frame [where s = s and d = "chip s" and l = True] by simp
  then show ?thesis
    using assms rd_cell [of "s\<lparr>dev_lock := True\<rparr>" h r]
    by (auto simp: spin_lock_dev_def spin_unlock_dev_def case_prod_unfold Let_def)
qed

lemma locked_wr:
  assumes "width_ok (config s)" and "\<not> dev_lock s"
  shows "Option.bind (spin_lock_dev s) (\<lambda>s. Option.bind (wr h r v s) (\<lambda>s. Some (spin_unlock_dev s))) =
    Some (s\<lparr>chip := cell_write h (config s) (addr s r) (addr s (r + 2)) v (chip s)\<rparr>)"
proof -
  have "addr (s\<lparr>dev_lock := True\<rparr>) = addr s" using addr_frame [where s = s and d = "chip s" and l = True] by simp
  then show ?thesis
    using assms wr_cell [of "s\<lparr>dev_lock := True\<rparr>" h r v] by (auto simp: spin_lock_dev_def spin_unlock_dev_def)
qed

end

text \<open>Loops over the words of a packet.\<close>

lemma read_words_cells:
  assumes "\<And>d. f (s\<lparr>chip := d\<rparr>) = Some (let (v, d) = g d in (v, s\<lparr>chip := d\<rparr>))"
  shows "read_words f n (s\<lparr>chip := d\<rparr>) = Some (let (vs, d) = cells_read g n d in (vs, s\<lparr>chip := d\<rparr>))"
  by (induction n arbitrary: d) (simp_all add: assms case_prod_unfold Let_def)

lemma bus_readsl_cells:
  "bus_readsl h a n (s\<lparr>chip := d\<rparr>) = (let (vs, d) = cells_read (readl h a) n d in (vs, s\<lparr>chip := d\<rparr>))"
  by (induction n arbitrary: d) (simp_all add: bus_readl_def case_prod_unfold Let_def)

lemma write_words_cells:
  assumes "\<And>w d. f w (s\<lparr>chip := d\<rparr>) = Some (s\<lparr>chip := g w d\<rparr>)"
  shows "write_words f ws (s\<lparr>chip := d\<rparr>) = Some (s\<lparr>chip := fold g ws d\<rparr>)"
  by (induction ws arbitrary: d) (simp_all add: assms)

lemma bus_writesl_cells: "bus_writesl h a ws (s\<lparr>chip := d\<rparr>) = s\<lparr>chip := fold (writel h a) ws d\<rparr>"
  by (induction ws arbitrary: d) (simp_all add: bus_writel_def)

lemma raw_reg_read_cell:
  "width_ok (config s) \<Longrightarrow> raw_reg_read h r s =
    Some (let (v, d) = cell_read h (config s) (ioaddr s + r) (ioaddr s + (r + 2)) (chip s) in (v, s\<lparr>chip := d\<rparr>))"
  by (auto simp: raw_reg_read_def flag_set_def bus_readl_def bus_readw_def cell_read_def case_prod_unfold Let_def add.assoc)

lemma raw_reg_read_shift_cell:
  "width_ok (config s) \<Longrightarrow> raw_reg_read_shift h r s =
    Some (let (v, d) = cell_read h (config s) (ioaddr s + smsc_shift s r) (ioaddr s + smsc_shift s (r + 2)) (chip s)
      in (v, s\<lparr>chip := d\<rparr>))"
  by (auto simp: raw_reg_read_shift_def flag_set_def bus_readl_def bus_readw_def cell_read_def smsc_shift_def
      case_prod_unfold Let_def)

lemma raw_reg_write_cell:
  "width_ok (config s) \<Longrightarrow> raw_reg_write h r v s =
    Some (s\<lparr>chip := cell_write h (config s) (ioaddr s + r) (ioaddr s + (r + 2)) v (chip s)\<rparr>)"
  by (auto simp: raw_reg_write_def flag_set_def bus_writel_def bus_writew_def cell_write_def add.assoc)

lemma raw_reg_write_shift_cell:
  "width_ok (config s) \<Longrightarrow> raw_reg_write_shift h r v s =
    Some (s\<lparr>chip := cell_write h (config s) (ioaddr s + smsc_shift s r) (ioaddr s + smsc_shift s (r + 2)) v (chip s)\<rparr>)"
  by (auto simp: raw_reg_write_shift_def flag_set_def bus_writel_def bus_writew_def cell_write_def smsc_shift_def)

lemma fifo_swap_cases:
  "cfg_flags c AND 32 \<noteq> 0 \<Longrightarrow> fifo_swap c = swab32"
  "cfg_flags c AND 32 = 0 \<Longrightarrow> fifo_swap c = (\<lambda>w. w)"
  by (auto simp: fifo_swap_def fun_eq_iff)

lemma cell_32:
  "cfg_flags c AND 2 \<noteq> 0 \<Longrightarrow> cell_read h c a b = readl h a"
  "cfg_flags c AND 2 \<noteq> 0 \<Longrightarrow> cell_write h c a b = writel h a"
  by (auto simp: cell_read_def cell_write_def fun_eq_iff)

text \<open>The bodies of the packet functions, for any register functions.\<close>

lemma rx_body:
  assumes "width_ok (config s)" and "\<not> dev_lock s" and "A (s\<lparr>dev_lock := True\<rparr>) = a"
    and "\<And>d. f (s\<lparr>dev_lock := True, chip := d\<rparr>) =
      Some (let (v, d) = cell_read h (config s) a b d in (v, s\<lparr>dev_lock := True, chip := d\<rparr>))"
  shows "do {
     s \<leftarrow> spin_lock_dev s;
     (ws, s) \<leftarrow>
       (if flag_set SMSC911X_SWAP_FIFO s then do { (ws, s) \<leftarrow> read_words f n s; Some (map swab32 ws, s) }
        else if flag_set SMSC911X_USE_32BIT s then Some (bus_readsl h (A s) n s)
        else if flag_set SMSC911X_USE_16BIT s then read_words f n s
        else None);
     Some (ws, spin_unlock_dev s)
   } = Some (let (ws, d) = cells_read (cell_read h (config s) a b) n (chip s) in
        (map (fifo_swap (config s)) ws, s\<lparr>chip := d\<rparr>))"
  using assms(1-3) read_words_cells [of f "s\<lparr>dev_lock := True\<rparr>", OF assms(4), where n = n and d = "chip s"]
    bus_readsl_cells [where s = "s\<lparr>dev_lock := True\<rparr>" and h = h and a = a and n = n and d = "chip s"]
  by (auto simp: spin_lock_dev_def spin_unlock_dev_def flag_set_def fifo_swap_cases case_prod_unfold Let_def cell_32)

lemma tx_body:
  assumes "width_ok (config s)" and "\<not> dev_lock s" and "A (s\<lparr>dev_lock := True\<rparr>) = a"
    and "\<And>w d. f w (s\<lparr>dev_lock := True, chip := d\<rparr>) = Some (s\<lparr>dev_lock := True, chip := cell_write h (config s) a b w d\<rparr>)"
  shows "do {
     s \<leftarrow> spin_lock_dev s;
     s \<leftarrow> (if flag_set SMSC911X_SWAP_FIFO s then write_words (\<lambda>w. f (swab32 w)) ws s
           else if flag_set SMSC911X_USE_32BIT s then Some (bus_writesl h (A s) ws s)
           else if flag_set SMSC911X_USE_16BIT s then write_words f ws s
           else None);
     Some (spin_unlock_dev s)
   } = Some (s\<lparr>chip := fold (\<lambda>w. cell_write h (config s) a b (fifo_swap (config s) w)) ws (chip s)\<rparr>)"
  using assms(1-3) write_words_cells [of f "s\<lparr>dev_lock := True\<rparr>", OF assms(4), where ws = ws and d = "chip s"]
    write_words_cells [of "\<lambda>w. f (swab32 w)" "s\<lparr>dev_lock := True\<rparr>", OF assms(4), where ws = ws and d = "chip s"]
    bus_writesl_cells [where s = "s\<lparr>dev_lock := True\<rparr>" and h = h and a = a and ws = ws and d = "chip s"]
  by (auto simp: spin_lock_dev_def spin_unlock_dev_def flag_set_def fifo_swap_cases cell_32)

interpretation std: register_access "\<lambda>s r. ioaddr s + r" raw_reg_read raw_reg_write
  smsc911x_rx_readfifo smsc911x_tx_writefifo
proof (unfold_locales, goal_cases)
  case (4 s h n)
  show ?case
    unfolding smsc911x_rx_readfifo_def by (rule rx_body) (use 4 in \<open>auto simp: raw_reg_read_cell\<close>)
next
  case (5 s h ws)
  show ?case
    unfolding smsc911x_tx_writefifo_def by (rule tx_body) (use 5 in \<open>auto simp: raw_reg_write_cell\<close>)
qed (auto simp: raw_reg_read_cell raw_reg_write_cell)

interpretation sh: register_access "\<lambda>s r. ioaddr s + smsc_shift s r" raw_reg_read_shift raw_reg_write_shift
  smsc911x_rx_readfifo_shift smsc911x_tx_writefifo_shift
proof (unfold_locales, goal_cases)
  case (4 s h n)
  show ?case
    unfolding smsc911x_rx_readfifo_shift_def by (rule rx_body) (use 4 in \<open>auto simp: raw_reg_read_shift_cell smsc_shift_def\<close>)
next
  case (5 s h ws)
  show ?case
    unfolding smsc911x_tx_writefifo_shift_def by (rule tx_body) (use 5 in \<open>auto simp: raw_reg_write_shift_cell smsc_shift_def\<close>)
qed (auto simp: raw_reg_read_shift_cell raw_reg_write_shift_cell smsc_shift_def)

section \<open>Accesses of the driver\<close>

text \<open>The registers as the driver reaches them through \<open>pdata->ops\<close>.\<close>

definition reg_addr :: "u32 \<times> smsc911x_platform_config \<times> smsc911x_ops \<Rightarrow> u32 \<Rightarrow> u32" where
  "reg_addr p r = (case p of (io, c, q) \<Rightarrow>
     io + (case q of standard_smsc911x_ops \<Rightarrow> r | shifted_smsc911x_ops \<Rightarrow> push_bit (unat (shift c)) r))"

abbreviation port :: "'d smsc911x_data \<Rightarrow> u32 \<times> smsc911x_platform_config \<times> smsc911x_ops" where
  "port s \<equiv> (ioaddr s, config s, ops s)"

definition chip_read :: "'d hw \<Rightarrow> u32 \<times> smsc911x_platform_config \<times> smsc911x_ops \<Rightarrow> u32 \<Rightarrow> 'd \<Rightarrow> u32 \<times> 'd" where
  "chip_read h p r = cell_read h (fst (snd p)) (reg_addr p r) (reg_addr p (r + 2))"

definition chip_write :: "'d hw \<Rightarrow> u32 \<times> smsc911x_platform_config \<times> smsc911x_ops \<Rightarrow> u32 \<Rightarrow> u32 \<Rightarrow> 'd \<Rightarrow> 'd" where
  "chip_write h p r v = cell_write h (fst (snd p)) (reg_addr p r) (reg_addr p (r + 2)) v"

text \<open>The driver can access the chip: the width of the bus is configured, and \<open>dev_lock\<close> is free.\<close>

definition ready :: "'d smsc911x_data \<Rightarrow> bool" where
  "ready s \<longleftrightarrow> width_ok (config s) \<and> \<not> dev_lock s"

lemma reg_read_eq:
  "ready s \<Longrightarrow> smsc911x_reg_read h r s =
    Some (let (v, d) = chip_read h (port s) r (chip s) in (v, s\<lparr>chip := d\<rparr>))"
proof (cases "ops s")
  case standard_smsc911x_ops
  assume "ready s"
  with standard_smsc911x_ops show ?thesis
    using std.locked_rd [of s h r]
    by (simp add: ready_def smsc911x_reg_read_def ops_reg_read_def spin_lock_dev_def chip_read_def reg_addr_def)
next
  case shifted_smsc911x_ops
  assume "ready s"
  with shifted_smsc911x_ops show ?thesis
    using sh.locked_rd [of s h r]
    by (simp add: ready_def smsc911x_reg_read_def ops_reg_read_def spin_lock_dev_def chip_read_def reg_addr_def smsc_shift_def)
qed

lemma reg_write_eq:
  "ready s \<Longrightarrow> smsc911x_reg_write h r v s = Some (s\<lparr>chip := chip_write h (port s) r v (chip s)\<rparr>)"
proof (cases "ops s")
  case standard_smsc911x_ops
  assume "ready s"
  with standard_smsc911x_ops show ?thesis
    using std.locked_wr [of s h r v]
    by (simp add: ready_def smsc911x_reg_write_def ops_reg_write_def spin_lock_dev_def chip_write_def reg_addr_def)
next
  case shifted_smsc911x_ops
  assume "ready s"
  with shifted_smsc911x_ops show ?thesis
    using sh.locked_wr [of s h r v]
    by (simp add: ready_def smsc911x_reg_write_def ops_reg_write_def spin_lock_dev_def chip_write_def reg_addr_def smsc_shift_def)
qed

lemma rx_readfifo_eq:
  "ready s \<Longrightarrow> ops_rx_readfifo h n s = Some (let (ws, d) = cells_read (chip_read h (port s) RX_DATA_FIFO) (unat n) (chip s) in
     (map (fifo_swap (config s)) ws, s\<lparr>chip := d\<rparr>))"
  by (cases "ops s")
    (auto simp: ready_def ops_rx_readfifo_def std.rx_cells sh.rx_cells chip_read_def [abs_def] reg_addr_def smsc_shift_def)

lemma tx_writefifo_eq:
  "ready s \<Longrightarrow> ops_tx_writefifo h ws s =
     Some (s\<lparr>chip := fold (\<lambda>w. chip_write h (port s) TX_DATA_FIFO (fifo_swap (config s) w)) ws (chip s)\<rparr>)"
  by (cases "ops s")
    (auto simp: ready_def ops_tx_writefifo_def std.tx_cells sh.tx_cells chip_write_def [abs_def] reg_addr_def smsc_shift_def)

lemma ready_updates [simp]:
  fixes s :: "'d smsc911x_data"
  shows
  "ready (s\<lparr>chip := x0\<rparr>) = ready s"
  "ready (s\<lparr>ioaddr := x1\<rparr>) = ready s"
  "ready (s\<lparr>idrev := x2\<rparr>) = ready s"
  "ready (s\<lparr>generation := x3\<rparr>) = ready s"
  "ready (s\<lparr>mac_lock := x5\<rparr>) = ready s"
  "ready (s\<lparr>phy_dev := x7\<rparr>) = ready s"
  "ready (s\<lparr>using_extphy := x8\<rparr>) = ready s"
  "ready (s\<lparr>last_duplex := x9\<rparr>) = ready s"
  "ready (s\<lparr>last_carrier := x10\<rparr>) = ready s"
  "ready (s\<lparr>gpio_setting := x11\<rparr>) = ready s"
  "ready (s\<lparr>gpio_orig_setting := x12\<rparr>) = ready s"
  "ready (s\<lparr>software_irq_signal := x13\<rparr>) = ready s"
  "ready (s\<lparr>loopback_tx_pkt := x14\<rparr>) = ready s"
  "ready (s\<lparr>loopback_rx_pkt := x15\<rparr>) = ready s"
  "ready (s\<lparr>resetcount := x16\<rparr>) = ready s"
  "ready (s\<lparr>multicast_update_pending := x17\<rparr>) = ready s"
  "ready (s\<lparr>set_bits_mask := x18\<rparr>) = ready s"
  "ready (s\<lparr>clear_bits_mask := x19\<rparr>) = ready s"
  "ready (s\<lparr>hashhi := x20\<rparr>) = ready s"
  "ready (s\<lparr>hashlo := x21\<rparr>) = ready s"
  "ready (s\<lparr>ops := x22\<rparr>) = ready s"
  "ready (s\<lparr>dev_addr := x23\<rparr>) = ready s"
  "ready (s\<lparr>promisc := x24\<rparr>) = ready s"
  "ready (s\<lparr>allmulti := x25\<rparr>) = ready s"
  "ready (s\<lparr>mc_list := x26\<rparr>) = ready s"
  "ready (s\<lparr>stats := x27\<rparr>) = ready s"
  "ready (s\<lparr>running := x28\<rparr>) = ready s"
  "ready (s\<lparr>carrier := x29\<rparr>) = ready s"
  "ready (s\<lparr>queue_stopped := x30\<rparr>) = ready s"
  "ready (s\<lparr>napi_sched := x31\<rparr>) = ready s"
  by (simp_all add: ready_def)

lemma holds_reg_read [drv_rules]:
  "ready s \<Longrightarrow> (\<And>v d. P (v, s\<lparr>chip := d\<rparr>)) \<Longrightarrow> holds (smsc911x_reg_read h r s) P"
  by (simp add: reg_read_eq case_prod_unfold Let_def)

lemma holds_reg_write [drv_rules]:
  "ready s \<Longrightarrow> (\<And>d. P (s\<lparr>chip := d\<rparr>)) \<Longrightarrow> holds (smsc911x_reg_write h r v s) P"
  by (simp add: reg_write_eq)

lemma holds_rx_readfifo [drv_rules]:
  "ready s \<Longrightarrow> (\<And>ws d. length ws = unat n \<Longrightarrow> P (ws, s\<lparr>chip := d\<rparr>)) \<Longrightarrow> holds (ops_rx_readfifo h n s) P"
  by (simp add: rx_readfifo_eq case_prod_unfold Let_def)

lemma holds_tx_writefifo [drv_rules]:
  "ready s \<Longrightarrow> (\<And>d. P (s\<lparr>chip := d\<rparr>)) \<Longrightarrow> holds (ops_tx_writefifo h ws s) P"
  by (simp add: tx_writefifo_eq)

section \<open>An example state\<close>

definition example_config :: smsc911x_platform_config where
  "example_config = \<lparr>irq_polarity = 0, irq_type = 0, cfg_flags = 2, shift = 0, cfg_mac = replicate 6 0\<rparr>"

definition zero_stats :: net_device_stats where
  "zero_stats = \<lparr>rx_packets = 0, tx_packets = 0, rx_bytes = 0, tx_bytes = 0, rx_errors = 0, tx_errors = 0,
     rx_dropped = 0, multicast = 0, collisions = 0, rx_length_errors = 0, rx_crc_errors = 0,
     tx_aborted_errors = 0, tx_carrier_errors = 0\<rparr>"

text \<open>The internal PHY of the chip, attached and not started.\<close>

definition example_phy :: phy_device where
  "example_phy = \<lparr>phy_addr = 1, duplex = 1, phy_id = 0x0007c0d1, phy_drv = lan911x_int_driver, phy_st = PHY_READY, phy_speed = 100,
     phy_pause = 0, phy_asym_pause = 0, phy_link = 1, phy_interrupts = 0, phy_supported = 0x62cf, phy_advertising = 0x62cf,
     phy_autoneg = 1, phy_link_timeout = 0, phy_irq = -1, phy_lock = False\<rparr>"

definition example_drv :: "'d \<Rightarrow> 'd smsc911x_data" where
  "example_drv d = \<lparr>chip = d, ioaddr = 0, idrev = 0x92210000, generation = 4, config = example_config,
     mac_lock = False, dev_lock = False, phy_dev = Some example_phy, using_extphy = 0,
     last_duplex = -1, last_carrier = -1, gpio_setting = 0, gpio_orig_setting = 0, software_irq_signal = 0,
     loopback_tx_pkt = replicate 64 0, loopback_rx_pkt = replicate 64 0, resetcount = 0,
     multicast_update_pending = 0, set_bits_mask = 0, clear_bits_mask = 0, hashhi = 0, hashlo = 0,
     ops = standard_smsc911x_ops, dev_addr = [2, 0, 0, 0, 0, 1], promisc = False, allmulti = False, mc_list = [],
     stats = zero_stats, running = False, carrier = False, queue_stopped = True, napi_sched = True\<rparr>"

lemma example_phy_simps [simp]:
  "phy_addr example_phy = 1" "duplex example_phy = 1" "phy_drv example_phy = lan911x_int_driver" "phy_st example_phy = PHY_READY"
  "phy_autoneg example_phy = 1" "phy_irq example_phy = -1" "\<not> phy_lock example_phy" "phy_supported example_phy = 0x62cf"
  by (simp_all add: example_phy_def)

lemma example_ready: "ready (example_drv d)"
  by (simp add: ready_def example_drv_def example_config_def)

end
