(* ===== verification/Smsc_Mac.thy ===== *)
theory Smsc_Mac
  imports Smsc_Bus
begin

text \<open>
  The MAC and PHY registers of the chip, which the driver \<open>code/nic-driver/smsc/smsc911x.c\<close> reaches
  through the command and data registers \<open>MAC_CSR_CMD\<close> and \<open>MAC_CSR_DATA\<close> (\<open>smsc911x_mac_complete\<close> to
  \<open>smsc911x_mii_write\<close>), the MAC address, and the multicast filter.
\<close>

section \<open>MAC registers\<close>

abbreviation (input) EIO :: int where "EIO \<equiv> 5"
abbreviation (input) EAGAIN :: int where "EAGAIN \<equiv> 11"
abbreviation (input) ENOMEM :: int where "ENOMEM \<equiv> 12"
abbreviation (input) EBUSY :: int where "EBUSY \<equiv> 16"
abbreviation (input) ENODEV :: int where "ENODEV \<equiv> 19"
abbreviation (input) EINVAL :: int where "EINVAL \<equiv> 22"
abbreviation (input) ENXIO :: int where "ENXIO \<equiv> 6"
abbreviation (input) EOPNOTSUPP :: int where "EOPNOTSUPP \<equiv> 95"
abbreviation (input) EADDRNOTAVAIL :: int where "EADDRNOTAVAIL \<equiv> 99"

fun mac_complete_loop :: "'d hw \<Rightarrow> nat \<Rightarrow> 'd smsc911x_data \<Rightarrow> (int \<times> 'd smsc911x_data) option" where
  "mac_complete_loop h 0 s = Some (- EIO, s)"
| "mac_complete_loop h (Suc n) s = do {
     (val, s) \<leftarrow> smsc911x_reg_read h MAC_CSR_CMD s;
     if val AND MAC_CSR_CMD_CSR_BUSY = 0 then Some (0, s) else mac_complete_loop h n s
   }"

definition smsc911x_mac_complete :: "'d hw \<Rightarrow> 'd smsc911x_data \<Rightarrow> (int \<times> 'd smsc911x_data) option" where
  "smsc911x_mac_complete h s = do {
     _ \<leftarrow> SMSC_ASSERT_MAC_LOCK s;
     mac_complete_loop h 40 s
   }"

definition smsc911x_mac_read :: "'d hw \<Rightarrow> u32 \<Rightarrow> 'd smsc911x_data \<Rightarrow> (u32 \<times> 'd smsc911x_data) option" where
  "smsc911x_mac_read h offset s = do {
     _ \<leftarrow> SMSC_ASSERT_MAC_LOCK s;
     (temp, s) \<leftarrow> smsc911x_reg_read h MAC_CSR_CMD s;
     if temp AND MAC_CSR_CMD_CSR_BUSY \<noteq> 0 then Some (0xffffffff, s)
     else do {
       s \<leftarrow> smsc911x_reg_write h MAC_CSR_CMD ((offset AND 0xff) OR MAC_CSR_CMD_CSR_BUSY OR MAC_CSR_CMD_R_NOT_W) s;
       (temp, s) \<leftarrow> smsc911x_reg_read h BYTE_TEST s;
       (ret, s) \<leftarrow> smsc911x_mac_complete h s;
       if ret = 0 then smsc911x_reg_read h MAC_CSR_DATA s
       else Some (0xffffffff, s)
     }
   }"

definition smsc911x_mac_write :: "'d hw \<Rightarrow> u32 \<Rightarrow> u32 \<Rightarrow> 'd smsc911x_data \<Rightarrow> 'd smsc911x_data option" where
  "smsc911x_mac_write h offset val s = do {
     _ \<leftarrow> SMSC_ASSERT_MAC_LOCK s;
     (temp, s) \<leftarrow> smsc911x_reg_read h MAC_CSR_CMD s;
     if temp AND MAC_CSR_CMD_CSR_BUSY \<noteq> 0 then Some s
     else do {
       s \<leftarrow> smsc911x_reg_write h MAC_CSR_DATA val s;
       s \<leftarrow> smsc911x_reg_write h MAC_CSR_CMD ((offset AND 0xff) OR MAC_CSR_CMD_CSR_BUSY) s;
       (temp, s) \<leftarrow> smsc911x_reg_read h BYTE_TEST s;
       (ret, s) \<leftarrow> smsc911x_mac_complete h s;
       Some s
     }
   }"

section \<open>PHY registers\<close>

fun mii_read_loop :: "'d hw \<Rightarrow> nat \<Rightarrow> 'd smsc911x_data \<Rightarrow> (int \<times> 'd smsc911x_data) option" where
  "mii_read_loop h 0 s = Some (- EIO, s)"
| "mii_read_loop h (Suc n) s = do {
     (v, s) \<leftarrow> smsc911x_mac_read h MII_ACC s;
     if v AND MII_ACC_MII_BUSY = 0 then do {
       (reg, s) \<leftarrow> smsc911x_mac_read h MII_DATA s;
       Some (sint reg, s)
     }
     else mii_read_loop h n s
   }"

definition smsc911x_mii_read :: "'d hw \<Rightarrow> u32 \<Rightarrow> u32 \<Rightarrow> 'd smsc911x_data \<Rightarrow> (int \<times> 'd smsc911x_data) option" where
  "smsc911x_mii_read h phyaddr regidx s = do {
     s \<leftarrow> spin_lock_mac s;
     (v, s) \<leftarrow> smsc911x_mac_read h MII_ACC s;
     (reg, s) \<leftarrow>
       (if v AND MII_ACC_MII_BUSY \<noteq> 0 then Some (- EIO, s)
        else do {
          let addr = push_bit 11 (phyaddr AND 0x1f) OR push_bit 6 (regidx AND 0x1f);
          s \<leftarrow> smsc911x_mac_write h MII_ACC addr s;
          mii_read_loop h 100 s
        });
     Some (reg, spin_unlock_mac s)
   }"

fun mii_write_loop :: "'d hw \<Rightarrow> nat \<Rightarrow> 'd smsc911x_data \<Rightarrow> (int \<times> 'd smsc911x_data) option" where
  "mii_write_loop h 0 s = Some (- EIO, s)"
| "mii_write_loop h (Suc n) s = do {
     (v, s) \<leftarrow> smsc911x_mac_read h MII_ACC s;
     if v AND MII_ACC_MII_BUSY = 0 then Some (0, s) else mii_write_loop h n s
   }"

definition smsc911x_mii_write :: "'d hw \<Rightarrow> u32 \<Rightarrow> u32 \<Rightarrow> u16 \<Rightarrow> 'd smsc911x_data \<Rightarrow> (int \<times> 'd smsc911x_data) option" where
  "smsc911x_mii_write h phyaddr regidx val s = do {
     s \<leftarrow> spin_lock_mac s;
     (v, s) \<leftarrow> smsc911x_mac_read h MII_ACC s;
     (reg, s) \<leftarrow>
       (if v AND MII_ACC_MII_BUSY \<noteq> 0 then Some (- EIO, s)
        else do {
          s \<leftarrow> smsc911x_mac_write h MII_DATA (ucast val) s;
          let addr = push_bit 11 (phyaddr AND 0x1f) OR push_bit 6 (regidx AND 0x1f) OR MII_ACC_MII_WRITE;
          s \<leftarrow> smsc911x_mac_write h MII_ACC addr s;
          mii_write_loop h 100 s
        });
     Some (reg, spin_unlock_mac s)
   }"

section \<open>The MAC address\<close>

definition smsc911x_set_hw_mac_address :: "'d hw \<Rightarrow> u8 list \<Rightarrow> 'd smsc911x_data \<Rightarrow> 'd smsc911x_data option" where
  "smsc911x_set_hw_mac_address h addr s = do {
     a0 \<leftarrow> arr_get addr 0;
     a1 \<leftarrow> arr_get addr 1;
     a2 \<leftarrow> arr_get addr 2;
     a3 \<leftarrow> arr_get addr 3;
     a4 \<leftarrow> arr_get addr 4;
     a5 \<leftarrow> arr_get addr 5;
     let mac_high16 = push_bit 8 (ucast a5) OR ucast a4;
     let mac_low32 = push_bit 24 (ucast a3) OR push_bit 16 (ucast a2) OR push_bit 8 (ucast a1) OR ucast a0;
     _ \<leftarrow> SMSC_ASSERT_MAC_LOCK s;
     s \<leftarrow> smsc911x_mac_write h ADDRH mac_high16 s;
     smsc911x_mac_write h ADDRL mac_low32 s
   }"

definition smsc911x_read_mac_address :: "'d hw \<Rightarrow> 'd smsc911x_data \<Rightarrow> 'd smsc911x_data option" where
  "smsc911x_read_mac_address h s = do {
     (mac_high16, s) \<leftarrow> smsc911x_mac_read h ADDRH s;
     (mac_low32, s) \<leftarrow> smsc911x_mac_read h ADDRL s;
     Some (s\<lparr>dev_addr := [ucast mac_low32, ucast (drop_bit 8 mac_low32), ucast (drop_bit 16 mac_low32),
       ucast (drop_bit 24 mac_low32), ucast mac_high16, ucast (drop_bit 8 mac_high16)]\<rparr>)
   }"

definition is_zero_ether_addr :: "u8 list \<Rightarrow> bool" where
  "is_zero_ether_addr a = (a ! 0 OR a ! 1 OR a ! 2 OR a ! 3 OR a ! 4 OR a ! 5 = 0)"

definition is_multicast_ether_addr :: "u8 list \<Rightarrow> bool" where
  "is_multicast_ether_addr a = (0x01 AND a ! 0 \<noteq> 0)"

definition is_valid_ether_addr :: "u8 list \<Rightarrow> bool" where
  "is_valid_ether_addr a = (\<not> is_multicast_ether_addr a \<and> \<not> is_zero_ether_addr a)"

definition smsc911x_set_mac_address :: "'d hw \<Rightarrow> u8 list \<Rightarrow> 'd smsc911x_data \<Rightarrow> (int \<times> 'd smsc911x_data) option" where
  "smsc911x_set_mac_address h sa_data s =
     (if generation s \<le> 1 \<and> running s then Some (- EBUSY, s)
      else if \<not> is_valid_ether_addr sa_data then Some (- EADDRNOTAVAIL, s)
      else do {
        let s = s\<lparr>dev_addr := take 6 sa_data\<rparr>;
        s \<leftarrow> spin_lock_mac s;
        s \<leftarrow> smsc911x_set_hw_mac_address h (dev_addr s) s;
        Some (0, spin_unlock_mac s)
      })"

section \<open>The multicast filter\<close>

text \<open>\<open>ether_crc\<close> of the kernel: the CRC of the bytes, low bit first, with the bits reversed.\<close>

definition crc32_step :: "u32 \<Rightarrow> u32" where
  "crc32_step crc = drop_bit 1 crc XOR (if crc AND 1 \<noteq> 0 then 0xedb88320 else 0)"

fun crc32_bits :: "nat \<Rightarrow> u32 \<Rightarrow> u32" where
  "crc32_bits 0 crc = crc"
| "crc32_bits (Suc n) crc = crc32_bits n (crc32_step crc)"

fun crc32_le :: "u32 \<Rightarrow> u8 list \<Rightarrow> u32" where
  "crc32_le crc [] = crc"
| "crc32_le crc (b # p) = crc32_le (crc32_bits 8 (crc XOR ucast b)) p"

definition bitrev8 :: "u8 \<Rightarrow> u8" where
  "bitrev8 b = foldr (\<lambda>i w. push_bit 1 w OR of_bool (bit b (7 - i))) [0..<8] 0"

definition bitrev16 :: "u16 \<Rightarrow> u16" where
  "bitrev16 x = push_bit 8 (ucast (bitrev8 (ucast (x AND 0xff)))) OR ucast (bitrev8 (ucast (drop_bit 8 x)))"

definition bitrev32 :: "u32 \<Rightarrow> u32" where
  "bitrev32 x = push_bit 16 (ucast (bitrev16 (ucast (x AND 0xffff)))) OR ucast (bitrev16 (ucast (drop_bit 16 x)))"

definition ether_crc :: "u8 list \<Rightarrow> u32" where
  "ether_crc p = bitrev32 (crc32_le 0xffffffff p)"

definition smsc911x_hash :: "u8 list \<Rightarrow> u32" where
  "smsc911x_hash addr = drop_bit 26 (ether_crc (take 6 addr)) AND 0x3f"

definition smsc911x_rx_multicast_update :: "'d hw \<Rightarrow> 'd smsc911x_data \<Rightarrow> 'd smsc911x_data option" where
  "smsc911x_rx_multicast_update h s = do {
     _ \<leftarrow> SMSC_ASSERT_MAC_LOCK s;
     (mac_cr, s) \<leftarrow> smsc911x_mac_read h MAC_CR s;
     let mac_cr = mac_cr OR set_bits_mask s;
     let mac_cr = mac_cr AND NOT (clear_bits_mask s);
     s \<leftarrow> smsc911x_mac_write h MAC_CR mac_cr s;
     s \<leftarrow> smsc911x_mac_write h HASHH (hashhi s) s;
     smsc911x_mac_write h HASHL (hashlo s) s
   }"

definition smsc911x_rx_multicast_update_workaround :: "'d hw \<Rightarrow> 'd smsc911x_data \<Rightarrow> 'd smsc911x_data option" where
  "smsc911x_rx_multicast_update_workaround h s = do {
     s \<leftarrow> spin_lock_mac s;
     (v, s) \<leftarrow> smsc911x_mac_read h MAC_CR s;
     s \<leftarrow> smsc911x_rx_multicast_update h s;
     (mac_cr, s) \<leftarrow> smsc911x_mac_read h MAC_CR s;
     let mac_cr = mac_cr OR MAC_CR_RXEN;
     s \<leftarrow> smsc911x_mac_write h MAC_CR mac_cr s;
     let s = s\<lparr>multicast_update_pending := 0\<rparr>;
     Some (spin_unlock_mac s)
   }"

definition mc_hash_step :: "u8 list \<Rightarrow> u32 \<times> u32 \<Rightarrow> u32 \<times> u32" where
  "mc_hash_step addr hl =
     (let bitnum = smsc911x_hash addr;
          m = push_bit (unat (bitnum AND 0x1f)) 1 in
      if bitnum AND 0x20 \<noteq> 0 then (fst hl OR m, snd hl) else (fst hl, snd hl OR m))"

definition mc_masks :: "'d smsc911x_data \<Rightarrow> 'd smsc911x_data" where
  "mc_masks s =
     (if promisc s then s\<lparr>set_bits_mask := MAC_CR_PRMS, clear_bits_mask := MAC_CR_MCPAS OR MAC_CR_HPFILT, hashhi := 0, hashlo := 0\<rparr>
      else if allmulti s then s\<lparr>set_bits_mask := MAC_CR_MCPAS, clear_bits_mask := MAC_CR_PRMS OR MAC_CR_HPFILT, hashhi := 0, hashlo := 0\<rparr>
      else if mc_list s \<noteq> [] then
        (let (hash_high, hash_low) = fold mc_hash_step (mc_list s) (0, 0) in
         s\<lparr>set_bits_mask := MAC_CR_HPFILT, clear_bits_mask := MAC_CR_PRMS OR MAC_CR_MCPAS, hashhi := hash_high, hashlo := hash_low\<rparr>)
      else s\<lparr>set_bits_mask := 0, clear_bits_mask := MAC_CR_PRMS OR MAC_CR_MCPAS OR MAC_CR_HPFILT, hashhi := 0, hashlo := 0\<rparr>)"

definition smsc911x_set_multicast_list :: "'d hw \<Rightarrow> 'd smsc911x_data \<Rightarrow> 'd smsc911x_data option" where
  "smsc911x_set_multicast_list h s = do {
     let s = mc_masks s;
     s \<leftarrow> spin_lock_mac s;
     s \<leftarrow>
       (if generation s \<le> 1 then
          (if multicast_update_pending s = 0 then do {
             let s = s\<lparr>multicast_update_pending := 1\<rparr>;
             (temp, s) \<leftarrow> smsc911x_mac_read h MAC_CR s;
             let temp = temp AND NOT MAC_CR_RXEN;
             smsc911x_mac_write h MAC_CR temp s
           }
           else Some s)
        else smsc911x_rx_multicast_update h s);
     Some (spin_unlock_mac s)
   }"

section \<open>The accesses return and change only the chip\<close>

lemma mac_unlock_id:
  "\<not> mac_lock s \<Longrightarrow> s\<lparr>chip := d, mac_lock := False\<rparr> = s\<lparr>chip := d\<rparr>"
  "\<not> mac_lock s \<Longrightarrow> s\<lparr>mac_lock := False, chip := d\<rparr> = s\<lparr>chip := d\<rparr>"
  by (cases s; simp)+

lemma holds_assert_mac [simp]: "holds (SMSC_ASSERT_MAC_LOCK s) P = (mac_lock s \<and> P ())"
  by (simp add: SMSC_ASSERT_MAC_LOCK_def)

lemma holds_lock_mac [simp]: "holds (spin_lock_mac s) P = (\<not> mac_lock s \<and> P (s\<lparr>mac_lock := True\<rparr>))"
  by (simp add: spin_lock_mac_def)

lemma holds_mac_loop:
  "ready s \<Longrightarrow> (\<And>r d. P (r, s\<lparr>chip := d\<rparr>)) \<Longrightarrow> holds (mac_complete_loop h n s) P"
proof (induction n arbitrary: s)
  case 0
  from 0(2) [of _ "chip s"] show ?case by simp
next
  case (Suc n)
  then show ?case by (auto intro!: holds_reg_read)
qed

lemma holds_mac_complete [drv_rules]:
  "ready s \<Longrightarrow> mac_lock s \<Longrightarrow> (\<And>r d. P (r, s\<lparr>chip := d\<rparr>)) \<Longrightarrow> holds (smsc911x_mac_complete h s) P"
  by (simp add: smsc911x_mac_complete_def holds_mac_loop)

lemma holds_mac_read [drv_rules]:
  "ready s \<Longrightarrow> mac_lock s \<Longrightarrow> (\<And>v d. P (v, s\<lparr>chip := d\<rparr>)) \<Longrightarrow> holds (smsc911x_mac_read h r s) P"
  by (auto simp: smsc911x_mac_read_def intro!: drv_rules)

lemma holds_mac_write [drv_rules]:
  "ready s \<Longrightarrow> mac_lock s \<Longrightarrow> (\<And>d. P (s\<lparr>chip := d\<rparr>)) \<Longrightarrow> holds (smsc911x_mac_write h r v s) P"
  by (auto simp: smsc911x_mac_write_def intro!: drv_rules)

lemma holds_mii_read_loop:
  "ready s \<Longrightarrow> mac_lock s \<Longrightarrow> (\<And>r d. P (r, s\<lparr>chip := d\<rparr>)) \<Longrightarrow> holds (mii_read_loop h n s) P"
proof (induction n arbitrary: s)
  case 0
  from 0(3) [of _ "chip s"] show ?case by simp
next
  case (Suc n)
  then show ?case by (auto intro!: drv_rules)
qed

lemma holds_mii_write_loop:
  "ready s \<Longrightarrow> mac_lock s \<Longrightarrow> (\<And>r d. P (r, s\<lparr>chip := d\<rparr>)) \<Longrightarrow> holds (mii_write_loop h n s) P"
proof (induction n arbitrary: s)
  case 0
  from 0(3) [of _ "chip s"] show ?case by simp
next
  case (Suc n)
  then show ?case by (auto intro!: drv_rules)
qed

lemma holds_mii_read [drv_rules]:
  "ready s \<Longrightarrow> \<not> mac_lock s \<Longrightarrow> (\<And>r d. P (r, s\<lparr>chip := d\<rparr>)) \<Longrightarrow> holds (smsc911x_mii_read h a r s) P"
  by (auto simp: smsc911x_mii_read_def spin_unlock_mac_def mac_unlock_id intro!: drv_rules holds_mii_read_loop)

lemma holds_mii_write [drv_rules]:
  "ready s \<Longrightarrow> \<not> mac_lock s \<Longrightarrow> (\<And>r d. P (r, s\<lparr>chip := d\<rparr>)) \<Longrightarrow> holds (smsc911x_mii_write h a r v s) P"
  by (auto simp: smsc911x_mii_write_def spin_unlock_mac_def mac_unlock_id intro!: drv_rules holds_mii_write_loop)

lemma holds_set_hw_mac [drv_rules]:
  "ready s \<Longrightarrow> mac_lock s \<Longrightarrow> 6 \<le> length a \<Longrightarrow> (\<And>d. P (s\<lparr>chip := d\<rparr>)) \<Longrightarrow> holds (smsc911x_set_hw_mac_address h a s) P"
  by (auto simp: smsc911x_set_hw_mac_address_def Let_def intro!: drv_rules)

lemma holds_read_mac [drv_rules]:
  "ready s \<Longrightarrow> mac_lock s \<Longrightarrow> (\<And>d a. length a = 6 \<Longrightarrow> P (s\<lparr>chip := d, dev_addr := a\<rparr>)) \<Longrightarrow>
   holds (smsc911x_read_mac_address h s) P"
  by (auto simp: smsc911x_read_mac_address_def intro!: drv_rules)

lemma holds_multicast_update [drv_rules]:
  "ready s \<Longrightarrow> mac_lock s \<Longrightarrow> (\<And>d. P (s\<lparr>chip := d\<rparr>)) \<Longrightarrow> holds (smsc911x_rx_multicast_update h s) P"
  by (auto simp: smsc911x_rx_multicast_update_def Let_def intro!: drv_rules)

section \<open>A chip that follows its data sheet\<close>

text \<open>
  What the data sheet says of the MAC registers: a command keeps the interface busy for fewer than
  40 status reads; a write command stores the data register, a read command loads it. The registers
  below hold what is written to them (\<open>ADDRH\<close> has 16 bits).
\<close>

record mac_view =
  busy :: nat
  mac_regs :: "u32 \<Rightarrow> u32"
  csr_data :: u32

definition storage_regs :: "u32 set" where
  "storage_regs = {MAC_CR, ADDRH, ADDRL, HASHH, HASHL, FLOW, VLAN1}"

definition mac_store :: "u32 \<Rightarrow> u32 \<Rightarrow> u32" where
  "mac_store r v = (if r = ADDRH then v AND 0xffff else v)"

definition mac_chip :: "'d hw \<Rightarrow> u32 \<times> smsc911x_platform_config \<times> smsc911x_ops \<Rightarrow> ('d \<Rightarrow> mac_view) \<Rightarrow> bool" where
  "mac_chip h p view \<longleftrightarrow>
     (\<forall>d. (fst (chip_read h p MAC_CSR_CMD d) AND MAC_CSR_CMD_CSR_BUSY = 0) = (busy (view d) = 0) \<and>
        view (snd (chip_read h p MAC_CSR_CMD d)) = (view d)\<lparr>busy := busy (view d) - 1\<rparr> \<and>
        view (snd (chip_read h p BYTE_TEST d)) = view d) \<and>
     (\<forall>d. busy (view d) = 0 \<longrightarrow>
        fst (chip_read h p MAC_CSR_DATA d) = csr_data (view d) \<and> view (snd (chip_read h p MAC_CSR_DATA d)) = view d) \<and>
     (\<forall>d v. busy (view d) = 0 \<longrightarrow> view (chip_write h p MAC_CSR_DATA v d) = (view d)\<lparr>csr_data := v\<rparr>) \<and>
     (\<forall>d. \<forall>r \<in> storage_regs. busy (view d) = 0 \<longrightarrow>
        (\<exists>n < 40. view (chip_write h p MAC_CSR_CMD (r OR MAC_CSR_CMD_CSR_BUSY) d) =
           (view d)\<lparr>busy := n, mac_regs := (mac_regs (view d))(r := mac_store r (csr_data (view d)))\<rparr>) \<and>
        (\<exists>n < 40. view (chip_write h p MAC_CSR_CMD (r OR MAC_CSR_CMD_CSR_BUSY OR MAC_CSR_CMD_R_NOT_W) d) =
           (view d)\<lparr>busy := n, csr_data := mac_regs (view d) r\<rparr>))"

lemma mac_chip_cmd:
  assumes "mac_chip h p view" and "busy (view d) = 0" and "r \<in> storage_regs"
  shows "\<exists>n < 40. view (chip_write h p MAC_CSR_CMD (r OR MAC_CSR_CMD_CSR_BUSY) d) =
      (view d)\<lparr>busy := n, mac_regs := (mac_regs (view d))(r := mac_store r (csr_data (view d)))\<rparr>"
    and "\<exists>n < 40. view (chip_write h p MAC_CSR_CMD (r OR MAC_CSR_CMD_CSR_BUSY OR MAC_CSR_CMD_R_NOT_W) d) =
      (view d)\<lparr>busy := n, csr_data := mac_regs (view d) r\<rparr>"
  using assms unfolding mac_chip_def by blast+

lemma mac_loop_idle:
  assumes chip: "mac_chip h (port s) view" and "ready s"
  shows "busy (view d) < n \<Longrightarrow> \<exists>d'. mac_complete_loop h n (s\<lparr>chip := d\<rparr>) = Some (0, s\<lparr>chip := d'\<rparr>) \<and>
    view d' = (view d)\<lparr>busy := 0\<rparr>"
proof (induction n arbitrary: d)
  case (Suc n)
  let ?d = "snd (chip_read h (port s) MAC_CSR_CMD d)"
  have r: "(fst (chip_read h (port s) MAC_CSR_CMD d) AND MAC_CSR_CMD_CSR_BUSY = 0) = (busy (view d) = 0)"
    and v: "view ?d = (view d)\<lparr>busy := busy (view d) - 1\<rparr>"
    using chip by (simp_all add: mac_chip_def)
  have e: "smsc911x_reg_read h MAC_CSR_CMD (s\<lparr>chip := d\<rparr>) = Some (fst (chip_read h (port s) MAC_CSR_CMD d), s\<lparr>chip := ?d\<rparr>)"
    using reg_read_eq [of "s\<lparr>chip := d\<rparr>" h MAC_CSR_CMD] assms(2) by (simp add: case_prod_unfold Let_def)
  show ?case
  proof (cases "busy (view d) = 0")
    case True
    then show ?thesis using e r v by auto
  next
    case False
    then have "busy (view ?d) < n" using Suc.prems v by auto
    then obtain d' where "mac_complete_loop h n (s\<lparr>chip := ?d\<rparr>) = Some (0, s\<lparr>chip := d'\<rparr>)" "view d' = (view ?d)\<lparr>busy := 0\<rparr>"
      using Suc.IH [of ?d] by blast
    then show ?thesis using e r v False by auto
  qed
qed simp

text \<open>The state of the interface between two accesses: idle, with the registers \<open>R\<close>.\<close>

definition mac_holds :: "'d hw \<Rightarrow> ('d \<Rightarrow> mac_view) \<Rightarrow> (u32 \<Rightarrow> u32) \<Rightarrow> 'd smsc911x_data \<Rightarrow> bool" where
  "mac_holds h view R s \<longleftrightarrow> ready s \<and> mac_chip h (port s) view \<and> busy (view (chip s)) = 0 \<and> mac_regs (view (chip s)) = R"

lemma storage_byte: "r \<in> storage_regs \<Longrightarrow> r AND 0xff = r"
  by (auto simp: storage_regs_def)

lemma mac_read_value:
  assumes "mac_holds h view R s" and "mac_lock s" and r: "r \<in> storage_regs"
  shows "\<exists>d. smsc911x_mac_read h r s = Some (R r, s\<lparr>chip := d\<rparr>) \<and> mac_holds h view R (s\<lparr>chip := d\<rparr>)"
proof -
  let ?p = "port s"
  let ?d1 = "snd (chip_read h ?p MAC_CSR_CMD (chip s))"
  let ?d2 = "chip_write h ?p MAC_CSR_CMD (r OR MAC_CSR_CMD_CSR_BUSY OR MAC_CSR_CMD_R_NOT_W) ?d1"
  let ?d3 = "snd (chip_read h ?p BYTE_TEST ?d2)"
  have s: "ready s" and chip: "mac_chip h ?p view" and idle: "busy (view (chip s)) = 0" and R: "mac_regs (view (chip s)) = R"
    using assms(1) by (auto simp: mac_holds_def)
  have free: "fst (chip_read h ?p MAC_CSR_CMD (chip s)) AND MAC_CSR_CMD_CSR_BUSY = 0" and v1: "view ?d1 = view (chip s)"
    using chip idle by (simp_all add: mac_chip_def)
  then obtain n where n: "n < 40" "view ?d2 = (view ?d1)\<lparr>busy := n, csr_data := mac_regs (view ?d1) r\<rparr>"
    using mac_chip_cmd(2) [OF chip _ r, of ?d1] idle by auto
  have v3: "view ?d3 = view ?d2" using chip by (simp add: mac_chip_def)
  obtain d4 where d4: "mac_complete_loop h 40 (s\<lparr>chip := ?d3\<rparr>) = Some (0, s\<lparr>chip := d4\<rparr>)" "view d4 = (view ?d3)\<lparr>busy := 0\<rparr>"
    using mac_loop_idle [OF chip s, of ?d3 40] n v3 by auto
  have "fst (chip_read h ?p MAC_CSR_DATA d4) = R r" "view (snd (chip_read h ?p MAC_CSR_DATA d4)) = view d4"
    using chip d4(2) v3 n(2) v1 R by (simp_all add: mac_chip_def)
  then show ?thesis
    using s assms(2) free d4 chip v3 n v1 R
    by (intro exI [of _ "snd (chip_read h ?p MAC_CSR_DATA d4)"])
      (simp add: smsc911x_mac_read_def SMSC_ASSERT_MAC_LOCK_def smsc911x_mac_complete_def reg_read_eq reg_write_eq
        storage_byte [OF r] case_prod_unfold Let_def mac_holds_def)
qed

lemma mac_write_value:
  assumes "mac_holds h view R s" and "mac_lock s" and r: "r \<in> storage_regs"
  shows "\<exists>d. smsc911x_mac_write h r v s = Some (s\<lparr>chip := d\<rparr>) \<and> mac_holds h view (R(r := mac_store r v)) (s\<lparr>chip := d\<rparr>)"
proof -
  let ?p = "port s"
  let ?d1 = "snd (chip_read h ?p MAC_CSR_CMD (chip s))"
  let ?d2 = "chip_write h ?p MAC_CSR_DATA v ?d1"
  let ?d3 = "chip_write h ?p MAC_CSR_CMD (r OR MAC_CSR_CMD_CSR_BUSY) ?d2"
  let ?d4 = "snd (chip_read h ?p BYTE_TEST ?d3)"
  have s: "ready s" and chip: "mac_chip h ?p view" and idle: "busy (view (chip s)) = 0" and R: "mac_regs (view (chip s)) = R"
    using assms(1) by (auto simp: mac_holds_def)
  have free: "fst (chip_read h ?p MAC_CSR_CMD (chip s)) AND MAC_CSR_CMD_CSR_BUSY = 0" and v1: "view ?d1 = view (chip s)"
    using chip idle by (simp_all add: mac_chip_def)
  have v2: "view ?d2 = (view (chip s))\<lparr>csr_data := v\<rparr>" using chip v1 idle by (simp add: mac_chip_def)
  then obtain n where n: "n < 40" "view ?d3 = (view ?d2)\<lparr>busy := n, mac_regs := (mac_regs (view ?d2))(r := mac_store r v)\<rparr>"
    using mac_chip_cmd(1) [OF chip _ r, of ?d2] idle by auto
  have v4: "view ?d4 = view ?d3" using chip by (simp add: mac_chip_def)
  obtain d5 where d5: "mac_complete_loop h 40 (s\<lparr>chip := ?d4\<rparr>) = Some (0, s\<lparr>chip := d5\<rparr>)" "view d5 = (view ?d4)\<lparr>busy := 0\<rparr>"
    using mac_loop_idle [OF chip s, of ?d4 40] n v4 by auto
  then show ?thesis
    using s assms(2) free chip v4 n v2 R
    by (intro exI [of _ d5]) (simp add: smsc911x_mac_write_def SMSC_ASSERT_MAC_LOCK_def smsc911x_mac_complete_def reg_read_eq reg_write_eq
        storage_byte [OF r] case_prod_unfold Let_def mac_holds_def)
qed

section \<open>MAC address and multicast filter on such a chip\<close>

lemma mac_holds_frame [simp]:
  "mac_holds h view R (s\<lparr>mac_lock := l\<rparr>) = mac_holds h view R s"
  "mac_holds h view R (s\<lparr>dev_addr := a\<rparr>) = mac_holds h view R s"
  "mac_holds h view R (s\<lparr>multicast_update_pending := m\<rparr>) = mac_holds h view R s"
  "mac_holds h view R (s\<lparr>promisc := p\<rparr>) = mac_holds h view R s"
  "mac_holds h view R (s\<lparr>allmulti := p\<rparr>) = mac_holds h view R s"
  "mac_holds h view R (s\<lparr>mc_list := as\<rparr>) = mac_holds h view R s"
  "mac_holds h view R (mc_masks s) = mac_holds h view R s"
  by (auto simp: mac_holds_def ready_def mc_masks_def Let_def case_prod_unfold)

lemma storage_members: "{MAC_CR, ADDRH, ADDRL, HASHH, HASHL, FLOW, VLAN1} \<subseteq> storage_regs"
  by (auto simp: storage_regs_def)

definition addr_high :: "u8 list \<Rightarrow> u32" where
  "addr_high a = push_bit 8 (ucast (a ! 5)) OR ucast (a ! 4)"

definition addr_low :: "u8 list \<Rightarrow> u32" where
  "addr_low a = push_bit 24 (ucast (a ! 3)) OR push_bit 16 (ucast (a ! 2)) OR push_bit 8 (ucast (a ! 1)) OR ucast (a ! 0)"

lemma addr_bytes:
  "ucast (addr_low a) = a ! 0" "ucast (drop_bit 8 (addr_low a)) = a ! 1" "ucast (drop_bit 16 (addr_low a)) = a ! 2"
  "ucast (drop_bit 24 (addr_low a)) = a ! 3" "ucast (addr_high a) = a ! 4" "ucast (drop_bit 8 (addr_high a)) = a ! 5"
  by (rule bit_word_eqI; auto simp: addr_low_def addr_high_def bit_simps dest: bit_imp_le_length)+

lemma addr_high_16 [simp]: "addr_high a AND 0xffff = addr_high a"
proof -
  have m: "(0xffff :: u32) = mask 16" by (simp add: mask_eq_exp_minus_1)
  show ?thesis unfolding m
    by (rule bit_word_eqI) (auto simp: addr_high_def bit_simps dest: bit_imp_le_length)
qed

lemma set_hw_mac_value:
  assumes "mac_holds h view R s" and "mac_lock s" and "length a = 6"
  shows "\<exists>d. smsc911x_set_hw_mac_address h a s = Some (s\<lparr>chip := d\<rparr>) \<and>
    mac_holds h view (R(ADDRH := addr_high a, ADDRL := addr_low a)) (s\<lparr>chip := d\<rparr>)"
proof -
  have "ADDRH \<in> storage_regs" "ADDRL \<in> storage_regs" by (simp_all add: storage_regs_def)
  then obtain d1 where d1: "smsc911x_mac_write h ADDRH (addr_high a) s = Some (s\<lparr>chip := d1\<rparr>)"
      "mac_holds h view (R(ADDRH := addr_high a)) (s\<lparr>chip := d1\<rparr>)"
    using mac_write_value [OF assms(1,2), of ADDRH "addr_high a"] by (auto simp: mac_store_def)
  obtain d2 where "smsc911x_mac_write h ADDRL (addr_low a) (s\<lparr>chip := d1\<rparr>) = Some (s\<lparr>chip := d2\<rparr>)"
      "mac_holds h view (R(ADDRH := addr_high a, ADDRL := addr_low a)) (s\<lparr>chip := d2\<rparr>)"
    using mac_write_value [OF d1(2), of ADDRL "addr_low a"] assms(2) by (auto simp: mac_store_def storage_regs_def)
  with d1(1) assms(2,3) show ?thesis
    by (intro exI [of _ d2]) (simp add: smsc911x_set_hw_mac_address_def SMSC_ASSERT_MAC_LOCK_def addr_high_def addr_low_def Let_def)
qed

lemma read_mac_value:
  assumes "mac_holds h view R s" and "mac_lock s" and "R ADDRH = addr_high a" "R ADDRL = addr_low a" and "length a = 6"
  shows "\<exists>d. smsc911x_read_mac_address h s = Some (s\<lparr>chip := d, dev_addr := a\<rparr>) \<and> mac_holds h view R (s\<lparr>chip := d\<rparr>)"
proof -
  obtain d1 where d1: "smsc911x_mac_read h ADDRH s = Some (addr_high a, s\<lparr>chip := d1\<rparr>)" "mac_holds h view R (s\<lparr>chip := d1\<rparr>)"
    using mac_read_value [OF assms(1,2), of ADDRH] assms(3) by (auto simp: storage_regs_def)
  obtain d2 where "smsc911x_mac_read h ADDRL (s\<lparr>chip := d1\<rparr>) = Some (addr_low a, s\<lparr>chip := d2\<rparr>)"
      "mac_holds h view R (s\<lparr>chip := d2\<rparr>)"
    using mac_read_value [OF d1(2), of ADDRL] assms(2,4) by (auto simp: storage_regs_def)
  moreover have "[a ! 0, a ! 1, a ! 2, a ! 3, a ! 4, a ! 5] = a"
    using assms(5) by (intro nth_equalityI) (auto simp: nth_Cons' numeral_eq_Suc less_Suc_eq)
  ultimately show ?thesis
    using d1(1) by (intro exI [of _ d2]) (simp add: smsc911x_read_mac_address_def addr_bytes)
qed

text \<open>The hash table has exactly the bits of the listed addresses.\<close>

lemma hash_less: "unat (smsc911x_hash a) < 64"
  using unat_and_le [of "drop_bit 26 (ether_crc (take 6 a))" "0x3f"] by (simp add: smsc911x_hash_def)

lemma hash_split:
  "unat (smsc911x_hash a AND 0x1f) = unat (smsc911x_hash a) mod 32"
  "(smsc911x_hash a AND 0x20 \<noteq> 0) = (32 \<le> unat (smsc911x_hash a))"
proof -
  have m: "(0x1f :: u32) = mask 5" by (simp add: mask_eq_exp_minus_1)
  show "unat (smsc911x_hash a AND 0x1f) = unat (smsc911x_hash a) mod 32"
    unfolding m by (simp add: take_bit_eq_mod unat_mod flip: take_bit_eq_mask)
  have e: "(0x20 :: u32) = 2 ^ 5" by simp
  have "(w AND 0x20 \<noteq> 0) = bit w 5" for w :: u32
    unfolding e by (simp only: and_exp_eq_0_iff_not_bit) simp
  moreover have "bit (smsc911x_hash a) 5 = odd (unat (smsc911x_hash a) div 32)"
  proof -
    have "bit (unat (smsc911x_hash a)) 5 = bit (smsc911x_hash a) 5" by (simp add: bit_unsigned_iff)
    then show ?thesis by (simp add: bit_iff_odd [of "unat _"])
  qed
  moreover have "odd (n div 32) = (32 \<le> n)" if "n < 64" for n :: nat
  proof -
    have "n div 32 = 0 \<or> n div 32 = 1" using that by linarith
    then show ?thesis by auto
  qed
  ultimately show "(smsc911x_hash a AND 0x20 \<noteq> 0) = (32 \<le> unat (smsc911x_hash a))"
    using hash_less [of a] by simp
qed

lemma mc_hash_bits:
  assumes "j < 32"
  shows "(bit (fst (fold mc_hash_step as hl)) j = (bit (fst hl) j \<or> (\<exists>a \<in> set as. unat (smsc911x_hash a) = 32 + j))) \<and>
    (bit (snd (fold mc_hash_step as hl)) j = (bit (snd hl) j \<or> (\<exists>a \<in> set as. unat (smsc911x_hash a) = j)))"
proof (induction as arbitrary: hl)
  case (Cons a as)
  have "bit (fst (mc_hash_step a hl)) j = (bit (fst hl) j \<or> unat (smsc911x_hash a) = 32 + j)"
    "bit (snd (mc_hash_step a hl)) j = (bit (snd hl) j \<or> unat (smsc911x_hash a) = j)"
    using assms hash_less [of a] unfolding mc_hash_step_def Let_def hash_split
    by (auto simp: bit_simps mod_if split: if_splits)
  then show ?case using Cons.IH [of "mc_hash_step a hl"] by auto
qed simp

definition update_regs :: "'d smsc911x_data \<Rightarrow> (u32 \<Rightarrow> u32) \<Rightarrow> u32 \<Rightarrow> u32" where
  "update_regs s R = R(MAC_CR := (R MAC_CR OR set_bits_mask s) AND NOT (clear_bits_mask s), HASHH := hashhi s, HASHL := hashlo s)"

lemma multicast_update_value:
  assumes "mac_holds h view R s" and "mac_lock s"
  shows "\<exists>d. smsc911x_rx_multicast_update h s = Some (s\<lparr>chip := d\<rparr>) \<and> mac_holds h view (update_regs s R) (s\<lparr>chip := d\<rparr>)"
proof -
  have st: "MAC_CR \<in> storage_regs" "HASHH \<in> storage_regs" "HASHL \<in> storage_regs" by (simp_all add: storage_regs_def)
  let ?cr = "(R MAC_CR OR set_bits_mask s) AND NOT (clear_bits_mask s)"
  obtain d1 where d1: "smsc911x_mac_read h MAC_CR s = Some (R MAC_CR, s\<lparr>chip := d1\<rparr>)" "mac_holds h view R (s\<lparr>chip := d1\<rparr>)"
    using mac_read_value [OF assms st(1)] by auto
  obtain d2 where d2: "smsc911x_mac_write h MAC_CR ?cr (s\<lparr>chip := d1\<rparr>) = Some (s\<lparr>chip := d2\<rparr>)"
      "mac_holds h view (R(MAC_CR := ?cr)) (s\<lparr>chip := d2\<rparr>)"
    using mac_write_value [OF d1(2) _ st(1), of ?cr] assms(2) by (auto simp: mac_store_def)
  obtain d3 where d3: "smsc911x_mac_write h HASHH (hashhi s) (s\<lparr>chip := d2\<rparr>) = Some (s\<lparr>chip := d3\<rparr>)"
      "mac_holds h view (R(MAC_CR := ?cr, HASHH := hashhi s)) (s\<lparr>chip := d3\<rparr>)"
    using mac_write_value [OF d2(2) _ st(2), of "hashhi s"] assms(2) by (auto simp: mac_store_def)
  obtain d4 where "smsc911x_mac_write h HASHL (hashlo s) (s\<lparr>chip := d3\<rparr>) = Some (s\<lparr>chip := d4\<rparr>)"
      "mac_holds h view (update_regs s R) (s\<lparr>chip := d4\<rparr>)"
    using mac_write_value [OF d3(2) _ st(3), of "hashlo s"] assms(2) by (auto simp: mac_store_def update_regs_def)
  with d1(1) d2(1) d3(1) assms(2) show ?thesis
    by (intro exI [of _ d4]) (simp add: smsc911x_rx_multicast_update_def SMSC_ASSERT_MAC_LOCK_def Let_def)
qed

lemma workaround_value:
  assumes "mac_holds h view R s" and "\<not> mac_lock s"
  shows "\<exists>d. smsc911x_rx_multicast_update_workaround h s = Some (s\<lparr>chip := d, multicast_update_pending := 0\<rparr>) \<and>
    mac_holds h view ((update_regs s R)(MAC_CR := update_regs s R MAC_CR OR MAC_CR_RXEN)) (s\<lparr>chip := d\<rparr>)"
proof -
  have st: "MAC_CR \<in> storage_regs" by (simp add: storage_regs_def)
  let ?s = "s\<lparr>mac_lock := True\<rparr>"
  obtain d1 where d1: "smsc911x_mac_read h MAC_CR ?s = Some (R MAC_CR, ?s\<lparr>chip := d1\<rparr>)" "mac_holds h view R (?s\<lparr>chip := d1\<rparr>)"
    using mac_read_value [of h view R ?s, OF _ _ st] assms(1) by auto
  obtain d2 where d2: "smsc911x_rx_multicast_update h (?s\<lparr>chip := d1\<rparr>) = Some (?s\<lparr>chip := d2\<rparr>)"
      "mac_holds h view (update_regs s R) (?s\<lparr>chip := d2\<rparr>)"
    using multicast_update_value [OF d1(2)] by (auto simp: update_regs_def)
  let ?cr = "update_regs s R MAC_CR"
  obtain d3 where d3: "smsc911x_mac_read h MAC_CR (?s\<lparr>chip := d2\<rparr>) = Some (?cr, ?s\<lparr>chip := d3\<rparr>)"
      "mac_holds h view (update_regs s R) (?s\<lparr>chip := d3\<rparr>)"
    using mac_read_value [OF d2(2) _ st] by auto
  obtain d4 where "smsc911x_mac_write h MAC_CR (?cr OR MAC_CR_RXEN) (?s\<lparr>chip := d3\<rparr>) = Some (?s\<lparr>chip := d4\<rparr>)"
      "mac_holds h view ((update_regs s R)(MAC_CR := ?cr OR MAC_CR_RXEN)) (?s\<lparr>chip := d4\<rparr>)"
    using mac_write_value [OF d3(2) _ st, of "?cr OR MAC_CR_RXEN"] by (auto simp: mac_store_def)
  with d1(1) d2(1) d3(1) assms(2) show ?thesis
    by (intro exI [of _ d4])
      (auto simp: smsc911x_rx_multicast_update_workaround_def spin_lock_mac_def spin_unlock_mac_def mac_unlock_id Let_def
        mac_holds_def ready_def)
qed

text \<open>A chip that consists of its MAC interface, for the witnesses.\<close>

definition csr_hw :: "mac_view hw" where
  "csr_hw = \<lparr>
     readl = (\<lambda>a d. if a = MAC_CSR_CMD then (if busy d = 0 then 0 else MAC_CSR_CMD_CSR_BUSY, d\<lparr>busy := busy d - 1\<rparr>)
                    else if a = MAC_CSR_DATA then (csr_data d, d) else (0, d)),
     readw = (\<lambda>a d. (0, d)),
     writel = (\<lambda>a v d. if a = MAC_CSR_DATA then d\<lparr>csr_data := v\<rparr>
                      else if a = MAC_CSR_CMD then
                        (if v AND MAC_CSR_CMD_R_NOT_W \<noteq> 0 then d\<lparr>busy := 3, csr_data := mac_regs d (v AND 0xff)\<rparr>
                         else d\<lparr>busy := 3, mac_regs := (mac_regs d)(v AND 0xff := mac_store (v AND 0xff) (csr_data d))\<rparr>)
                      else d),
     writew = (\<lambda>a v d. d)\<rparr>"

definition csr_drv :: "mac_view smsc911x_data" where
  "csr_drv = example_drv \<lparr>busy = 0, mac_regs = (\<lambda>_. 0), csr_data = 0\<rparr>"

lemma csr_mac_holds: "mac_holds csr_hw (\<lambda>d. d) (\<lambda>_. 0) csr_drv"
proof -
  have c: "chip_read csr_hw (0, example_config, standard_smsc911x_ops) r d = readl csr_hw r d"
    "chip_write csr_hw (0, example_config, standard_smsc911x_ops) r v d = writel csr_hw r v d" for r v d
    by (simp_all add: chip_read_def chip_write_def cell_read_def cell_write_def reg_addr_def example_config_def)
  have "mac_chip csr_hw (0, example_config, standard_smsc911x_ops) (\<lambda>d. d)"
    unfolding mac_chip_def c by (auto simp: csr_hw_def storage_regs_def mac_store_def intro!: exI [of _ "3 :: nat"])
  then show ?thesis
    by (simp add: mac_holds_def csr_drv_def example_ready) (simp add: example_drv_def)
qed

section \<open>Properties\<close>

text \<open>
  C29: Setting the MAC address and reading it back from the chip gives the address that was
  set, on every chip that follows its data sheet.
\<close>

theorem mac_address_roundtrip:
  assumes "mac_holds h view R s" and "\<not> mac_lock s" and "length a = 6" and "is_valid_ether_addr a"
    and "\<not> (generation s \<le> 1 \<and> running s)"
  shows "\<exists>s1 s2. smsc911x_set_mac_address h a s = Some (0, s1) \<and> \<not> mac_lock s1 \<and> dev_addr s1 = a \<and>
    smsc911x_read_mac_address h (s1\<lparr>mac_lock := True, dev_addr := b\<rparr>) = Some s2 \<and> dev_addr s2 = a"
proof -
  let ?s = "s\<lparr>dev_addr := a, mac_lock := True\<rparr>"
  obtain d where d: "smsc911x_set_hw_mac_address h a ?s = Some (?s\<lparr>chip := d\<rparr>)"
      "mac_holds h view (R(ADDRH := addr_high a, ADDRL := addr_low a)) (?s\<lparr>chip := d\<rparr>)"
    using set_hw_mac_value [of h view R ?s a] assms(1,3) by auto
  let ?t = "spin_unlock_mac (?s\<lparr>chip := d\<rparr>)"
  have "smsc911x_set_mac_address h a s = Some (0, ?t)"
    using d(1) assms(2-5) by (auto simp: smsc911x_set_mac_address_def spin_lock_mac_def)
  moreover have "?t\<lparr>mac_lock := True, dev_addr := b\<rparr> = ?s\<lparr>chip := d, dev_addr := b\<rparr>"
    by (simp add: spin_unlock_mac_def)
  moreover obtain d' where "smsc911x_read_mac_address h (?s\<lparr>chip := d, dev_addr := b\<rparr>) =
      Some (?s\<lparr>chip := d, dev_addr := b, chip := d', dev_addr := a\<rparr>)"
  proof -
    have "mac_holds h view (R(ADDRH := addr_high a, ADDRL := addr_low a)) (?s\<lparr>chip := d, dev_addr := b\<rparr>)"
      using d(2) by (simp add: mac_holds_def ready_def)
    from read_mac_value [OF this, of a] show ?thesis using assms(3) that by auto
  qed
  ultimately show ?thesis by (auto simp: spin_unlock_mac_def)
qed

lemma mac_address_roundtrip_witness:
  "\<exists>s1 s2. smsc911x_set_mac_address csr_hw [0x02, 0xaa, 3, 4, 0xff, 6] csr_drv = Some (0, s1) \<and>
     smsc911x_read_mac_address csr_hw (s1\<lparr>mac_lock := True, dev_addr := []\<rparr>) = Some s2 \<and>
     dev_addr s2 = [0x02, 0xaa, 3, 4, 0xff, 6]"
proof -
  have "\<not> mac_lock csr_drv" "\<not> running csr_drv" by (simp_all add: csr_drv_def example_drv_def)
  moreover have "is_valid_ether_addr [0x02, 0xaa, 3, 4, 0xff, 6]"
    by (simp add: is_valid_ether_addr_def is_multicast_ether_addr_def is_zero_ether_addr_def)
  ultimately show ?thesis
    using mac_address_roundtrip [OF csr_mac_holds, of "[0x02, 0xaa, 3, 4, 0xff, 6]" "[]"] by auto
qed

text \<open>
  C20: Enabling specific multicast addresses on a newer chip sets exactly the bits of
  the hash table that belong to the listed addresses, and switches the chip to hash filtering.
\<close>

theorem multicast_filter:
  assumes "mac_holds h view R s" and "\<not> mac_lock s" and "generation s > 1"
    and "\<not> promisc s" "\<not> allmulti s" and "mc_list s \<noteq> []"
  shows "\<exists>s' R'. smsc911x_set_multicast_list h s = Some s' \<and> mac_holds h view R' s' \<and> \<not> mac_lock s' \<and>
    (\<forall>j < 32. bit (R' HASHH) j = (\<exists>a \<in> set (mc_list s). unat (smsc911x_hash a) = 32 + j) \<and>
       bit (R' HASHL) j = (\<exists>a \<in> set (mc_list s). unat (smsc911x_hash a) = j)) \<and>
    R' MAC_CR = (R MAC_CR OR MAC_CR_HPFILT) AND NOT (MAC_CR_PRMS OR MAC_CR_MCPAS)"
proof -
  let ?hl = "fold mc_hash_step (mc_list s) (0, 0)"
  have masks: "mc_masks s = s\<lparr>set_bits_mask := MAC_CR_HPFILT, clear_bits_mask := MAC_CR_PRMS OR MAC_CR_MCPAS,
      hashhi := fst ?hl, hashlo := snd ?hl\<rparr>"
    using assms(4-6) by (simp add: mc_masks_def case_prod_unfold Let_def)
  let ?s = "(mc_masks s)\<lparr>mac_lock := True\<rparr>"
  obtain d where d: "smsc911x_rx_multicast_update h ?s = Some (?s\<lparr>chip := d\<rparr>)" "mac_holds h view (update_regs ?s R) (?s\<lparr>chip := d\<rparr>)"
    using multicast_update_value [of h view R ?s] assms(1) by auto
  have "smsc911x_set_multicast_list h s = Some (?s\<lparr>chip := d, mac_lock := False\<rparr>)"
    using d(1) assms(2,3) masks
    by (auto simp: smsc911x_set_multicast_list_def spin_lock_mac_def spin_unlock_mac_def Let_def)
  moreover have "update_regs ?s R HASHH = fst ?hl" "update_regs ?s R HASHL = snd ?hl"
    "update_regs ?s R MAC_CR = (R MAC_CR OR MAC_CR_HPFILT) AND NOT (MAC_CR_PRMS OR MAC_CR_MCPAS)"
    by (simp_all add: update_regs_def masks)
  ultimately show ?thesis
    using d(2) mc_hash_bits [of _ "mc_list s" "(0, 0)"]
    by (intro exI [of _ "?s\<lparr>chip := d, mac_lock := False\<rparr>"] exI [of _ "update_regs ?s R"]) auto
qed

lemma multicast_filter_witness:
  "\<exists>s' R'. smsc911x_set_multicast_list csr_hw (csr_drv\<lparr>mc_list := [[1, 0, 0x5e, 0, 0, 1]]\<rparr>) = Some s' \<and>
     mac_holds csr_hw (\<lambda>d. d) R' s' \<and> bit (R' HASHL) 31 \<and> R' MAC_CR = MAC_CR_HPFILT"
proof -
  let ?s = "csr_drv\<lparr>mc_list := [[1, 0, 0x5e, 0, 0, 1]]\<rparr>"
  have c: "crc32_bits 8 c = crc32_bits (Suc (Suc (Suc (Suc (Suc (Suc (Suc (Suc 0)))))))) c" for c
    by (simp add: eval_nat_numeral)
  have "smsc911x_hash [1, 0, 0x5e, 0, 0, 1] = 31"
    by (simp add: smsc911x_hash_def ether_crc_def c crc32_step_def) code_simp
  then have hash: "unat (smsc911x_hash [1, 0, 0x5e, 0, 0, 1]) = 31" by simp
  have m: "mac_holds csr_hw (\<lambda>d. d) (\<lambda>_. 0) ?s"
    using csr_mac_holds by (simp add: mac_holds_def ready_def)
  have "\<not> mac_lock ?s" "generation ?s > 1" "\<not> promisc ?s" "\<not> allmulti ?s" "mc_list ?s \<noteq> []"
    by (simp_all add: csr_drv_def example_drv_def)
  from multicast_filter [OF m this] obtain s' R' where "smsc911x_set_multicast_list csr_hw ?s = Some s'"
      "mac_holds csr_hw (\<lambda>d. d) R' s'" "bit (R' HASHL) 31 = (\<exists>a \<in> set (mc_list ?s). unat (smsc911x_hash a) = 31)"
      "R' MAC_CR = (0 OR MAC_CR_HPFILT) AND NOT (MAC_CR_PRMS OR MAC_CR_MCPAS)"
    by auto
  then show ?thesis using hash by (intro exI [of _ s'] exI [of _ R']) (auto simp: csr_drv_def example_drv_def)
qed



end
