(* ===== verification/Smsc_Phy.thy ===== *)
theory Smsc_Phy
  imports Smsc_Mac
begin

text \<open>
  The PHY and the reset of the chip in \<open>code/nic-driver/smsc/smsc911x.c\<close>: choosing the external PHY,
  the loopback test (\<open>smsc911x_phy_check_loopbackpkt\<close>, \<open>smsc911x_phy_reset\<close>,
  \<open>smsc911x_phy_loopbacktest\<close>), flow control and link changes, energy detection, and
  \<open>smsc911x_soft_reset\<close>.

  The loopback test writes received words into the private data of the driver. The arrays are
  word aligned (they follow an \<open>unsigned int\<close>), so the words that do not fit into
  \<open>loopback_rx_pkt\<close> go to the members that follow it.
\<close>

section \<open>External PHY\<close>

definition smsc911x_phy_enable_external :: "'d hw \<Rightarrow> 'd smsc911x_data \<Rightarrow> 'd smsc911x_data option" where
  "smsc911x_phy_enable_external h s = do {
     (hwcfg, s) \<leftarrow> smsc911x_reg_read h HW_CFG s;
     let hwcfg = hwcfg AND NOT HW_CFG_PHY_CLK_SEL;
     let hwcfg = hwcfg OR HW_CFG_PHY_CLK_SEL_CLK_DIS;
     s \<leftarrow> smsc911x_reg_write h HW_CFG hwcfg s;
     let hwcfg = hwcfg OR HW_CFG_EXT_PHY_EN;
     s \<leftarrow> smsc911x_reg_write h HW_CFG hwcfg s;
     let hwcfg = hwcfg AND NOT HW_CFG_PHY_CLK_SEL;
     let hwcfg = hwcfg OR HW_CFG_PHY_CLK_SEL_EXT_PHY;
     s \<leftarrow> smsc911x_reg_write h HW_CFG hwcfg s;
     let hwcfg = hwcfg OR HW_CFG_SMI_SEL;
     smsc911x_reg_write h HW_CFG hwcfg s
   }"

definition smsc911x_phy_initialise_external :: "'d hw \<Rightarrow> 'd smsc911x_data \<Rightarrow> 'd smsc911x_data option" where
  "smsc911x_phy_initialise_external h s = do {
     (hwcfg, s) \<leftarrow> smsc911x_reg_read h HW_CFG s;
     if flag_set SMSC911X_FORCE_INTERNAL_PHY s then Some (s\<lparr>using_extphy := 0\<rparr>)
     else if flag_set SMSC911X_FORCE_EXTERNAL_PHY s then do {
       s \<leftarrow> smsc911x_phy_enable_external h s;
       Some (s\<lparr>using_extphy := 1\<rparr>)
     }
     else if hwcfg AND HW_CFG_EXT_PHY_DET \<noteq> 0 then do {
       s \<leftarrow> smsc911x_phy_enable_external h s;
       Some (s\<lparr>using_extphy := 1\<rparr>)
     }
     else Some (s\<lparr>using_extphy := 0\<rparr>)
   }"

section \<open>Status FIFOs\<close>

definition smsc911x_tx_get_txstatus :: "'d hw \<Rightarrow> 'd smsc911x_data \<Rightarrow> (u32 \<times> 'd smsc911x_data) option" where
  "smsc911x_tx_get_txstatus h s = do {
     (v, s) \<leftarrow> smsc911x_reg_read h TX_FIFO_INF s;
     let result = v AND TX_FIFO_INF_TSUSED;
     if result \<noteq> 0 then smsc911x_reg_read h TX_STATUS_FIFO s else Some (result, s)
   }"

definition smsc911x_rx_get_rxstatus :: "'d hw \<Rightarrow> 'd smsc911x_data \<Rightarrow> (u32 \<times> 'd smsc911x_data) option" where
  "smsc911x_rx_get_rxstatus h s = do {
     (v, s) \<leftarrow> smsc911x_reg_read h RX_FIFO_INF s;
     let result = v AND RX_FIFO_INF_RXSUSED;
     if result \<noteq> 0 then smsc911x_reg_read h RX_STATUS_FIFO s else Some (result, s)
   }"

section \<open>Loopback test\<close>

text \<open>\<open>do status = f(); while ((i--) && (!status))\<close>\<close>

fun wait_status :: "('d smsc911x_data \<Rightarrow> (u32 \<times> 'd smsc911x_data) option) \<Rightarrow> nat \<Rightarrow> 'd smsc911x_data \<Rightarrow> (u32 \<times> 'd smsc911x_data) option" where
  "wait_status f 0 s = f s"
| "wait_status f (Suc i) s = do {
     (status, s) \<leftarrow> f s;
     if status = 0 then wait_status f i s else Some (status, s)
   }"

text \<open>
  Words stored from \<open>loopback_rx_pkt\<close> on. Behind its 16 words lie \<open>resetcount\<close>, the members of the
  multicast filter, and the pointer \<open>ops\<close>: overwriting that is not part of the model.
\<close>

definition store_loopback_rx :: "u32 list \<Rightarrow> 'd smsc911x_data \<Rightarrow> 'd smsc911x_data option" where
  "store_loopback_rx ws s =
     (let bs = concat (map bytes_of_le32 (take 16 ws));
          w = (\<lambda>i old. if i < length ws then ws ! i else old) in
      if 22 < length ws then None
      else Some (s\<lparr>loopback_rx_pkt := bs @ drop (length bs) (loopback_rx_pkt s),
        resetcount := w 16 (resetcount s),
        multicast_update_pending := w 17 (multicast_update_pending s),
        set_bits_mask := w 18 (set_bits_mask s),
        clear_bits_mask := w 19 (clear_bits_mask s),
        hashhi := w 20 (hashhi s),
        hashlo := w 21 (hashlo s)\<rparr>))"

abbreviation (input) MIN_PACKET_SIZE :: nat where "MIN_PACKET_SIZE \<equiv> 64"

definition rx_length :: "u32 \<Rightarrow> u32" where
  "rx_length status = drop_bit 16 (status AND 0x3fff0000)"

lemma rx_length_0 [simp]: "rx_length 0 = 0"
  by (simp add: rx_length_def)

text \<open>One round of the test; the result says whether the packet came back unchanged.\<close>

definition loopback_try :: "'d hw \<Rightarrow> 'd smsc911x_data \<Rightarrow> (bool \<times> 'd smsc911x_data) option" where
  "loopback_try h s = do {
     let s = s\<lparr>loopback_rx_pkt := replicate MIN_PACKET_SIZE 0\<rparr>;
     let txcmd_a = TX_CMD_A_FIRST_SEG OR TX_CMD_A_LAST_SEG;
     let txcmd_a = txcmd_a OR 64;
     let txcmd_b = push_bit 16 64 OR 64;
     s \<leftarrow> smsc911x_reg_write h TX_DATA_FIFO txcmd_a s;
     s \<leftarrow> smsc911x_reg_write h TX_DATA_FIFO txcmd_b s;
     let wrsz = (MIN_PACKET_SIZE + 3) div 4;
     s \<leftarrow> ops_tx_writefifo h (take wrsz (words_of_bytes (loopback_tx_pkt s))) s;
     (status, s) \<leftarrow> wait_status (smsc911x_tx_get_txstatus h) 60 s;
     if status = 0 then Some (False, s)
     else if status AND TX_STS_ES \<noteq> 0 then Some (False, s)
     else do {
       (status, s) \<leftarrow> wait_status (smsc911x_rx_get_rxstatus h) 60 s;
       if status = 0 then Some (False, s)
       else if status AND RX_STS_ES \<noteq> 0 then Some (False, s)
       else do {
         let pktlength = rx_length status;
         let rdsz = drop_bit 2 (pktlength + 3);
         (ws, s) \<leftarrow> ops_rx_readfifo h rdsz s;
         s \<leftarrow> store_loopback_rx ws s;
         Some (pktlength = 68 \<and> loopback_tx_pkt s = loopback_rx_pkt s, s)
       }
     }
   }"

fun loopback_tries :: "'d hw \<Rightarrow> nat \<Rightarrow> 'd smsc911x_data \<Rightarrow> (int \<times> 'd smsc911x_data) option" where
  "loopback_tries h 0 s = Some (- EIO, s)"
| "loopback_tries h (Suc n) s = do {
     (good, s) \<leftarrow> loopback_try h s;
     if good then Some (0, s) else loopback_tries h n s
   }"

definition smsc911x_phy_check_loopbackpkt :: "'d hw \<Rightarrow> 'd smsc911x_data \<Rightarrow> (int \<times> 'd smsc911x_data) option" where
  "smsc911x_phy_check_loopbackpkt h s = loopback_tries h 10 s"

text \<open>\<open>do temp = mii_read(); while ((i--) && (temp & BMCR_RESET))\<close>\<close>

fun phy_reset_loop :: "'d hw \<Rightarrow> u32 \<Rightarrow> nat \<Rightarrow> 'd smsc911x_data \<Rightarrow> (u32 \<times> 'd smsc911x_data) option" where
  "phy_reset_loop h addr 0 s = do {
     (v, s) \<leftarrow> smsc911x_mii_read h addr MII_BMCR s;
     Some (word_of_int v, s)
   }"
| "phy_reset_loop h addr (Suc i) s = do {
     (v, s) \<leftarrow> smsc911x_mii_read h addr MII_BMCR s;
     let temp = word_of_int v;
     if temp AND BMCR_RESET \<noteq> 0 then phy_reset_loop h addr i s else Some (temp, s)
   }"

definition smsc911x_phy_reset :: "'d hw \<Rightarrow> 'd smsc911x_data \<Rightarrow> (int \<times> 'd smsc911x_data) option" where
  "smsc911x_phy_reset h s = do {
     phy \<leftarrow> phy_dev s;
     (_, s) \<leftarrow> smsc911x_mii_write h (phy_addr phy) MII_BMCR (ucast BMCR_RESET) s;
     (temp, s) \<leftarrow> phy_reset_loop h (phy_addr phy) 100000 s;
     if temp AND BMCR_RESET \<noteq> 0 then Some (- EIO, s) else Some (0, s)
   }"

definition loopback_packet :: "u8 list" where
  "loopback_packet = replicate 6 0xff @ map of_nat [6..<12] @ [0, 0] @ map of_nat [14..<MIN_PACKET_SIZE]"

text \<open>\<open>spin_lock_irqsave(&pdata->mac_lock, flags); smsc911x_mac_write(pdata, r, v); spin_unlock_irqrestore(...)\<close>\<close>

definition locked_mac_write :: "'d hw \<Rightarrow> u32 \<Rightarrow> u32 \<Rightarrow> 'd smsc911x_data \<Rightarrow> 'd smsc911x_data option" where
  "locked_mac_write h r v s = do {
     s \<leftarrow> spin_lock_mac s;
     s \<leftarrow> smsc911x_mac_write h r v s;
     Some (spin_unlock_mac s)
   }"

fun loopback_rounds :: "'d hw \<Rightarrow> phy_device \<Rightarrow> nat \<Rightarrow> 'd smsc911x_data \<Rightarrow> (int \<times> 'd smsc911x_data) option" where
  "loopback_rounds h phy 0 s = Some (- EIO, s)"
| "loopback_rounds h phy (Suc i) s = do {
     (_, s) \<leftarrow> smsc911x_mii_write h (phy_addr phy) MII_BMCR (ucast (BMCR_LOOPBACK OR BMCR_FULLDPLX)) s;
     s \<leftarrow> locked_mac_write h MAC_CR (MAC_CR_FDPX OR MAC_CR_TXEN OR MAC_CR_RXEN) s;
     (ret, s) \<leftarrow> smsc911x_phy_check_loopbackpkt h s;
     if ret = 0 then Some (0, s)
     else do {
       let s = s\<lparr>resetcount := resetcount s + 1\<rparr>;
       s \<leftarrow> locked_mac_write h MAC_CR 0 s;
       (_, s) \<leftarrow> smsc911x_phy_reset h s;
       loopback_rounds h phy i s
     }
   }"

definition smsc911x_phy_loopbacktest :: "'d hw \<Rightarrow> 'd smsc911x_data \<Rightarrow> (int \<times> 'd smsc911x_data) option" where
  "smsc911x_phy_loopbacktest h s = do {
     let s = s\<lparr>loopback_tx_pkt := loopback_packet\<rparr>;
     (val, s) \<leftarrow> smsc911x_reg_read h HW_CFG s;
     let val = val AND HW_CFG_TX_FIF_SZ;
     let val = val OR HW_CFG_SF;
     s \<leftarrow> smsc911x_reg_write h HW_CFG val s;
     s \<leftarrow> smsc911x_reg_write h TX_CFG TX_CFG_TX_ON s;
     s \<leftarrow> smsc911x_reg_write h RX_CFG 0 s;
     phy \<leftarrow> phy_dev s;
     (result, s) \<leftarrow> loopback_rounds h phy 10 s;
     s \<leftarrow> locked_mac_write h MAC_CR 0 s;
     (_, s) \<leftarrow> smsc911x_mii_write h (phy_addr phy) MII_BMCR 0 s;
     s \<leftarrow> smsc911x_reg_write h TX_CFG 0 s;
     s \<leftarrow> smsc911x_reg_write h RX_CFG 0 s;
     Some (result, s)
   }"

section \<open>Flow control and link\<close>

definition mii_resolve_flowctrl_fdx :: "u16 \<Rightarrow> u16 \<Rightarrow> u8" where
  "mii_resolve_flowctrl_fdx lcladv rmtadv =
     (if lcladv AND rmtadv AND ucast ADVERTISE_PAUSE_CAP \<noteq> 0 then ucast (FLOW_CTRL_TX OR FLOW_CTRL_RX)
      else if lcladv AND rmtadv AND ucast ADVERTISE_PAUSE_ASYM \<noteq> 0 then
        (if lcladv AND ucast ADVERTISE_PAUSE_CAP \<noteq> 0 then ucast FLOW_CTRL_RX
         else if rmtadv AND ucast ADVERTISE_PAUSE_CAP \<noteq> 0 then ucast FLOW_CTRL_TX
         else 0)
      else 0)"

definition smsc911x_phy_update_flowcontrol :: "'d hw \<Rightarrow> 'd smsc911x_data \<Rightarrow> 'd smsc911x_data option" where
  "smsc911x_phy_update_flowcontrol h s = do {
     phy \<leftarrow> phy_dev s;
     (afc, s) \<leftarrow> smsc911x_reg_read h AFC_CFG s;
     (flow, afc, s) \<leftarrow>
       (if duplex phy = 1 then do {
          (l, s) \<leftarrow> smsc911x_mii_read h (phy_addr phy) MII_ADVERTISE s;
          (r, s) \<leftarrow> smsc911x_mii_read h (phy_addr phy) MII_LPA s;
          let cap = mii_resolve_flowctrl_fdx (word_of_int l) (word_of_int r);
          let flow = (if cap AND ucast FLOW_CTRL_RX \<noteq> 0 then 0xffff0002 else 0);
          let afc = (if cap AND ucast FLOW_CTRL_TX \<noteq> 0 then afc OR 0xf else afc AND NOT 0xf);
          Some (flow, afc, s)
        }
        else Some (0, afc OR 0xf, s));
     s \<leftarrow> locked_mac_write h FLOW flow s;
     smsc911x_reg_write h AFC_CFG afc s
   }"

definition adjust_duplex :: "'d hw \<Rightarrow> 'd smsc911x_data \<Rightarrow> 'd smsc911x_data option" where
  "adjust_duplex h s = do {
     phy \<leftarrow> phy_dev s;
     if duplex phy \<noteq> last_duplex s then do {
       s \<leftarrow> spin_lock_mac s;
       (mac_cr, s) \<leftarrow> smsc911x_mac_read h MAC_CR s;
       let mac_cr = (if duplex phy \<noteq> 0 then mac_cr OR MAC_CR_FDPX else mac_cr AND NOT MAC_CR_FDPX);
       s \<leftarrow> smsc911x_mac_write h MAC_CR mac_cr s;
       let s = spin_unlock_mac s;
       s \<leftarrow> smsc911x_phy_update_flowcontrol h s;
       Some (s\<lparr>last_duplex := duplex phy\<rparr>)
     }
     else Some s
   }"

definition adjust_carrier :: "'d hw \<Rightarrow> 'd smsc911x_data \<Rightarrow> 'd smsc911x_data option" where
  "adjust_carrier h s = do {
     let c = (if carrier s then 1 else 0);
     if c \<noteq> last_carrier s then do {
       s \<leftarrow>
         (if carrier s then
            (if gpio_orig_setting s AND GPIO_CFG_LED1_EN \<noteq> 0 \<and> using_extphy s = 0 then do {
               let s = s\<lparr>gpio_setting := gpio_orig_setting s\<rparr>;
               smsc911x_reg_write h GPIO_CFG (gpio_setting s) s
             }
             else Some s)
          else do {
            (v, s) \<leftarrow> smsc911x_reg_read h GPIO_CFG s;
            let s = s\<lparr>gpio_setting := v\<rparr>;
            if gpio_setting s AND GPIO_CFG_LED1_EN \<noteq> 0 \<and> using_extphy s = 0 then do {
              let s = s\<lparr>gpio_orig_setting := gpio_setting s\<rparr>;
              let s = s\<lparr>gpio_setting := gpio_setting s AND NOT GPIO_CFG_LED1_EN\<rparr>;
              let s = s\<lparr>gpio_setting := gpio_setting s OR (GPIO_CFG_GPIOBUF0 OR GPIO_CFG_GPIODIR0 OR GPIO_CFG_GPIOD0)\<rparr>;
              smsc911x_reg_write h GPIO_CFG (gpio_setting s) s
            }
            else Some s
          });
       Some (s\<lparr>last_carrier := c\<rparr>)
     }
     else Some s
   }"

definition smsc911x_phy_adjust_link :: "'d hw \<Rightarrow> 'd smsc911x_data \<Rightarrow> 'd smsc911x_data option" where
  "smsc911x_phy_adjust_link h s = do {
     s \<leftarrow> adjust_duplex h s;
     adjust_carrier h s
   }"

section \<open>Energy detection and reset\<close>

definition smsc911x_phy_disable_energy_detect :: "'d hw \<Rightarrow> 'd smsc911x_data \<Rightarrow> (int \<times> 'd smsc911x_data) option" where
  "smsc911x_phy_disable_energy_detect h s =
     (case phy_dev s of
        None \<Rightarrow> Some (0, s)
      | Some phy \<Rightarrow> do {
          (rc, s) \<leftarrow> smsc911x_mii_read h (phy_addr phy) MII_LAN83C185_CTRL_STATUS s;
          if rc < 0 then Some (rc, s)
          else (let w = word_of_int rc :: u32 in
            if w AND MII_LAN83C185_EDPWRDOWN \<noteq> 0 \<and> w AND MII_LAN83C185_ENERGYON = 0 then do {
              (rc, s) \<leftarrow> smsc911x_mii_write h (phy_addr phy) MII_LAN83C185_CTRL_STATUS (ucast (w AND NOT MII_LAN83C185_EDPWRDOWN)) s;
              if rc < 0 then Some (rc, s) else Some (0, s)
            }
            else Some (0, s))
        })"

definition smsc911x_phy_enable_energy_detect :: "'d hw \<Rightarrow> 'd smsc911x_data \<Rightarrow> (int \<times> 'd smsc911x_data) option" where
  "smsc911x_phy_enable_energy_detect h s =
     (case phy_dev s of
        None \<Rightarrow> Some (0, s)
      | Some phy \<Rightarrow> do {
          (rc, s) \<leftarrow> smsc911x_mii_read h (phy_addr phy) MII_LAN83C185_CTRL_STATUS s;
          if rc < 0 then Some (rc, s)
          else (let w = word_of_int rc :: u32 in
            if w AND MII_LAN83C185_EDPWRDOWN = 0 then do {
              (rc, s) \<leftarrow> smsc911x_mii_write h (phy_addr phy) MII_LAN83C185_CTRL_STATUS (ucast (w OR MII_LAN83C185_EDPWRDOWN)) s;
              if rc < 0 then Some (rc, s) else Some (0, s)
            }
            else Some (0, s))
        })"

text \<open>\<open>do temp = reg_read(r); while ((--timeout) && busy temp)\<close>, with \<open>timeout\<close> one more than the argument.\<close>

fun poll_reg :: "'d hw \<Rightarrow> u32 \<Rightarrow> (u32 \<Rightarrow> bool) \<Rightarrow> nat \<Rightarrow> 'd smsc911x_data \<Rightarrow> (u32 \<times> 'd smsc911x_data) option" where
  "poll_reg h r b 0 s = smsc911x_reg_read h r s"
| "poll_reg h r b (Suc n) s = do {
     (temp, s) \<leftarrow> smsc911x_reg_read h r s;
     if b temp then poll_reg h r b n s else Some (temp, s)
   }"

definition smsc911x_soft_reset :: "'d hw \<Rightarrow> 'd smsc911x_data \<Rightarrow> (int \<times> 'd smsc911x_data) option" where
  "smsc911x_soft_reset h s = do {
     (ret, s) \<leftarrow> (if generation s = 4 then smsc911x_phy_disable_energy_detect h s else Some (0, s));
     if ret \<noteq> 0 then Some (ret, s)
     else do {
       s \<leftarrow> smsc911x_reg_write h HW_CFG HW_CFG_SRST s;
       (temp, s) \<leftarrow> poll_reg h HW_CFG (\<lambda>t. t AND HW_CFG_SRST \<noteq> 0) 9 s;
       if temp AND HW_CFG_SRST \<noteq> 0 then Some (- EIO, s)
       else do {
         (ret, s) \<leftarrow> (if generation s = 4 then smsc911x_phy_enable_energy_detect h s else Some (0, s));
         if ret \<noteq> 0 then Some (ret, s) else Some (0, s)
       }
     }
   }"

section \<open>What the functions keep\<close>

text \<open>The members that no function of this theory changes.\<close>

definition kept :: "'d smsc911x_data \<Rightarrow> 'd smsc911x_data \<Rightarrow> bool" where
  "kept s t \<longleftrightarrow> ioaddr t = ioaddr s \<and> config t = config s \<and> ops t = ops s \<and> dev_lock t = dev_lock s \<and>
     mac_lock t = mac_lock s \<and> phy_dev t = phy_dev s \<and> generation t = generation s \<and> idrev t = idrev s \<and>
     dev_addr t = dev_addr s \<and> running t = running s \<and> carrier t = carrier s \<and> napi_sched t = napi_sched s \<and>
     queue_stopped t = queue_stopped s \<and> stats t = stats s \<and> mc_list t = mc_list s \<and> promisc t = promisc s \<and>
     allmulti t = allmulti s \<and> software_irq_signal t = software_irq_signal s"

lemma kept_refl [simp]: "kept s s"
  by (simp add: kept_def)

lemma kept_trans: "kept s t \<Longrightarrow> kept t u \<Longrightarrow> kept s u"
  by (simp add: kept_def)

lemma kept_updates [simp]:
  "kept s (t\<lparr>chip := d\<rparr>) = kept s t" "kept s (t\<lparr>using_extphy := x\<rparr>) = kept s t"
  "kept s (t\<lparr>last_duplex := y\<rparr>) = kept s t" "kept s (t\<lparr>last_carrier := y\<rparr>) = kept s t"
  "kept s (t\<lparr>gpio_setting := x\<rparr>) = kept s t" "kept s (t\<lparr>gpio_orig_setting := x\<rparr>) = kept s t"
  "kept s (t\<lparr>loopback_tx_pkt := b\<rparr>) = kept s t" "kept s (t\<lparr>loopback_rx_pkt := b\<rparr>) = kept s t"
  "kept s (t\<lparr>resetcount := x\<rparr>) = kept s t" "kept s (t\<lparr>multicast_update_pending := x\<rparr>) = kept s t"
  "kept s (t\<lparr>set_bits_mask := x\<rparr>) = kept s t" "kept s (t\<lparr>clear_bits_mask := x\<rparr>) = kept s t"
  "kept s (t\<lparr>hashhi := x\<rparr>) = kept s t" "kept s (t\<lparr>hashlo := x\<rparr>) = kept s t"
  by (simp_all add: kept_def)

lemma kept_from_updates [simp]:
  "kept (s\<lparr>chip := d\<rparr>) t = kept s t" "kept (s\<lparr>loopback_rx_pkt := b\<rparr>) t = kept s t"
  "kept (s\<lparr>loopback_tx_pkt := b\<rparr>) t = kept s t" "kept (s\<lparr>resetcount := x\<rparr>) t = kept s t"
  by (simp_all add: kept_def)

lemma keptI: "kept s t \<Longrightarrow> ready s \<Longrightarrow> ready t" "kept s t \<Longrightarrow> phy_dev s = Some phy \<Longrightarrow> phy_dev t = Some phy"
  by (simp_all add: kept_def ready_def)

lemma keptD: "kept s t \<Longrightarrow> mac_lock t \<Longrightarrow> mac_lock s"
  by (simp add: kept_def)

lemma holds_phy_dev [simp]: "holds (phy_dev s) P = (\<exists>phy. phy_dev s = Some phy \<and> P phy)"
  by (auto simp: holds_def split: option.splits)

lemma holds_txstatus [drv_rules]:
  "ready s \<Longrightarrow> (\<And>v d. P (v, s\<lparr>chip := d\<rparr>)) \<Longrightarrow> holds (smsc911x_tx_get_txstatus h s) P"
  by (auto simp: smsc911x_tx_get_txstatus_def Let_def intro!: drv_rules)

lemma holds_rxstatus [drv_rules]:
  "ready s \<Longrightarrow> (\<And>v d. P (v, s\<lparr>chip := d\<rparr>)) \<Longrightarrow> holds (smsc911x_rx_get_rxstatus h s) P"
  by (auto simp: smsc911x_rx_get_rxstatus_def Let_def intro!: drv_rules)

lemma holds_phy_enable_external [drv_rules]:
  "ready s \<Longrightarrow> (\<And>d. P (s\<lparr>chip := d\<rparr>)) \<Longrightarrow> holds (smsc911x_phy_enable_external h s) P"
  by (auto simp: smsc911x_phy_enable_external_def Let_def intro!: drv_rules)

lemma holds_phy_initialise_external [drv_rules]:
  "ready s \<Longrightarrow> (\<And>d x. P (s\<lparr>chip := d, using_extphy := x\<rparr>)) \<Longrightarrow> holds (smsc911x_phy_initialise_external h s) P"
  by (auto simp: smsc911x_phy_initialise_external_def Let_def intro!: drv_rules)

lemma holds_poll_reg [drv_rules]:
  "ready s \<Longrightarrow> (\<And>v d. P (v, s\<lparr>chip := d\<rparr>)) \<Longrightarrow> holds (poll_reg h r b n s) P"
  by (induction n arbitrary: s) (auto intro!: drv_rules)

lemma holds_locked_mac_write [drv_rules]:
  "ready s \<Longrightarrow> \<not> mac_lock s \<Longrightarrow> (\<And>d. P (s\<lparr>chip := d\<rparr>)) \<Longrightarrow> holds (locked_mac_write h r v s) P"
  by (auto simp: locked_mac_write_def spin_unlock_mac_def mac_unlock_id intro!: drv_rules)

lemma holds_phy_reset_loop:
  "ready s \<Longrightarrow> \<not> mac_lock s \<Longrightarrow> (\<And>v d. P (v, s\<lparr>chip := d\<rparr>)) \<Longrightarrow> holds (phy_reset_loop h a n s) P"
  by (induction n arbitrary: s) (auto simp: Let_def intro!: drv_rules)

lemma holds_phy_reset [drv_rules]:
  "ready s \<Longrightarrow> \<not> mac_lock s \<Longrightarrow> phy_dev s = Some phy \<Longrightarrow> (\<And>r d. P (r, s\<lparr>chip := d\<rparr>)) \<Longrightarrow> holds (smsc911x_phy_reset h s) P"
  by (auto simp: smsc911x_phy_reset_def intro!: drv_rules holds_phy_reset_loop)

lemma holds_update_flowcontrol [drv_rules]:
  "ready s \<Longrightarrow> \<not> mac_lock s \<Longrightarrow> phy_dev s = Some phy \<Longrightarrow> (\<And>d. P (s\<lparr>chip := d\<rparr>)) \<Longrightarrow>
   holds (smsc911x_phy_update_flowcontrol h s) P"
  by (auto simp: smsc911x_phy_update_flowcontrol_def Let_def intro!: drv_rules)

lemma holds_adjust_duplex:
  assumes "ready s" and "\<not> mac_lock s" and "phy_dev s = Some phy"
    and P: "\<And>d. P (s\<lparr>chip := d, last_duplex := duplex phy\<rparr>)"
  shows "holds (adjust_duplex h s) P"
proof (cases "duplex phy = last_duplex s")
  case True
  then have "s\<lparr>chip := chip s, last_duplex := duplex phy\<rparr> = s" by simp
  with P [of "chip s"] True assms(3) show ?thesis by (simp add: adjust_duplex_def)
next
  case False
  with assms show ?thesis
    by (auto simp: adjust_duplex_def Let_def spin_unlock_mac_def mac_unlock_id intro!: drv_rules)
qed

abbreviation carrier_int :: "'d smsc911x_data \<Rightarrow> int" where
  "carrier_int s \<equiv> (if carrier s then 1 else 0)"

lemma holds_adjust_carrier:
  assumes "ready s" and P: "\<And>d g x. P (s\<lparr>chip := d, gpio_orig_setting := x, gpio_setting := g, last_carrier := carrier_int s\<rparr>)"
  shows "holds (adjust_carrier h s) P"
proof (cases "carrier_int s = last_carrier s")
  case True
  then have "s\<lparr>chip := chip s, gpio_setting := gpio_setting s, gpio_orig_setting := gpio_orig_setting s,
      last_carrier := carrier_int s\<rparr> = s" by simp
  with P [where d = "chip s" and g = "gpio_setting s" and x = "gpio_orig_setting s"] True show ?thesis
    by (simp add: adjust_carrier_def Let_def split: if_splits)
next
  case False
  note P' = P [where d = "chip s" and g = "gpio_setting s" and x = "gpio_orig_setting s"]
    P [where g = "gpio_setting s" and x = "gpio_orig_setting s"] P [where x = "gpio_orig_setting s"] P
  show ?thesis
    using False assms(1) P'
    by (auto simp: adjust_carrier_def Let_def intro!: drv_rules split: if_splits)
qed

text \<open>
  Link changes are handled once: after \<open>smsc911x_phy_adjust_link\<close>, a second call with the
  same duplex mode and carrier returns at once, without any access to the chip.
\<close>

theorem adjust_link_idempotent:
  assumes "ready s" and "\<not> mac_lock s" and "phy_dev s = Some phy"
  shows "\<exists>t. smsc911x_phy_adjust_link h s = Some t \<and> last_duplex t = duplex phy \<and> last_carrier t = carrier_int s \<and>
    smsc911x_phy_adjust_link h t = Some t"
proof -
  have "holds (smsc911x_phy_adjust_link h s) (\<lambda>t. last_duplex t = duplex phy \<and> last_carrier t = carrier_int s \<and>
      phy_dev t = Some phy \<and> carrier t = carrier s)"
    using assms by (auto simp: smsc911x_phy_adjust_link_def ready_def intro!: holds_adjust_duplex holds_adjust_carrier)
  then obtain t where t: "smsc911x_phy_adjust_link h s = Some t" "last_duplex t = duplex phy"
      "last_carrier t = carrier_int s" "phy_dev t = Some phy" "carrier t = carrier s"
    by (auto dest: holdsD)
  have "smsc911x_phy_adjust_link h t = Some t"
    using t(2-) by (auto simp: smsc911x_phy_adjust_link_def adjust_duplex_def adjust_carrier_def Let_def)
  with t show ?thesis by auto
qed

section \<open>Reset\<close>

lemma poll_reg_result:
  "ready s \<Longrightarrow> \<exists>v d. poll_reg h r b n s = Some (v, s\<lparr>chip := d\<rparr>) \<and>
     b v = (\<forall>x \<in> set (fst (cells_read (chip_read h (port s) r) (Suc n) (chip s))). b x)"
proof (induction n arbitrary: s)
  case 0
  then show ?case by (auto simp: reg_read_eq case_prod_unfold Let_def)
next
  case (Suc n)
  let ?v = "fst (chip_read h (port s) r (chip s))" and ?t = "s\<lparr>chip := snd (chip_read h (port s) r (chip s))\<rparr>"
  have "\<exists>v d. poll_reg h r b n ?t = Some (v, ?t\<lparr>chip := d\<rparr>) \<and>
      b v = (\<forall>x \<in> set (fst (cells_read (chip_read h (port ?t) r) (Suc n) (chip ?t))). b x)"
    using Suc.prems by (intro Suc.IH) simp
  then show ?case
    using Suc.prems by (cases "b ?v") (auto simp: reg_read_eq case_prod_unfold Let_def)
qed

lemma holds_energy_detect [drv_rules]:
  assumes "ready s" and "\<not> mac_lock s" and P: "\<And>r d. P (r, s\<lparr>chip := d\<rparr>)"
  shows "holds (smsc911x_phy_disable_energy_detect h s) P" and "holds (smsc911x_phy_enable_energy_detect h s) P"
proof -
  have "P (r, s)" for r using P [of r "chip s"] by simp
  with assms show "holds (smsc911x_phy_disable_energy_detect h s) P" "holds (smsc911x_phy_enable_energy_detect h s) P"
    by (auto simp: smsc911x_phy_disable_energy_detect_def smsc911x_phy_enable_energy_detect_def Let_def
        intro!: drv_rules split: option.split)
qed

lemma holds_soft_reset [drv_rules]:
  assumes "ready s" and "\<not> mac_lock s" and P: "\<And>r d. P (r, s\<lparr>chip := d\<rparr>)"
  shows "holds (smsc911x_soft_reset h s) P"
  using assms by (auto simp: smsc911x_soft_reset_def intro!: drv_rules)

text \<open>
  A reset of the chip fails with \<open>-EIO\<close> exactly when the reset bit is still set in ten reads
  in a row; otherwise it succeeds. This is the case for all chips without energy detection, and
  also, when no PHY is attached yet, for those with it: the PHY is not woken up then.
\<close>

theorem soft_reset_result:
  assumes "ready s" and "generation s = 4 \<Longrightarrow> phy_dev s = None"
  shows "\<exists>d. smsc911x_soft_reset h s = Some (
    if \<forall>v \<in> set (fst (cells_read (chip_read h (port s) HW_CFG) 10 (chip_write h (port s) HW_CFG HW_CFG_SRST (chip s)))).
      v AND HW_CFG_SRST \<noteq> 0 then - EIO else 0, s\<lparr>chip := d\<rparr>)"
proof -
  let ?t = "s\<lparr>chip := chip_write h (port s) HW_CFG HW_CFG_SRST (chip s)\<rparr>"
  have "\<exists>v d. poll_reg h HW_CFG (\<lambda>t. t AND HW_CFG_SRST \<noteq> 0) 9 ?t = Some (v, ?t\<lparr>chip := d\<rparr>) \<and>
      (v AND HW_CFG_SRST \<noteq> 0) = (\<forall>x \<in> set (fst (cells_read (chip_read h (port ?t) HW_CFG) (Suc 9) (chip ?t))). x AND HW_CFG_SRST \<noteq> 0)"
    by (rule poll_reg_result) (simp add: assms(1))
  then obtain v d where "poll_reg h HW_CFG (\<lambda>t. t AND HW_CFG_SRST \<noteq> 0) 9 ?t = Some (v, s\<lparr>chip := d\<rparr>)"
      "(v AND HW_CFG_SRST \<noteq> 0) = (\<forall>x \<in> set (fst (cells_read (chip_read h (port s) HW_CFG) 10 (chip ?t))). x AND HW_CFG_SRST \<noteq> 0)"
    by auto
  with assms show ?thesis
    by (cases "generation s = 4")
      (auto simp: smsc911x_soft_reset_def reg_write_eq smsc911x_phy_disable_energy_detect_def
        smsc911x_phy_enable_energy_detect_def)
qed

lemma csr_drv_state: "ready csr_drv" "\<not> mac_lock csr_drv" "phy_dev csr_drv = Some example_phy"
  "generation csr_drv = 4" "\<not> carrier csr_drv"
  by (simp_all add: csr_drv_def example_ready) (simp_all add: example_drv_def)

lemma adjust_link_idempotent_witness:
  "\<exists>t. smsc911x_phy_adjust_link csr_hw csr_drv = Some t \<and> last_duplex t = 1 \<and> last_carrier t = 0 \<and>
     smsc911x_phy_adjust_link csr_hw t = Some t"
  using adjust_link_idempotent [OF csr_drv_state(1-3), of csr_hw] csr_drv_state(5) by auto

lemma soft_reset_result_witness:
  "\<exists>d. smsc911x_soft_reset csr_hw (csr_drv\<lparr>phy_dev := None\<rparr>) = Some (0, csr_drv\<lparr>phy_dev := None, chip := d\<rparr>)"
proof -
  let ?s = "csr_drv\<lparr>phy_dev := None\<rparr>"
  have r: "fst (chip_read csr_hw (port ?s) HW_CFG d) = 0" for d
    by (simp add: csr_drv_def example_drv_def example_config_def chip_read_def cell_read_def reg_addr_def csr_hw_def)
  have "0 \<in> set (fst (cells_read (chip_read csr_hw (port ?s) HW_CFG) 10 d))" for d
    using r [of d] by (simp add: numeral_eq_Suc case_prod_unfold Let_def)
  then have "\<not> (\<forall>v \<in> set (fst (cells_read (chip_read csr_hw (port ?s) HW_CFG) 10 d)). v AND HW_CFG_SRST \<noteq> 0)" for d
    by force
  with soft_reset_result [of ?s csr_hw] csr_drv_state(1) show ?thesis by (simp only: if_False) simp
qed

section \<open>The loopback test\<close>

lemma wait_status_final:
  assumes "\<And>d. holds (f (s\<lparr>chip := d\<rparr>)) (\<lambda>(v, t). Q v \<and> (\<exists>d'. t = s\<lparr>chip := d'\<rparr>))"
  shows "holds (wait_status f n (s\<lparr>chip := d\<rparr>)) (\<lambda>(v, t). Q v \<and> (\<exists>d'. t = s\<lparr>chip := d'\<rparr>))"
proof (induction n arbitrary: d)
  case 0
  then show ?case using assms by simp
next
  case (Suc n)
  show ?case
    unfolding wait_status.simps holds_bind
    by (rule holds_mono [OF assms]) (auto intro: Suc.IH)
qed

text \<open>The received length fits: what is written ends before the pointer \<open>ops\<close>.\<close>

definition rx_bounded :: "'d hw \<Rightarrow> u32 \<times> smsc911x_platform_config \<times> smsc911x_ops \<Rightarrow> bool" where
  "rx_bounded h p \<longleftrightarrow> (\<forall>d. unat (rx_length (fst (chip_read h p RX_STATUS_FIFO d))) \<le> 88)"

lemma rxstatus_bounded:
  assumes "ready s" and "rx_bounded h (port s)"
  shows "holds (smsc911x_rx_get_rxstatus h (s\<lparr>chip := d\<rparr>)) (\<lambda>(v, t). unat (rx_length v) \<le> 88 \<and> (\<exists>d'. t = s\<lparr>chip := d'\<rparr>))"
  using assms
  by (auto simp: smsc911x_rx_get_rxstatus_def reg_read_eq rx_bounded_def case_prod_unfold Let_def)

lemma holds_wait_rx:
  assumes "ready s" and "rx_bounded h (port s)" and P: "\<And>v d. unat (rx_length v) \<le> 88 \<Longrightarrow> P (v, s\<lparr>chip := d\<rparr>)"
  shows "holds (wait_status (smsc911x_rx_get_rxstatus h) n s) P"
proof -
  have "holds (wait_status (smsc911x_rx_get_rxstatus h) n (s\<lparr>chip := chip s\<rparr>))
      (\<lambda>(v, t). unat (rx_length v) \<le> 88 \<and> (\<exists>d'. t = s\<lparr>chip := d'\<rparr>))"
    by (rule wait_status_final) (rule rxstatus_bounded [OF assms(1,2)])
  moreover have "s\<lparr>chip := chip s\<rparr> = s" by simp
  ultimately show ?thesis by (simp only:) (erule holds_mono, auto intro: P)
qed

lemma holds_wait_tx:
  assumes "ready s" and P: "\<And>v d. P (v, s\<lparr>chip := d\<rparr>)"
  shows "holds (wait_status (smsc911x_tx_get_txstatus h) n s) P"
proof -
  have "holds (wait_status (smsc911x_tx_get_txstatus h) n (s\<lparr>chip := chip s\<rparr>)) (\<lambda>(v, t). True \<and> (\<exists>d'. t = s\<lparr>chip := d'\<rparr>))"
    by (rule wait_status_final) (use assms(1) in \<open>auto intro!: drv_rules\<close>)
  moreover have "s\<lparr>chip := chip s\<rparr> = s" by simp
  ultimately show ?thesis by (simp only:) (erule holds_mono, auto intro: P)
qed

text \<open>The test keeps the driver in a good state on such a chip.\<close>

definition pkt_ok :: "'d smsc911x_data \<Rightarrow> bool" where
  "pkt_ok s \<longleftrightarrow> length (loopback_tx_pkt s) = MIN_PACKET_SIZE \<and> length (loopback_rx_pkt s) = MIN_PACKET_SIZE"

lemma rdsz_bound: "unat (x :: u32) \<le> 88 \<Longrightarrow> unat (drop_bit 2 (x + 3)) \<le> 22"
  by (simp add: drop_bit_eq_div unat_div unat_word_ariths)

lemma holds_store_loopback:
  assumes "length ws \<le> 22" and "pkt_ok s"
    and P: "\<And>t. kept s t \<Longrightarrow> pkt_ok t \<Longrightarrow> loopback_tx_pkt t = loopback_tx_pkt s \<Longrightarrow> P t"
  shows "holds (store_loopback_rx ws s) P"
proof -
  let ?bs = "concat (map bytes_of_le32 (take 16 ws))" and ?w = "\<lambda>i old. if i < length ws then ws ! i else old"
  define t where "t = s\<lparr>loopback_rx_pkt := ?bs @ drop (length ?bs) (loopback_rx_pkt s),
    resetcount := ?w 16 (resetcount s), multicast_update_pending := ?w 17 (multicast_update_pending s),
    set_bits_mask := ?w 18 (set_bits_mask s), clear_bits_mask := ?w 19 (clear_bits_mask s),
    hashhi := ?w 20 (hashhi s), hashlo := ?w 21 (hashlo s)\<rparr>"
  have "store_loopback_rx ws s = Some t"
    using assms(1) by (simp only: store_loopback_rx_def Let_def t_def) simp
  moreover have "kept s t" "loopback_tx_pkt t = loopback_tx_pkt s" unfolding t_def by (simp_all only: kept_updates kept_refl) simp
  moreover have "pkt_ok t" using assms(2) by (simp add: pkt_ok_def t_def min_def)
  ultimately show ?thesis using P by simp
qed

lemma holds_loopback_try:
  assumes "ready s" and "rx_bounded h (port s)" and "pkt_ok s"
    and P: "\<And>b t. kept s t \<Longrightarrow> pkt_ok t \<Longrightarrow> P (b, t)"
  shows "holds (loopback_try h s) P"
  using assms(1-3)
  by (auto simp: loopback_try_def Let_def pkt_ok_def rdsz_bound
      intro!: drv_rules holds_wait_tx holds_wait_rx holds_store_loopback P [unfolded pkt_ok_def])

lemma kept_bounded: "kept s t \<Longrightarrow> rx_bounded h (port s) \<Longrightarrow> rx_bounded h (port t)"
  by (simp add: kept_def)

lemma holds_loopback_tries:
  assumes "ready s" and "rx_bounded h (port s)" and "pkt_ok s"
    and P: "\<And>r t. r \<in> {0, - EIO} \<Longrightarrow> kept s t \<Longrightarrow> pkt_ok t \<Longrightarrow> P (r, t)"
  shows "holds (loopback_tries h n s) P"
  using assms
proof (induction n arbitrary: s)
  case (Suc n)
  show ?case
    unfolding loopback_tries.simps holds_bind
  proof (rule holds_loopback_try [OF Suc.prems(1-3)])
    fix b t
    assume t: "kept s t" "pkt_ok t"
    then have "holds (loopback_tries h n t) P"
      using Suc.prems by (intro Suc.IH) (auto intro: keptI kept_bounded kept_trans dest: keptD)
    with t Suc.prems(4) show "holds (case (b, t) of (good, s) \<Rightarrow> if good then Some (0, s) else loopback_tries h n s) P"
      by simp
  qed
qed auto

lemma holds_loopback_rounds:
  assumes "ready s" and "rx_bounded h (port s)" and "pkt_ok s" and "\<not> mac_lock s" and "phy_dev s = Some phy"
    and P: "\<And>r t. r \<in> {0, - EIO} \<Longrightarrow> kept s t \<Longrightarrow> P (r, t)"
  shows "holds (loopback_rounds h phy n s) P"
  using assms
proof (induction n arbitrary: s)
  case (Suc n)
  have IH: "holds (loopback_rounds h phy n t) P" if "kept s t" "pkt_ok t" for t
    using Suc.prems that by (intro Suc.IH) (auto intro: keptI kept_bounded kept_trans dest: keptD)
  have step: "holds (do {s \<leftarrow> locked_mac_write h MAC_CR 0 t; (_, s) \<leftarrow> smsc911x_phy_reset h s; loopback_rounds h phy n s}) P"
    if "kept s t" "pkt_ok t" for t
    using that keptI [OF that(1)] Suc.prems(1,4,5)
    by (auto simp: pkt_ok_def intro!: drv_rules IH dest: keptD)
  have check: "holds (smsc911x_phy_check_loopbackpkt h (s\<lparr>chip := d\<rparr>)) Q"
    if "\<And>r t. r \<in> {0, - EIO} \<Longrightarrow> kept s t \<Longrightarrow> pkt_ok t \<Longrightarrow> Q (r, t)" for d Q
    unfolding smsc911x_phy_check_loopbackpkt_def using Suc.prems that
    by (intro holds_loopback_tries) (auto simp: pkt_ok_def)
  define rest where "rest = (\<lambda>(ret, s). if ret = (0 :: int) then Some (0 :: int, s)
    else do {let s = s\<lparr>resetcount := resetcount s + 1\<rparr>; s \<leftarrow> locked_mac_write h MAC_CR 0 s;
      (_, s) \<leftarrow> smsc911x_phy_reset h s; loopback_rounds h phy n s})"
  have "holds (rest (r, t)) P" if "r \<in> {0, - EIO}" "kept s t" "pkt_ok t" for r t
    using that Suc.prems(6) step [of "t\<lparr>resetcount := resetcount t + 1\<rparr>"] by (simp add: rest_def pkt_ok_def)
  then have "holds (smsc911x_phy_check_loopbackpkt h (s\<lparr>chip := d\<rparr>)) (\<lambda>x. holds (rest x) P)" for d
    by (rule check)
  with Suc.prems(1,4) show ?case
    unfolding loopback_rounds.simps rest_def [symmetric] by (auto intro!: drv_rules)
qed auto

lemma holds_loopbacktest:
  assumes "ready s" and "\<not> mac_lock s" and "phy_dev s = Some phy" and "rx_bounded h (port s)"
    and "length (loopback_rx_pkt s) = 64"
    and P: "\<And>r t. r \<in> {0, - EIO} \<Longrightarrow> kept s t \<Longrightarrow> P (r, t)"
  shows "holds (smsc911x_phy_loopbacktest h s) P"
proof -
  have l: "length loopback_packet = 64" by (simp add: loopback_packet_def)
  define fin where "fin = (\<lambda>(r :: int, s). do {s \<leftarrow> locked_mac_write h MAC_CR 0 s;
    (_, s) \<leftarrow> smsc911x_mii_write h (phy_addr phy) MII_BMCR 0 s;
    s \<leftarrow> smsc911x_reg_write h TX_CFG 0 s; s \<leftarrow> smsc911x_reg_write h RX_CFG 0 s; Some (r, s)})"
  let ?ok = "\<lambda>(r, t). r \<in> {0, - EIO} \<and> kept s t"
  have "holds (fin (r, t)) ?ok" if "r \<in> {0, - EIO}" "kept s t" for r t
    using that keptI [OF that(2)] keptD [OF that(2)] assms(1,2) by (auto simp: fin_def intro!: drv_rules)
  then have "holds (loopback_rounds h phy 10 (s\<lparr>chip := d, loopback_tx_pkt := loopback_packet\<rparr>)) (\<lambda>x. holds (fin x) ?ok)" for d
    using assms l by (intro holds_loopback_rounds) (auto simp: pkt_ok_def)
  then have "holds (do {x \<leftarrow> loopback_rounds h phy 10 (s\<lparr>chip := d, loopback_tx_pkt := loopback_packet\<rparr>); fin x}) ?ok" for d
    by simp
  then have "holds (smsc911x_phy_loopbacktest h s) ?ok"
    using assms by (auto simp: smsc911x_phy_loopbacktest_def fin_def Let_def intro!: drv_rules)
  then show ?thesis using P by (auto elim!: holds_mono)
qed


text \<open>
  The 17 words of the 68 byte packet of a passed test do not fit into \<open>loopback_rx_pkt\<close>: the last
  one, the frame check sequence, becomes the reset counter.
\<close>

lemma loopback_store_overwrites:
  assumes "length ws = 17" and "store_loopback_rx ws s = Some t"
  shows "resetcount t = ws ! 16"
proof -
  have "store_loopback_rx ws s = Some (s\<lparr>loopback_rx_pkt := concat (map bytes_of_le32 (take 16 ws)) @ drop 64 (loopback_rx_pkt s),
      resetcount := ws ! 16\<rparr>)"
    unfolding store_loopback_rx_def Let_def using assms(1) by simp
  with assms(2) show ?thesis by auto
qed


end
