(* ===== verification/Phy_Lib.thy ===== *)
theory Phy_Lib
  imports Smsc_Phy
begin

text \<open>
  The PHY library of the kernel (\<open>linux/drivers/net/phy/phy.c\<close>, \<open>phy_device.c\<close>, \<open>mdio_bus.c\<close>) and the PHY driver
  \<open>linux/drivers/net/phy/smsc.c\<close>, on the MII bus the NIC driver provides: the generic functions for negotiation and
  status, the settings of ethtool, the ioctls for the MII registers, and the state machine that runs once a second.

  A function takes the \<open>struct phy_device\<close> and the data of the network device it is attached to, and returns both. The mutex of
  the PHY is a member of it: taking it twice is a deadlock, which is \<open>None\<close>. The mutex of the bus is held around single accesses only
  and is not part of the model. The network driver registers all PHYs with \<open>PHY_POLL\<close>, so the interrupt handler of the library and the
  work it schedules never run.
\<close>

section \<open>Registers and bits\<close>

abbreviation (input) MII_BMSR :: u32 where "MII_BMSR \<equiv> 0x01"
abbreviation (input) MII_PHYSID1 :: u32 where "MII_PHYSID1 \<equiv> 0x02"
abbreviation (input) MII_PHYSID2 :: u32 where "MII_PHYSID2 \<equiv> 0x03"
abbreviation (input) MII_CTRL1000 :: u32 where "MII_CTRL1000 \<equiv> 0x09"
abbreviation (input) MII_STAT1000 :: u32 where "MII_STAT1000 \<equiv> 0x0a"
abbreviation (input) MII_ESTATUS :: u32 where "MII_ESTATUS \<equiv> 0x0f"
abbreviation (input) MII_LAN83C185_ISF :: u32 where "MII_LAN83C185_ISF \<equiv> 29"
abbreviation (input) MII_LAN83C185_IM :: u32 where "MII_LAN83C185_IM \<equiv> 30"
abbreviation (input) MII_LAN83C185_ISF_INT_PHYLIB_EVENTS :: u32 where "MII_LAN83C185_ISF_INT_PHYLIB_EVENTS \<equiv> 0xd0"

abbreviation (input) BMCR_SPEED1000 :: u32 where "BMCR_SPEED1000 \<equiv> 0x0040"
abbreviation (input) BMCR_ANRESTART :: u32 where "BMCR_ANRESTART \<equiv> 0x0200"
abbreviation (input) BMCR_ISOLATE :: u32 where "BMCR_ISOLATE \<equiv> 0x0400"
abbreviation (input) BMCR_ANENABLE :: u32 where "BMCR_ANENABLE \<equiv> 0x1000"
abbreviation (input) BMCR_SPEED100 :: u32 where "BMCR_SPEED100 \<equiv> 0x2000"

abbreviation (input) BMSR_LSTATUS :: u32 where "BMSR_LSTATUS \<equiv> 0x0004"
abbreviation (input) BMSR_ANEGCAPABLE :: u32 where "BMSR_ANEGCAPABLE \<equiv> 0x0008"
abbreviation (input) BMSR_ANEGCOMPLETE :: u32 where "BMSR_ANEGCOMPLETE \<equiv> 0x0020"
abbreviation (input) BMSR_ESTATEN :: u32 where "BMSR_ESTATEN \<equiv> 0x0100"
abbreviation (input) BMSR_10HALF :: u32 where "BMSR_10HALF \<equiv> 0x0800"
abbreviation (input) BMSR_10FULL :: u32 where "BMSR_10FULL \<equiv> 0x1000"
abbreviation (input) BMSR_100HALF :: u32 where "BMSR_100HALF \<equiv> 0x2000"
abbreviation (input) BMSR_100FULL :: u32 where "BMSR_100FULL \<equiv> 0x4000"
abbreviation (input) ESTATUS_1000_TFULL :: u32 where "ESTATUS_1000_TFULL \<equiv> 0x2000"
abbreviation (input) ESTATUS_1000_THALF :: u32 where "ESTATUS_1000_THALF \<equiv> 0x1000"

abbreviation (input) ADVERTISE_10HALF :: u32 where "ADVERTISE_10HALF \<equiv> 0x0020"
abbreviation (input) ADVERTISE_10FULL :: u32 where "ADVERTISE_10FULL \<equiv> 0x0040"
abbreviation (input) ADVERTISE_100HALF :: u32 where "ADVERTISE_100HALF \<equiv> 0x0080"
abbreviation (input) ADVERTISE_100FULL :: u32 where "ADVERTISE_100FULL \<equiv> 0x0100"
abbreviation (input) ADVERTISE_100BASE4 :: u32 where "ADVERTISE_100BASE4 \<equiv> 0x0200"
abbreviation (input) ADVERTISE_1000FULL :: u32 where "ADVERTISE_1000FULL \<equiv> 0x0200"
abbreviation (input) ADVERTISE_1000HALF :: u32 where "ADVERTISE_1000HALF \<equiv> 0x0100"
abbreviation (input) ADVERTISE_ALL :: u32 where
  "ADVERTISE_ALL \<equiv> ADVERTISE_10HALF OR ADVERTISE_10FULL OR ADVERTISE_100HALF OR ADVERTISE_100FULL"

abbreviation (input) LPA_10FULL :: u32 where "LPA_10FULL \<equiv> 0x0040"
abbreviation (input) LPA_100HALF :: u32 where "LPA_100HALF \<equiv> 0x0080"
abbreviation (input) LPA_100FULL :: u32 where "LPA_100FULL \<equiv> 0x0100"
abbreviation (input) LPA_PAUSE_CAP :: u32 where "LPA_PAUSE_CAP \<equiv> 0x0400"
abbreviation (input) LPA_PAUSE_ASYM :: u32 where "LPA_PAUSE_ASYM \<equiv> 0x0800"
abbreviation (input) LPA_1000FULL :: u32 where "LPA_1000FULL \<equiv> 0x0800"
abbreviation (input) LPA_1000HALF :: u32 where "LPA_1000HALF \<equiv> 0x0400"

abbreviation (input) SUPPORTED_10baseT_Half :: u32 where "SUPPORTED_10baseT_Half \<equiv> 0x0001"
abbreviation (input) SUPPORTED_10baseT_Full :: u32 where "SUPPORTED_10baseT_Full \<equiv> 0x0002"
abbreviation (input) SUPPORTED_100baseT_Half :: u32 where "SUPPORTED_100baseT_Half \<equiv> 0x0004"
abbreviation (input) SUPPORTED_100baseT_Full :: u32 where "SUPPORTED_100baseT_Full \<equiv> 0x0008"
abbreviation (input) SUPPORTED_1000baseT_Half :: u32 where "SUPPORTED_1000baseT_Half \<equiv> 0x0010"
abbreviation (input) SUPPORTED_1000baseT_Full :: u32 where "SUPPORTED_1000baseT_Full \<equiv> 0x0020"
abbreviation (input) SUPPORTED_Autoneg :: u32 where "SUPPORTED_Autoneg \<equiv> 0x0040"
abbreviation (input) SUPPORTED_TP :: u32 where "SUPPORTED_TP \<equiv> 0x0080"
abbreviation (input) SUPPORTED_AUI :: u32 where "SUPPORTED_AUI \<equiv> 0x0100"
abbreviation (input) SUPPORTED_MII :: u32 where "SUPPORTED_MII \<equiv> 0x0200"
abbreviation (input) SUPPORTED_FIBRE :: u32 where "SUPPORTED_FIBRE \<equiv> 0x0400"
abbreviation (input) SUPPORTED_BNC :: u32 where "SUPPORTED_BNC \<equiv> 0x0800"
abbreviation (input) SUPPORTED_10000baseT_Full :: u32 where "SUPPORTED_10000baseT_Full \<equiv> 0x1000"
abbreviation (input) SUPPORTED_Pause :: u32 where "SUPPORTED_Pause \<equiv> 0x2000"
abbreviation (input) SUPPORTED_Asym_Pause :: u32 where "SUPPORTED_Asym_Pause \<equiv> 0x4000"
abbreviation (input) PHY_BASIC_FEATURES :: u32 where
  "PHY_BASIC_FEATURES \<equiv> SUPPORTED_10baseT_Half OR SUPPORTED_10baseT_Full OR SUPPORTED_100baseT_Half OR
     SUPPORTED_100baseT_Full OR SUPPORTED_Autoneg OR SUPPORTED_TP OR SUPPORTED_MII"

abbreviation (input) AUTONEG_DISABLE :: int where "AUTONEG_DISABLE \<equiv> 0"
abbreviation (input) AUTONEG_ENABLE :: int where "AUTONEG_ENABLE \<equiv> 1"
abbreviation (input) DUPLEX_HALF :: int where "DUPLEX_HALF \<equiv> 0"
abbreviation (input) DUPLEX_FULL :: int where "DUPLEX_FULL \<equiv> 1"
abbreviation (input) PHY_POLL :: int where "PHY_POLL \<equiv> -1"
abbreviation (input) PHY_INTERRUPT_DISABLED :: u32 where "PHY_INTERRUPT_DISABLED \<equiv> 0"
abbreviation (input) PHY_INTERRUPT_ENABLED :: u32 where "PHY_INTERRUPT_ENABLED \<equiv> 0x80000000"
abbreviation (input) PHY_AN_TIMEOUT :: int where "PHY_AN_TIMEOUT \<equiv> 10"
abbreviation (input) PHY_FORCE_TIMEOUT :: int where "PHY_FORCE_TIMEOUT \<equiv> 10"

section \<open>Accesses\<close>

definition mdiobus_read :: "'d hw \<Rightarrow> u32 \<Rightarrow> u32 \<Rightarrow> 'd smsc911x_data \<Rightarrow> (int \<times> 'd smsc911x_data) option" where
  "mdiobus_read h addr regnum s = smsc911x_mii_read h addr regnum s"

definition mdiobus_write :: "'d hw \<Rightarrow> u32 \<Rightarrow> u32 \<Rightarrow> u16 \<Rightarrow> 'd smsc911x_data \<Rightarrow> (int \<times> 'd smsc911x_data) option" where
  "mdiobus_write h addr regnum val s = smsc911x_mii_write h addr regnum val s"

definition phy_read :: "'d hw \<Rightarrow> phy_device \<Rightarrow> u32 \<Rightarrow> 'd smsc911x_data \<Rightarrow> (int \<times> 'd smsc911x_data) option" where
  "phy_read h phydev regnum s = mdiobus_read h (phy_addr phydev) regnum s"

definition phy_write :: "'d hw \<Rightarrow> phy_device \<Rightarrow> u32 \<Rightarrow> u32 \<Rightarrow> 'd smsc911x_data \<Rightarrow> (int \<times> 'd smsc911x_data) option" where
  "phy_write h phydev regnum val s = mdiobus_write h (phy_addr phydev) regnum (ucast val) s"

text \<open>
  The result of a function of the library. \<open>or_return p x f\<close> is \<open>v = x; if (v < 0) return v;\<close> before the rest of a function,
  when \<open>p\<close> is the PHY as it is at that point. A value that is not negative is used as an unsigned one.
\<close>

type_synonym 'd phy_result = "(int \<times> phy_device \<times> 'd smsc911x_data) option"

definition or_return :: "phy_device \<Rightarrow> (int \<times> 'd smsc911x_data) option \<Rightarrow> (u32 \<Rightarrow> 'd smsc911x_data \<Rightarrow> 'd phy_result) \<Rightarrow> 'd phy_result" where
  "or_return p x f = do {
     (v, s) \<leftarrow> x;
     if v < 0 then Some (v, p, s) else f (word_of_int v) s
   }"

text \<open>\<open>return x\<close> for a function of the bus.\<close>

definition and_return :: "phy_device \<Rightarrow> (int \<times> 'd smsc911x_data) option \<Rightarrow> 'd phy_result" where
  "and_return p x = do {
     (v, s) \<leftarrow> x;
     Some (v, p, s)
   }"

definition mutex_lock :: "phy_device \<Rightarrow> phy_device option" where
  "mutex_lock p = (if phy_lock p then None else Some (p\<lparr>phy_lock := True\<rparr>))"

definition mutex_unlock :: "phy_device \<Rightarrow> phy_device" where
  "mutex_unlock p = p\<lparr>phy_lock := False\<rparr>"

section \<open>Generic PHY functions\<close>

definition ethtool_adv_to_mii_adv_t :: "u32 \<Rightarrow> u32" where
  "ethtool_adv_to_mii_adv_t ethadv =
     (if ethadv AND SUPPORTED_10baseT_Half \<noteq> 0 then ADVERTISE_10HALF else 0) OR
     (if ethadv AND SUPPORTED_10baseT_Full \<noteq> 0 then ADVERTISE_10FULL else 0) OR
     (if ethadv AND SUPPORTED_100baseT_Half \<noteq> 0 then ADVERTISE_100HALF else 0) OR
     (if ethadv AND SUPPORTED_100baseT_Full \<noteq> 0 then ADVERTISE_100FULL else 0) OR
     (if ethadv AND SUPPORTED_Pause \<noteq> 0 then ADVERTISE_PAUSE_CAP else 0) OR
     (if ethadv AND SUPPORTED_Asym_Pause \<noteq> 0 then ADVERTISE_PAUSE_ASYM else 0)"

definition ethtool_adv_to_mii_ctrl1000_t :: "u32 \<Rightarrow> u32" where
  "ethtool_adv_to_mii_ctrl1000_t ethadv =
     (if ethadv AND SUPPORTED_1000baseT_Half \<noteq> 0 then ADVERTISE_1000HALF else 0) OR
     (if ethadv AND SUPPORTED_1000baseT_Full \<noteq> 0 then ADVERTISE_1000FULL else 0)"

definition has_gigabit :: "phy_device \<Rightarrow> bool" where
  "has_gigabit p \<longleftrightarrow> phy_supported p AND (SUPPORTED_1000baseT_Half OR SUPPORTED_1000baseT_Full) \<noteq> 0"

text \<open>Both halves of \<open>genphy_config_advert\<close>: \<open>r\<close> is the register, \<open>clear\<close> the bits that are replaced, \<open>changed\<close> the result so far.\<close>

definition config_advert_reg ::
  "'d hw \<Rightarrow> phy_device \<Rightarrow> u32 \<Rightarrow> u32 \<Rightarrow> u32 \<Rightarrow> int \<Rightarrow> 'd smsc911x_data \<Rightarrow> 'd phy_result" where
  "config_advert_reg h p r clear bits changed s =
     or_return p (phy_read h p r s) (\<lambda>oldadv s.
       let adv = (oldadv AND NOT clear) OR bits in
       if adv \<noteq> oldadv then or_return p (phy_write h p r adv s) (\<lambda>_ s. Some (1, p, s))
       else Some (changed, p, s))"

definition genphy_config_advert :: "'d hw \<Rightarrow> phy_device \<Rightarrow> 'd smsc911x_data \<Rightarrow> 'd phy_result" where
  "genphy_config_advert h p s = do {
     let p = p\<lparr>phy_advertising := phy_advertising p AND phy_supported p\<rparr>;
     let advertise = phy_advertising p;
     (changed, p, s) \<leftarrow> config_advert_reg h p MII_ADVERTISE
       (ADVERTISE_ALL OR ADVERTISE_100BASE4 OR ADVERTISE_PAUSE_CAP OR ADVERTISE_PAUSE_ASYM) (ethtool_adv_to_mii_adv_t advertise) 0 s;
     if changed < 0 then Some (changed, p, s)
     else if has_gigabit p then
       config_advert_reg h p MII_CTRL1000 (ADVERTISE_1000FULL OR ADVERTISE_1000HALF) (ethtool_adv_to_mii_ctrl1000_t advertise) changed s
     else Some (changed, p, s)
   }"

definition forced_ctl :: "phy_device \<Rightarrow> u32" where
  "forced_ctl p =
     (if phy_speed p = 1000 then BMCR_SPEED1000 else if phy_speed p = 100 then BMCR_SPEED100 else 0) OR
     (if duplex p = DUPLEX_FULL then BMCR_FULLDPLX else 0)"

definition genphy_setup_forced :: "'d hw \<Rightarrow> phy_device \<Rightarrow> 'd smsc911x_data \<Rightarrow> 'd phy_result" where
  "genphy_setup_forced h p s =
     (let p = p\<lparr>phy_pause := 0, phy_asym_pause := 0\<rparr> in
      and_return p (phy_write h p MII_BMCR (forced_ctl p) s))"

definition genphy_restart_aneg :: "'d hw \<Rightarrow> phy_device \<Rightarrow> 'd smsc911x_data \<Rightarrow> 'd phy_result" where
  "genphy_restart_aneg h p s =
     or_return p (phy_read h p MII_BMCR s) (\<lambda>ctl s.
       let ctl = ctl OR (BMCR_ANENABLE OR BMCR_ANRESTART);
           ctl = ctl AND NOT BMCR_ISOLATE in
       and_return p (phy_write h p MII_BMCR ctl s))"

definition genphy_config_aneg :: "'d hw \<Rightarrow> phy_device \<Rightarrow> 'd smsc911x_data \<Rightarrow> 'd phy_result" where
  "genphy_config_aneg h p s =
     (if phy_autoneg p \<noteq> AUTONEG_ENABLE then genphy_setup_forced h p s
      else do {
        (result, p, s) \<leftarrow> genphy_config_advert h p s;
        if result < 0 then Some (result, p, s)
        else if result = 0 then
          or_return p (phy_read h p MII_BMCR s) (\<lambda>ctl s.
            if ctl AND BMCR_ANENABLE = 0 \<or> ctl AND BMCR_ISOLATE \<noteq> 0 then genphy_restart_aneg h p s
            else Some (0, p, s))
        else genphy_restart_aneg h p s
      })"

definition genphy_update_link :: "'d hw \<Rightarrow> phy_device \<Rightarrow> 'd smsc911x_data \<Rightarrow> 'd phy_result" where
  "genphy_update_link h p s =
     or_return p (phy_read h p MII_BMSR s) (\<lambda>_ s.
     or_return p (phy_read h p MII_BMSR s) (\<lambda>status s.
       Some (0, p\<lparr>phy_link := if status AND BMSR_LSTATUS = 0 then 0 else 1\<rparr>, s)))"

text \<open>The speed and the duplex mode from what both ends advertise.\<close>

definition resolve_lpa :: "u32 \<Rightarrow> u32 \<Rightarrow> phy_device \<Rightarrow> phy_device" where
  "resolve_lpa lpagb lpa p =
     (let p = p\<lparr>phy_speed := 10, duplex := DUPLEX_HALF, phy_pause := 0, phy_asym_pause := 0\<rparr>;
          p = (if lpagb AND (LPA_1000FULL OR LPA_1000HALF) \<noteq> 0 then
                 let p = p\<lparr>phy_speed := 1000\<rparr> in if lpagb AND LPA_1000FULL \<noteq> 0 then p\<lparr>duplex := DUPLEX_FULL\<rparr> else p
               else if lpa AND (LPA_100FULL OR LPA_100HALF) \<noteq> 0 then
                 let p = p\<lparr>phy_speed := 100\<rparr> in if lpa AND LPA_100FULL \<noteq> 0 then p\<lparr>duplex := DUPLEX_FULL\<rparr> else p
               else if lpa AND LPA_10FULL \<noteq> 0 then p\<lparr>duplex := DUPLEX_FULL\<rparr> else p) in
      if duplex p = DUPLEX_FULL then
        p\<lparr>phy_pause := if lpa AND LPA_PAUSE_CAP \<noteq> 0 then 1 else 0, phy_asym_pause := if lpa AND LPA_PAUSE_ASYM \<noteq> 0 then 1 else 0\<rparr>
      else p)"

definition resolve_bmcr :: "u32 \<Rightarrow> phy_device \<Rightarrow> phy_device" where
  "resolve_bmcr bmcr p = p\<lparr>duplex := if bmcr AND BMCR_FULLDPLX \<noteq> 0 then DUPLEX_FULL else DUPLEX_HALF,
     phy_speed := if bmcr AND BMCR_SPEED1000 \<noteq> 0 then 1000 else if bmcr AND BMCR_SPEED100 \<noteq> 0 then 100 else 10,
     phy_pause := 0, phy_asym_pause := 0\<rparr>"

definition genphy_read_status :: "'d hw \<Rightarrow> phy_device \<Rightarrow> 'd smsc911x_data \<Rightarrow> 'd phy_result" where
  "genphy_read_status h p s = do {
     (err, p, s) \<leftarrow> genphy_update_link h p s;
     if err \<noteq> 0 then Some (err, p, s)
     else if phy_autoneg p = AUTONEG_ENABLE then
       let rest = (\<lambda>lpagb s.
         or_return p (phy_read h p MII_LPA s) (\<lambda>lpa s.
         or_return p (phy_read h p MII_ADVERTISE s) (\<lambda>adv s.
           Some (0, resolve_lpa lpagb (lpa AND adv) p, s)))) in
       if has_gigabit p then
         or_return p (phy_read h p MII_STAT1000 s) (\<lambda>lpagb s.
         or_return p (phy_read h p MII_CTRL1000 s) (\<lambda>adv s.
           rest (lpagb AND push_bit 2 adv) s))
       else rest 0 s
     else or_return p (phy_read h p MII_BMCR s) (\<lambda>bmcr s. Some (0, resolve_bmcr bmcr p, s))
   }"

definition genphy_config_init :: "'d hw \<Rightarrow> phy_device \<Rightarrow> 'd smsc911x_data \<Rightarrow> 'd phy_result" where
  "genphy_config_init h p s =
     or_return p (phy_read h p MII_BMSR s) (\<lambda>val s.
       let features = SUPPORTED_TP OR SUPPORTED_MII OR SUPPORTED_AUI OR SUPPORTED_FIBRE OR SUPPORTED_BNC;
           features = (if val AND BMSR_ANEGCAPABLE \<noteq> 0 then features OR SUPPORTED_Autoneg else features);
           features = (if val AND BMSR_100FULL \<noteq> 0 then features OR SUPPORTED_100baseT_Full else features);
           features = (if val AND BMSR_100HALF \<noteq> 0 then features OR SUPPORTED_100baseT_Half else features);
           features = (if val AND BMSR_10FULL \<noteq> 0 then features OR SUPPORTED_10baseT_Full else features);
           features = (if val AND BMSR_10HALF \<noteq> 0 then features OR SUPPORTED_10baseT_Half else features) in
       if val AND BMSR_ESTATEN \<noteq> 0 then
         or_return p (phy_read h p MII_ESTATUS s) (\<lambda>val s.
           let features = (if val AND ESTATUS_1000_TFULL \<noteq> 0 then features OR SUPPORTED_1000baseT_Full else features);
               features = (if val AND ESTATUS_1000_THALF \<noteq> 0 then features OR SUPPORTED_1000baseT_Half else features) in
           Some (0, p\<lparr>phy_supported := features, phy_advertising := features\<rparr>, s))
       else Some (0, p\<lparr>phy_supported := features, phy_advertising := features\<rparr>, s))"

section \<open>PHY drivers\<close>

definition smsc_phy_config_intr :: "'d hw \<Rightarrow> phy_device \<Rightarrow> 'd smsc911x_data \<Rightarrow> 'd phy_result" where
  "smsc_phy_config_intr h p s =
     or_return p (phy_write h p MII_LAN83C185_IM
       (if phy_interrupts p = PHY_INTERRUPT_ENABLED then MII_LAN83C185_ISF_INT_PHYLIB_EVENTS else 0) s) (\<lambda>_ s. Some (0, p, s))"

definition smsc_phy_ack_interrupt :: "'d hw \<Rightarrow> phy_device \<Rightarrow> 'd smsc911x_data \<Rightarrow> 'd phy_result" where
  "smsc_phy_ack_interrupt h p s = or_return p (phy_read h p MII_LAN83C185_ISF s) (\<lambda>_ s. Some (0, p, s))"

definition smsc_phy_config_init :: "'d hw \<Rightarrow> phy_device \<Rightarrow> 'd smsc911x_data \<Rightarrow> 'd phy_result" where
  "smsc_phy_config_init h p s =
     or_return p (phy_read h p MII_LAN83C185_CTRL_STATUS s) (\<lambda>rc s.
     or_return p (phy_write h p MII_LAN83C185_CTRL_STATUS (rc OR MII_LAN83C185_EDPWRDOWN) s) (\<lambda>_ s.
       smsc_phy_ack_interrupt h p s))"

definition lan911x_config_init :: "'d hw \<Rightarrow> phy_device \<Rightarrow> 'd smsc911x_data \<Rightarrow> 'd phy_result" where
  "lan911x_config_init h p s = smsc_phy_ack_interrupt h p s"

text \<open>The members of \<open>struct phy_driver\<close>; \<open>config_aneg\<close> and \<open>read_status\<close> are the generic functions in all of them.\<close>

fun drv_features :: "phy_driver \<Rightarrow> u32" where
  "drv_features genphy_driver = 0"
| "drv_features _ = PHY_BASIC_FEATURES OR SUPPORTED_Pause OR SUPPORTED_Asym_Pause"

definition has_magicaneg :: "phy_driver \<Rightarrow> bool" where
  "has_magicaneg d \<longleftrightarrow> d \<noteq> genphy_driver"

fun drv_config_init :: "phy_driver \<Rightarrow> 'd hw \<Rightarrow> phy_device \<Rightarrow> 'd smsc911x_data \<Rightarrow> 'd phy_result" where
  "drv_config_init genphy_driver = genphy_config_init"
| "drv_config_init lan911x_int_driver = lan911x_config_init"
| "drv_config_init _ = smsc_phy_config_init"

definition phy_clear_interrupt :: "'d hw \<Rightarrow> phy_device \<Rightarrow> 'd smsc911x_data \<Rightarrow> 'd phy_result" where
  "phy_clear_interrupt h p s = (if phy_drv p = genphy_driver then Some (0, p, s) else smsc_phy_ack_interrupt h p s)"

definition phy_config_interrupt :: "'d hw \<Rightarrow> phy_device \<Rightarrow> u32 \<Rightarrow> 'd smsc911x_data \<Rightarrow> 'd phy_result" where
  "phy_config_interrupt h p interrupts s =
     (let p = p\<lparr>phy_interrupts := interrupts\<rparr> in
      if phy_drv p = genphy_driver then Some (0, p, s) else smsc_phy_config_intr h p s)"

section \<open>Settings\<close>

definition settings :: "(int \<times> int \<times> u32) list" where
  "settings = [(10000, DUPLEX_FULL, SUPPORTED_10000baseT_Full), (1000, DUPLEX_FULL, SUPPORTED_1000baseT_Full),
     (1000, DUPLEX_HALF, SUPPORTED_1000baseT_Half), (100, DUPLEX_FULL, SUPPORTED_100baseT_Full),
     (100, DUPLEX_HALF, SUPPORTED_100baseT_Half), (10, DUPLEX_FULL, SUPPORTED_10baseT_Full), (10, DUPLEX_HALF, SUPPORTED_10baseT_Half)]"

text \<open>\<open>while (idx < MAX_NUM_SETTINGS && !ok(settings[idx])) idx++;\<close> and the result of both searches.\<close>

fun search_setting :: "(int \<times> int \<times> u32 \<Rightarrow> bool) \<Rightarrow> (int \<times> int \<times> u32) list \<Rightarrow> nat \<Rightarrow> nat" where
  "search_setting ok [] idx = length settings - 1"
| "search_setting ok (x # xs) idx = (if ok x then idx else search_setting ok xs (Suc idx))"

definition phy_find_setting :: "int \<Rightarrow> int \<Rightarrow> nat" where
  "phy_find_setting speed dplx = search_setting (\<lambda>(sp, du, _). sp = speed \<and> du = dplx) settings 0"

definition phy_find_valid :: "nat \<Rightarrow> u32 \<Rightarrow> nat" where
  "phy_find_valid idx features = search_setting (\<lambda>(_, _, f). f AND features \<noteq> 0) (drop idx settings) idx"

definition use_setting :: "nat \<Rightarrow> phy_device \<Rightarrow> phy_device" where
  "use_setting idx p = (case settings ! idx of (sp, du, _) \<Rightarrow> p\<lparr>phy_speed := sp, duplex := du\<rparr>)"

definition phy_sanitize_settings :: "phy_device \<Rightarrow> phy_device" where
  "phy_sanitize_settings p =
     (let p = (if phy_supported p AND SUPPORTED_Autoneg = 0 then p\<lparr>phy_autoneg := AUTONEG_DISABLE\<rparr> else p) in
      use_setting (phy_find_valid (phy_find_setting (phy_speed p) (duplex p)) (phy_supported p)) p)"

definition phy_force_reduction :: "phy_device \<Rightarrow> phy_device" where
  "phy_force_reduction p =
     use_setting (phy_find_valid (Suc (phy_find_setting (phy_speed p) (duplex p))) (phy_supported p)) p"

definition phy_start_aneg :: "'d hw \<Rightarrow> phy_device \<Rightarrow> 'd smsc911x_data \<Rightarrow> 'd phy_result" where
  "phy_start_aneg h p s = do {
     p \<leftarrow> mutex_lock p;
     let p = (if phy_autoneg p = AUTONEG_DISABLE then phy_sanitize_settings p else p);
     (err, p, s) \<leftarrow> genphy_config_aneg h p s;
     let p = (if err < 0 \<or> phy_st p = PHY_HALTED then p
       else if phy_autoneg p = AUTONEG_ENABLE then p\<lparr>phy_st := PHY_AN, phy_link_timeout := PHY_AN_TIMEOUT\<rparr>
       else p\<lparr>phy_st := PHY_FORCING, phy_link_timeout := PHY_FORCE_TIMEOUT\<rparr>);
     Some (err, mutex_unlock p, s)
   }"

record ethtool_cmd =
  ec_supported :: u32
  ec_advertising :: u32
  ec_speed :: u16
  ec_duplex :: u8
  ec_port :: u8
  ec_phy_address :: u8
  ec_transceiver :: u8
  ec_autoneg :: u8
  ec_maxtxpkt :: u32
  ec_maxrxpkt :: u32
  ec_speed_hi :: u16

definition ethtool_cmd_speed :: "ethtool_cmd \<Rightarrow> u32" where
  "ethtool_cmd_speed c = push_bit 16 (ucast (ec_speed_hi c)) OR ucast (ec_speed c)"

definition ethtool_cmd_speed_set :: "ethtool_cmd \<Rightarrow> u32 \<Rightarrow> ethtool_cmd" where
  "ethtool_cmd_speed_set c speed = c\<lparr>ec_speed := ucast speed, ec_speed_hi := ucast (drop_bit 16 speed)\<rparr>"

text \<open>The result of \<open>phy_start_aneg\<close> is not looked at.\<close>

definition phy_ethtool_sset :: "'d hw \<Rightarrow> phy_device \<Rightarrow> ethtool_cmd \<Rightarrow> 'd smsc911x_data \<Rightarrow> 'd phy_result" where
  "phy_ethtool_sset h p c s =
     (let speed = ethtool_cmd_speed c;
          advertising = ec_advertising c AND phy_supported p in
      if ucast (ec_phy_address c) \<noteq> phy_addr p then Some (- EINVAL, p, s)
      else if ec_autoneg c \<noteq> 1 \<and> ec_autoneg c \<noteq> 0 then Some (- EINVAL, p, s)
      else if ec_autoneg c = 1 \<and> advertising = 0 then Some (- EINVAL, p, s)
      else if ec_autoneg c = 0 \<and> (speed \<noteq> 1000 \<and> speed \<noteq> 100 \<and> speed \<noteq> 10 \<or> ec_duplex c \<noteq> 0 \<and> ec_duplex c \<noteq> 1) then
        Some (- EINVAL, p, s)
      else do {
        let p = p\<lparr>phy_autoneg := uint (ec_autoneg c), phy_speed := sint speed,
          phy_advertising := (if ec_autoneg c = 1 then advertising OR SUPPORTED_Autoneg else advertising AND NOT SUPPORTED_Autoneg),
          duplex := uint (ec_duplex c)\<rparr>;
        (_, p, s) \<leftarrow> phy_start_aneg h p s;
        Some (0, p, s)
      })"

definition phy_ethtool_gset :: "phy_device \<Rightarrow> ethtool_cmd \<Rightarrow> ethtool_cmd" where
  "phy_ethtool_gset p c =
     (ethtool_cmd_speed_set (c\<lparr>ec_supported := phy_supported p, ec_advertising := phy_advertising p\<rparr>) (word_of_int (phy_speed p)))
       \<lparr>ec_duplex := word_of_int (duplex p), ec_port := 2, ec_phy_address := ucast (phy_addr p), ec_transceiver := 1,
        ec_autoneg := word_of_int (phy_autoneg p)\<rparr>"

section \<open>Fixups and the ioctls\<close>

text \<open>A fixup of a board: whether it is for this device, the identifiers it is for, and its code.\<close>

record 'd phy_fixup =
  fx_bus_id :: bool
  fx_uid :: u32
  fx_uid_mask :: u32
  fx_run :: "phy_device \<Rightarrow> 'd smsc911x_data \<Rightarrow> 'd phy_result"

definition phy_needs_fixup :: "phy_device \<Rightarrow> 'd phy_fixup \<Rightarrow> bool" where
  "phy_needs_fixup p f \<longleftrightarrow> fx_bus_id f \<and>
     (fx_uid f AND fx_uid_mask f = phy_id p AND fx_uid_mask f \<or> fx_uid f = 0xffffffff)"

fun phy_scan_fixups :: "'d phy_fixup list \<Rightarrow> phy_device \<Rightarrow> 'd smsc911x_data \<Rightarrow> 'd phy_result" where
  "phy_scan_fixups [] p s = Some (0, p, s)"
| "phy_scan_fixups (f # fs) p s =
     (if phy_needs_fixup p f then do {
        (err, p, s) \<leftarrow> fx_run f p s;
        if err < 0 then Some (err, p, s) else phy_scan_fixups fs p s
      }
      else phy_scan_fixups fs p s)"

record mii_ioctl_data =
  mii_phy_id :: u16
  mii_reg_num :: u16
  mii_val_in :: u16
  mii_val_out :: u16

abbreviation (input) SIOCGMIIPHY :: int where "SIOCGMIIPHY \<equiv> 0x8947"
abbreviation (input) SIOCGMIIREG :: int where "SIOCGMIIREG \<equiv> 0x8948"
abbreviation (input) SIOCSMIIREG :: int where "SIOCSMIIREG \<equiv> 0x8949"

text \<open>What a write to a register does to the state of the library.\<close>

definition mii_ioctl_track :: "u16 \<Rightarrow> u32 \<Rightarrow> phy_device \<Rightarrow> phy_device" where
  "mii_ioctl_track reg val p =
     (if reg = ucast MII_BMCR then
        let p = p\<lparr>phy_autoneg := if val AND (BMCR_RESET OR BMCR_ANENABLE) = 0 then AUTONEG_DISABLE else AUTONEG_ENABLE\<rparr>;
            forced = (phy_autoneg p = 0);
            p = p\<lparr>duplex := if forced \<and> val AND BMCR_FULLDPLX \<noteq> 0 then DUPLEX_FULL else DUPLEX_HALF\<rparr> in
        if forced \<and> val AND BMCR_SPEED1000 \<noteq> 0 then p\<lparr>phy_speed := 1000\<rparr>
        else if forced \<and> val AND BMCR_SPEED100 \<noteq> 0 then p\<lparr>phy_speed := 100\<rparr>
        else p
      else if reg = ucast MII_ADVERTISE then p\<lparr>phy_advertising := val\<rparr>
      else p)"

definition phy_mii_ioctl ::
  "'d hw \<Rightarrow> 'd phy_fixup list \<Rightarrow> phy_device \<Rightarrow> int \<Rightarrow> mii_ioctl_data \<Rightarrow> 'd smsc911x_data \<Rightarrow>
   (int \<times> mii_ioctl_data \<times> phy_device \<times> 'd smsc911x_data) option" where
  "phy_mii_ioctl h fixups p cmd m s =
     (if cmd = SIOCGMIIPHY \<or> cmd = SIOCGMIIREG then do {
        let m = (if cmd = SIOCGMIIPHY then m\<lparr>mii_phy_id := ucast (phy_addr p)\<rparr> else m);
        (v, s) \<leftarrow> mdiobus_read h (ucast (mii_phy_id m)) (ucast (mii_reg_num m)) s;
        Some (0, m\<lparr>mii_val_out := word_of_int v\<rparr>, p, s)
      }
      else if cmd = SIOCSMIIREG then do {
        let val = ucast (mii_val_in m);
        let p = (if ucast (mii_phy_id m) = phy_addr p then mii_ioctl_track (mii_reg_num m) val p else p);
        (_, s) \<leftarrow> mdiobus_write h (ucast (mii_phy_id m)) (ucast (mii_reg_num m)) (mii_val_in m) s;
        (p, s) \<leftarrow> (if mii_reg_num m = ucast MII_BMCR \<and> val AND BMCR_RESET \<noteq> 0 then do {
            (_, p, s) \<leftarrow> phy_scan_fixups fixups p s;
            (_, p, s) \<leftarrow> drv_config_init (phy_drv p) h p s;
            Some (p, s)
          }
          else Some (p, s));
        Some (0, m, p, s)
      }
      else Some (- EOPNOTSUPP, m, p, s))"

section \<open>Starting and stopping\<close>

definition phy_start :: "phy_device \<Rightarrow> phy_device option" where
  "phy_start p = do {
     p \<leftarrow> mutex_lock p;
     let p = (case phy_st p of
         PHY_STARTING \<Rightarrow> p\<lparr>phy_st := PHY_PENDING\<rparr>
       | PHY_READY \<Rightarrow> p\<lparr>phy_st := PHY_UP\<rparr>
       | PHY_HALTED \<Rightarrow> p\<lparr>phy_st := PHY_RESUMING\<rparr>
       | _ \<Rightarrow> p);
     Some (mutex_unlock p)
   }"

definition phy_stop :: "'d hw \<Rightarrow> phy_device \<Rightarrow> 'd smsc911x_data \<Rightarrow> (phy_device \<times> 'd smsc911x_data) option" where
  "phy_stop h p s = do {
     p \<leftarrow> mutex_lock p;
     (p, s) \<leftarrow>
       (if phy_st p = PHY_HALTED then Some (p, s)
        else do {
          (p, s) \<leftarrow> (if phy_irq p \<noteq> PHY_POLL then do {
              (_, p, s) \<leftarrow> phy_config_interrupt h p PHY_INTERRUPT_DISABLED s;
              (_, p, s) \<leftarrow> phy_clear_interrupt h p s;
              Some (p, s)
            }
            else Some (p, s));
          Some (p\<lparr>phy_st := PHY_HALTED\<rparr>, s)
        });
     Some (mutex_unlock p, s)
   }"

definition phy_error :: "phy_device \<Rightarrow> phy_device option" where
  "phy_error p = do {
     p \<leftarrow> mutex_lock p;
     Some (mutex_unlock (p\<lparr>phy_st := PHY_HALTED\<rparr>))
   }"

section \<open>The state machine\<close>

definition phy_aneg_done :: "'d hw \<Rightarrow> phy_device \<Rightarrow> 'd smsc911x_data \<Rightarrow> 'd phy_result" where
  "phy_aneg_done h p s =
     or_return p (phy_read h p MII_BMSR s) (\<lambda>v s. Some (uint (v AND BMSR_ANEGCOMPLETE), p, s))"

text \<open>\<open>phydev->adjust_link(phydev->attached_dev)\<close>: the network driver looks at the PHY through its own pointer to it.\<close>

definition adjust_link :: "'d hw \<Rightarrow> phy_device \<Rightarrow> 'd smsc911x_data \<Rightarrow> 'd smsc911x_data option" where
  "adjust_link h p s = smsc911x_phy_adjust_link h (s\<lparr>phy_dev := Some p\<rparr>)"

text \<open>The result of a case of the \<open>switch\<close>: \<open>needs_aneg\<close> and \<open>err\<close>, the PHY and the network device.\<close>

type_synonym 'd phy_work = "(bool \<times> int \<times> phy_device \<times> 'd smsc911x_data) option"

text \<open>The tail that several cases share: the new state follows the link, and the network driver is told.\<close>

definition to_running :: "'d hw \<Rightarrow> phy_device \<Rightarrow> 'd smsc911x_data \<Rightarrow> 'd phy_work" where
  "to_running h p s = do {
     let p = p\<lparr>phy_st := PHY_RUNNING\<rparr>;
     s \<leftarrow> adjust_link h p (s\<lparr>carrier := True\<rparr>);
     Some (False, 0, p, s)
   }"

definition work_an :: "'d hw \<Rightarrow> phy_device \<Rightarrow> 'd smsc911x_data \<Rightarrow> 'd phy_work" where
  "work_an h p s = do {
     (err, p, s) \<leftarrow> genphy_read_status h p s;
     if err < 0 then Some (False, err, p, s)
     else if phy_link p = 0 then do {
       let p = p\<lparr>phy_st := PHY_NOLINK\<rparr>;
       s \<leftarrow> adjust_link h p (s\<lparr>carrier := False\<rparr>);
       Some (False, err, p, s)
     }
     else do {
       (err, p, s) \<leftarrow> phy_aneg_done h p s;
       if err < 0 then Some (False, err, p, s)
       else if err > 0 then do {
         let p = p\<lparr>phy_st := PHY_RUNNING\<rparr>;
         s \<leftarrow> adjust_link h p (s\<lparr>carrier := True\<rparr>);
         Some (False, err, p, s)
       }
       else do {
         let expired = (phy_link_timeout p = 0);
         let p = p\<lparr>phy_link_timeout := phy_link_timeout p - 1\<rparr>;
         if expired then
           (if has_magicaneg (phy_drv p) then Some (True, err, p, s)
            else Some (True, err, (use_setting (phy_find_valid 0 (phy_supported p)) p)\<lparr>phy_autoneg := AUTONEG_DISABLE\<rparr>, s))
         else Some (False, err, p, s)
       }
     }
   }"

definition work_nolink :: "'d hw \<Rightarrow> phy_device \<Rightarrow> 'd smsc911x_data \<Rightarrow> 'd phy_work" where
  "work_nolink h p s = do {
     (err, p, s) \<leftarrow> genphy_read_status h p s;
     if err \<noteq> 0 then Some (False, err, p, s)
     else if phy_link p \<noteq> 0 then to_running h p s
     else Some (False, err, p, s)
   }"

definition work_forcing :: "'d hw \<Rightarrow> phy_device \<Rightarrow> 'd smsc911x_data \<Rightarrow> 'd phy_work" where
  "work_forcing h p s = do {
     (err, p, s) \<leftarrow> genphy_update_link h p s;
     if err \<noteq> 0 then Some (False, err, p, s)
     else if phy_link p \<noteq> 0 then to_running h p s
     else do {
       let expired = (phy_link_timeout p = 0);
       let p = p\<lparr>phy_link_timeout := phy_link_timeout p - 1\<rparr>;
       let p = (if expired then phy_force_reduction p else p);
       s \<leftarrow> adjust_link h p s;
       Some (expired, err, p, s)
     }
   }"

definition work_changelink :: "'d hw \<Rightarrow> phy_device \<Rightarrow> 'd smsc911x_data \<Rightarrow> 'd phy_work" where
  "work_changelink h p s = do {
     (err, p, s) \<leftarrow> genphy_read_status h p s;
     if err \<noteq> 0 then Some (False, err, p, s)
     else do {
       let up = (phy_link p \<noteq> 0);
       let p = p\<lparr>phy_st := if up then PHY_RUNNING else PHY_NOLINK\<rparr>;
       s \<leftarrow> adjust_link h p (s\<lparr>carrier := up\<rparr>);
       (err, p, s) \<leftarrow> (if phy_irq p \<noteq> PHY_POLL then phy_config_interrupt h p PHY_INTERRUPT_ENABLED s else Some (err, p, s));
       Some (False, err, p, s)
     }
   }"

definition work_halted :: "'d hw \<Rightarrow> phy_device \<Rightarrow> 'd smsc911x_data \<Rightarrow> 'd phy_work" where
  "work_halted h p s =
     (if phy_link p \<noteq> 0 then do {
        let p = p\<lparr>phy_link := 0\<rparr>;
        s \<leftarrow> adjust_link h p (s\<lparr>carrier := False\<rparr>);
        Some (False, 0, p, s)
      }
      else Some (False, 0, p, s))"

text \<open>In both places where a PHY resumes, the carrier stays as it is when there is no link.\<close>

definition resume_status :: "'d hw \<Rightarrow> phy_device \<Rightarrow> 'd smsc911x_data \<Rightarrow> 'd phy_work" where
  "resume_status h p s = do {
     (err, p, s) \<leftarrow> genphy_read_status h p s;
     if err \<noteq> 0 then Some (False, err, p, s)
     else if phy_link p \<noteq> 0 then to_running h p s
     else do {
       let p = p\<lparr>phy_st := PHY_NOLINK\<rparr>;
       s \<leftarrow> adjust_link h p s;
       Some (False, err, p, s)
     }
   }"

definition work_resuming :: "'d hw \<Rightarrow> phy_device \<Rightarrow> 'd smsc911x_data \<Rightarrow> 'd phy_work" where
  "work_resuming h p s = do {
     (err, p, s) \<leftarrow> phy_clear_interrupt h p s;
     if err \<noteq> 0 then Some (False, err, p, s)
     else do {
       (err, p, s) \<leftarrow> phy_config_interrupt h p PHY_INTERRUPT_ENABLED s;
       if err \<noteq> 0 then Some (False, err, p, s)
       else if phy_autoneg p = AUTONEG_ENABLE then do {
         (err, p, s) \<leftarrow> phy_aneg_done h p s;
         if err < 0 then Some (False, err, p, s)
         else if err > 0 then resume_status h p s
         else Some (False, err, p\<lparr>phy_st := PHY_AN, phy_link_timeout := PHY_AN_TIMEOUT\<rparr>, s)
       }
       else resume_status h p s
     }
   }"

definition state_work :: "'d hw \<Rightarrow> phy_device \<Rightarrow> 'd smsc911x_data \<Rightarrow> 'd phy_work" where
  "state_work h p s = (case phy_st p of
       PHY_DOWN \<Rightarrow> Some (False, 0, p, s)
     | PHY_STARTING \<Rightarrow> Some (False, 0, p, s)
     | PHY_READY \<Rightarrow> Some (False, 0, p, s)
     | PHY_PENDING \<Rightarrow> Some (False, 0, p, s)
     | PHY_UP \<Rightarrow> Some (True, 0, p\<lparr>phy_link_timeout := PHY_AN_TIMEOUT\<rparr>, s)
     | PHY_AN \<Rightarrow> work_an h p s
     | PHY_RUNNING \<Rightarrow> Some (False, 0, if phy_irq p = PHY_POLL then p\<lparr>phy_st := PHY_CHANGELINK\<rparr> else p, s)
     | PHY_NOLINK \<Rightarrow> work_nolink h p s
     | PHY_FORCING \<Rightarrow> work_forcing h p s
     | PHY_CHANGELINK \<Rightarrow> work_changelink h p s
     | PHY_HALTED \<Rightarrow> work_halted h p s
     | PHY_RESUMING \<Rightarrow> work_resuming h p s)"

text \<open>The network driver passes no \<open>adjust_state\<close>. At the end the work is scheduled again.\<close>

definition phy_state_machine :: "'d hw \<Rightarrow> 'd smsc911x_data \<Rightarrow> 'd smsc911x_data option" where
  "phy_state_machine h s = do {
     p \<leftarrow> phy_dev s;
     p \<leftarrow> mutex_lock p;
     (needs_aneg, err, p, s) \<leftarrow> state_work h p s;
     let p = mutex_unlock p;
     (err, p, s) \<leftarrow> (if needs_aneg then phy_start_aneg h p s else Some (err, p, s));
     p \<leftarrow> (if err < 0 then phy_error p else Some p);
     Some (s\<lparr>phy_dev := Some p\<rparr>)
   }"

section \<open>What the functions keep\<close>

lemma holds_or_return [simp]:
  "holds (or_return p x f) P = holds x (\<lambda>(v, s). if v < 0 then P (v, p, s) else holds (f (word_of_int v) s) P)"
  by (auto simp: or_return_def holds_def split: option.splits)

lemma holds_and_return [simp]: "holds (and_return p x) P = holds x (\<lambda>(v, s). P (v, p, s))"
  by (auto simp: and_return_def holds_def split: option.splits)

lemma holds_mutex_lock [simp]: "holds (mutex_lock p) P = (\<not> phy_lock p \<and> P (p\<lparr>phy_lock := True\<rparr>))"
  by (simp add: mutex_lock_def)

lemma holds_phy_read [drv_rules]:
  "ready s \<Longrightarrow> \<not> mac_lock s \<Longrightarrow> (\<And>r d. P (r, s\<lparr>chip := d\<rparr>)) \<Longrightarrow> holds (phy_read h p r s) P"
  by (auto simp: phy_read_def mdiobus_read_def intro!: drv_rules)

lemma holds_phy_write [drv_rules]:
  "ready s \<Longrightarrow> \<not> mac_lock s \<Longrightarrow> (\<And>r d. P (r, s\<lparr>chip := d\<rparr>)) \<Longrightarrow> holds (phy_write h p r v s) P"
  by (auto simp: phy_write_def mdiobus_write_def intro!: drv_rules)

text \<open>What the generic functions leave of a PHY: its identity, its place in the state machine, its mutex, its features and its mode.\<close>

definition phy_core :: "phy_device \<Rightarrow> phy_device \<Rightarrow> bool" where
  "phy_core p q \<longleftrightarrow> phy_addr q = phy_addr p \<and> phy_id q = phy_id p \<and> phy_drv q = phy_drv p \<and> phy_st q = phy_st p \<and>
     phy_irq q = phy_irq p \<and> phy_lock q = phy_lock p \<and> phy_supported q = phy_supported p \<and> phy_autoneg q = phy_autoneg p"

lemma phy_core_refl [simp]: "phy_core p p"
  by (simp add: phy_core_def)

lemma phy_core_trans: "phy_core p q \<Longrightarrow> phy_core q r \<Longrightarrow> phy_core p r"
  by (simp add: phy_core_def)

lemma phy_core_updates [simp]:
  "phy_core p (q\<lparr>phy_speed := i\<rparr>) = phy_core p q" "phy_core p (q\<lparr>duplex := i\<rparr>) = phy_core p q"
  "phy_core p (q\<lparr>phy_pause := i\<rparr>) = phy_core p q" "phy_core p (q\<lparr>phy_asym_pause := i\<rparr>) = phy_core p q"
  "phy_core p (q\<lparr>phy_link := i\<rparr>) = phy_core p q" "phy_core p (q\<lparr>phy_interrupts := w\<rparr>) = phy_core p q"
  "phy_core p (q\<lparr>phy_advertising := w\<rparr>) = phy_core p q" "phy_core p (q\<lparr>phy_link_timeout := i\<rparr>) = phy_core p q"
  by (simp_all add: phy_core_def)

lemma phy_core_resolve [simp]:
  "phy_core p (resolve_lpa g l q) = phy_core p q" "phy_core p (resolve_bmcr w q) = phy_core p q"
  "phy_core p (use_setting i q) = phy_core p q"
  by (simp_all add: resolve_lpa_def resolve_bmcr_def use_setting_def Let_def split: prod.split)

lemma resolve_link [simp]: "phy_link (resolve_lpa g l q) = phy_link q" "phy_link (resolve_bmcr w q) = phy_link q"
  by (simp_all add: resolve_lpa_def resolve_bmcr_def Let_def)

lemma use_setting_simps [simp]:
  "phy_addr (use_setting i q) = phy_addr q" "phy_id (use_setting i q) = phy_id q" "phy_drv (use_setting i q) = phy_drv q"
  "phy_st (use_setting i q) = phy_st q" "phy_irq (use_setting i q) = phy_irq q" "phy_lock (use_setting i q) = phy_lock q"
  "phy_supported (use_setting i q) = phy_supported q" "phy_link (use_setting i q) = phy_link q" "phy_autoneg (use_setting i q) = phy_autoneg q"
  by (simp_all add: use_setting_def split: prod.split)

lemma holds_update_link [drv_rules]:
  assumes "ready s" and "\<not> mac_lock s" and "\<And>r q d. phy_core p q \<Longrightarrow> r \<le> 0 \<Longrightarrow> P (r, q, s\<lparr>chip := d\<rparr>)"
  shows "holds (genphy_update_link h p s) P"
  using assms by (auto simp: genphy_update_link_def intro!: drv_rules)

lemma holds_read_status [drv_rules]:
  assumes "ready s" and "\<not> mac_lock s" and "\<And>r q d. phy_core p q \<Longrightarrow> r \<le> 0 \<Longrightarrow> P (r, q, s\<lparr>chip := d\<rparr>)"
  shows "holds (genphy_read_status h p s) P"
  using assms by (auto simp: genphy_read_status_def Let_def intro!: drv_rules)

lemma holds_config_advert_reg [drv_rules]:
  assumes "ready s" and "\<not> mac_lock s" and "\<And>r d. P (r, p, s\<lparr>chip := d\<rparr>)"
  shows "holds (config_advert_reg h p r c b n s) P"
  using assms by (auto simp: config_advert_reg_def Let_def intro!: drv_rules)

lemma holds_config_aneg [drv_rules]:
  assumes "ready s" and "\<not> mac_lock s" and "\<And>r q d. phy_core p q \<Longrightarrow> phy_link q = phy_link p \<Longrightarrow> P (r, q, s\<lparr>chip := d\<rparr>)"
  shows "holds (genphy_config_aneg h p s) P"
  using assms
  by (auto simp: genphy_config_aneg_def genphy_setup_forced_def genphy_config_advert_def genphy_restart_aneg_def Let_def intro!: drv_rules)

lemma holds_clear_interrupt [drv_rules]:
  assumes "ready s" and "\<not> mac_lock s" and P: "\<And>r d. r \<le> 0 \<Longrightarrow> P (r, p, s\<lparr>chip := d\<rparr>)"
  shows "holds (phy_clear_interrupt h p s) P"
  using assms(1,2) P P [of 0 "chip s"] by (auto simp: phy_clear_interrupt_def smsc_phy_ack_interrupt_def intro!: drv_rules)

lemma holds_config_interrupt [drv_rules]:
  assumes "ready s" and "\<not> mac_lock s" and P: "\<And>r d. r \<le> 0 \<Longrightarrow> P (r, p\<lparr>phy_interrupts := i\<rparr>, s\<lparr>chip := d\<rparr>)"
  shows "holds (phy_config_interrupt h p i s) P"
  using assms(1,2) P P [of 0 "chip s"] by (auto simp: phy_config_interrupt_def smsc_phy_config_intr_def Let_def intro!: drv_rules)

lemma holds_aneg_done [drv_rules]:
  assumes "ready s" and "\<not> mac_lock s" and P: "\<And>r d. P (r, p, s\<lparr>chip := d\<rparr>)"
  shows "holds (phy_aneg_done h p s) P"
  using assms by (auto simp: phy_aneg_done_def intro!: drv_rules)

lemma holds_adjust_link:
  assumes "ready s" and "\<not> mac_lock s" and "phy_dev s = Some phy"
    and P: "\<And>t. kept s t \<Longrightarrow> last_duplex t = duplex phy \<Longrightarrow> last_carrier t = carrier_int s \<Longrightarrow> P t"
  shows "holds (smsc911x_phy_adjust_link h s) P"
  using assms(1-3)
  by (auto simp: smsc911x_phy_adjust_link_def intro!: holds_adjust_duplex holds_adjust_carrier P)

text \<open>Starting and stopping change the place in the state machine only.\<close>

definition started :: "phy_state \<Rightarrow> phy_state" where
  "started st = (case st of PHY_STARTING \<Rightarrow> PHY_PENDING | PHY_READY \<Rightarrow> PHY_UP | PHY_HALTED \<Rightarrow> PHY_RESUMING | st \<Rightarrow> st)"

lemma phy_lock_id: "\<not> phy_lock p \<Longrightarrow> p\<lparr>phy_lock := False\<rparr> = p" "\<not> phy_lock p \<Longrightarrow> p\<lparr>phy_st := st, phy_lock := False\<rparr> = p\<lparr>phy_st := st\<rparr>"
  by simp_all

lemma phy_start_eq: "\<not> phy_lock p \<Longrightarrow> phy_start p = Some (p\<lparr>phy_st := started (phy_st p)\<rparr>)"
  by (cases "phy_st p") (simp_all add: phy_start_def mutex_lock_def mutex_unlock_def started_def)

lemma phy_stop_eq: "\<not> phy_lock p \<Longrightarrow> phy_irq p = PHY_POLL \<Longrightarrow> phy_stop h p s = Some (p\<lparr>phy_st := PHY_HALTED\<rparr>, s)"
  by (cases "phy_st p = PHY_HALTED") (simp_all add: phy_stop_def mutex_lock_def mutex_unlock_def)

section \<open>The state machine follows its description\<close>

text \<open>
  The transitions of a run of the state machine, from the description in \<open>linux/include/linux/phy.h\<close> and what it leaves out: forced
  settings (\<open>up_forcing\<close>, \<open>forcing_an\<close>), the missing link after resuming, and errors of the bus.
\<close>

inductive phy_edge :: "phy_state \<Rightarrow> phy_state \<Rightarrow> bool" where
  waits: "st \<in> {PHY_DOWN, PHY_STARTING, PHY_READY, PHY_PENDING, PHY_AN, PHY_NOLINK, PHY_FORCING, PHY_HALTED} \<Longrightarrow> phy_edge st st"
| up_an: "phy_edge PHY_UP PHY_AN"
| up_forcing: "phy_edge PHY_UP PHY_FORCING"
| an_nolink: "phy_edge PHY_AN PHY_NOLINK"
| an_running: "phy_edge PHY_AN PHY_RUNNING"
| an_forcing: "phy_edge PHY_AN PHY_FORCING"
| nolink_running: "phy_edge PHY_NOLINK PHY_RUNNING"
| forcing_running: "phy_edge PHY_FORCING PHY_RUNNING"
| forcing_an: "phy_edge PHY_FORCING PHY_AN"
| running_polls: "phy_edge PHY_RUNNING PHY_CHANGELINK"
| change_running: "phy_edge PHY_CHANGELINK PHY_RUNNING"
| change_nolink: "phy_edge PHY_CHANGELINK PHY_NOLINK"
| resuming_running: "phy_edge PHY_RESUMING PHY_RUNNING"
| resuming_an: "phy_edge PHY_RESUMING PHY_AN"
| resuming_nolink: "phy_edge PHY_RESUMING PHY_NOLINK"
| error: "st \<in> {PHY_UP, PHY_AN, PHY_NOLINK, PHY_FORCING, PHY_CHANGELINK, PHY_RESUMING} \<Longrightarrow> phy_edge st PHY_HALTED"

lemmas phy_edges [simp] = phy_edge.intros(2-15) waits [of PHY_AN, simplified] waits [of PHY_NOLINK, simplified]
  waits [of PHY_FORCING, simplified] waits [of PHY_HALTED, simplified]

definition phy_same :: "phy_device \<Rightarrow> phy_device \<Rightarrow> bool" where
  "phy_same p q \<longleftrightarrow> phy_addr q = phy_addr p \<and> phy_id q = phy_id p \<and> phy_drv q = phy_drv p \<and> phy_irq q = phy_irq p \<and>
     phy_lock q = phy_lock p \<and> phy_supported q = phy_supported p"

lemma phy_core_same: "phy_core p q \<Longrightarrow> phy_same p q" "phy_core p q \<Longrightarrow> phy_st q = phy_st p"
  by (simp_all add: phy_core_def phy_same_def)

text \<open>The network device, up to its carrier, its PHY and what following the link changes.\<close>

definition net_same :: "'d smsc911x_data \<Rightarrow> 'd smsc911x_data \<Rightarrow> bool" where
  "net_same s t \<longleftrightarrow> kept (s\<lparr>carrier := carrier t, phy_dev := phy_dev t\<rparr>) t"

lemma net_same_refl [simp]: "net_same s s"
  by (simp add: net_same_def)

lemma net_same_trans: "net_same s t \<Longrightarrow> net_same t u \<Longrightarrow> net_same s u"
  by (simp add: net_same_def kept_def)

lemma net_same_updates [simp]:
  "net_same s (t\<lparr>chip := d\<rparr>) = net_same s t" "net_same s (t\<lparr>carrier := c\<rparr>) = net_same s t" "net_same s (t\<lparr>phy_dev := x\<rparr>) = net_same s t"
  by (simp_all add: net_same_def kept_def)

lemma net_sameD: "net_same s t \<Longrightarrow> ready s \<Longrightarrow> ready t" "net_same s t \<Longrightarrow> mac_lock t = mac_lock s" "net_same s t \<Longrightarrow> port t = port s"
  by (simp_all add: net_same_def kept_def ready_def)

lemma holds_call_adjust_link [drv_rules]:
  assumes "ready s" and "\<not> mac_lock s"
    and P: "\<And>t. net_same s t \<Longrightarrow> carrier t = carrier s \<Longrightarrow> phy_dev t = Some p \<Longrightarrow> last_duplex t = duplex p \<Longrightarrow>
      last_carrier t = carrier_int s \<Longrightarrow> P t"
  shows "holds (adjust_link h p s) P"
  unfolding adjust_link_def
proof (rule holds_adjust_link [where phy = p])
  fix t
  assume "kept (s\<lparr>phy_dev := Some p\<rparr>) t" "last_duplex t = duplex p" "last_carrier t = carrier_int (s\<lparr>phy_dev := Some p\<rparr>)"
  then show "P t" by (intro P) (simp_all add: net_same_def kept_def)
qed (use assms(1,2) in simp_all)

text \<open>What the states say of the link and of the carrier.\<close>

definition link_tracked :: "phy_device \<Rightarrow> 'd smsc911x_data \<Rightarrow> bool" where
  "link_tracked p s \<longleftrightarrow> (phy_st p \<in> {PHY_RUNNING, PHY_CHANGELINK} \<longrightarrow> phy_link p \<noteq> 0 \<and> carrier s) \<and>
     (phy_st p = PHY_NOLINK \<longrightarrow> phy_link p = 0)"

text \<open>The carrier is on without a link only when the PHY resumed that way.\<close>

definition late_carrier :: "phy_device \<Rightarrow> 'd smsc911x_data \<Rightarrow> phy_device \<Rightarrow> 'd smsc911x_data \<Rightarrow> bool" where
  "late_carrier p s q t \<longleftrightarrow> (phy_st q = PHY_NOLINK \<and> carrier t \<longrightarrow> phy_st p \<in> {PHY_RESUMING, PHY_NOLINK} \<and> carrier s)"

definition work_ok :: "phy_device \<Rightarrow> 'd smsc911x_data \<Rightarrow> bool \<times> int \<times> phy_device \<times> 'd smsc911x_data \<Rightarrow> bool" where
  "work_ok p s = (\<lambda>(needs_aneg, err, q, t). phy_same p q \<and> net_same s t \<and>
     (if needs_aneg then phy_st q = phy_st p \<and> phy_st p \<in> {PHY_UP, PHY_AN, PHY_FORCING}
      else if err < 0 then phy_st p \<in> {PHY_UP, PHY_AN, PHY_NOLINK, PHY_FORCING, PHY_CHANGELINK, PHY_RESUMING}
      else phy_edge (phy_st p) (phy_st q) \<and> link_tracked q t \<and> late_carrier p s q t))"

lemmas work_defs = work_ok_def link_tracked_def late_carrier_def phy_core_def phy_same_def

lemma holds_to_running [drv_rules]:
  assumes "ready s" and "\<not> mac_lock s" and "\<And>t. net_same s t \<Longrightarrow> carrier t \<Longrightarrow> P (False, 0, p\<lparr>phy_st := PHY_RUNNING\<rparr>, t)"
  shows "holds (to_running h p s) P"
  using assms by (auto simp: to_running_def Let_def net_same_def kept_def intro!: drv_rules)

lemma net_same_from [simp]: "net_same (s\<lparr>chip := d\<rparr>) t = net_same s t" "net_same (s\<lparr>carrier := c\<rparr>) t = net_same s t"
  by (simp_all add: net_same_def kept_def)

lemma work_an_ok: "ready s \<Longrightarrow> \<not> mac_lock s \<Longrightarrow> phy_st p = PHY_AN \<Longrightarrow> holds (work_an h p s) (work_ok p s)"
  by (auto simp: work_an_def Let_def work_defs intro!: drv_rules)

lemma work_nolink_ok: "ready s \<Longrightarrow> \<not> mac_lock s \<Longrightarrow> phy_st p = PHY_NOLINK \<Longrightarrow> holds (work_nolink h p s) (work_ok p s)"
  by (auto simp: work_nolink_def work_defs intro!: drv_rules)

lemma work_forcing_ok: "ready s \<Longrightarrow> \<not> mac_lock s \<Longrightarrow> phy_st p = PHY_FORCING \<Longrightarrow> holds (work_forcing h p s) (work_ok p s)"
  by (auto simp: work_forcing_def Let_def work_defs phy_force_reduction_def intro!: drv_rules)

lemma work_changelink_ok:
  "ready s \<Longrightarrow> \<not> mac_lock s \<Longrightarrow> phy_st p = PHY_CHANGELINK \<Longrightarrow> phy_irq p = PHY_POLL \<Longrightarrow> holds (work_changelink h p s) (work_ok p s)"
  by (auto simp: work_changelink_def Let_def work_defs intro!: drv_rules)

lemma resume_status_ok: "ready s \<Longrightarrow> \<not> mac_lock s \<Longrightarrow> phy_st p = PHY_RESUMING \<Longrightarrow> holds (resume_status h p s) (work_ok p s)"
  by (auto simp: resume_status_def Let_def work_defs intro!: drv_rules)

lemma work_ok_chip: "work_ok (p\<lparr>phy_interrupts := i\<rparr>) (s\<lparr>chip := d\<rparr>) = work_ok p s"
  by (auto simp: work_defs fun_eq_iff)

lemma work_resuming_ok:
  assumes "ready s" "\<not> mac_lock s" "phy_st p = PHY_RESUMING"
  shows "holds (work_resuming h p s) (work_ok p s)"
proof -
  have r: "holds (resume_status h (p\<lparr>phy_interrupts := i\<rparr>) (s\<lparr>chip := d\<rparr>)) (work_ok p s)" for i d
    using resume_status_ok [of "s\<lparr>chip := d\<rparr>" "p\<lparr>phy_interrupts := i\<rparr>" h] assms by (simp add: work_ok_chip)
  show ?thesis
    using assms by (auto simp: work_resuming_def intro!: drv_rules r) (auto simp: work_defs)
qed

lemma work_halted_ok:
  "ready s \<Longrightarrow> \<not> mac_lock s \<Longrightarrow> phy_st p = PHY_HALTED \<Longrightarrow> holds (work_halted h p s) (work_ok p s)"
  by (auto simp: work_halted_def Let_def work_defs intro!: drv_rules)

lemma state_work_ok:
  assumes "ready s" and "\<not> mac_lock s" and "phy_irq p = PHY_POLL" and "link_tracked p s"
  shows "holds (state_work h p s) (work_ok p s)"
proof -
  have idle: "work_ok p s (False, 0, p, s)" if "phy_edge (phy_st p) (phy_st p)"
    using that assms(4) by (simp add: work_ok_def phy_same_def late_carrier_def)
  have "work_ok p s (True, 0, p\<lparr>phy_link_timeout := i\<rparr>, s)" if "phy_st p = PHY_UP" for i using that by (simp add: work_defs)
  moreover have "work_ok p s (False, 0, p\<lparr>phy_st := PHY_CHANGELINK\<rparr>, s)" if "phy_st p = PHY_RUNNING"
    using that assms(4) by (simp add: work_defs)
  ultimately show ?thesis
    using assms(1-3) idle work_an_ok work_nolink_ok work_forcing_ok work_changelink_ok work_resuming_ok work_halted_ok
    by (cases "phy_st p") (simp_all add: state_work_def phy_edge.intros)
qed

lemma holds_start_aneg [drv_rules]:
  assumes "ready s" and "\<not> mac_lock s" and "\<not> phy_lock p"
    and P: "\<And>r q d. phy_same p q \<Longrightarrow> phy_link q = phy_link p \<Longrightarrow>
      (if r < 0 \<or> phy_st p = PHY_HALTED then phy_st q = phy_st p else phy_st q \<in> {PHY_AN, PHY_FORCING}) \<Longrightarrow> P (r, q, s\<lparr>chip := d\<rparr>)"
  shows "holds (phy_start_aneg h p s) P"
proof -
  have c: "phy_same p (phy_sanitize_settings p)" "phy_st (phy_sanitize_settings p) = phy_st p"
    "phy_lock (phy_sanitize_settings p) = phy_lock p" "phy_link (phy_sanitize_settings p) = phy_link p" for p
    by (simp_all add: phy_sanitize_settings_def phy_same_def Let_def)
  show ?thesis
    using assms(1-3) c [of "p\<lparr>phy_lock := True\<rparr>"]
    by (auto simp: phy_start_aneg_def mutex_unlock_def Let_def phy_core_def phy_same_def intro!: drv_rules P)
qed

definition tick_ok :: "phy_device \<Rightarrow> 'd smsc911x_data \<Rightarrow> 'd smsc911x_data \<Rightarrow> bool" where
  "tick_ok p s t \<longleftrightarrow> net_same s t \<and> (\<exists>q. phy_dev t = Some q \<and> phy_same p q \<and> phy_edge (phy_st p) (phy_st q) \<and>
     link_tracked q t \<and> late_carrier p s q t)"

lemma holds_state_machine:
  fixes s :: "'d smsc911x_data"
  assumes s: "ready s" "\<not> mac_lock s" "phy_dev s = Some p" and p: "\<not> phy_lock p" "phy_irq p = PHY_POLL" "link_tracked p s"
  shows "holds (phy_state_machine h s) (tick_ok p s)"
proof -
  let ?p = "p\<lparr>phy_lock := True\<rparr>"
  define fin where "fin = (\<lambda>(err :: int, q, t :: 'd smsc911x_data). do {q \<leftarrow> (if err < 0 then phy_error q else Some q); Some (t\<lparr>phy_dev := Some q\<rparr>)})"
  have fin: "holds (fin (err, q, t)) (tick_ok p s)"
    if "phy_same p q" "net_same s t" "err < 0 \<longrightarrow> phy_edge (phy_st p) PHY_HALTED"
      "\<not> err < 0 \<longrightarrow> phy_edge (phy_st p) (phy_st q) \<and> link_tracked q t \<and> late_carrier p s q t" for err q t
    using that p(1)
    by (auto simp: fin_def phy_error_def mutex_unlock_def tick_ok_def phy_same_def link_tracked_def late_carrier_def)
  have aneg: "holds (phy_start_aneg h q t) (\<lambda>x. holds (fin x) (tick_ok p s))"
    if q: "phy_same p q" "net_same s t" "phy_st q = phy_st p" "phy_st p \<in> {PHY_UP, PHY_AN, PHY_FORCING}" for q t
  proof (rule holds_start_aneg)
    show "ready t" "\<not> mac_lock t" using net_sameD [OF q(2)] s by auto
    show "\<not> phy_lock q" using q(1) p(1) by (simp add: phy_same_def)
    fix r :: int and q' d
    assume "phy_same q q'" "if r < 0 \<or> phy_st q = PHY_HALTED then phy_st q' = phy_st q else phy_st q' \<in> {PHY_AN, PHY_FORCING}"
    then show "holds (fin (r, q', t\<lparr>chip := d\<rparr>)) (tick_ok p s)"
      using q by (intro fin) (auto simp: phy_same_def link_tracked_def late_carrier_def intro: phy_edge.intros split: if_splits)
  qed
  have "holds (state_work h ?p s) (work_ok ?p s)"
    using s p by (intro state_work_ok) (auto simp: link_tracked_def)
  then have "holds (state_work h ?p s) (\<lambda>(n, err, q, t). holds (if n then phy_start_aneg h (mutex_unlock q) t
      else Some (err, mutex_unlock q, t)) (\<lambda>x. holds (fin x) (tick_ok p s)))"
  proof (rule holds_mono, clarify)
    fix n err q t
    assume w: "work_ok ?p s (n, err, q, t)"
    then have "phy_same p (mutex_unlock q)" using p(1) by (simp add: work_ok_def phy_same_def mutex_unlock_def)
    with w show "holds (if n then phy_start_aneg h (mutex_unlock q) t else Some (err, mutex_unlock q, t)) (\<lambda>x. holds (fin x) (tick_ok p s))"
      by (auto simp: work_ok_def mutex_unlock_def link_tracked_def late_carrier_def intro!: aneg fin intro: phy_edge.intros split: if_splits)
  qed
  then show ?thesis
    using s(3) p(1) by (simp add: phy_state_machine_def mutex_lock_def Let_def fin_def case_prod_unfold)
qed

section \<open>Settings and ioctls do not disturb the state machine\<close>

lemma holds_ethtool_sset [drv_rules]:
  assumes "ready s" and "\<not> mac_lock s" and "\<not> phy_lock p" and "link_tracked p s"
    and P: "\<And>r q d. phy_same p q \<Longrightarrow> link_tracked q (s\<lparr>chip := d\<rparr>) \<Longrightarrow> P (r, q, s\<lparr>chip := d\<rparr>)"
  shows "holds (phy_ethtool_sset h p c s) P"
proof -
  have same: "P (r, p, s)" for r using P [of p "chip s"] assms(4) by (simp add: phy_same_def)
  have aneg: "holds (phy_start_aneg h p' s) (\<lambda>(r, q, t). P (0, q, t))"
    if p': "phy_same p p'" "phy_st p' = phy_st p" "phy_link p' = phy_link p" for p'
  proof (rule holds_start_aneg [OF assms(1,2)])
    show "\<not> phy_lock p'" using p'(1) assms(3) by (simp add: phy_same_def)
    fix r :: int and q d
    assume q: "phy_same p' q" "phy_link q = phy_link p'"
      "if r < 0 \<or> phy_st p' = PHY_HALTED then phy_st q = phy_st p' else phy_st q \<in> {PHY_AN, PHY_FORCING}"
    have "phy_same p q" using p'(1) q(1) by (simp add: phy_same_def)
    moreover have "link_tracked q (s\<lparr>chip := d\<rparr>)" using p' q assms(4) by (auto simp: link_tracked_def split: if_splits)
    ultimately show "case (r, q, s\<lparr>chip := d\<rparr>) of (r, q, t) \<Rightarrow> P (0, q, t)" using P by simp
  qed
  define p' where "p' = p\<lparr>phy_autoneg := uint (ec_autoneg c), phy_speed := sint (ethtool_cmd_speed c),
    phy_advertising := (if ec_autoneg c = 1 then (ec_advertising c AND phy_supported p) OR SUPPORTED_Autoneg
      else (ec_advertising c AND phy_supported p) AND NOT SUPPORTED_Autoneg), duplex := uint (ec_duplex c)\<rparr>"
  have "holds (phy_start_aneg h p' s) (\<lambda>(r, q, t). P (0, q, t))" by (rule aneg) (simp_all add: p'_def phy_same_def)
  then show ?thesis unfolding phy_ethtool_sset_def Let_def p'_def [symmetric] using same by (simp add: case_prod_unfold)
qed

text \<open>What a fixup, the initialisation by the PHY driver and the ioctls leave of a PHY.\<close>

definition phy_place :: "phy_device \<Rightarrow> phy_device \<Rightarrow> bool" where
  "phy_place p q \<longleftrightarrow> phy_addr q = phy_addr p \<and> phy_irq q = phy_irq p \<and> phy_lock q = phy_lock p \<and> phy_st q = phy_st p \<and> phy_link q = phy_link p"

lemma phy_place_refl [simp]: "phy_place p p"
  by (simp add: phy_place_def)

lemma phy_place_trans: "phy_place p q \<Longrightarrow> phy_place q r \<Longrightarrow> phy_place p r"
  by (simp add: phy_place_def)

text \<open>Fixups access the chip and the settings of the PHY.\<close>

definition fixups_ok :: "'d phy_fixup list \<Rightarrow> bool" where
  "fixups_ok fs \<longleftrightarrow> (\<forall>f \<in> set fs. \<forall>p s. ready s \<longrightarrow> \<not> mac_lock s \<longrightarrow>
     (\<exists>r q d. fx_run f p s = Some (r, q, s\<lparr>chip := d\<rparr>) \<and> phy_place p q))"

lemma holds_scan_fixups:
  assumes "ready s" and "\<not> mac_lock s" and "fixups_ok fs" and P: "\<And>r q d. phy_place p q \<Longrightarrow> P (r, q, s\<lparr>chip := d\<rparr>)"
  shows "holds (phy_scan_fixups fs p s) P"
  using assms
proof (induction fs arbitrary: p s)
  case Nil
  then show ?case using Nil.prems(4) [of p _ "chip s"] by simp
next
  case (Cons f fs)
  have fs: "fixups_ok fs" using Cons.prems(3) by (simp add: fixups_ok_def)
  obtain r q d where f: "fx_run f p s = Some (r, q, s\<lparr>chip := d\<rparr>)" "phy_place p q"
    using Cons.prems(1-3) unfolding fixups_ok_def by (meson list.set_intros(1))
  have "holds (phy_scan_fixups fs q (s\<lparr>chip := d\<rparr>)) P"
    using Cons.prems fs f(2) by (intro Cons.IH) (auto intro: phy_place_trans)
  moreover have "holds (phy_scan_fixups fs p s) P" using Cons.prems fs by (intro Cons.IH)
  ultimately show ?case using f Cons.prems(4) [OF f(2)] by simp
qed

lemma holds_let: "(\<And>x. holds (f x) P) \<Longrightarrow> holds (let x = a in f x) P"
  by (simp add: Let_def)

lemma holds_genphy_config_init:
  assumes "ready s" and "\<not> mac_lock s" and P: "\<And>r q d. r \<le> 0 \<Longrightarrow> phy_place p q \<Longrightarrow> P (r, q, s\<lparr>chip := d\<rparr>)"
  shows "holds (genphy_config_init h p s) P"
proof -
  have P': "r < 0 \<Longrightarrow> P (r, p, s\<lparr>chip := d\<rparr>)" "P (0, p\<lparr>phy_supported := f, phy_advertising := f\<rparr>, s\<lparr>chip := d\<rparr>)" for r d f
    by (rule P; simp add: phy_place_def)+
  have "holds (or_return p (phy_read h p MII_ESTATUS (s\<lparr>chip := d\<rparr>)) (\<lambda>val s.
      let features = (if val AND ESTATUS_1000_TFULL \<noteq> 0 then f OR SUPPORTED_1000baseT_Full else f);
          features = (if val AND ESTATUS_1000_THALF \<noteq> 0 then features OR SUPPORTED_1000baseT_Half else features) in
      Some (0, p\<lparr>phy_supported := features, phy_advertising := features\<rparr>, s))) P" for f d
    unfolding holds_or_return using assms(1,2) by (intro holds_phy_read) (auto intro!: holds_let P' simp: P')
  then have "holds (if v AND BMSR_ESTATEN \<noteq> 0 then or_return p (phy_read h p MII_ESTATUS (s\<lparr>chip := d\<rparr>)) (\<lambda>val s.
      let features = (if val AND ESTATUS_1000_TFULL \<noteq> 0 then f OR SUPPORTED_1000baseT_Full else f);
          features = (if val AND ESTATUS_1000_THALF \<noteq> 0 then features OR SUPPORTED_1000baseT_Half else features) in
      Some (0, p\<lparr>phy_supported := features, phy_advertising := features\<rparr>, s))
    else Some (0, p\<lparr>phy_supported := f, phy_advertising := f\<rparr>, s\<lparr>chip := d\<rparr>)) P" for v f d
    using P' by simp
  then show ?thesis
    unfolding genphy_config_init_def holds_or_return using P'
    by (intro holds_phy_read [OF assms(1,2)]) (simp only: prod.case split: if_split, intro conjI impI holds_let, simp_all only:)
qed

lemma holds_config_init [drv_rules]:
  assumes "ready s" and "\<not> mac_lock s" and P: "\<And>r q d. r \<le> 0 \<Longrightarrow> phy_place p q \<Longrightarrow> P (r, q, s\<lparr>chip := d\<rparr>)"
  shows "holds (drv_config_init d h p s) P"
  using assms
  by (cases d)
    (auto simp: smsc_phy_config_init_def lan911x_config_init_def smsc_phy_ack_interrupt_def intro!: drv_rules holds_genphy_config_init)

lemma phy_place_track [simp]: "phy_place p (mii_ioctl_track r v q) = phy_place p q" "phy_place (mii_ioctl_track r v p) q = phy_place p q"
  by (simp_all add: mii_ioctl_track_def phy_place_def Let_def)

lemma holds_mii_ioctl:
  assumes "ready s" and "\<not> mac_lock s" and "fixups_ok fs" and P: "\<And>r m q d. phy_place p q \<Longrightarrow> P (r, m, q, s\<lparr>chip := d\<rparr>)"
  shows "holds (phy_mii_ioctl h fs p cmd m s) P"
proof -
  have same: "P (r, m, p, s)" for r m using P [of p _ _ "chip s"] by simp
  show ?thesis
    using assms(1-3) same
    by (auto simp: phy_mii_ioctl_def mdiobus_read_def mdiobus_write_def Let_def intro!: drv_rules holds_scan_fixups P intro: phy_place_trans)
qed

section \<open>Forced settings\<close>

lemma length_settings [simp]: "length settings = 7"
  by (simp add: settings_def)

text \<open>Both searches return the first setting at or behind \<open>idx\<close> that fits, and the last one if there is none.\<close>

lemma search_setting_first:
  assumes "idx \<le> 7" and "i = search_setting ok (drop idx settings) idx"
  shows "i < 7 \<and> (idx \<le> i \<and> ok (settings ! i) \<and> (\<forall>j. idx \<le> j \<and> j < i \<longrightarrow> \<not> ok (settings ! j)) \<or>
    i = 6 \<and> (\<forall>j. idx \<le> j \<and> j < 7 \<longrightarrow> \<not> ok (settings ! j)))"
proof -
  have "search_setting ok xs idx < 7 \<and>
      (idx \<le> search_setting ok xs idx \<and> ok (settings ! search_setting ok xs idx) \<and>
         (\<forall>j. idx \<le> j \<and> j < search_setting ok xs idx \<longrightarrow> \<not> ok (settings ! j)) \<or>
       search_setting ok xs idx = 6 \<and> (\<forall>j. idx \<le> j \<and> j < 7 \<longrightarrow> \<not> ok (settings ! j)))"
    if "idx \<le> 7" "xs = drop idx settings" for xs
    using that
  proof (induction xs arbitrary: idx)
    case Nil
    then have "7 \<le> idx" by simp
    then show ?case by auto
  next
    case (Cons x xs)
    from Cons.prems(2) have i: "idx < 7" by (metis drop_all length_settings list.distinct(1) not_le)
    then have x: "x = settings ! idx" "xs = drop (Suc idx) settings"
      by (metis Cons.prems(2) Cons_nth_drop_Suc length_settings list.inject)+
    show ?case
    proof (cases "ok x")
      case True
      then show ?thesis using i x by auto
    next
      case False
      then have "idx \<le> j \<and> j < k \<and> ok (settings ! j) \<longleftrightarrow> Suc idx \<le> j \<and> j < k \<and> ok (settings ! j)" for j k
        using x(1) by (metis Suc_leD le_antisym not_less_eq_eq)
      then show ?thesis using Cons.IH [of "Suc idx"] False i x(2) by (auto simp: Suc_le_eq)
    qed
  qed
  with assms show ?thesis by blast
qed

lemma first_or_last:
  assumes "k \<le> i \<and> G i \<and> (\<forall>j. k \<le> j \<and> j < i \<longrightarrow> \<not> G j) \<or> i = n \<and> (\<forall>j. k \<le> j \<and> j < m \<longrightarrow> \<not> G j)" and "i < (m :: nat)"
  shows "if \<exists>j. k \<le> j \<and> j < m \<and> G j then k \<le> i \<and> G i \<and> (\<forall>j. k \<le> j \<and> j < i \<longrightarrow> \<not> G j) else i = n"
  using assms by auto

text \<open>
  Forced settings are made valid by going down in the table, never up: the mode that \<open>phy_sanitize_settings\<close> chooses is the first one at or behind
  the requested one that the PHY supports. If it supports none of them, and also when the requested mode is not in the table, the choice is the last
  entry, 10 Mbit/s with half duplex.
\<close>

theorem sanitize_settings_best:
  "\<exists>i < length settings. (\<exists>f. settings ! i = (phy_speed (phy_sanitize_settings p), duplex (phy_sanitize_settings p), f)) \<and>
     (let k = phy_find_setting (phy_speed p) (duplex p); good = (\<lambda>j. snd (snd (settings ! j)) AND phy_supported p \<noteq> 0) in
      k < length settings \<and> ((\<exists>f. settings ! k = (phy_speed p, duplex p, f)) \<or> k = length settings - 1) \<and>
      (if \<exists>j. k \<le> j \<and> j < length settings \<and> good j then k \<le> i \<and> good i \<and> (\<forall>j. k \<le> j \<and> j < i \<longrightarrow> \<not> good j)
       else i = length settings - 1))"
proof -
  define k where "k = phy_find_setting (phy_speed p) (duplex p)"
  define good where "good = (\<lambda>j. snd (snd (settings ! j)) AND phy_supported p \<noteq> 0)"
  define i where "i = phy_find_valid k (phy_supported p)"
  have k: "k < 7" "(\<exists>f. settings ! k = (phy_speed p, duplex p, f)) \<or> k = 6"
    using search_setting_first [of 0 k "\<lambda>(sp, du, _). sp = phy_speed p \<and> du = duplex p"] by (auto simp: k_def phy_find_setting_def)
  have "i = search_setting (\<lambda>x. snd (snd x) AND phy_supported p \<noteq> 0) (drop k settings) k"
    by (simp add: i_def phy_find_valid_def case_prod_unfold)
  then have i: "i < 7" "k \<le> i \<and> good i \<and> (\<forall>j. k \<le> j \<and> j < i \<longrightarrow> \<not> good j) \<or> i = 6 \<and> (\<forall>j. k \<le> j \<and> j < 7 \<longrightarrow> \<not> good j)"
    using search_setting_first [of k i "\<lambda>x. snd (snd x) AND phy_supported p \<noteq> 0"] k(1) by (simp_all add: good_def)
  obtain p' where "phy_sanitize_settings p = use_setting i p'"
    unfolding phy_sanitize_settings_def i_def k_def Let_def by (cases "phy_supported p AND SUPPORTED_Autoneg = 0") simp_all
  then have "\<exists>f. settings ! i = (phy_speed (phy_sanitize_settings p), duplex (phy_sanitize_settings p), f)"
    by (cases "settings ! i") (simp add: use_setting_def)
  note conj = conjI [OF i(1) conjI [OF this conjI [OF k(1) conjI [OF k(2) first_or_last [OF i(2,1)]]]]]
  have n: "length settings - 1 = 6" by simp
  show ?thesis
    unfolding Let_def length_settings n [unfolded length_settings] using conj [unfolded good_def k_def] by (rule exI)
qed

end
