(* ===== verification/Inet_Checksum.thy ===== *)
theory Inet_Checksum
  imports Vet_Prelude
begin

text \<open>
  The Internet checksum, \<open>checksum\<close> of \<open>code/nic-driver/smsc/smsc911x.c\<close> and the identical function
  of \<open>icmp_client/icmp.c\<close>. It is proved to be the complement of a one's complement sum, for buffers
  up to 128 kilobytes, and a packet with the checksum filled in is proved to verify.
\<close>

section \<open>The function\<close>

definition le16_of_bytes :: "u8 \<Rightarrow> u8 \<Rightarrow> u16" where
  "le16_of_bytes a b = ucast a OR push_bit 8 (ucast b)"

definition bytes_of_le16 :: "u16 \<Rightarrow> u8 list" where
  "bytes_of_le16 w = [ucast w, ucast (drop_bit 8 w)]"

text \<open>The loop over the halfwords, and the odd byte at the end.\<close>

fun checksum_sum :: "u8 list \<Rightarrow> u32 \<Rightarrow> u32" where
  "checksum_sum (a # b # bs) acc = checksum_sum bs (acc + ucast (le16_of_bytes a b))"
| "checksum_sum [a] acc = acc + ucast a"
| "checksum_sum [] acc = acc"

definition checksum :: "u8 list \<Rightarrow> u16" where
  "checksum b =
     (let acc = checksum_sum b 0;
          acc = drop_bit 16 acc + (acc AND 0xffff);
          acc = acc + drop_bit 16 acc in
      ucast (NOT acc))"

section \<open>One's complement sums\<close>

fun halfword_sum :: "u8 list \<Rightarrow> nat" where
  "halfword_sum (a # b # bs) = unat (le16_of_bytes a b) + halfword_sum bs"
| "halfword_sum [a] = unat a"
| "halfword_sum [] = 0"

definition fold16 :: "nat \<Rightarrow> nat" where
  "fold16 n = (let m = n div 65536 + n mod 65536 in if m < 65536 then m else m - 65535)"

lemma fold16_props:
  assumes "n < 2 ^ 32"
  shows "fold16 n \<le> 65535" and "fold16 n mod 65535 = n mod 65535" and "fold16 n = 0 \<longleftrightarrow> n = 0"
proof -
  let ?q = "n div 65536" and ?r = "n mod 65536"
  have b: "?q \<le> 65535" "?r \<le> 65535" using assms by auto
  have n: "n = ?q + ?r + 65535 * ?q" by simp
  then have m: "n mod 65535 = (?q + ?r) mod 65535" by (metis mod_mult_self2)
  show "fold16 n \<le> 65535" using b by (auto simp: fold16_def Let_def)
  show "fold16 n mod 65535 = n mod 65535"
  proof -
    have "(if x < 65536 then x else x - 65535) mod 65535 = x mod 65535" for x :: nat
      using le_mod_geq [of 65535 x] by auto
    then show ?thesis unfolding m fold16_def Let_def .
  qed
  show "fold16 n = 0 \<longleftrightarrow> n = 0" using n b by (auto simp: fold16_def Let_def)
qed

lemma unat_bound: "unat (w :: u16) < 65536" "unat (b :: u8) < 256"
proof -
  have "unat w < 2 ^ LENGTH(16)" by (rule unsigned_less)
  then show "unat w < 65536" by simp
  have "unat b < 2 ^ LENGTH(8)" by (rule unsigned_less)
  then show "unat b < 256" by simp
qed

lemma unat_ucast_u32: "unat (ucast (w :: u16) :: u32) = unat w" "unat (ucast (b :: u8) :: u32) = unat b"
  using unat_bound(1) [of w] unat_bound(2) [of b] by (simp_all add: unsigned_ucast_eq take_bit_nat_eq_self)

lemma unat_not_u16: "unat (NOT w :: u16) = 65535 - unat w"
proof -
  have m: "(- 1 :: u16) = 65535" by simp
  have "NOT w = 65535 - w" unfolding m [symmetric] by (simp add: not_eq_complement)
  moreover have "unat (65535 - w) = unat (65535 :: u16) - unat w"
    unfolding m [symmetric] by (rule unat_sub) (rule word_order.extremum)
  ultimately show ?thesis by simp
qed

lemma unat_checksum_sum: "unat (checksum_sum bs s) = (unat s + halfword_sum bs) mod 2 ^ 32"
proof (induction bs s rule: checksum_sum.induct)
  case (1 a b bs s)
  then show ?case by (simp add: unat_word_ariths unat_ucast_u32 mod_simps add.assoc)
next
  case (2 a s)
  then show ?case by (simp add: unat_word_ariths unat_ucast_u32)
next
  case (3 s)
  have "unat s < 2 ^ LENGTH(32)" by (rule unsigned_less)
  then show ?case by simp
qed

lemma halfword_sum_bound: "halfword_sum bs \<le> 65535 * ((length bs + 1) div 2)"
proof (induction bs rule: halfword_sum.induct)
  case (1 a b bs)
  with unat_bound(1) [of "le16_of_bytes a b"] show ?case by simp
next
  case (2 a)
  then show ?case using unat_bound(2) [of a] by simp
qed simp

lemma unat_checksum:
  assumes "length bs \<le> 131072"
  shows "unat (checksum bs) = 65535 - fold16 (halfword_sum bs)" and "halfword_sum bs < 2 ^ 32"
proof -
  let ?n = "halfword_sum bs" and ?s = "checksum_sum bs 0"
  have "?n \<le> 65535 * ((length bs + 1) div 2)" by (rule halfword_sum_bound)
  also have "\<dots> \<le> 65535 * 65536" using assms by (intro mult_left_mono) auto
  finally show n: "?n < 2 ^ 32" by simp
  then have s: "unat ?s = ?n" using unat_checksum_sum [of bs 0] by simp
  define m where "m = drop_bit 16 ?s + (?s AND 0xffff)"
  have m16: "(0xffff :: u32) = mask 16" by (simp add: mask_eq_exp_minus_1)
  have "unat (drop_bit 16 ?s) = ?n div 65536" using s by (simp add: drop_bit_eq_div unat_div)
  moreover have "unat (?s AND 0xffff) = ?n mod 65536"
    unfolding m16 using s by (simp add: take_bit_eq_mod unat_mod flip: take_bit_eq_mask)
  ultimately have m: "unat m = ?n div 65536 + ?n mod 65536"
    unfolding m_def using n by (simp add: unat_word_ariths)
  define r where "r = m + drop_bit 16 m"
  have mb: "unat m \<le> 131070" unfolding m using n by auto
  have "unat (drop_bit 16 m) = unat m div 65536" by (simp add: drop_bit_eq_div unat_div)
  then have r: "unat r = unat m + unat m div 65536" unfolding r_def using mb by (simp add: unat_word_ariths)
  have "unat (ucast r :: u16) = unat r mod 65536" by (simp add: unsigned_ucast_eq take_bit_eq_mod)
  also have "\<dots> = fold16 ?n" using mb r unfolding fold16_def m [symmetric] Let_def by (auto simp: le_mod_geq)
  finally have f: "unat (ucast r :: u16) = fold16 ?n" .
  have "checksum bs = NOT (ucast r)"
    unfolding checksum_def Let_def m_def [symmetric] r_def [symmetric]
    by (rule bit_word_eqI) (simp add: bit_simps)
  then show "unat (checksum bs) = 65535 - fold16 ?n"
    using f by (simp add: unat_not_u16)
qed

lemma halfword_sum_append: "even (length xs) \<Longrightarrow> halfword_sum (xs @ ys) = halfword_sum xs + halfword_sum ys"
  by (induction xs rule: halfword_sum.induct) auto

lemma le16_roundtrip [simp]: "le16_of_bytes (ucast w) (ucast (drop_bit 8 w)) = w"
  by (rule bit_word_eqI) (auto simp: le16_of_bytes_def bit_simps less_diff_conv2)

lemma le16_zero [simp]: "le16_of_bytes 0 0 = 0"
  by (simp add: le16_of_bytes_def)

lemma checksum_filled:
  assumes "even (length pre)" and "length pre + length post + 2 \<le> 131072"
  shows "checksum (pre @ bytes_of_le16 (checksum (pre @ [0, 0] @ post)) @ post) = 0"
proof -
  define c where "c = checksum (pre @ [0, 0] @ post)"
  let ?n = "halfword_sum (pre @ [0, 0] @ post)" and ?n' = "halfword_sum (pre @ bytes_of_le16 c @ post)"
  have n: "?n < 2 ^ 32" "unat c = 65535 - fold16 ?n"
    using unat_checksum [of "pre @ [0, 0] @ post"] assms(2) by (simp_all add: c_def)
  have n': "?n' < 2 ^ 32" "unat (checksum (pre @ bytes_of_le16 c @ post)) = 65535 - fold16 ?n'"
    using unat_checksum [of "pre @ bytes_of_le16 c @ post"] assms(2) by (simp_all add: bytes_of_le16_def)
  have sum: "?n' = ?n + unat c" using assms(1) by (simp add: halfword_sum_append bytes_of_le16_def)
  have f: "fold16 ?n \<le> 65535" "fold16 ?n mod 65535 = ?n mod 65535" "fold16 ?n = 0 \<longleftrightarrow> ?n = 0"
    using fold16_props [OF n(1)] by auto
  have "(?n + (65535 - fold16 ?n)) mod 65535 = (fold16 ?n + (65535 - fold16 ?n)) mod 65535"
    using f(2) by (intro mod_add_cong) simp_all
  then have "?n' mod 65535 = 0" using sum n(2) f(1) by simp
  moreover have "?n' \<noteq> 0" using sum n(2) f(3) by (cases "?n = 0") simp_all
  moreover have "x = 65535" if "x \<le> 65535" "x mod 65535 = 0" "x \<noteq> 0" for x :: nat
    using that by (cases "x < 65535") auto
  ultimately have "fold16 ?n' = 65535" using fold16_props [OF n'(1)] by simp
  then have "unat (checksum (pre @ bytes_of_le16 c @ post)) = 0" using n'(2) by simp
  then show ?thesis unfolding c_def by (simp only: unat_eq_zero)
qed

text \<open>
  C37: The checksum is the complement of the one's complement sum of the halfwords: modulo 65535 it
  agrees with the sum of all halfwords, and the sum is 0 only for a buffer of zeros. The two
  foldings of the code are enough: nothing is lost for buffers of up to 128 kilobytes.
\<close>

theorem checksum_ones_complement:
  assumes "length bs \<le> 131072"
  shows "unat (NOT (checksum bs)) mod 65535 = halfword_sum bs mod 65535 \<and>
    (unat (NOT (checksum bs)) = 0 \<longleftrightarrow> halfword_sum bs = 0)"
proof -
  have "unat (NOT (checksum bs)) = fold16 (halfword_sum bs)"
    using unat_checksum(1) [OF assms] fold16_props(1) [OF unat_checksum(2) [OF assms]] by (simp add: unat_not_u16)
  with fold16_props [OF unat_checksum(2) [OF assms]] show ?thesis by simp
qed

lemma checksum_ones_complement_witness:
  "unat (NOT (checksum [0xff, 0xff, 0x01, 0x02, 0x03])) mod 65535 = 0x204"
  using checksum_ones_complement [of "[0xff, 0xff, 0x01, 0x02, 0x03]"] by (simp add: le16_of_bytes_def)

end
