(* ===== verification/Smsc_Net.thy ===== *)
theory Smsc_Net
  imports Phy_Lib Inet_Checksum
begin

text \<open>
  The packet path of \<open>code/nic-driver/smsc/smsc911x.c\<close>: transmit status and statistics,
  \<open>smsc911x_poll\<close> with the answer to an attestation challenge, \<open>smsc911x_hard_start_xmit\<close>,
  \<open>smsc911x_irqhandler\<close>, \<open>smsc911x_open\<close> and \<open>smsc911x_stop\<close>.

  A socket buffer is the list of the bytes that were asked for, with the offset of its data and its length;
  an access outside of these bytes is \<open>None\<close>. The checksum functions the challenge is given to are
  parameters here. Packets handed to the network stack are collected in a list.
\<close>

section \<open>Socket buffers\<close>

record sk_buff =
  skb_buf :: "u8 list"
  skb_data :: nat
  skb_len :: u32

definition skb_get :: "nat \<Rightarrow> sk_buff \<Rightarrow> u8 option" where
  "skb_get i k = arr_get (skb_buf k) (skb_data k + i)"

definition skb_read :: "nat \<Rightarrow> nat \<Rightarrow> sk_buff \<Rightarrow> u8 list option" where
  "skb_read i n k =
     (if skb_data k + i + n \<le> length (skb_buf k) then Some (take n (drop (skb_data k + i) (skb_buf k))) else None)"

definition skb_write :: "nat \<Rightarrow> u8 list \<Rightarrow> sk_buff \<Rightarrow> sk_buff option" where
  "skb_write i bs k =
     (let j = skb_data k + i in
      if j + length bs \<le> length (skb_buf k)
      then Some (k\<lparr>skb_buf := take j (skb_buf k) @ bs @ drop (j + length bs) (skb_buf k)\<rparr>) else None)"

definition skb_reserve :: "nat \<Rightarrow> sk_buff \<Rightarrow> sk_buff" where
  "skb_reserve n k = k\<lparr>skb_data := skb_data k + n\<rparr>"

text \<open>The tail is behind the data; it must not leave the buffer.\<close>

definition skb_put :: "u32 \<Rightarrow> sk_buff \<Rightarrow> sk_buff option" where
  "skb_put n k =
     (if length (skb_buf k) < skb_data k + unat (skb_len k) + unat n then None
      else Some (k\<lparr>skb_len := skb_len k + n\<rparr>))"

definition skb_push :: "nat \<Rightarrow> sk_buff \<Rightarrow> sk_buff option" where
  "skb_push n k =
     (if skb_data k < n then None
      else Some (k\<lparr>skb_data := skb_data k - n, skb_len := skb_len k + of_nat n\<rparr>))"

definition skb_pull_inline :: "nat \<Rightarrow> sk_buff \<Rightarrow> sk_buff" where
  "skb_pull_inline n k =
     (if skb_len k < of_nat n then k
      else k\<lparr>skb_len := skb_len k - of_nat n, skb_data := skb_data k + n\<rparr>)"

definition ntohs :: "u16 \<Rightarrow> u16" where
  "ntohs w = drop_bit 8 w OR push_bit 8 w"

text \<open>The kind of the packet for the stack (\<open>pkt_type\<close>) is not kept; no DSA or trailer tags are configured.\<close>

definition eth_type_trans :: "sk_buff \<Rightarrow> (u16 \<times> sk_buff) option" where
  "eth_type_trans k = do {
     let mac_header = skb_data k;
     let k = skb_pull_inline 14 k;
     a \<leftarrow> arr_get (skb_buf k) (mac_header + 12);
     b \<leftarrow> arr_get (skb_buf k) (mac_header + 13);
     let h_proto = le16_of_bytes a b;
     if 1536 \<le> ntohs h_proto then Some (h_proto, k)
     else if 2 \<le> skb_len k then do {
       c \<leftarrow> skb_get 0 k;
       d \<leftarrow> skb_get 1 k;
       Some (if le16_of_bytes c d = 0xffff then ntohs 1 else ntohs 4, k)
     }
     else Some (ntohs 4, k)
   }"

section \<open>Transmission\<close>

definition smsc911x_tx_get_txstatcount :: "'d hw \<Rightarrow> 'd smsc911x_data \<Rightarrow> (u32 \<times> 'd smsc911x_data) option" where
  "smsc911x_tx_get_txstatcount h s = do {
     (v, s) \<leftarrow> smsc911x_reg_read h TX_FIFO_INF s;
     Some (drop_bit 16 (v AND TX_FIFO_INF_TSUSED), s)
   }"

text \<open>The body of the loop: what one status adds to the counters.\<close>

definition tx_count :: "u32 \<Rightarrow> net_device_stats \<Rightarrow> net_device_stats" where
  "tx_count tx_stat st =
     (if tx_stat AND 0x80000000 \<noteq> 0 then st
      else
        let st = (if tx_stat AND TX_STS_ES \<noteq> 0 then st\<lparr>tx_errors := tx_errors st + 1\<rparr>
                  else st\<lparr>tx_packets := tx_packets st + 1, tx_bytes := tx_bytes st + drop_bit 16 tx_stat\<rparr>);
            st = (if tx_stat AND TX_STS_EXCESS_COL \<noteq> 0
                  then st\<lparr>collisions := collisions st + 16, tx_aborted_errors := tx_aborted_errors st + 1\<rparr>
                  else st\<lparr>collisions := collisions st + (drop_bit 3 tx_stat AND 0xf)\<rparr>);
            st = (if tx_stat AND TX_STS_LOST_CARRIER \<noteq> 0 then st\<lparr>tx_carrier_errors := tx_carrier_errors st + 1\<rparr> else st) in
        if tx_stat AND TX_STS_LATE_COL \<noteq> 0
        then st\<lparr>collisions := collisions st + 1, tx_aborted_errors := tx_aborted_errors st + 1\<rparr> else st)"

text \<open>The loop ends when the chip has no more status words.\<close>

partial_function (option) smsc911x_tx_update_txcounters :: "'d hw \<Rightarrow> 'd smsc911x_data \<Rightarrow> 'd smsc911x_data option" where
  "smsc911x_tx_update_txcounters h s = do {
     (tx_stat, s) \<leftarrow> smsc911x_tx_get_txstatus h s;
     if tx_stat \<noteq> 0 then smsc911x_tx_update_txcounters h (s\<lparr>stats := tx_count tx_stat (stats s)\<rparr>)
     else Some s
   }"

text \<open>The words of a packet for the FIFO, from the word its data begins in.\<close>

definition skb_words :: "sk_buff \<Rightarrow> u32 list option" where
  "skb_words k =
     (let bufp = skb_data k - skb_data k mod 4;
          wrsz = drop_bit 2 (skb_len k + 3 + of_nat (skb_data k mod 4)) in
      if bufp + 4 * unat wrsz \<le> length (skb_buf k)
      then Some (words_of_bytes (take (4 * unat wrsz) (drop bufp (skb_buf k)))) else None)"

abbreviation (input) NETDEV_TX_OK :: int where "NETDEV_TX_OK \<equiv> 0"

text \<open>The queue is stopped when the FIFO is nearly full.\<close>

definition xmit_throttle :: "'d hw \<Rightarrow> u32 \<Rightarrow> 'd smsc911x_data \<Rightarrow> 'd smsc911x_data option" where
  "xmit_throttle h freespace s =
     (if freespace < TX_FIFO_LOW_THRESHOLD then do {
        let s = s\<lparr>queue_stopped := True\<rparr>;
        (temp, s) \<leftarrow> smsc911x_reg_read h FIFO_INT s;
        let temp = temp AND 0x00ffffff;
        let temp = temp OR 0x32000000;
        smsc911x_reg_write h FIFO_INT temp s
      }
      else Some s)"

definition smsc911x_hard_start_xmit :: "'d hw \<Rightarrow> sk_buff \<Rightarrow> 'd smsc911x_data \<Rightarrow> (int \<times> 'd smsc911x_data) option" where
  "smsc911x_hard_start_xmit h skb s = do {
     (v, s) \<leftarrow> smsc911x_reg_read h TX_FIFO_INF s;
     let freespace = v AND TX_FIFO_INF_TDFREE;
     let tx_cmd_a = push_bit 16 (of_nat (skb_data skb mod 4));
     let tx_cmd_a = tx_cmd_a OR (TX_CMD_A_FIRST_SEG OR TX_CMD_A_LAST_SEG);
     let tx_cmd_a = tx_cmd_a OR skb_len skb;
     let tx_cmd_b = push_bit 16 (skb_len skb);
     let tx_cmd_b = tx_cmd_b OR skb_len skb;
     s \<leftarrow> smsc911x_reg_write h TX_DATA_FIFO tx_cmd_a s;
     s \<leftarrow> smsc911x_reg_write h TX_DATA_FIFO tx_cmd_b s;
     ws \<leftarrow> skb_words skb;
     s \<leftarrow> ops_tx_writefifo h ws s;
     let freespace = freespace - (skb_len skb + 32);
     (n, s) \<leftarrow> smsc911x_tx_get_txstatcount h s;
     s \<leftarrow> (if 30 \<le> n then smsc911x_tx_update_txcounters h s else Some s);
     s \<leftarrow> xmit_throttle h freespace s;
     Some (NETDEV_TX_OK, s)
   }"

definition smsc911x_get_stats :: "'d hw \<Rightarrow> 'd smsc911x_data \<Rightarrow> (net_device_stats \<times> 'd smsc911x_data) option" where
  "smsc911x_get_stats h s = do {
     s \<leftarrow> smsc911x_tx_update_txcounters h s;
     (v, s) \<leftarrow> smsc911x_reg_read h RX_DROP s;
     let s = s\<lparr>stats := (stats s)\<lparr>rx_dropped := rx_dropped (stats s) + v\<rparr>\<rparr>;
     Some (stats s, s)
   }"

section \<open>Reception\<close>

definition smsc911x_rx_counterrors :: "u32 \<Rightarrow> net_device_stats \<Rightarrow> net_device_stats" where
  "smsc911x_rx_counterrors rxstat st =
     (let st1 = (if rxstat AND RX_STS_ES \<noteq> 0 then st\<lparr>rx_errors := rx_errors st + 1\<rparr> else st);
          crc_err = (rxstat AND RX_STS_ES \<noteq> 0 \<and> rxstat AND RX_STS_CRC_ERR \<noteq> 0);
          st2 = (if crc_err then st1\<lparr>rx_crc_errors := rx_crc_errors st1 + 1\<rparr> else st1) in
      if crc_err then st2
      else
        let st3 = (if rxstat AND RX_STS_FRAME_TYPE \<noteq> 0 \<and> rxstat AND RX_STS_LENGTH_ERR \<noteq> 0
                   then st2\<lparr>rx_length_errors := rx_length_errors st2 + 1\<rparr> else st2) in
        if rxstat AND RX_STS_MCAST \<noteq> 0 then st3\<lparr>multicast := multicast st3 + 1\<rparr> else st3)"

definition smsc911x_rx_fastforward :: "'d hw \<Rightarrow> u32 \<Rightarrow> 'd smsc911x_data \<Rightarrow> 'd smsc911x_data option" where
  "smsc911x_rx_fastforward h pktwords s =
     (if 4 \<le> pktwords then do {
        s \<leftarrow> smsc911x_reg_write h RX_DP_CTRL RX_DP_CTRL_RX_FFWD s;
        (_, s) \<leftarrow> poll_reg h RX_DP_CTRL (\<lambda>val. val AND RX_DP_CTRL_RX_FFWD \<noteq> 0) 499 s;
        Some s
      }
      else do {
        (_, s) \<leftarrow> read_words (smsc911x_reg_read h RX_DATA_FIFO) (unat pktwords) s;
        Some s
      })"

abbreviation (input) NET_IP_ALIGN :: nat where "NET_IP_ALIGN \<equiv> 2"

abbreviation (input) VET_ICMP_TYPE :: u8 where "VET_ICMP_TYPE \<equiv> 2"

abbreviation pkt_words :: "u32 \<Rightarrow> u32" where
  "pkt_words pktlength \<equiv> drop_bit 2 (pktlength + of_nat NET_IP_ALIGN + 3)"

text \<open>A packet is read into a new socket buffer of \<open>pktwords << 2\<close> bytes.\<close>

definition receive_frame :: "'d hw \<Rightarrow> u32 \<Rightarrow> 'd smsc911x_data \<Rightarrow> (u16 \<times> sk_buff \<times> 'd smsc911x_data) option" where
  "receive_frame h pktlength s = do {
     (ws, s) \<leftarrow> ops_rx_readfifo h (pkt_words pktlength) s;
     let skb = \<lparr>skb_buf = concat (map bytes_of_le32 ws), skb_data = 0, skb_len = 0\<rparr>;
     let skb = skb_reserve NET_IP_ALIGN skb;
     skb \<leftarrow> skb_put (pktlength - 4) skb;
     (protocol, skb) \<leftarrow> eth_type_trans skb;
     Some (protocol, skb, s)
   }"

definition is_challenge :: "u16 \<Rightarrow> sk_buff \<Rightarrow> bool option" where
  "is_challenge protocol skb =
     (if protocol \<noteq> 0x08 then Some False
      else do {
        p \<leftarrow> skb_get 9 skb;
        if p \<noteq> 0x01 then Some False
        else do {
          t \<leftarrow> skb_get 20 skb;
          Some (t = VET_ICMP_TYPE)
        }
      })"

text \<open>
  The answer to a challenge, as it is sent: the challenge is given to \<open>swattARM(buf, 52)\<close> or, if the code
  of the ICMP header is not zero, to \<open>swattARM_db_attack(buf, 52)\<close>.
\<close>

definition attest_reply :: "(u32 list \<Rightarrow> u32 list option) \<Rightarrow> (u32 list \<Rightarrow> u32 list option) \<Rightarrow> sk_buff \<Rightarrow> sk_buff option" where
  "attest_reply swatt swatt_db skb = do {
     bs \<leftarrow> skb_read 24 256 skb;
     let buf = words_of_bytes bs;
     code \<leftarrow> skb_get 21 skb;
     buf \<leftarrow> (if code = 0 then swatt buf else swatt_db buf);
     skb \<leftarrow> skb_write 24 (concat (map bytes_of_le32 buf)) skb;
     skb \<leftarrow> skb_write 22 [0, 0] skb;
     bs \<leftarrow> skb_read 20 (64 * 4 + 4) skb;
     skb \<leftarrow> skb_write 22 (bytes_of_le16 (checksum bs)) skb;
     ip_src \<leftarrow> skb_read 12 4 skb;
     ip_dest \<leftarrow> skb_read 16 4 skb;
     skb \<leftarrow> skb_write 12 ip_dest skb;
     skb \<leftarrow> skb_write 16 ip_src skb;
     skb \<leftarrow> skb_push 14 skb;
     h_dest \<leftarrow> skb_read 0 6 skb;
     h_src \<leftarrow> skb_read 6 6 skb;
     skb \<leftarrow> skb_write 0 h_src skb;
     skb_write 6 h_dest skb
   }"

definition napi_complete :: "'d smsc911x_data \<Rightarrow> 'd smsc911x_data option" where
  "napi_complete s = (if napi_sched s then Some (s\<lparr>napi_sched := False\<rparr>) else None)"

definition poll_finish :: "'d hw \<Rightarrow> 'd smsc911x_data \<Rightarrow> 'd smsc911x_data option" where
  "poll_finish h s = do {
     s \<leftarrow> smsc911x_reg_write h INT_STS INT_STS_RSFL s;
     s \<leftarrow> napi_complete s;
     (temp, s) \<leftarrow> smsc911x_reg_read h INT_EN s;
     let temp = temp OR INT_EN_RSFL_EN;
     smsc911x_reg_write h INT_EN temp s
   }"

definition rx_drop_one :: "'d smsc911x_data \<Rightarrow> 'd smsc911x_data" where
  "rx_drop_one s = s\<lparr>stats := (stats s)\<lparr>rx_dropped := rx_dropped (stats s) + 1\<rparr>\<rparr>"

definition rx_count :: "u32 \<Rightarrow> 'd smsc911x_data \<Rightarrow> 'd smsc911x_data" where
  "rx_count pktlength s = s\<lparr>stats := (stats s)\<lparr>rx_packets := rx_packets (stats s) + 1,
     rx_bytes := rx_bytes (stats s) + (pktlength - 4)\<rparr>\<rparr>"

text \<open>A good packet: the answer to a challenge is sent, all other packets go to the network stack.\<close>

definition rx_packet :: "'d hw \<Rightarrow> (u32 list \<Rightarrow> u32 list option) \<Rightarrow> (u32 list \<Rightarrow> u32 list option) \<Rightarrow>
    u32 \<Rightarrow> sk_buff list \<Rightarrow> 'd smsc911x_data \<Rightarrow> (sk_buff list \<times> 'd smsc911x_data) option" where
  "rx_packet h swatt swatt_db pktlength up s = do {
     (protocol, skb, s) \<leftarrow> receive_frame h pktlength s;
     challenge \<leftarrow> is_challenge protocol skb;
     (up, s) \<leftarrow>
       (if challenge then do {
          skb \<leftarrow> attest_reply swatt swatt_db skb;
          (_, s) \<leftarrow> smsc911x_hard_start_xmit h skb s;
          Some (up, s)
        }
        else Some (up @ [skb], s));
     Some (up, rx_count pktlength s)
   }"

text \<open>
  The loop of the poll function; its argument is what is left of the budget. The parameter \<open>alloc\<close> says
  whether the allocation for the \<open>n\<close>-th packet succeeds.
\<close>

fun poll_loop :: "'d hw \<Rightarrow> (u32 list \<Rightarrow> u32 list option) \<Rightarrow> (u32 list \<Rightarrow> u32 list option) \<Rightarrow> (nat \<Rightarrow> bool) \<Rightarrow>
    nat \<Rightarrow> nat \<Rightarrow> sk_buff list \<Rightarrow> 'd smsc911x_data \<Rightarrow> (nat \<times> sk_buff list \<times> 'd smsc911x_data) option" where
  "poll_loop h swatt swatt_db alloc 0 npackets up s = Some (npackets, up, s)"
| "poll_loop h swatt swatt_db alloc (Suc left) npackets up s = do {
     (rxstat, s) \<leftarrow> smsc911x_rx_get_rxstatus h s;
     if rxstat = 0 then do {
       s \<leftarrow> poll_finish h s;
       Some (npackets, up, s)
     }
     else do {
       let npackets = npackets + 1;
       let pktlength = rx_length rxstat;
       let pktwords = pkt_words pktlength;
       let s = s\<lparr>stats := smsc911x_rx_counterrors rxstat (stats s)\<rparr>;
       if rxstat AND RX_STS_ES \<noteq> 0 then do {
         s \<leftarrow> smsc911x_rx_fastforward h pktwords s;
         poll_loop h swatt swatt_db alloc left npackets up (rx_drop_one s)
       }
       else if \<not> alloc npackets then do {
         s \<leftarrow> smsc911x_rx_fastforward h pktwords s;
         Some (npackets, up, rx_drop_one s)
       }
       else do {
         (up, s) \<leftarrow> rx_packet h swatt swatt_db pktlength up s;
         poll_loop h swatt swatt_db alloc left npackets up s
       }
     }
   }"

definition smsc911x_poll :: "'d hw \<Rightarrow> (u32 list \<Rightarrow> u32 list option) \<Rightarrow> (u32 list \<Rightarrow> u32 list option) \<Rightarrow> (nat \<Rightarrow> bool) \<Rightarrow>
    int \<Rightarrow> 'd smsc911x_data \<Rightarrow> (nat \<times> sk_buff list \<times> 'd smsc911x_data) option" where
  "smsc911x_poll h swatt swatt_db alloc budget s = poll_loop h swatt swatt_db alloc (nat budget) 0 [] s"

section \<open>Interrupts\<close>

definition napi_schedule_prep :: "'d smsc911x_data \<Rightarrow> bool \<times> 'd smsc911x_data" where
  "napi_schedule_prep s = (\<not> napi_sched s, s\<lparr>napi_sched := True\<rparr>)"

definition irq_sw_int :: "'d hw \<Rightarrow> 'd smsc911x_data \<Rightarrow> 'd smsc911x_data option" where
  "irq_sw_int h s = do {
     (temp, s) \<leftarrow> smsc911x_reg_read h INT_EN s;
     let temp = temp AND NOT INT_EN_SW_INT_EN;
     s \<leftarrow> smsc911x_reg_write h INT_EN temp s;
     s \<leftarrow> smsc911x_reg_write h INT_STS INT_STS_SW_INT s;
     Some (s\<lparr>software_irq_signal := 1\<rparr>)
   }"

definition irq_rxstop :: "'d hw \<Rightarrow> 'd smsc911x_data \<Rightarrow> 'd smsc911x_data option" where
  "irq_rxstop h s = do {
     s \<leftarrow> smsc911x_reg_write h INT_STS INT_STS_RXSTOP_INT s;
     if multicast_update_pending s \<noteq> 0 then smsc911x_rx_multicast_update_workaround h s else Some s
   }"

definition irq_tdfa :: "'d hw \<Rightarrow> 'd smsc911x_data \<Rightarrow> 'd smsc911x_data option" where
  "irq_tdfa h s = do {
     (temp, s) \<leftarrow> smsc911x_reg_read h FIFO_INT s;
     let temp = temp OR FIFO_INT_TX_AVAIL_LEVEL;
     s \<leftarrow> smsc911x_reg_write h FIFO_INT temp s;
     s \<leftarrow> smsc911x_reg_write h INT_STS INT_STS_TDFA s;
     Some (s\<lparr>queue_stopped := False\<rparr>)
   }"

definition irq_rsfl :: "'d hw \<Rightarrow> 'd smsc911x_data \<Rightarrow> 'd smsc911x_data option" where
  "irq_rsfl h s =
     (let (prep, s) = napi_schedule_prep s in
      if prep then do {
        (temp, s) \<leftarrow> smsc911x_reg_read h INT_EN s;
        let temp = temp AND NOT INT_EN_RSFL_EN;
        smsc911x_reg_write h INT_EN temp s
      }
      else Some s)"

text \<open>
  \<open>if (pending) { ...; serviced = IRQ_HANDLED; }\<close>. The result of the handler is whether the interrupt was
  handled (\<open>IRQ_HANDLED\<close>, not \<open>IRQ_NONE\<close>).
\<close>

definition irq_serve :: "bool \<Rightarrow> ('d smsc911x_data \<Rightarrow> 'd smsc911x_data option) \<Rightarrow> bool \<times> 'd smsc911x_data \<Rightarrow> (bool \<times> 'd smsc911x_data) option" where
  "irq_serve pending f = (\<lambda>(serviced, s). if pending then do {s \<leftarrow> f s; Some (True, s)} else Some (serviced, s))"

definition smsc911x_irqhandler :: "'d hw \<Rightarrow> 'd smsc911x_data \<Rightarrow> (bool \<times> 'd smsc911x_data) option" where
  "smsc911x_irqhandler h s = do {
     (intsts, s) \<leftarrow> smsc911x_reg_read h INT_STS s;
     (inten, s) \<leftarrow> smsc911x_reg_read h INT_EN s;
     x \<leftarrow> irq_serve (intsts AND inten AND INT_STS_SW_INT \<noteq> 0) (irq_sw_int h) (False, s);
     x \<leftarrow> irq_serve (intsts AND inten AND INT_STS_RXSTOP_INT \<noteq> 0) (irq_rxstop h) x;
     x \<leftarrow> irq_serve (intsts AND inten AND INT_STS_TDFA \<noteq> 0) (irq_tdfa h) x;
     x \<leftarrow> irq_serve (intsts AND inten AND INT_STS_RXE \<noteq> 0) (smsc911x_reg_write h INT_STS INT_STS_RXE) x;
     irq_serve (intsts AND inten AND INT_STS_RSFL \<noteq> 0) (irq_rsfl h) x
   }"

section \<open>Opening and stopping the device\<close>

definition napi_enable :: "'d smsc911x_data \<Rightarrow> 'd smsc911x_data option" where
  "napi_enable s = (if napi_sched s then Some (s\<lparr>napi_sched := False\<rparr>) else None)"

text \<open>
  \<open>napi_disable\<close> waits until no poll is scheduled. This is modelled for the case that none is.
\<close>

definition napi_disable :: "'d smsc911x_data \<Rightarrow> 'd smsc911x_data option" where
  "napi_disable s = (if napi_sched s then None else Some (s\<lparr>napi_sched := True\<rparr>))"

text \<open>
  One millisecond of sleep: the chip goes on and may raise an interrupt, which is then served. What the
  chip does in this time is a parameter.
\<close>

definition msleep :: "'d hw \<Rightarrow> ('d \<Rightarrow> bool \<times> 'd) \<Rightarrow> 'd smsc911x_data \<Rightarrow> 'd smsc911x_data option" where
  "msleep h elapse s =
     (let (raised, d) = elapse (chip s); s = s\<lparr>chip := d\<rparr> in
      if raised then do {(_, s) \<leftarrow> smsc911x_irqhandler h s; Some s} else Some s)"

text \<open>\<open>while (timeout--) { if (pdata->software_irq_signal) break; msleep(1); }\<close>\<close>

fun wait_sw_irq :: "'d hw \<Rightarrow> ('d \<Rightarrow> bool \<times> 'd) \<Rightarrow> nat \<Rightarrow> 'd smsc911x_data \<Rightarrow> 'd smsc911x_data option" where
  "wait_sw_irq h elapse 0 s = Some s"
| "wait_sw_irq h elapse (Suc timeout) s =
     (if software_irq_signal s \<noteq> 0 then Some s
      else do {
        s \<leftarrow> msleep h elapse s;
        wait_sw_irq h elapse timeout s
      })"

text \<open>The registers up to the interrupt test.\<close>

definition open_setup :: "'d hw \<Rightarrow> 'd smsc911x_data \<Rightarrow> 'd smsc911x_data option" where
  "open_setup h s = do {
     s \<leftarrow> smsc911x_reg_write h HW_CFG 0x00050000 s;
     s \<leftarrow> smsc911x_reg_write h AFC_CFG 0x006e3740 s;
     s \<leftarrow> locked_mac_write h VLAN1 0x8100 s;
     (_, s) \<leftarrow> poll_reg h E2P_CMD (\<lambda>v. v AND E2P_CMD_EPC_BUSY \<noteq> 0) 49 s;
     s \<leftarrow> smsc911x_reg_write h GPIO_CFG 0x70070000 s;
     s \<leftarrow> spin_lock_mac s;
     s \<leftarrow> smsc911x_set_hw_mac_address h (dev_addr s) s;
     let s = spin_unlock_mac s;
     s \<leftarrow> smsc911x_reg_write h INT_EN 0 s;
     s \<leftarrow> smsc911x_reg_write h INT_STS 0xffffffff s;
     let intcfg = push_bit 24 10 OR INT_CFG_IRQ_EN;
     let intcfg = (if irq_polarity (config s) \<noteq> 0 then intcfg OR INT_CFG_IRQ_POL else intcfg);
     let intcfg = (if irq_type (config s) \<noteq> 0 then intcfg OR INT_CFG_IRQ_TYPE else intcfg);
     s \<leftarrow> smsc911x_reg_write h INT_CFG intcfg s;
     let s = s\<lparr>software_irq_signal := 0\<rparr>;
     (temp, s) \<leftarrow> smsc911x_reg_read h INT_EN s;
     let temp = temp OR INT_EN_SW_INT_EN;
     smsc911x_reg_write h INT_EN temp s
   }"

text \<open>What follows a passed interrupt test.\<close>

definition open_start :: "'d hw \<Rightarrow> 'd smsc911x_data \<Rightarrow> 'd smsc911x_data option" where
  "open_start h s = do {
     let s = s\<lparr>last_duplex := -1, last_carrier := -1\<rparr>;
     p \<leftarrow> phy_dev s;
     p \<leftarrow> phy_start p;
     let s = s\<lparr>phy_dev := Some p\<rparr>;
     (temp, s) \<leftarrow> smsc911x_reg_read h HW_CFG s;
     let temp = temp AND (HW_CFG_TX_FIF_SZ OR 0x00000fff);
     let temp = temp OR HW_CFG_SF;
     s \<leftarrow> smsc911x_reg_write h HW_CFG temp s;
     (temp, s) \<leftarrow> smsc911x_reg_read h FIFO_INT s;
     let temp = temp OR FIFO_INT_TX_AVAIL_LEVEL;
     let temp = temp AND NOT FIFO_INT_RX_STS_LEVEL;
     s \<leftarrow> smsc911x_reg_write h FIFO_INT temp s;
     s \<leftarrow> smsc911x_reg_write h RX_CFG (push_bit 8 (of_nat NET_IP_ALIGN)) s;
     s \<leftarrow> napi_enable s;
     (temp, s) \<leftarrow> smsc911x_reg_read h INT_EN s;
     let temp = temp OR (INT_EN_TDFA_EN OR INT_EN_RSFL_EN OR INT_EN_RXSTOP_INT_EN);
     s \<leftarrow> smsc911x_reg_write h INT_EN temp s;
     s \<leftarrow> spin_lock_mac s;
     (temp, s) \<leftarrow> smsc911x_mac_read h MAC_CR s;
     let temp = temp OR (MAC_CR_TXEN OR MAC_CR_RXEN OR MAC_CR_HBDIS);
     s \<leftarrow> smsc911x_mac_write h MAC_CR temp s;
     let s = spin_unlock_mac s;
     s \<leftarrow> smsc911x_reg_write h TX_CFG TX_CFG_TX_ON s;
     Some (s\<lparr>queue_stopped := False\<rparr>)
   }"

definition smsc911x_open :: "'d hw \<Rightarrow> ('d \<Rightarrow> bool \<times> 'd) \<Rightarrow> 'd smsc911x_data \<Rightarrow> (int \<times> 'd smsc911x_data) option" where
  "smsc911x_open h elapse s =
     (if phy_dev s = None then Some (- EAGAIN, s)
      else if \<not> is_valid_ether_addr (dev_addr s) then Some (- EADDRNOTAVAIL, s)
      else do {
        (r, s) \<leftarrow> smsc911x_soft_reset h s;
        if r \<noteq> 0 then Some (- EIO, s)
        else do {
          s \<leftarrow> open_setup h s;
          s \<leftarrow> wait_sw_irq h elapse 1000 s;
          if software_irq_signal s = 0 then Some (- ENODEV, s)
          else do {
            s \<leftarrow> open_start h s;
            Some (0, s)
          }
        }
      })"

definition smsc911x_stop :: "'d hw \<Rightarrow> 'd smsc911x_data \<Rightarrow> (int \<times> 'd smsc911x_data) option" where
  "smsc911x_stop h s = do {
     (temp, s) \<leftarrow> smsc911x_reg_read h INT_CFG s;
     let temp = temp AND NOT INT_CFG_IRQ_EN;
     s \<leftarrow> smsc911x_reg_write h INT_CFG temp s;
     let s = s\<lparr>queue_stopped := True\<rparr>;
     s \<leftarrow> napi_disable s;
     (v, s) \<leftarrow> smsc911x_reg_read h RX_DROP s;
     let s = s\<lparr>stats := (stats s)\<lparr>rx_dropped := rx_dropped (stats s) + v\<rparr>\<rparr>;
     s \<leftarrow> smsc911x_tx_update_txcounters h s;
     s \<leftarrow> (case phy_dev s of
         None \<Rightarrow> Some s
       | Some p \<Rightarrow> do {
           (p, s) \<leftarrow> phy_stop h p s;
           Some (s\<lparr>phy_dev := Some p\<rparr>)
         });
     Some (0, s)
   }"

section \<open>What the packet path keeps\<close>

text \<open>The members no function of the packet path changes.\<close>

definition frame :: "'d smsc911x_data \<Rightarrow> 'd smsc911x_data \<Rightarrow> bool" where
  "frame s t \<longleftrightarrow> ioaddr t = ioaddr s \<and> config t = config s \<and> ops t = ops s \<and> dev_lock t = dev_lock s \<and>
     mac_lock t = mac_lock s \<and> phy_dev t = phy_dev s \<and> generation t = generation s \<and> dev_addr t = dev_addr s \<and>
     mc_list t = mc_list s \<and> running t = running s \<and> loopback_tx_pkt t = loopback_tx_pkt s \<and>
     loopback_rx_pkt t = loopback_rx_pkt s \<and> carrier t = carrier s"

lemma frame_refl [simp]: "frame s s"
  by (simp add: frame_def)

lemma frame_trans: "frame s t \<Longrightarrow> frame t u \<Longrightarrow> frame s u"
  by (simp add: frame_def)

lemma frame_updates [simp]:
  "frame s (t\<lparr>chip := d\<rparr>) = frame s t" "frame s (t\<lparr>stats := st\<rparr>) = frame s t"
  "frame s (t\<lparr>queue_stopped := b\<rparr>) = frame s t" "frame s (t\<lparr>napi_sched := b\<rparr>) = frame s t"
  "frame s (t\<lparr>software_irq_signal := x\<rparr>) = frame s t" "frame s (t\<lparr>multicast_update_pending := x\<rparr>) = frame s t"
  "frame s (t\<lparr>last_duplex := y\<rparr>) = frame s t" "frame s (t\<lparr>last_carrier := y\<rparr>) = frame s t"
  by (simp_all add: frame_def)

lemma frame_from_updates [simp]:
  "frame (s\<lparr>chip := d\<rparr>) t = frame s t" "frame (s\<lparr>stats := st\<rparr>) t = frame s t"
  "frame (s\<lparr>queue_stopped := b\<rparr>) t = frame s t" "frame (s\<lparr>napi_sched := b\<rparr>) t = frame s t"
  "frame (s\<lparr>software_irq_signal := x\<rparr>) t = frame s t"
  by (simp_all add: frame_def)

lemma frameD: "frame s t \<Longrightarrow> ready s \<Longrightarrow> ready t" "frame s t \<Longrightarrow> \<not> mac_lock s \<Longrightarrow> \<not> mac_lock t"
  "frame s t \<Longrightarrow> port t = port s" "frame s t \<Longrightarrow> dev_addr t = dev_addr s" "frame s t \<Longrightarrow> phy_dev t = phy_dev s"
  "frame s t \<Longrightarrow> carrier t = carrier s" "frame s t \<Longrightarrow> running t = running s"
  by (simp_all add: frame_def ready_def)

text \<open>The counters of received packets.\<close>

definition rx_same :: "net_device_stats \<Rightarrow> net_device_stats \<Rightarrow> bool" where
  "rx_same st u \<longleftrightarrow> rx_packets u = rx_packets st \<and> rx_bytes u = rx_bytes st \<and> rx_dropped u = rx_dropped st \<and>
     rx_errors u = rx_errors st \<and> multicast u = multicast st"

lemma rx_same_tx_count [simp]: "rx_same st (tx_count t st)"
  by (simp add: tx_count_def rx_same_def Let_def)

lemma rx_same_refl [simp]: "rx_same st st"
  by (simp add: rx_same_def)

lemma rx_same_trans: "rx_same a b \<Longrightarrow> rx_same b c \<Longrightarrow> rx_same a c"
  by (simp add: rx_same_def)

text \<open>
  The transmit status FIFO of the chip empties: reading a status takes it out. The loop over the status
  words relies on this.
\<close>

definition tx_drains :: "'d hw \<Rightarrow> u32 \<times> smsc911x_platform_config \<times> smsc911x_ops \<Rightarrow> bool" where
  "tx_drains h p \<longleftrightarrow> (\<exists>m :: 'd \<Rightarrow> nat. \<forall>d.
     let (v, d1) = chip_read h p TX_FIFO_INF d; (t, d2) = chip_read h p TX_STATUS_FIFO d1 in
     v AND TX_FIFO_INF_TSUSED \<noteq> 0 \<longrightarrow> t \<noteq> 0 \<longrightarrow> m d2 < m d)"

text \<open>An invariant of the chip that the reads of the loop keep holds after the loop.\<close>

lemma holds_update_txcounters_inv:
  assumes "tx_drains h (port s)" and "ready s" and I: "I (chip s)"
    and keep: "\<And>d r. r \<in> {TX_FIFO_INF, TX_STATUS_FIFO} \<Longrightarrow> I d \<Longrightarrow> I (snd (chip_read h (port s) r d))"
    and P: "\<And>d st. I d \<Longrightarrow> rx_same (stats s) st \<Longrightarrow> P (s\<lparr>chip := d, stats := st\<rparr>)"
  shows "holds (smsc911x_tx_update_txcounters h s) P"
proof -
  from assms(1) obtain m :: "_ \<Rightarrow> nat" where m: "\<And>d. let (v, d1) = chip_read h (port s) TX_FIFO_INF d;
      (t, d2) = chip_read h (port s) TX_STATUS_FIFO d1 in v AND TX_FIFO_INF_TSUSED \<noteq> 0 \<longrightarrow> t \<noteq> 0 \<longrightarrow> m d2 < m d"
    unfolding tx_drains_def by blast
  have "holds (smsc911x_tx_update_txcounters h (s\<lparr>chip := d, stats := st\<rparr>)) P" if "I d" "rx_same (stats s) st" for d st
    using that
  proof (induction "m d" arbitrary: d st rule: less_induct)
    case less
    let ?v = "fst (chip_read h (port s) TX_FIFO_INF d)" and ?d1 = "snd (chip_read h (port s) TX_FIFO_INF d)"
    let ?t = "fst (chip_read h (port s) TX_STATUS_FIFO ?d1)" and ?d2 = "snd (chip_read h (port s) TX_STATUS_FIFO ?d1)"
    have "m ?d2 < m d" if "?v AND TX_FIFO_INF_TSUSED \<noteq> 0" "?t \<noteq> 0"
      using m [of d] that by (simp add: case_prod_unfold Let_def)
    moreover have "rx_same (stats s) (tx_count ?t st)"
      using less.prems(2) by (rule rx_same_trans) simp
    moreover have "I ?d1" "I ?d2" using less.prems(1) by (simp_all add: keep)
    ultimately show ?case
      using less.hyps [of ?d2 "tx_count ?t st"] assms(2) P less.prems
      by (subst smsc911x_tx_update_txcounters.simps)
        (simp add: smsc911x_tx_get_txstatus_def reg_read_eq case_prod_unfold Let_def)
  qed
  from this [of "chip s" "stats s"] I show ?thesis by simp
qed

lemma holds_update_txcounters [drv_rules]:
  assumes "tx_drains h (port s)" and "ready s"
    and "\<And>d st. rx_same (stats s) st \<Longrightarrow> P (s\<lparr>chip := d, stats := st\<rparr>)"
  shows "holds (smsc911x_tx_update_txcounters h s) P"
  using assms by (intro holds_update_txcounters_inv [where I = "\<lambda>_. True"]) auto

lemma holds_txstatcount [drv_rules]:
  "ready s \<Longrightarrow> (\<And>v d. P (v, s\<lparr>chip := d\<rparr>)) \<Longrightarrow> holds (smsc911x_tx_get_txstatcount h s) P"
  by (auto simp: smsc911x_tx_get_txstatcount_def intro!: drv_rules)

text \<open>A socket buffer that can be sent: its data is in the buffer, which is made of whole words.\<close>

definition skb_ok :: "sk_buff \<Rightarrow> bool" where
  "skb_ok k \<longleftrightarrow> 4 dvd length (skb_buf k) \<and> skb_data k + unat (skb_len k) \<le> length (skb_buf k) \<and> unat (skb_len k) < 0x10000"

lemma skb_words_bound:
  assumes "skb_ok k"
  shows "(skb_data k - skb_data k mod 4) + 4 * ((unat (skb_len k) + skb_data k mod 4 + 3) div 4) \<le> length (skb_buf k)"
proof -
  let ?o = "skb_data k mod 4" and ?l = "unat (skb_len k)" and ?n = "length (skb_buf k)"
  from assms obtain q where q: "?n = 4 * q" by (auto simp: skb_ok_def)
  define a where "a = skb_data k div 4"
  have d: "skb_data k = 4 * a + ?o" by (simp add: a_def)
  with assms q have le: "?l + ?o \<le> 4 * (q - a)" unfolding skb_ok_def by linarith
  then have "(?l + ?o + 3) div 4 \<le> (4 * (q - a) + 3) div 4" by (intro div_le_mono) simp
  also have "(4 * (q - a) + 3) div 4 = q - a" by simp
  finally have "(?l + ?o + 3) div 4 \<le> q - a" .
  moreover have "a \<le> q" using assms d q unfolding skb_ok_def by linarith
  ultimately have "4 * a + 4 * ((?l + ?o + 3) div 4) \<le> 4 * q" by linarith
  then show ?thesis using d q by linarith
qed

lemma skb_words_eq:
  assumes "skb_ok k"
  shows "skb_words k = Some (words_of_bytes (take (4 * ((unat (skb_len k) + skb_data k mod 4 + 3) div 4))
    (drop (skb_data k - skb_data k mod 4) (skb_buf k))))"
proof -
  let ?o = "skb_data k mod 4" and ?l = "unat (skb_len k)"
  have "?o < 4" by simp
  moreover have "?l < 65536" using assms by (simp add: skb_ok_def)
  ultimately have lt: "?l + 3 + ?o < 4294967296" by linarith
  have "unat (skb_len k + 3 + of_nat ?o) = ?l + ?o + 3"
    using lt by (simp add: unat_word_ariths unat_of_nat)
  then have "unat (drop_bit 2 (skb_len k + 3 + of_nat ?o)) = (?l + ?o + 3) div 4"
    by (simp add: drop_bit_eq_div unat_div)
  with skb_words_bound [OF assms] show ?thesis by (simp add: skb_words_def Let_def)
qed

text \<open>The two commands in front of a packet, and the test that stops the queue.\<close>

abbreviation tx_cmds :: "sk_buff \<Rightarrow> u32 list" where
  "tx_cmds k \<equiv> [(push_bit 16 (of_nat (skb_data k mod 4)) OR (TX_CMD_A_FIRST_SEG OR TX_CMD_A_LAST_SEG)) OR skb_len k,
     push_bit 16 (skb_len k) OR skb_len k]"

abbreviation tx_low :: "'d hw \<Rightarrow> sk_buff \<Rightarrow> 'd smsc911x_data \<Rightarrow> bool" where
  "tx_low h k s \<equiv> (fst (chip_read h (port s) TX_FIFO_INF (chip s)) AND TX_FIFO_INF_TDFREE) - (skb_len k + 32) < TX_FIFO_LOW_THRESHOLD"

lemma holds_xmit_inv:
  assumes "tx_drains h (port s)" and "ready s" and "skb_words k = Some ws"
    and I: "I (fold (chip_write h (port s) TX_DATA_FIFO) (tx_cmds k @ map (fifo_swap (config s)) ws)
      (snd (chip_read h (port s) TX_FIFO_INF (chip s))))"
    and keep: "\<And>d r. r \<in> {TX_FIFO_INF, TX_STATUS_FIFO, FIFO_INT} \<Longrightarrow> I d \<Longrightarrow> I (snd (chip_read h (port s) r d))"
      "\<And>d v. I d \<Longrightarrow> I (chip_write h (port s) FIFO_INT v d)"
    and P: "\<And>d st. I d \<Longrightarrow> rx_same (stats s) st \<Longrightarrow> P (0, s\<lparr>chip := d, stats := st, queue_stopped := queue_stopped s \<or> tx_low h k s\<rparr>)"
  shows "holds (smsc911x_hard_start_xmit h k s) P"
proof -
  let ?d0 = "fold (chip_write h (port s) TX_DATA_FIFO) (tx_cmds k @ map (fifo_swap (config s)) ws)
    (snd (chip_read h (port s) TX_FIFO_INF (chip s)))"
  let ?f = "(fst (chip_read h (port s) TX_FIFO_INF (chip s)) AND TX_FIFO_INF_TDFREE) - (skb_len k + 32)"
  let ?s1 = "s\<lparr>chip := snd (chip_read h (port s) TX_FIFO_INF ?d0)\<rparr>"
  have rest: "holds (xmit_throttle h ?f (s\<lparr>chip := d, stats := st\<rparr>)) (\<lambda>t. P (0, t))" if "I d" "rx_same (stats s) st" for d st
    using P [of d st] P [of "chip_write h (port s) FIFO_INT ((fst (chip_read h (port s) FIFO_INT d) AND 0x00ffffff) OR 0x32000000)
        (snd (chip_read h (port s) FIFO_INT d))" st] that keep assms(2)
    by (auto simp: xmit_throttle_def reg_read_eq reg_write_eq case_prod_unfold Let_def)
  have "I (chip ?s1)" using I by (simp add: keep(1))
  then have "holds (smsc911x_tx_update_txcounters h ?s1) (\<lambda>t. holds (xmit_throttle h ?f t) (\<lambda>t. P (0, t)))"
    "holds (xmit_throttle h ?f ?s1) (\<lambda>t. P (0, t))"
    using assms(1,2) rest keep(1) rest [where st = "stats s" and d = "chip ?s1"]
    by (auto intro!: holds_update_txcounters_inv [where I = I])
  then show ?thesis
    using assms(2,3)
    by (simp add: smsc911x_hard_start_xmit_def smsc911x_tx_get_txstatcount_def reg_read_eq reg_write_eq tx_writefifo_eq
        fold_map comp_def case_prod_unfold Let_def)
qed

lemma holds_xmit [drv_rules]:
  assumes "tx_drains h (port s)" and "ready s" and "skb_ok k"
    and "\<And>d st q. rx_same (stats s) st \<Longrightarrow> P (0, s\<lparr>chip := d, stats := st, queue_stopped := q\<rparr>)"
  shows "holds (smsc911x_hard_start_xmit h k s) P"
  using assms by (intro holds_xmit_inv [where I = "\<lambda>_. True", OF _ _ skb_words_eq]) auto

section \<open>What is sent\<close>

text \<open>
  The data FIFO as the data sheet has it: it takes the words that are written to it, and no other access of
  the transmission changes it. A packet is two command words and the data; the first command has the
  offset of the packet in its first word (bits 16 to 20) and its length (bits 0 to 10).
\<close>

definition tx_fifo_of :: "'d hw \<Rightarrow> u32 \<times> smsc911x_platform_config \<times> smsc911x_ops \<Rightarrow> ('d \<Rightarrow> u32 list) \<Rightarrow> bool" where
  "tx_fifo_of h p fifo \<longleftrightarrow>
     (\<forall>d v. fifo (chip_write h p TX_DATA_FIFO v d) = fifo d @ [v] \<and> fifo (chip_write h p FIFO_INT v d) = fifo d) \<and>
     (\<forall>d r. r \<in> {TX_FIFO_INF, TX_STATUS_FIFO, FIFO_INT} \<longrightarrow> fifo (snd (chip_read h p r d)) = fifo d)"

definition tx_packet :: "u32 list \<Rightarrow> u8 list" where
  "tx_packet ws = (case ws of
     a # b # ds \<Rightarrow> take (unat (a AND 0x7ff)) (drop (unat (drop_bit 16 a AND 0x1f)) (concat (map bytes_of_le32 ds)))
   | _ \<Rightarrow> [])"

lemma fifo_fold: "tx_fifo_of h p fifo \<Longrightarrow> fifo (fold (chip_write h p TX_DATA_FIFO) ws d) = fifo d @ ws"
  by (induction ws arbitrary: d) (auto simp: tx_fifo_of_def)

lemma tx_cmd_fields:
  fixes l :: u32
  assumes "unat l < 2048" and "n < 4"
  shows "((push_bit 16 (of_nat n) OR (TX_CMD_A_FIRST_SEG OR TX_CMD_A_LAST_SEG)) OR l) AND 0x7ff = l"
    and "unat (drop_bit 16 ((push_bit 16 (of_nat n) OR (TX_CMD_A_FIRST_SEG OR TX_CMD_A_LAST_SEG)) OR l) AND 0x1f) = n"
proof -
  have "unat (take_bit 11 l) = unat l"
    unfolding unsigned_take_bit_eq using assms(1) by (simp add: take_bit_nat_eq_self)
  then have t: "take_bit 11 l = l" by (simp only: word_unat_eq_iff)
  then have l: "l AND 0x7ff = l" by (simp add: take_bit_eq_mask mask_eq_exp_minus_1)
  have "drop_bit 16 (take_bit 11 l) = 0" by (simp add: drop_bit_take_bit)
  then have dl: "drop_bit 16 l = 0" by (simp only: t)
  from assms(2) have "n = 0 \<or> n = 1 \<or> n = 2 \<or> n = 3" by auto
  with l dl show "((push_bit 16 (of_nat n) OR (TX_CMD_A_FIRST_SEG OR TX_CMD_A_LAST_SEG)) OR l) AND 0x7ff = l"
    "unat (drop_bit 16 ((push_bit 16 (of_nat n) OR (TX_CMD_A_FIRST_SEG OR TX_CMD_A_LAST_SEG)) OR l) AND 0x1f) = n"
    by (auto simp: bit.conj_disj_distrib2 drop_bit_or)
qed

lemma xmit_packet_words:
  assumes "ready s" and "tx_drains h (port s)" and "tx_fifo_of h (port s) fifo" and "skb_ok k"
    and "unat (skb_len k) < 2048" and "cfg_flags (config s) AND SMSC911X_SWAP_FIFO = 0"
  shows "\<exists>t ws. smsc911x_hard_start_xmit h k s = Some (0, t) \<and> fifo (chip t) = fifo (chip s) @ ws \<and>
    tx_packet ws = take (unat (skb_len k)) (drop (skb_data k) (skb_buf k))"
proof -
  let ?o = "skb_data k mod 4" and ?l = "unat (skb_len k)"
  let ?bs = "take (4 * ((?l + ?o + 3) div 4)) (drop (skb_data k - ?o) (skb_buf k))"
  let ?ws = "words_of_bytes ?bs"
  have "map (fifo_swap (config s)) ?ws = ?ws"
  proof -
    have "fifo_swap (config s) = id" by (rule ext) (simp add: fifo_swap_def assms(6))
    then show ?thesis by simp
  qed
  then have h: "holds (smsc911x_hard_start_xmit h k s) (\<lambda>(r, t). r = 0 \<and> fifo (chip t) = fifo (chip s) @ tx_cmds k @ ?ws)"
    using assms(3)
    by (intro holds_xmit_inv [OF assms(2,1) skb_words_eq [OF assms(4)], where I = "\<lambda>d. fifo d = fifo (chip s) @ tx_cmds k @ ?ws"])
      (simp_all only: fifo_fold, auto simp: tx_fifo_of_def)
  have "length ?bs = 4 * ((?l + ?o + 3) div 4)"
    using skb_words_bound [OF assms(4)] by simp
  then have "concat (map bytes_of_le32 ?ws) = ?bs" by (rule bytes_of_words_of_bytes)
  then have "tx_packet (tx_cmds k @ ?ws) = take ?l (drop ?o ?bs)"
    using tx_cmd_fields [OF assms(5), of ?o] by (simp add: tx_packet_def)
  also have "\<dots> = take ?l (drop (skb_data k) (skb_buf k))"
  proof -
    have "?l + ?o \<le> 4 * ((?l + ?o + 3) div 4)" by presburger
    moreover have "?o \<le> skb_data k" by simp
    ultimately show ?thesis by (simp add: drop_take)
  qed
  finally show ?thesis using h by (auto dest!: holdsD)
qed

text \<open>
  C14: What \<open>smsc911x_hard_start_xmit\<close> writes to the data FIFO is the packet: read by the rules of the data
  sheet, the words give exactly the bytes of the socket buffer, whatever the alignment of its data.
\<close>

theorem xmit_sends_packet:
  assumes "ready s" and "tx_drains h (port s)" and "tx_fifo_of h (port s) fifo" and "skb_ok k"
    and "unat (skb_len k) < 2048" and "cfg_flags (config s) AND SMSC911X_SWAP_FIFO = 0"
  shows "\<exists>t ws. smsc911x_hard_start_xmit h k s = Some (0, t) \<and> fifo (chip t) = fifo (chip s) @ ws \<and>
    tx_packet ws = take (unat (skb_len k)) (drop (skb_data k) (skb_buf k))"
  using assms by (rule xmit_packet_words)

abbreviation tx_free :: "'d hw \<Rightarrow> 'd smsc911x_data \<Rightarrow> u32" where
  "tx_free h s \<equiv> fst (chip_read h (port s) TX_FIFO_INF (chip s)) AND TX_FIFO_INF_TDFREE"

lemma tx_low_iff:
  assumes "skb_ok k"
  shows "tx_low h k s \<longleftrightarrow> unat (skb_len k) + 32 \<le> unat (tx_free h s) \<and> unat (tx_free h s) < unat (skb_len k) + 32 + 1600"
proof -
  have f: "unat (tx_free h s) \<le> 65535"
    using word_and_le1 [of "fst (chip_read h (port s) TX_FIFO_INF (chip s))" "0xffff"]
    by (simp add: word_le_nat_alt)
  have n: "unat (skb_len k + 32) = unat (skb_len k) + 32" "unat (skb_len k) < 65536"
    using assms by (simp_all add: skb_ok_def unat_word_ariths)
  have "unat (tx_free h s - (skb_len k + 32)) = (if unat (skb_len k) + 32 \<le> unat (tx_free h s)
      then unat (tx_free h s) - (unat (skb_len k) + 32) else unat (tx_free h s) + 2 ^ 32 - (unat (skb_len k) + 32))"
    unfolding unat_sub_if' n(1) by simp
  moreover have "tx_low h k s \<longleftrightarrow> unat (tx_free h s - (skb_len k + 32)) < 1600"
    by (simp only: word_less_nat_alt) simp
  ultimately show ?thesis using f n(2) by auto
qed

text \<open>
  The queue is stopped when less than 1600 bytes of the FIFO are left after the packet. When the packet
  does not fit, the difference wraps around, and the queue is not stopped.
\<close>

theorem xmit_queue_wrap:
  assumes "ready s" and "tx_drains h (port s)" and "skb_ok k"
  shows "\<exists>t. smsc911x_hard_start_xmit h k s = Some (0, t) \<and>
    (queue_stopped t \<longleftrightarrow> queue_stopped s \<or>
      unat (skb_len k) + 32 \<le> unat (tx_free h s) \<and> unat (tx_free h s) < unat (skb_len k) + 32 + 1600)"
proof -
  have "holds (smsc911x_hard_start_xmit h k s) (\<lambda>(r, t). r = 0 \<and> queue_stopped t = (queue_stopped s \<or> tx_low h k s))"
    by (rule holds_xmit_inv [OF assms(2,1) skb_words_eq [OF assms(3)], where I = "\<lambda>_. True"]) auto
  then show ?thesis unfolding tx_low_iff [OF assms(3)] by (auto dest!: holdsD)
qed

lemma holds_get_stats [drv_rules]:
  assumes "tx_drains h (port s)" and "ready s" and P: "\<And>x d st. P (x, s\<lparr>chip := d, stats := st\<rparr>)"
  shows "holds (smsc911x_get_stats h s) P"
  using assms by (auto simp: smsc911x_get_stats_def Let_def intro!: drv_rules)

lemma holds_read_words:
  "ready s \<Longrightarrow> (\<And>ws d. P (ws, s\<lparr>chip := d\<rparr>)) \<Longrightarrow> holds (read_words (smsc911x_reg_read h r) n s) P"
proof (induction n arbitrary: s P)
  case 0
  from 0(2) [of _ "chip s"] show ?case by simp
next
  case (Suc n)
  then show ?case by (auto intro!: holds_reg_read Suc.IH)
qed

lemma holds_fastforward [drv_rules]:
  "ready s \<Longrightarrow> (\<And>d. P (s\<lparr>chip := d\<rparr>)) \<Longrightarrow> holds (smsc911x_rx_fastforward h n s) P"
  by (auto simp: smsc911x_rx_fastforward_def intro!: drv_rules holds_read_words)

lemma holds_poll_finish [drv_rules]:
  "ready s \<Longrightarrow> napi_sched s \<Longrightarrow> (\<And>d. P (s\<lparr>chip := d, napi_sched := False\<rparr>)) \<Longrightarrow> holds (poll_finish h s) P"
  by (auto simp: poll_finish_def napi_complete_def Let_def intro!: drv_rules)

section \<open>The answer to a challenge\<close>

lemma skb_read_eq:
  "skb_buf k = a @ b @ c \<Longrightarrow> length a = skb_data k + i \<Longrightarrow> length b = n \<Longrightarrow> skb_read i n k = Some b"
  by (simp add: skb_read_def flip: append_assoc)

lemma skb_write_eq:
  "skb_buf k = a @ b @ c \<Longrightarrow> length a = skb_data k + i \<Longrightarrow> length b = length bs \<Longrightarrow>
   skb_write i bs k = Some (k\<lparr>skb_buf := a @ bs @ c\<rparr>)"
  by (simp add: skb_write_def Let_def)

lemma skb_get_eq: "skb_buf k = a @ x # c \<Longrightarrow> length a = skb_data k + i \<Longrightarrow> skb_get i k = Some x"
  using nth_append_length [of a x c] by (simp add: skb_get_def arr_get_def)

text \<open>Exchanging source and destination does not change the checksum of the IP header.\<close>

lemma checksum_swap:
  assumes "even (length a)" and "even (length b)" and "even (length c)" and "length a + length b + length c \<le> 131072"
  shows "checksum (a @ b @ c) = checksum (a @ c @ b)"
proof -
  have "halfword_sum (a @ b @ c) = halfword_sum (a @ c @ b)"
    using assms by (simp add: halfword_sum_append)
  moreover have "unat (checksum (a @ b @ c)) = 65535 - fold16 (halfword_sum (a @ b @ c))"
      "unat (checksum (a @ c @ b)) = 65535 - fold16 (halfword_sum (a @ c @ b))"
    using assms(4) by (auto intro!: unat_checksum(1))
  ultimately have "unat (checksum (a @ b @ c)) = unat (checksum (a @ c @ b))" by simp
  then show ?thesis by (simp add: word_unat_eq_iff)
qed

lemma attest_reply_eq:
  assumes b: "skb_buf k = pad @ dst @ src @ ty @ ip @ ipsrc @ ipdst @ [t, code, c0, c1] @ payload @ rest"
    and l: "length pad = 2" "length dst = 6" "length src = 6" "length ty = 2" "length ip = 12"
      "length ipsrc = 4" "length ipdst = 4" "length payload = 256" "skb_data k = 16"
    and sw: "(if code = 0 then swatt else swatt_db) (words_of_bytes payload) = Some ws"
    and bs: "bs = concat (map bytes_of_le32 ws)" "length bs = 256"
    and c: "c = bytes_of_le16 (checksum ([t, code] @ [0, 0] @ bs))"
  shows "attest_reply swatt swatt_db k = Some (k\<lparr>
      skb_buf := pad @ src @ dst @ ty @ ip @ ipdst @ ipsrc @ [t, code] @ c @ bs @ rest,
      skb_data := 2, skb_len := skb_len k + 14\<rparr>)"
proof -
  let ?A = "pad @ dst @ src @ ty" and ?K = "\<lambda>b. k\<lparr>skb_buf := b\<rparr>"
  let ?H = "\<lambda>b. k\<lparr>skb_buf := pad @ b @ ty @ ip @ ipdst @ ipsrc @ [t, code] @ c @ bs @ rest, skb_data := 2, skb_len := skb_len k + 14\<rparr>"
  note l = l bs(2)
  have lc: "length c = 2" by (simp add: c bytes_of_le16_def)
  have "skb_read 24 256 k = Some payload" "skb_get 21 k = Some code"
    using b l by (auto intro: skb_read_eq [where a = "?A @ ip @ ipsrc @ ipdst @ [t, code, c0, c1]" and c = rest]
        skb_get_eq [where a = "?A @ ip @ ipsrc @ ipdst @ [t]" and c = "[c0, c1] @ payload @ rest"])
  moreover have "skb_write 24 bs k = Some (?K (?A @ ip @ ipsrc @ ipdst @ [t, code, c0, c1] @ bs @ rest))"
    using b l by (subst skb_write_eq [where a = "?A @ ip @ ipsrc @ ipdst @ [t, code, c0, c1]" and b = payload and c = rest]) auto
  moreover have "skb_write 22 [0, 0] (?K (?A @ ip @ ipsrc @ ipdst @ [t, code, c0, c1] @ bs @ rest)) =
      Some (?K (?A @ ip @ ipsrc @ ipdst @ [t, code, 0, 0] @ bs @ rest))"
    using l by (subst skb_write_eq [where a = "?A @ ip @ ipsrc @ ipdst @ [t, code]" and b = "[c0, c1]" and c = "bs @ rest"]) auto
  moreover have "skb_read 20 (64 * 4 + 4) (?K (?A @ ip @ ipsrc @ ipdst @ [t, code, 0, 0] @ bs @ rest)) = Some ([t, code] @ [0, 0] @ bs)"
    using l by (intro skb_read_eq [where a = "?A @ ip @ ipsrc @ ipdst" and c = rest]) auto
  moreover have "skb_write 22 c (?K (?A @ ip @ ipsrc @ ipdst @ [t, code, 0, 0] @ bs @ rest)) =
      Some (?K (?A @ ip @ ipsrc @ ipdst @ [t, code] @ c @ bs @ rest))"
    using l lc by (subst skb_write_eq [where a = "?A @ ip @ ipsrc @ ipdst @ [t, code]" and b = "[0, 0]" and c = "bs @ rest"]) auto
  moreover have "skb_read 12 4 (?K (?A @ ip @ ipsrc @ ipdst @ [t, code] @ c @ bs @ rest)) = Some ipsrc"
      "skb_read 16 4 (?K (?A @ ip @ ipsrc @ ipdst @ [t, code] @ c @ bs @ rest)) = Some ipdst"
    using l by (auto intro: skb_read_eq [where a = "?A @ ip" and c = "ipdst @ [t, code] @ c @ bs @ rest"]
        skb_read_eq [where a = "?A @ ip @ ipsrc" and c = "[t, code] @ c @ bs @ rest"])
  moreover have "skb_write 12 ipdst (?K (?A @ ip @ ipsrc @ ipdst @ [t, code] @ c @ bs @ rest)) =
      Some (?K (?A @ ip @ ipdst @ ipdst @ [t, code] @ c @ bs @ rest))"
    using l by (subst skb_write_eq [where a = "?A @ ip" and b = ipsrc and c = "ipdst @ [t, code] @ c @ bs @ rest"]) auto
  moreover have "skb_write 16 ipsrc (?K (?A @ ip @ ipdst @ ipdst @ [t, code] @ c @ bs @ rest)) =
      Some (?K (?A @ ip @ ipdst @ ipsrc @ [t, code] @ c @ bs @ rest))"
    using l by (subst skb_write_eq [where a = "?A @ ip @ ipdst" and b = ipdst and c = "[t, code] @ c @ bs @ rest"]) auto
  moreover have "skb_push 14 (?K (?A @ ip @ ipdst @ ipsrc @ [t, code] @ c @ bs @ rest)) = Some (?H (dst @ src))"
    using l by (simp add: skb_push_def)
  moreover have "skb_read 0 6 (?H (dst @ src)) = Some dst" "skb_read 6 6 (?H (dst @ src)) = Some src"
    using l by (auto intro: skb_read_eq [where a = pad and c = "src @ ty @ ip @ ipdst @ ipsrc @ [t, code] @ c @ bs @ rest"]
        skb_read_eq [where a = "pad @ dst" and c = "ty @ ip @ ipdst @ ipsrc @ [t, code] @ c @ bs @ rest"])
  moreover have "skb_write 0 src (?H (dst @ src)) = Some (?H (src @ src))" "skb_write 6 dst (?H (src @ src)) = Some (?H (src @ dst))"
    using l skb_write_eq [where a = pad and b = dst and c = "src @ ty @ ip @ ipdst @ ipsrc @ [t, code] @ c @ bs @ rest"
        and k = "?H (dst @ src)" and i = 0 and bs = src]
      skb_write_eq [where a = "pad @ src" and b = src and c = "ty @ ip @ ipdst @ ipsrc @ [t, code] @ c @ bs @ rest"
        and k = "?H (src @ src)" and i = 6 and bs = dst] by auto
  moreover have "(if code = 0 then swatt (words_of_bytes payload) else swatt_db (words_of_bytes payload)) = Some ws"
    using sw by (simp split: if_splits)
  ultimately show ?thesis
    by (simp add: attest_reply_def Let_def bs(1) [symmetric] c [simplified, symmetric])
qed

text \<open>
  C5: The answer to a challenge goes back to its sender: source and destination are exchanged in the
  Ethernet and in the IP header, the challenge is replaced by what the checksum function made of it, and
  the ICMP checksum of the answer verifies. The checksum of the IP header stays valid. The function is
  \<open>swattARM\<close> for ICMP code 0, and \<open>swattARM_db_attack\<close> for all other codes.
\<close>

theorem attest_reply_frame:
  assumes "skb_buf k = pad @ dst @ src @ ty @ ip @ ipsrc @ ipdst @ [t, code, c0, c1] @ payload @ rest"
    and "length pad = 2" and "length dst = 6" and "length src = 6" and "length ty = 2" and "length ip = 12"
    and "length ipsrc = 4" and "length ipdst = 4" and "length payload = 256" and "skb_data k = 16"
    and "(if code = 0 then swatt else swatt_db) (words_of_bytes payload) = Some ws" and "length ws = 64"
  shows "\<exists>c. attest_reply swatt swatt_db k = Some (k\<lparr>
      skb_buf := pad @ src @ dst @ ty @ ip @ ipdst @ ipsrc @ [t, code] @ c @ concat (map bytes_of_le32 ws) @ rest,
      skb_data := 2, skb_len := skb_len k + 14\<rparr>) \<and>
    checksum ([t, code] @ c @ concat (map bytes_of_le32 ws)) = 0 \<and>
    checksum (ip @ ipdst @ ipsrc) = checksum (ip @ ipsrc @ ipdst)"
proof -
  let ?bs = "concat (map bytes_of_le32 ws)"
  have l: "length ?bs = 256" using assms(12) by simp
  let ?c = "bytes_of_le16 (checksum ([t, code] @ [0, 0] @ ?bs))"
  have "attest_reply swatt swatt_db k = Some (k\<lparr>
      skb_buf := pad @ src @ dst @ ty @ ip @ ipdst @ ipsrc @ [t, code] @ ?c @ ?bs @ rest,
      skb_data := 2, skb_len := skb_len k + 14\<rparr>)"
    by (rule attest_reply_eq [OF assms(1-11)]) (simp_all add: assms(12))
  moreover have "checksum ([t, code] @ ?c @ ?bs) = 0"
    using l by (intro checksum_filled) auto
  moreover have "checksum (ip @ ipdst @ ipsrc) = checksum (ip @ ipsrc @ ipdst)"
    using assms by (intro checksum_swap) auto
  ultimately show ?thesis by blast
qed

section \<open>Received packets\<close>

lemma le16_eq_8: "le16_of_bytes a b = 8 \<longleftrightarrow> a = 8 \<and> b = 0"
proof
  assume e: "le16_of_bytes a b = 8"
  have "ucast (le16_of_bytes a b) = a" "ucast (drop_bit 8 (le16_of_bytes a b)) = b"
    by (rule bit_word_eqI, auto simp: le16_of_bytes_def bit_simps dest: bit_imp_le_length)+
  then show "a = 8 \<and> b = 0" unfolding e by (auto simp: drop_bit_eq_div)
qed (simp add: le16_of_bytes_def)

lemma eth_type_trans_eq:
  assumes "18 \<le> length b" and "14 \<le> unat l"
  shows "\<exists>p. eth_type_trans \<lparr>skb_buf = b, skb_data = 2, skb_len = l\<rparr> =
    Some (p, \<lparr>skb_buf = b, skb_data = 16, skb_len = l - 14\<rparr>) \<and> (p = 8 \<longleftrightarrow> b ! 14 = 8 \<and> b ! 15 = 0)"
proof -
  let ?h = "le16_of_bytes (b ! 14) (b ! 15)"
  have l: "\<not> l < 14" using assms(2) by (simp add: word_less_nat_alt)
  have n: "ntohs 8 = 2048" "ntohs 1 = 256" "ntohs 4 = 1024" by (simp_all add: ntohs_def)
  then have "?h = 8 \<Longrightarrow> 1536 \<le> ntohs ?h" by simp
  with assms(1) l show ?thesis
    unfolding le16_eq_8 [symmetric]
    by (auto simp: eth_type_trans_def skb_pull_inline_def skb_get_def arr_get_def Let_def n)
qed

lemma pkt_words_unat: "unat l \<le> 0x3fff \<Longrightarrow> unat (pkt_words l) = (unat l + 5) div 4"
  by (simp add: drop_bit_eq_div unat_div unat_word_ariths)

abbreviation rx_bytes_of :: "'d hw \<Rightarrow> u32 \<times> smsc911x_platform_config \<times> smsc911x_ops \<Rightarrow> u32 \<Rightarrow> 'd \<Rightarrow> u8 list" where
  "rx_bytes_of h p l d \<equiv> concat (map (bytes_of_le32 \<circ> fifo_swap (fst (snd p)))
     (fst (cells_read (chip_read h p RX_DATA_FIFO) (unat (pkt_words l)) d)))"

lemma length_concat_bytes_comp [simp]: "length (concat (map (bytes_of_le32 \<circ> f) ws)) = 4 * length ws"
  using length_concat_bytes [of "map f ws"] by simp

lemma receive_frame_eq:
  assumes "ready s" and "18 \<le> unat l" and "unat l \<le> 0x3fff"
  shows "\<exists>p d. receive_frame h l s = Some (p,
      \<lparr>skb_buf = rx_bytes_of h (port s) l (chip s), skb_data = 16, skb_len = l - 18\<rparr>, s\<lparr>chip := d\<rparr>) \<and>
    (p = 8 \<longleftrightarrow> rx_bytes_of h (port s) l (chip s) ! 14 = 8 \<and> rx_bytes_of h (port s) l (chip s) ! 15 = 0)"
proof -
  define b where "b = rx_bytes_of h (port s) l (chip s)"
  have "length b = 4 * ((unat l + 5) div 4)"
    using pkt_words_unat [OF assms(3)] by (simp add: b_def)
  moreover have "unat l + 2 \<le> 4 * ((unat l + 5) div 4)" by presburger
  ultimately have len: "unat l + 2 \<le> length b" by simp
  have l4: "unat (l - 4) = unat l - 4"
    using assms(2) by (subst unat_sub) (auto simp: word_le_nat_alt)
  obtain p where p: "eth_type_trans \<lparr>skb_buf = b, skb_data = 2, skb_len = l - 4\<rparr> =
      Some (p, \<lparr>skb_buf = b, skb_data = 16, skb_len = l - 4 - 14\<rparr>)" "p = 8 \<longleftrightarrow> b ! 14 = 8 \<and> b ! 15 = 0"
    using eth_type_trans_eq [of b "l - 4"] assms(2) l4 len by fastforce
  moreover have "skb_put (l - 4) (skb_reserve 2 \<lparr>skb_buf = b, skb_data = 0, skb_len = 0\<rparr>) =
      Some \<lparr>skb_buf = b, skb_data = 2, skb_len = l - 4\<rparr>"
    using len l4 by (simp add: skb_put_def skb_reserve_def)
  ultimately have "receive_frame h l s = Some (p, \<lparr>skb_buf = b, skb_data = 16, skb_len = l - 4 - 14\<rparr>,
      s\<lparr>chip := snd (cells_read (chip_read h (port s) RX_DATA_FIFO) (unat (pkt_words l)) (chip s))\<rparr>)"
    using assms(1) by (simp add: receive_frame_def rx_readfifo_eq case_prod_unfold Let_def b_def)
  with p(2) show ?thesis unfolding b_def by auto
qed

lemma holds_skb_read:
  "skb_data k + i + n \<le> length (skb_buf k) \<Longrightarrow> (\<And>bs. length bs = n \<Longrightarrow> P bs) \<Longrightarrow> holds (skb_read i n k) P"
  by (simp add: skb_read_def)

lemma holds_skb_write:
  "skb_data k + i + length bs \<le> length (skb_buf k) \<Longrightarrow> (\<And>b. length b = length (skb_buf k) \<Longrightarrow> P (k\<lparr>skb_buf := b\<rparr>)) \<Longrightarrow>
   holds (skb_write i bs k) P"
  by (simp add: skb_write_def Let_def)

text \<open>What the driver relies on in the checksum functions: they give back as many words as they are given.\<close>

definition answers :: "(u32 list \<Rightarrow> u32 list option) \<Rightarrow> bool" where
  "answers swatt \<longleftrightarrow> (\<forall>ws. length ws = 64 \<longrightarrow> (\<exists>rs. swatt ws = Some rs \<and> length rs = 64))"

lemma holds_answers: "answers swatt \<Longrightarrow> length ws = 64 \<Longrightarrow> (\<And>rs. length rs = 64 \<Longrightarrow> P rs) \<Longrightarrow> holds (swatt ws) P"
  by (force simp: answers_def)

lemma holds_attest_reply:
  assumes "answers swatt" and "answers swatt_db" and "296 \<le> length (skb_buf k)" and "skb_data k = 16"
    and P: "\<And>b. length b = length (skb_buf k) \<Longrightarrow> P (k\<lparr>skb_data := 2, skb_len := skb_len k + 14, skb_buf := b\<rparr>)"
  shows "holds (attest_reply swatt swatt_db k) P"
  using assms(1-4)
  by (auto simp: attest_reply_def Let_def skb_get_def skb_push_def words_of_bytes_def bytes_of_le16_def P
      intro!: holds_skb_read holds_skb_write holds_answers)

text \<open>
  A packet as the chip may deliver it: it has the size of an Ethernet packet, and if it is a challenge, then
  it is long enough to hold one.
\<close>

definition good_rx :: "'d hw \<Rightarrow> u32 \<times> smsc911x_platform_config \<times> smsc911x_ops \<Rightarrow> u32 \<times> 'd \<Rightarrow> bool" where
  "good_rx h p = (\<lambda>(v, d). let b = rx_bytes_of h p (rx_length v) d in
     64 \<le> unat (rx_length v) \<and>
     (b ! 14 = 8 \<longrightarrow> b ! 15 = 0 \<longrightarrow> b ! 25 = 1 \<longrightarrow> b ! 36 = VET_ICMP_TYPE \<longrightarrow> 291 \<le> unat (rx_length v)))"

definition rx_ok :: "'d hw \<Rightarrow> u32 \<times> smsc911x_platform_config \<times> smsc911x_ops \<Rightarrow> bool" where
  "rx_ok h p \<longleftrightarrow> (\<forall>d. let (v, d1) = chip_read h p RX_STATUS_FIFO d in
     v \<noteq> 0 \<longrightarrow> v AND RX_STS_ES = 0 \<longrightarrow> good_rx h p (v, d1))"

lemma holds_rxstatus_ok:
  assumes "ready s" and "rx_ok h (port s)" and "\<And>d. P (0, s\<lparr>chip := d\<rparr>)"
    and "\<And>v d. v \<noteq> 0 \<Longrightarrow> (v AND RX_STS_ES = 0 \<longrightarrow> good_rx h (port s) (v, d)) \<Longrightarrow> P (v, s\<lparr>chip := d\<rparr>)"
  shows "holds (smsc911x_rx_get_rxstatus h s) P"
proof -
  let ?d = "snd (chip_read h (port s) RX_FIFO_INF (chip s))"
  let ?r = "chip_read h (port s) RX_STATUS_FIFO ?d"
  have "fst ?r \<noteq> 0 \<Longrightarrow> fst ?r AND RX_STS_ES = 0 \<Longrightarrow> good_rx h (port s) (fst ?r, snd ?r)"
    using spec [OF assms(2) [unfolded rx_ok_def], of ?d] by (simp only: case_prod_unfold Let_def prod.collapse simp_thms)
  then have "P (fst ?r, s\<lparr>chip := snd ?r\<rparr>)"
    using assms(3,4) by (cases "fst ?r = 0") auto
  with assms(1,3) show ?thesis
    by (simp add: smsc911x_rx_get_rxstatus_def reg_read_eq case_prod_unfold Let_def)
qed

lemma rx_length_le: "unat (rx_length v) \<le> 0x3fff"
proof -
  have "rx_length v = take_bit 14 (drop_bit 16 v)"
    by (simp add: rx_length_def take_bit_eq_mask mask_eq_exp_minus_1)
  then have "unat (rx_length v) = take_bit 14 (unat (drop_bit 16 v))"
    by (simp only: unsigned_take_bit_eq)
  then show ?thesis using take_bit_nat_less_exp [of 14 "unat (drop_bit 16 v)"] by simp
qed

lemma holds_rx_packet:
  assumes "ready s" and "tx_drains h (port s)" and "answers swatt" and "answers swatt_db"
    and good: "good_rx h (port s) (v, chip s)"
    and P: "\<And>up d st q. rx_packets st = rx_packets (stats s) + 1 \<Longrightarrow> rx_dropped st = rx_dropped (stats s) \<Longrightarrow>
      P (up, s\<lparr>chip := d, queue_stopped := q, stats := st\<rparr>)"
  shows "holds (rx_packet h swatt swatt_db (rx_length v) up s) P"
proof -
  define l where "l = rx_length v"
  define b where "b = rx_bytes_of h (port s) l (chip s)"
  have l: "64 \<le> unat l" "unat l \<le> 0x3fff"
    using good rx_length_le [of v] by (simp_all add: good_rx_def Let_def l_def)
  then have len: "4 dvd length b" "unat l + 2 \<le> length b" "length b \<le> unat l + 5"
    using pkt_words_unat [OF l(2)] by (auto simp: b_def)
  have long: "296 \<le> length b" if "b ! 14 = 8" "b ! 15 = 0" "b ! 25 = 1" "b ! 36 = 2"
  proof -
    have "291 \<le> unat l" using good that by (simp add: good_rx_def Let_def l_def b_def)
    with len(1,2) show ?thesis by presburger
  qed
  obtain p d where f: "receive_frame h l s = Some (p, \<lparr>skb_buf = b, skb_data = 16, skb_len = l - 18\<rparr>, s\<lparr>chip := d\<rparr>)"
      "p = 8 \<longleftrightarrow> b ! 14 = 8 \<and> b ! 15 = 0"
    using receive_frame_eq [OF assms(1), of l h] l unfolding b_def by auto
  have l4: "unat (l - 4) = unat l - 4" using l by (simp add: unat_sub word_le_nat_alt)
  have ok: "skb_ok \<lparr>skb_buf = b', skb_data = 2, skb_len = l - 4\<rparr>" if "length b' = length b" for b'
    using len l that by (simp add: skb_ok_def l4) linarith
  have P': "P (up', s\<lparr>chip := d', stats := st\<rparr>)"
    if "rx_packets st = rx_packets (stats s) + 1" "rx_dropped st = rx_dropped (stats s)" for up' d' st
    using P [OF that, where d = d' and q = "queue_stopped s"] by simp
  show ?thesis
    using assms(1,2) f(1) len l
    unfolding l_def [symmetric] rx_packet_def
    by (auto simp: is_challenge_def skb_get_def f(2) rx_count_def rx_same_def long
        intro!: drv_rules holds_attest_reply assms(3,4) P P' ok)
qed

lemma rx_counterrors_keeps [simp]: "rx_packets (smsc911x_rx_counterrors v st) = rx_packets st"
  "rx_dropped (smsc911x_rx_counterrors v st) = rx_dropped st"
  by (simp_all add: smsc911x_rx_counterrors_def Let_def)

lemma holds_poll_loop:
  assumes "ready s" and "tx_drains h (port s)" and "rx_ok h (port s)" and "answers swatt" and "answers swatt_db"
    and "napi_sched s"
    and "\<And>n' up t. frame s t \<Longrightarrow> n \<le> n' \<Longrightarrow> n' \<le> n + left \<Longrightarrow>
      rx_packets (stats t) + rx_dropped (stats t) = rx_packets (stats s) + rx_dropped (stats s) + of_nat (n' - n) \<Longrightarrow>
      software_irq_signal t = software_irq_signal s \<Longrightarrow>
      (n' \<noteq> n + left \<longrightarrow> napi_sched t \<longrightarrow> \<not> alloc n') \<Longrightarrow> (napi_sched t \<or> n' < n + left) \<Longrightarrow> P (n', up, t)"
  shows "holds (poll_loop h swatt swatt_db alloc left n up s) P"
  using assms
proof (induction left arbitrary: n up s)
  case 0
  show ?case using 0(6) 0(7) [of s n] by simp
next
  case (Suc left)
  have step: "holds (poll_loop h swatt swatt_db alloc left (Suc n) up' t) P"
    if t: "frame s t" "napi_sched t" "software_irq_signal t = software_irq_signal s"
      "rx_packets (stats t) + rx_dropped (stats t) = rx_packets (stats s) + rx_dropped (stats s) + 1" for up' t
  proof (rule Suc.IH)
    fix n' up'' t'
    assume "frame t t'" "Suc n \<le> n'" "n' \<le> Suc n + left"
      "rx_packets (stats t') + rx_dropped (stats t') = rx_packets (stats t) + rx_dropped (stats t) + of_nat (n' - Suc n)"
      "software_irq_signal t' = software_irq_signal t"
      "n' \<noteq> Suc n + left \<longrightarrow> napi_sched t' \<longrightarrow> \<not> alloc n'" "napi_sched t' \<or> n' < Suc n + left"
    moreover from this have "of_nat (n' - n) = (1 :: u32) + of_nat (n' - Suc n)"
      by (metis Suc_diff_Suc Suc_le_eq of_nat_Suc)
    ultimately show "P (n', up'', t')"
      using t by (intro Suc.prems(7)) (auto intro: frame_trans simp: add.assoc)
  qed (use Suc.prems t frameD(1) [OF t(1)] frameD(3) [OF t(1)] in simp_all)
  note fin = Suc.prems(7)
  show ?case
    unfolding poll_loop.simps holds_bind
    by (rule holds_rxstatus_ok [OF Suc.prems(1,3)])
      (use Suc.prems(1-6) in \<open>auto simp: Let_def rx_drop_one_def intro!: drv_rules holds_rx_packet step fin\<close>)
qed

lemma holds_poll:
  assumes "ready s" and "tx_drains h (port s)" and "rx_ok h (port s)" and "answers swatt" and "answers swatt_db"
    and "napi_sched s"
    and "\<And>n up t. frame s t \<Longrightarrow> n \<le> nat budget \<Longrightarrow>
      rx_packets (stats t) + rx_dropped (stats t) = rx_packets (stats s) + rx_dropped (stats s) + of_nat n \<Longrightarrow>
      software_irq_signal t = software_irq_signal s \<Longrightarrow>
      (napi_sched t \<longrightarrow> n = nat budget \<or> \<not> alloc n) \<Longrightarrow> (n = nat budget \<longrightarrow> napi_sched t) \<Longrightarrow> P (n, up, t)"
  shows "holds (smsc911x_poll h swatt swatt_db alloc budget s) P"
  unfolding smsc911x_poll_def
  by (rule holds_poll_loop [OF assms(1-6)]) (rule assms(7), auto)

text \<open>
  C13: A poll returns, handles at most the budget, and loses no packet: each one it counts is either counted
  as received or as dropped. It leaves NAPI scheduled if it used up its budget, and if it returns early, then
  it has completed NAPI, unless an allocation failed. The chip may deliver anything but challenges that are too short.
\<close>

theorem poll_result:
  assumes "ready s" and "tx_drains h (port s)" and "rx_ok h (port s)" and "answers swatt" and "answers swatt_db"
    and "napi_sched s"
  shows "\<exists>n up t. smsc911x_poll h swatt swatt_db alloc budget s = Some (n, up, t) \<and> frame s t \<and> n \<le> nat budget \<and>
    rx_packets (stats t) + rx_dropped (stats t) = rx_packets (stats s) + rx_dropped (stats s) + of_nat n \<and>
    (napi_sched t \<longrightarrow> n = nat budget \<or> \<not> alloc n) \<and> (n = nat budget \<longrightarrow> napi_sched t)"
proof -
  have "holds (smsc911x_poll h swatt swatt_db alloc budget s) (\<lambda>(n, up, t). frame s t \<and> n \<le> nat budget \<and>
    rx_packets (stats t) + rx_dropped (stats t) = rx_packets (stats s) + rx_dropped (stats s) + of_nat n \<and>
    (napi_sched t \<longrightarrow> n = nat budget \<or> \<not> alloc n) \<and> (n = nat budget \<longrightarrow> napi_sched t))"
    by (rule holds_poll [OF assms]) simp
  then show ?thesis by (auto dest!: holdsD)
qed

text \<open>
  C39: A packet that looks like a challenge but is too short for one, which anybody on the network can send,
  makes the driver read and write behind the socket buffer.
\<close>

theorem short_challenge_overruns:
  assumes "ready s" and "receive_frame h l s = Some (p, k, t)" and "is_challenge p k = Some True"
    and "18 \<le> unat l" and "unat l < 291"
  shows "rx_packet h swatt swatt_db l up s = None"
proof -
  have l: "unat l \<le> 0x3fff" using assms(5) by simp
  have "length (rx_bytes_of h (port s) l (chip s)) < 296"
    using pkt_words_unat [OF l] assms(5) by simp
  moreover have "skb_buf k = rx_bytes_of h (port s) l (chip s)" "skb_data k = 16"
    using receive_frame_eq [OF assms(1,4) l, of h] assms(2) by auto
  ultimately have "skb_read 24 256 k = None" by (simp add: skb_read_def)
  then show ?thesis using assms(2,3) by (simp add: rx_packet_def attest_reply_def)
qed

section \<open>The interrupt handler\<close>

lemma holds_irq_parts [drv_rules]:
  "ready s \<Longrightarrow> (\<And>d. P (s\<lparr>chip := d, software_irq_signal := 1\<rparr>)) \<Longrightarrow> holds (irq_sw_int h s) P"
  "ready s \<Longrightarrow> (\<And>d. P (s\<lparr>chip := d, queue_stopped := False\<rparr>)) \<Longrightarrow> holds (irq_tdfa h s) P"
  by (auto simp: irq_sw_int_def irq_tdfa_def Let_def intro!: drv_rules)

lemma holds_irq_rsfl [drv_rules]:
  assumes "ready s" and P: "\<And>d. P (s\<lparr>chip := d, napi_sched := True\<rparr>)"
  shows "holds (irq_rsfl h s) P"
  using assms(1) P [where d = "chip s"] P
  by (auto simp: irq_rsfl_def napi_schedule_prep_def Let_def intro!: drv_rules)

lemma holds_workaround [drv_rules]:
  "ready s \<Longrightarrow> \<not> mac_lock s \<Longrightarrow> (\<And>d. P (s\<lparr>chip := d, multicast_update_pending := 0\<rparr>)) \<Longrightarrow>
   holds (smsc911x_rx_multicast_update_workaround h s) P"
  by (auto simp: smsc911x_rx_multicast_update_workaround_def spin_unlock_mac_def mac_unlock_id Let_def intro!: drv_rules)

lemma holds_irq_rxstop [drv_rules]:
  assumes "ready s" and "\<not> mac_lock s" and P: "\<And>d x. P (s\<lparr>chip := d, multicast_update_pending := x\<rparr>)"
  shows "holds (irq_rxstop h s) P"
  using assms(1,2) P [where x = "multicast_update_pending s"] P
  by (auto simp: irq_rxstop_def intro!: drv_rules)

lemma holds_serve_sw:
  assumes "ready s" and P: "\<And>d. P (c \<or> b, s\<lparr>chip := d, software_irq_signal := (if c then 1 else software_irq_signal s)\<rparr>)"
  shows "holds (irq_serve c (irq_sw_int h) (b, s)) P"
  using assms(1) P P [where d = "chip s"]
  by (cases c) (auto simp: irq_serve_def intro!: drv_rules)

lemma holds_serve_rxstop:
  assumes "ready s" and "\<not> mac_lock s" and P: "\<And>d x. P (c \<or> b, s\<lparr>chip := d, multicast_update_pending := x\<rparr>)"
  shows "holds (irq_serve c (irq_rxstop h) (b, s)) P"
  using assms(1,2) P P [where d = "chip s" and x = "multicast_update_pending s"]
  by (cases c) (auto simp: irq_serve_def intro!: drv_rules)

lemma holds_serve_tdfa:
  assumes "ready s" and P: "\<And>d. P (c \<or> b, s\<lparr>chip := d, queue_stopped := queue_stopped s \<and> \<not> c\<rparr>)"
  shows "holds (irq_serve c (irq_tdfa h) (b, s)) P"
  using assms(1) P P [where d = "chip s"]
  by (cases c) (auto simp: irq_serve_def intro!: drv_rules)

lemma holds_serve_write:
  assumes "ready s" and P: "\<And>d. P (c \<or> b, s\<lparr>chip := d\<rparr>)"
  shows "holds (irq_serve c (smsc911x_reg_write h r v) (b, s)) P"
  using assms(1) P P [where d = "chip s"]
  by (cases c) (auto simp: irq_serve_def intro!: drv_rules)

lemma holds_serve_rsfl:
  assumes "ready s" and P: "\<And>d. P (c \<or> b, s\<lparr>chip := d, napi_sched := napi_sched s \<or> c\<rparr>)"
  shows "holds (irq_serve c (irq_rsfl h) (b, s)) P"
  using assms(1) P P [where d = "chip s"]
  by (cases c) (auto simp: irq_serve_def intro!: drv_rules)

lemma holds_irq_chain:
  assumes "ready s" and "\<not> mac_lock s"
    and P: "\<And>d x. P (c5 \<or> c4 \<or> c3 \<or> c2 \<or> c1, s\<lparr>chip := d, software_irq_signal := (if c1 then 1 else software_irq_signal s),
      multicast_update_pending := x, queue_stopped := queue_stopped s \<and> \<not> c3, napi_sched := napi_sched s \<or> c5\<rparr>)"
  shows "holds (irq_serve c1 (irq_sw_int h) (False, s)) (\<lambda>x. holds (irq_serve c2 (irq_rxstop h) x) (\<lambda>x.
    holds (irq_serve c3 (irq_tdfa h) x) (\<lambda>x. holds (irq_serve c4 (smsc911x_reg_write h r v) x) (\<lambda>x.
    holds (irq_serve c5 (irq_rsfl h) x) P))))"
  using assms(1,2)
  by (intro holds_serve_sw holds_serve_rxstop holds_serve_tdfa holds_serve_write holds_serve_rsfl)
    (simp_all add: P [simplified])

abbreviation irq_pending :: "'d hw \<Rightarrow> 'd smsc911x_data \<Rightarrow> u32" where
  "irq_pending h s \<equiv> let (intsts, d) = chip_read h (port s) INT_STS (chip s) in intsts AND fst (chip_read h (port s) INT_EN d)"

lemma holds_irqhandler:
  assumes "ready s" and "\<not> mac_lock s" and p: "p = irq_pending h s"
    and P: "\<And>d x. P (p AND INT_STS_RSFL \<noteq> 0 \<or> p AND INT_STS_RXE \<noteq> 0 \<or> p AND INT_STS_TDFA \<noteq> 0 \<or> p AND INT_STS_RXSTOP_INT \<noteq> 0 \<or>
        p AND INT_STS_SW_INT \<noteq> 0,
      s\<lparr>chip := d, software_irq_signal := (if p AND INT_STS_SW_INT \<noteq> 0 then 1 else software_irq_signal s),
        multicast_update_pending := x, queue_stopped := queue_stopped s \<and> \<not> p AND INT_STS_TDFA \<noteq> 0,
        napi_sched := napi_sched s \<or> p AND INT_STS_RSFL \<noteq> 0\<rparr>)"
  shows "holds (smsc911x_irqhandler h s) P"
proof -
  obtain v1 d1 where r1: "chip_read h (port s) INT_STS (chip s) = (v1, d1)" by fastforce
  obtain v2 d2 where r2: "chip_read h (port s) INT_EN d1 = (v2, d2)" by fastforce
  have p: "p = v1 AND v2" by (simp add: p r1 r2)
  have "holds (irq_serve (p AND INT_STS_SW_INT \<noteq> 0) (irq_sw_int h) (False, s\<lparr>chip := d2\<rparr>))
     (\<lambda>x. holds (irq_serve (p AND INT_STS_RXSTOP_INT \<noteq> 0) (irq_rxstop h) x)
     (\<lambda>x. holds (irq_serve (p AND INT_STS_TDFA \<noteq> 0) (irq_tdfa h) x)
     (\<lambda>x. holds (irq_serve (p AND INT_STS_RXE \<noteq> 0) (smsc911x_reg_write h INT_STS INT_STS_RXE) x)
     (\<lambda>x. holds (irq_serve (p AND INT_STS_RSFL \<noteq> 0) (irq_rsfl h) x) P))))"
    using assms(1,2) P by (intro holds_irq_chain) (simp_all split del: if_split cong: if_cong)
  with assms(1) r1 r2 show ?thesis
    by (simp add: smsc911x_irqhandler_def reg_read_eq p and.assoc)
qed


section \<open>Opening and stopping\<close>

lemma holds_msleep:
  assumes "ready s" and "\<not> mac_lock s"
    and P: "\<And>t. frame s t \<Longrightarrow> (napi_sched s \<longrightarrow> napi_sched t) \<Longrightarrow> P t"
  shows "holds (msleep h elapse s) P"
proof -
  have "holds (smsc911x_irqhandler h (s\<lparr>chip := d\<rparr>)) (\<lambda>(_, t). P t)" for d
    using assms(1,2) by (intro holds_irqhandler [OF _ _ refl]) (auto intro!: P)
  then show ?thesis
    using P [of "s\<lparr>chip := snd (elapse (chip s))\<rparr>"] by (simp add: msleep_def case_prod_unfold Let_def)
qed

lemma holds_wait_sw_irq:
  assumes "ready s" and "\<not> mac_lock s"
    and P: "\<And>t. frame s t \<Longrightarrow> (napi_sched s \<longrightarrow> napi_sched t) \<Longrightarrow> P t"
  shows "holds (wait_sw_irq h elapse n s) P"
  using assms
proof (induction n arbitrary: s)
  case (Suc n)
  have "holds (msleep h elapse s) (\<lambda>t. holds (wait_sw_irq h elapse n t) P)"
    using Suc.prems(1,2)
    by (rule holds_msleep) (rule Suc.IH, auto intro: frameD(1) frame_trans Suc.prems(1,3) dest: frameD(2) [OF _ Suc.prems(2)])
  with Suc.prems(3) [of s] show ?case by simp
qed simp

lemma holds_open_setup [drv_rules]:
  "ready s \<Longrightarrow> \<not> mac_lock s \<Longrightarrow> length (dev_addr s) = 6 \<Longrightarrow> (\<And>d. P (s\<lparr>chip := d, software_irq_signal := 0\<rparr>)) \<Longrightarrow>
   holds (open_setup h s) P"
  by (auto simp: open_setup_def spin_unlock_mac_def mac_unlock_id Let_def intro!: drv_rules)

lemma holds_open_start [drv_rules]:
  "ready s \<Longrightarrow> \<not> mac_lock s \<Longrightarrow> napi_sched s \<Longrightarrow> phy_dev s = Some p \<Longrightarrow> \<not> phy_lock p \<Longrightarrow>
   (\<And>d. P (s\<lparr>chip := d, last_duplex := -1, last_carrier := -1, phy_dev := Some (p\<lparr>phy_st := started (phy_st p)\<rparr>),
      napi_sched := False, queue_stopped := False\<rparr>)) \<Longrightarrow>
   holds (open_start h s) P"
  by (auto simp: open_start_def phy_start_eq napi_enable_def spin_unlock_mac_def mac_unlock_id Let_def intro!: drv_rules)

lemma holds_stop [drv_rules]:
  "ready s \<Longrightarrow> tx_drains h (port s) \<Longrightarrow> \<not> napi_sched s \<Longrightarrow> phy_dev s = Some p \<Longrightarrow> \<not> phy_lock p \<Longrightarrow> phy_irq p = PHY_POLL \<Longrightarrow>
   (\<And>d st. P (0, s\<lparr>chip := d, queue_stopped := True, napi_sched := True, stats := st, phy_dev := Some (p\<lparr>phy_st := PHY_HALTED\<rparr>)\<rparr>)) \<Longrightarrow>
   holds (smsc911x_stop h s) P"
  by (auto simp: smsc911x_stop_def phy_stop_eq napi_disable_def Let_def intro!: drv_rules)

text \<open>The PHY after opening with the result \<open>r\<close>.\<close>

definition opened_phy :: "int \<Rightarrow> phy_device option \<Rightarrow> phy_device option" where
  "opened_phy r p = (if r = 0 then map_option (\<lambda>p. p\<lparr>phy_st := started (phy_st p)\<rparr>) p else p)"

lemma holds_open:
  assumes "ready s" and "\<not> mac_lock s" and "length (dev_addr s) = 6" and "napi_sched s" and p: "\<forall>p. phy_dev s = Some p \<longrightarrow> \<not> phy_lock p"
    and P: "\<And>r t. frame (s\<lparr>phy_dev := phy_dev t\<rparr>) t \<Longrightarrow> phy_dev t = opened_phy r (phy_dev s) \<Longrightarrow> (r = - EAGAIN \<longleftrightarrow> phy_dev s = None) \<Longrightarrow>
        (r = - EADDRNOTAVAIL \<longleftrightarrow> phy_dev s \<noteq> None \<and> \<not> is_valid_ether_addr (dev_addr s)) \<Longrightarrow>
        r \<in> {0, - EAGAIN, - EADDRNOTAVAIL, - EIO, - ENODEV} \<Longrightarrow> (r \<noteq> 0 \<longrightarrow> napi_sched t) \<Longrightarrow>
        (r = 0 \<longrightarrow> \<not> napi_sched t \<and> \<not> queue_stopped t \<and> last_duplex t = -1 \<and> last_carrier t = -1 \<and> software_irq_signal t \<noteq> 0) \<Longrightarrow>
        P (r, t)"
  shows "holds (smsc911x_open h elapse s) P"
proof -
  define fin where "fin = (\<lambda>t. if software_irq_signal t = 0 then Some (- ENODEV, t) else do {t \<leftarrow> open_start h t; Some (0, t)})"
  have fr: "frame (s\<lparr>phy_dev := x\<rparr>) (t\<lparr>chip := d, last_duplex := i, last_carrier := j, phy_dev := x\<rparr>)" if "frame s t" for t x d i j
    using that by (simp add: frame_def)
  have fin: "holds (fin t) P" if t: "frame s t" "napi_sched t" "phy_dev s \<noteq> None" "is_valid_ether_addr (dev_addr s)" for t
  proof -
    from t(3) obtain p where p': "phy_dev s = Some p" "\<not> phy_lock p" using p by auto
    have fe: "frame (s\<lparr>phy_dev := phy_dev t\<rparr>) t" using t(1) frameD(5) [OF t(1)] by simp
    show ?thesis
      using t frameD(1,2,5) [OF t(1)] assms(1,2) p' fe fr [OF t(1)]
      by (auto simp: fin_def opened_phy_def intro!: holds_open_start [where p = p] P)
  qed
  have "holds (wait_sw_irq h elapse 1000 (s\<lparr>chip := d, software_irq_signal := 0\<rparr>)) (\<lambda>t. holds (fin t) P)"
    if "phy_dev s \<noteq> None" "is_valid_ether_addr (dev_addr s)" for d
    using assms(1,2,4) that by (intro holds_wait_sw_irq) (auto intro!: fin)
  moreover have same: "phy_dev s = x \<Longrightarrow> frame (s\<lparr>phy_dev := x\<rparr>) s" for x by (simp add: frame_def)
  ultimately show ?thesis
    using assms unfolding smsc911x_open_def fin_def [symmetric]
    by (auto simp: opened_phy_def intro!: drv_rules P same)
qed


section \<open>An example chip\<close>

text \<open>A chip with FIFOs for received and sent packets that behave as the data sheet says.\<close>

record fifo_chip =
  rx_status :: "u32 list"
  rx_data :: "u32 list"
  tx_data :: "u32 list"
  tx_status :: "u32 list"

definition pop_fifo :: "u32 list \<Rightarrow> u32 \<times> u32 list" where
  "pop_fifo ws = (case ws of [] \<Rightarrow> (0, []) | w # ws \<Rightarrow> (w, ws))"

definition fifo_hw :: "fifo_chip hw" where
  "fifo_hw = \<lparr>
     readl = (\<lambda>a d.
       if a = RX_DATA_FIFO then (let (w, ws) = pop_fifo (rx_data d) in (w, d\<lparr>rx_data := ws\<rparr>))
       else if a = RX_STATUS_FIFO then (let (w, ws) = pop_fifo (rx_status d) in (w, d\<lparr>rx_status := ws\<rparr>))
       else if a = RX_FIFO_INF then (push_bit 16 (of_nat (length (rx_status d))), d)
       else if a = TX_STATUS_FIFO then (let (w, ws) = pop_fifo (tx_status d) in (w, d\<lparr>tx_status := ws\<rparr>))
       else if a = TX_FIFO_INF then (push_bit 16 (of_nat (length (tx_status d))) OR 0x1200, d)
       else (0, d)),
     readw = (\<lambda>a d. (0, d)),
     writel = (\<lambda>a v d. if a = TX_DATA_FIFO then d\<lparr>tx_data := tx_data d @ [v]\<rparr> else d),
     writew = (\<lambda>a v d. d)\<rparr>"

definition fifo_drv :: "u32 list \<Rightarrow> u32 list \<Rightarrow> fifo_chip smsc911x_data" where
  "fifo_drv sts ws = example_drv \<lparr>rx_status = sts, rx_data = ws, tx_data = [], tx_status = [0x00400000]\<rparr>"

lemma fifo_drv_simps [simp]:
  "ready (fifo_drv sts ws)" "\<not> mac_lock (fifo_drv sts ws)" "napi_sched (fifo_drv sts ws)"
  "ioaddr (fifo_drv sts ws) = 0" "ops (fifo_drv sts ws) = standard_smsc911x_ops" "length (dev_addr (fifo_drv sts ws)) = 6"
  "phy_dev (fifo_drv sts ws) \<noteq> None" "is_valid_ether_addr (dev_addr (fifo_drv sts ws))"
  "config (fifo_drv sts ws) = example_config" "chip (fifo_drv sts ws) = \<lparr>rx_status = sts, rx_data = ws, tx_data = [], tx_status = [0x00400000]\<rparr>"
  "cfg_flags example_config AND SMSC911X_SWAP_FIFO = 0"
  by (simp_all add: fifo_drv_def example_ready)
    (simp_all add: example_drv_def example_config_def is_valid_ether_addr_def is_multicast_ether_addr_def is_zero_ether_addr_def)

lemma fifo_reads:
  "chip_read fifo_hw (0, example_config, standard_smsc911x_ops) r d = readl fifo_hw r d"
  "chip_write fifo_hw (0, example_config, standard_smsc911x_ops) r v d = writel fifo_hw r v d"
  by (simp_all add: chip_read_def chip_write_def cell_read_def cell_write_def reg_addr_def example_config_def)

lemma fifo_tx_drains: "tx_drains fifo_hw (0, example_config, standard_smsc911x_ops)"
  unfolding tx_drains_def fifo_reads
  by (rule exI [of _ "\<lambda>d. length (tx_status d)"]) (auto simp: fifo_hw_def pop_fifo_def Let_def split: list.splits)

lemma fifo_tx_fifo: "tx_fifo_of fifo_hw (0, example_config, standard_smsc911x_ops) tx_data"
  unfolding tx_fifo_of_def fifo_reads by (auto simp: fifo_hw_def case_prod_unfold Let_def)

text \<open>A chip with a number of packets of zeros, and with the interrupts for them and for the software test.\<close>

definition count_hw :: "nat hw" where
  "count_hw = \<lparr>
     readl = (\<lambda>a d.
       if a = RX_FIFO_INF then (if d = 0 then 0 else 0x10000, d)
       else if a = RX_STATUS_FIFO then (0x00400000, d - 1)
       else if a = INT_STS \<or> a = INT_EN then (0x80000008, d)
       else (0, d)),
     readw = (\<lambda>a d. (0, d)), writel = (\<lambda>a v d. d), writew = (\<lambda>a v d. d)\<rparr>"

definition count_drv :: "nat \<Rightarrow> nat smsc911x_data" where
  "count_drv n = example_drv n"

lemma count_drv_simps [simp]:
  "ready (count_drv n)" "\<not> mac_lock (count_drv n)" "napi_sched (count_drv n)"
  "ioaddr (count_drv n) = 0" "config (count_drv n) = example_config" "ops (count_drv n) = standard_smsc911x_ops" "length (dev_addr (count_drv n)) = 6"
  "phy_dev (count_drv n) = Some example_phy" "is_valid_ether_addr (dev_addr (count_drv n))" "chip (count_drv n) = n"
  by (simp_all add: count_drv_def example_ready)
    (simp_all add: example_drv_def is_valid_ether_addr_def is_multicast_ether_addr_def is_zero_ether_addr_def)

lemma count_reads: "chip_read count_hw (0, example_config, standard_smsc911x_ops) r d =
    (if r = RX_FIFO_INF then (if d = 0 then 0 else 0x10000, d) else if r = RX_STATUS_FIFO then (0x00400000, d - 1)
     else if r = INT_STS \<or> r = INT_EN then (0x80000008, d) else (0, d))"
  by (simp add: chip_read_def cell_read_def reg_addr_def example_config_def count_hw_def)

lemma count_tx_drains: "tx_drains count_hw (0, example_config, standard_smsc911x_ops)"
  unfolding tx_drains_def count_reads by simp

lemma count_cells: "fst (cells_read (chip_read count_hw (0, example_config, standard_smsc911x_ops) RX_DATA_FIFO) n d) = replicate n 0"
  by (induction n arbitrary: d) (simp_all add: count_reads case_prod_unfold Let_def)

lemma zero_bytes: "concat (map (bytes_of_le32 \<circ> fifo_swap example_config) (replicate n 0)) = replicate (4 * n) 0"
proof -
  have "(bytes_of_le32 \<circ> fifo_swap example_config) 0 = replicate 4 0"
    by (simp add: fifo_swap_def example_config_def bytes_of_le32_def numeral_eq_Suc)
  then show ?thesis by (induction n) (simp_all add: replicate_add [symmetric])
qed

lemma count_rx_ok: "rx_ok count_hw (0, example_config, standard_smsc911x_ops)"
proof -
  have l: "rx_length 0x00400000 = 64" by (simp add: rx_length_def)
  have "good_rx count_hw (0, example_config, standard_smsc911x_ops) (0x00400000, d)" for d
    unfolding good_rx_def Let_def case_prod_conv l count_cells fst_conv snd_conv zero_bytes by simp
  then show ?thesis
    unfolding rx_ok_def count_reads by simp
qed

lemma poll_result_witness:
  "\<exists>n up t. smsc911x_poll count_hw Some Some (\<lambda>_. True) 16 (count_drv 3) = Some (n, up, t) \<and> n \<le> 16 \<and>
     rx_packets (stats t) + rx_dropped (stats t) = rx_packets (stats (count_drv 3)) + rx_dropped (stats (count_drv 3)) + of_nat n \<and>
     (napi_sched t \<longleftrightarrow> n = 16)"
  using poll_result [of "count_drv 3" count_hw Some Some "\<lambda>_. True" 16]
  by (auto simp: count_tx_drains count_rx_ok answers_def)



definition example_challenge :: sk_buff where
  "example_challenge = \<lparr>
     skb_buf = [0, 0] @ [2, 0, 0, 0, 0, 1] @ [2, 0, 0, 0, 0, 9] @ [8, 0] @ replicate 12 1 @ [10, 0, 0, 9] @ [10, 0, 0, 1] @
       [2, 0, 0, 0] @ replicate 256 7 @ [],
     skb_data = 16, skb_len = 280\<rparr>"

lemma attest_reply_frame_witness:
  "\<exists>c. attest_reply Some Some example_challenge = Some (example_challenge\<lparr>
      skb_buf := [0, 0] @ [2, 0, 0, 0, 0, 9] @ [2, 0, 0, 0, 0, 1] @ [8, 0] @ replicate 12 1 @ [10, 0, 0, 1] @ [10, 0, 0, 9] @
        [2, 0] @ c @ concat (map bytes_of_le32 (words_of_bytes (replicate 256 7))) @ [],
      skb_data := 2, skb_len := skb_len example_challenge + 14\<rparr>) \<and>
    checksum ([2, 0] @ c @ concat (map bytes_of_le32 (words_of_bytes (replicate 256 7)))) = 0 \<and>
    checksum (replicate 12 1 @ [10, 0, 0, 1] @ [10, 0, 0, 9]) = checksum (replicate 12 1 @ [10, 0, 0, 9] @ [10, 0, 0, 1])"
proof (rule attest_reply_frame)
  show "skb_buf example_challenge = [0, 0] @ [2, 0, 0, 0, 0, 1] @ [2, 0, 0, 0, 0, 9] @ [8, 0] @ replicate 12 1 @ [10, 0, 0, 9] @
      [10, 0, 0, 1] @ [2, 0, 0, 0] @ replicate 256 7 @ []"
    by (simp only: example_challenge_def sk_buff.select_convs)
  show "skb_data example_challenge = 16" by (simp add: example_challenge_def)
qed simp_all

definition example_packet :: sk_buff where
  "example_packet = \<lparr>skb_buf = [0, 0, 1, 2, 3, 4, 5, 6, 7, 8, 9, 10], skb_data = 2, skb_len = 10\<rparr>"

lemma example_packet_ok: "skb_ok example_packet" "unat (skb_len example_packet) = 10"
proof -
  have "length (skb_buf example_packet) = 4 * 3" by (simp add: example_packet_def)
  then show "skb_ok example_packet" unfolding skb_ok_def by (simp only: dvd_triv_left) (simp add: example_packet_def)
  show "unat (skb_len example_packet) = 10" by (simp add: example_packet_def)
qed

lemma xmit_sends_packet_witness:
  "\<exists>t ws. smsc911x_hard_start_xmit fifo_hw example_packet (fifo_drv [] []) = Some (0, t) \<and>
     tx_data (chip t) = ws \<and> tx_packet ws = [1, 2, 3, 4, 5, 6, 7, 8, 9, 10]"
proof -
  have "take (unat (skb_len example_packet)) (drop (skb_data example_packet) (skb_buf example_packet)) = [1, 2, 3, 4, 5, 6, 7, 8, 9, 10]"
    by (simp add: example_packet_def)
  then show ?thesis
    using example_packet_ok xmit_sends_packet [of "fifo_drv [] []" fifo_hw tx_data example_packet] by (auto simp: fifo_tx_drains fifo_tx_fifo)
qed

lemma xmit_queue_wrap_witness:
  "\<exists>t. smsc911x_hard_start_xmit fifo_hw example_packet ((fifo_drv [] [])\<lparr>queue_stopped := False\<rparr>) = Some (0, t) \<and> \<not> queue_stopped t"
proof -
  have "unat (tx_free fifo_hw ((fifo_drv [] [])\<lparr>queue_stopped := False\<rparr>)) = 0x1200"
    by (simp add: fifo_reads) (simp add: fifo_hw_def)
  then show ?thesis
    using example_packet_ok xmit_queue_wrap [of "(fifo_drv [] [])\<lparr>queue_stopped := False\<rparr>" fifo_hw example_packet] by (auto simp: fifo_tx_drains)
qed

definition short_challenge :: "u32 list" where
  "short_challenge = [0, 0, 0, 0x00080000, 0, 0, 0x00000100, 0, 0, 2, 0, 0, 0, 0, 0, 0, 0]"

lemma short_challenge_overruns_witness:
  "rx_packet fifo_hw Some Some 64 [] (fifo_drv [] short_challenge) = None"
proof -
  have 17: "unat (pkt_words 64) = 17" by simp
  have c: "fst (cells_read (chip_read fifo_hw (0, example_config, standard_smsc911x_ops) RX_DATA_FIFO) 17
      (chip (fifo_drv [] short_challenge))) = short_challenge"
    unfolding fifo_reads by (simp add: numeral_eq_Suc fifo_hw_def short_challenge_def pop_fifo_def case_prod_unfold Let_def)
  have b: "rx_bytes_of fifo_hw (port (fifo_drv [] short_challenge)) 64 (chip (fifo_drv [] short_challenge)) =
      concat (map bytes_of_le32 short_challenge)"
  proof -
    have "bytes_of_le32 \<circ> fifo_swap example_config = bytes_of_le32" by (rule ext) (simp add: fifo_swap_def)
    then show ?thesis using c by (simp only: 17 fifo_drv_simps fst_conv snd_conv)
  qed
  obtain p d where f: "receive_frame fifo_hw 64 (fifo_drv [] short_challenge) = Some (p,
      \<lparr>skb_buf = concat (map bytes_of_le32 short_challenge), skb_data = 16, skb_len = 64 - 18\<rparr>, (fifo_drv [] short_challenge)\<lparr>chip := d\<rparr>)"
      "p = 8 \<longleftrightarrow> concat (map bytes_of_le32 short_challenge) ! 14 = 8 \<and> concat (map bytes_of_le32 short_challenge) ! 15 = 0"
    using receive_frame_eq [of "fifo_drv [] short_challenge" 64 fifo_hw] unfolding b by auto
  moreover have "p = 8" using f(2) by (simp add: short_challenge_def bytes_of_le32_def)
  ultimately show ?thesis
    by (intro short_challenge_overruns [OF _ f(1)])
      (simp_all add: is_challenge_def skb_get_def arr_get_def short_challenge_def bytes_of_le32_def)
qed

end
