(* ===== verification/Icmp_Client.thy ===== *)
theory Icmp_Client
  imports Inet_Checksum
begin

text \<open>
  The client of the attestation protocol, \<open>icmp_client/icmp.c\<close>: it sends a challenge of 64 random words in
  an ICMP packet of type 2, waits for a packet of that type, prints the first eight words of the answer and judges the device by
  the time that has passed. What the network delivers is a list of results of \<open>recvfrom\<close>, each with the
  time the clock shows after it; the random numbers are a parameter.
\<close>

unbundle bit_operations_syntax

section \<open>The program\<close>

abbreviation (input) VET_ICMP_TYPE :: u8 where "VET_ICMP_TYPE \<equiv> 2"
abbreviation (input) VET_ICMP_CODE :: u8 where "VET_ICMP_CODE \<equiv> 0"

text \<open>\<open>mach_timespec_t\<close>: seconds are unsigned, nanoseconds are signed.\<close>

type_synonym mach_timespec = "u32 \<times> int"

datatype recv = Recv_error | Recv "u8 list"

datatype client_exit =
    Usage
  | Socket_error
  | Verdict (printed: "u32 list") (tdiff: int) (accepted: bool)

text \<open>The buffer of 500 bytes on the stack; what is behind the request is not initialised.\<close>

definition build_packet :: "u32 list \<Rightarrow> u8 list \<Rightarrow> u8 list" where
  "build_packet nonce rest =
     (let hdr = [VET_ICMP_TYPE, VET_ICMP_CODE];
          data = concat (map bytes_of_le32 nonce);
          c = checksum (hdr @ [0, 0] @ data)
      in hdr @ bytes_of_le16 c @ data @ rest)"

text \<open>\<open>recvfrom\<close> writes the datagram to the front of the buffer and cuts it off at 500 bytes.\<close>

definition recvfrom :: "recv \<Rightarrow> u8 list \<Rightarrow> u8 list" where
  "recvfrom r packet = (case r of Recv_error \<Rightarrow> packet | Recv bs \<Rightarrow> take 500 bs @ drop (length bs) packet)"

definition time_diff :: "mach_timespec \<Rightarrow> mach_timespec \<Rightarrow> int" where
  "time_diff smts rmts = uint (fst rmts - fst smts) * 1000000000 + snd rmts - snd smts"

fun client_loop :: "mach_timespec \<Rightarrow> (recv \<times> mach_timespec) list \<Rightarrow> u8 list \<Rightarrow> client_exit option" where
  "client_loop smts [] packet = None"
| "client_loop smts ((r, rmts) # evs) packet = do {
     let packet = recvfrom r packet;
     t \<leftarrow> arr_get packet 20;
     if t = VET_ICMP_TYPE then do {
       data \<leftarrow> arr_slice packet 24 32;
       let tdiff = time_diff smts rmts;
       Some (Verdict (words_of_bytes data) tdiff (tdiff < 1100000000))
     }
     else client_loop smts evs packet
   }"

text \<open>The result has the datagram that is sent; the program waits for ever when its second part is \<open>None\<close>.\<close>

definition client_main :: "int \<Rightarrow> int \<Rightarrow> u32 list \<Rightarrow> u8 list \<Rightarrow> mach_timespec \<Rightarrow> (recv \<times> mach_timespec) list \<Rightarrow>
    u8 list option \<times> client_exit option" where
  "client_main argc sock nonce rest smts evs =
     (if argc \<noteq> 2 then (None, Some Usage)
      else if sock = -1 then (None, Some Socket_error)
      else let packet = build_packet nonce rest
        in (Some (take (4 + 64 * 4) packet), client_loop smts evs packet))"

section \<open>The request and the verdict\<close>

lemma length_build_packet: "length (build_packet nonce rest) = 4 + 4 * length nonce + length rest"
  by (simp add: build_packet_def Let_def bytes_of_le16_def)

lemma length_recvfrom: "length packet = 500 \<Longrightarrow> length (recvfrom r packet) = 500"
  by (auto simp: recvfrom_def split: recv.splits)

definition received :: "u8 list \<Rightarrow> (recv \<times> mach_timespec) list \<Rightarrow> u8 list" where
  "received packet evs = fold (\<lambda>(r, _). recvfrom r) evs packet"

lemma client_loop_first:
  assumes "length packet = 500" and "\<forall>n < length pre. received packet (take (Suc n) pre) ! 20 \<noteq> 2"
    and "received packet (pre @ [(r, rmts)]) ! 20 = 2"
  shows "client_loop smts (pre @ (r, rmts) # evs) packet =
    Some (Verdict (words_of_bytes (take 32 (drop 24 (received packet (pre @ [(r, rmts)])))))
      (time_diff smts rmts) (time_diff smts rmts < 1100000000))"
  using assms
proof (induction pre arbitrary: packet)
  case Nil
  then show ?case using length_recvfrom [OF Nil(1), of r] by (simp add: received_def Let_def)
next
  case (Cons e pre)
  obtain r' t' where e: "e = (r', t')" by (cases e)
  let ?p = "recvfrom r' packet"
  have p: "length ?p = 500" using length_recvfrom [OF Cons.prems(1)] .
  have "?p ! 20 \<noteq> 2" using Cons.prems(2) by (auto simp: received_def e dest: spec [of _ 0])
  moreover have "received ?p (take (Suc n) pre) ! 20 \<noteq> 2" if "n < length pre" for n
    using spec [OF Cons.prems(2), of "Suc n"] that by (simp add: received_def e)
  ultimately show ?case
    using Cons.IH [OF p] Cons.prems(3) p by (simp add: received_def e Let_def)
qed

lemma request_checksum:
  assumes "length nonce = 64"
  shows "take 260 (build_packet nonce rest) = [2, 0] @ bytes_of_le16 (checksum ([2, 0] @ [0, 0] @ concat (map bytes_of_le32 nonce))) @
      concat (map bytes_of_le32 nonce)"
    and "checksum (take 260 (build_packet nonce rest)) = 0"
proof -
  show t: "take 260 (build_packet nonce rest) = [2, 0] @ bytes_of_le16 (checksum ([2, 0] @ [0, 0] @ concat (map bytes_of_le32 nonce))) @
      concat (map bytes_of_le32 nonce)"
    using assms by (simp add: build_packet_def Let_def bytes_of_le16_def)
  show "checksum (take 260 (build_packet nonce rest)) = 0"
    unfolding t using assms by (intro checksum_filled) simp_all
qed

text \<open>
  C19: The client sends a well-formed request, and its verdict depends on the clock only. The first call of \<open>recvfrom\<close> after which
  byte 20 of the buffer is 2 ends the program. It prints the eight words behind the header, and it reports that
  there is no malware exactly if less than 1.1 seconds have passed, whatever these words are, whoever sent them and whether anything was
  received at all: after a failed call the buffer still holds the request, whose byte 20 is random.
\<close>

theorem client_verdict_is_time:
  assumes "length nonce = 64" and "length rest = 240" and "sock \<noteq> -1" and "packet = build_packet nonce rest"
    and "\<forall>n < length pre. received packet (take (Suc n) pre) ! 20 \<noteq> 2"
    and "received packet (pre @ [(r, rmts)]) ! 20 = 2"
  shows "\<exists>req ws. client_main 2 sock nonce rest smts (pre @ (r, rmts) # evs) =
      (Some req, Some (Verdict ws (time_diff smts rmts) (time_diff smts rmts < 1100000000))) \<and>
    length req = 260 \<and> checksum req = 0 \<and> words_of_bytes (drop 4 req) = nonce \<and>
    ws = words_of_bytes (take 32 (drop 24 (received packet (pre @ [(r, rmts)]))))"
proof -
  have l: "length packet = 500" using assms(1,2,4) by (simp add: length_build_packet)
  have "drop 4 (take 260 packet) = concat (map bytes_of_le32 nonce)"
    using request_checksum(1) [OF assms(1), of rest] assms(4) by (simp add: bytes_of_le16_def)
  then have "words_of_bytes (drop 4 (take 260 packet)) = nonce" by (simp add: words_of_bytes_of_words)
  then show ?thesis
    using client_loop_first [OF l assms(5,6)] request_checksum(2) [OF assms(1), of rest] assms(3,4) l
    by (simp add: client_main_def Let_def)
qed

text \<open>The fifth word of this challenge is 2, and the only call of \<open>recvfrom\<close> fails.\<close>

lemma client_verdict_is_time_witness:
  "\<exists>req ws. client_main 2 3 (replicate 64 2) (replicate 240 0) (7, 0) [(Recv_error, (7, 5))] = (Some req, Some (Verdict ws 5 True)) \<and>
     checksum req = 0 \<and> ws = replicate 8 2"
proof -
  let ?p = "build_packet (replicate 64 2) (replicate 240 0)" and ?w = "\<lambda>n. concat (map bytes_of_le32 (replicate n 2))"
  have s: "replicate 64 (2 :: u32) = replicate 5 2 @ replicate 8 2 @ replicate 51 2" by (simp flip: replicate_add)
  obtain c where "?p = [2, 0] @ bytes_of_le16 c @ ?w 64 @ replicate 240 0"
    by (simp add: build_packet_def Let_def)
  then have p: "?p = ([2, 0] @ bytes_of_le16 c @ ?w 5) @ ?w 8 @ ?w 51 @ replicate 240 0"
    unfolding s by simp
  have l: "length ([2, 0] @ bytes_of_le16 c @ ?w 5) = 24" unfolding length_append length_concat_bytes by (simp add: bytes_of_le16_def)
  have "length (?w 8) = 32" unfolding length_concat_bytes by simp
  with l have "take 32 (drop 24 ?p) = ?w 8" unfolding p by simp
  then have ws: "words_of_bytes (take 32 (drop 24 ?p)) = replicate 8 2" by (simp only: words_of_bytes_of_words)
  have "length (?w 4) = 16" unfolding length_concat_bytes by simp
  moreover have "?w 5 = ?w 4 @ [2, 0, 0, 0]" using replicate_add [of 4 1 "2 :: u32"] by (simp add: bytes_of_le32_def)
  ultimately have 20: "?p ! 20 = 2" unfolding p by (simp add: nth_append bytes_of_le16_def)
  have r: "received ?p ([] @ [(Recv_error, (7, 5))]) = ?p" by (simp add: received_def recvfrom_def)
  show ?thesis
    using client_verdict_is_time [of "replicate 64 2" "replicate 240 0" 3 ?p "[]" Recv_error "(7, 5)" "(7, 0)" "[]"]
      20 ws unfolding r by (auto simp: time_diff_def)
qed

end
