(* ===== verification/Attestation.thy ===== *)
theory Attestation
  imports Arm_Spec Smsc_Net Icmp_Client
begin

text \<open>
  The parts of the attestation protocol put together: the client of \<open>icmp_client/icmp.c\<close>, the packet path of
  the driver and the checksum code it calls on the machine. What the client prints is traced back to the specification of the checksum.
\<close>

unbundle bit_operations_syntax

section \<open>The checksum call\<close>

text \<open>
  The driver copies the challenge to a buffer at the address \<open>ch\<close>
  and calls \<open>swattARM(buf, 52)\<close> on the machine.
\<close>

definition load_challenge :: "u32 \<Rightarrow> u32 list \<Rightarrow> arm \<Rightarrow> arm" where
  "load_challenge ch buf m = m\<lparr>mem := store_mem (\<lambda>i. buf ! i) ch 64 (mem m)\<rparr>"

definition arm_swatt :: "sp_ops \<Rightarrow> u32 \<Rightarrow> nat \<Rightarrow> u32 \<Rightarrow> arm \<Rightarrow> u32 list \<Rightarrow> u32 list option" where
  "arm_swatt sp A ra ch m buf = do {
     m \<leftarrow> swattARM sp A ra ch 52 (load_challenge ch buf m);
     Some (map (\<lambda>i. mem m (cw ch i)) [0..<64])
   }"

text \<open>The checksum of the specification, for a challenge.\<close>

definition expected_words :: "u32 \<Rightarrow> u32 \<Rightarrow> arm \<Rightarrow> u32 list \<Rightarrow> u32 list" where
  "expected_words A ch m buf =
     fst (spec_loop A (mem (load_challenge ch buf m)) 0x200000 (spec_start ch (load_challenge ch buf m)))"

lemma arm_swatt_words:
  assumes "swatt_env sp A ra ch m" and "apart A 0 ch m"
  shows "\<exists>rs. arm_swatt sp A ra ch m buf = Some rs \<and> length rs = 64 \<and> take 8 rs = expected_words A ch m buf"
proof -
  let ?m = "load_challenge ch buf m"
  have "swatt_env sp A ra ch ?m" "apart A 0 ch ?m"
    using assms by (simp_all add: swatt_env_def apart_def load_challenge_def)
  then obtain u where u: "swattARM sp A ra ch 52 ?m = Some u"
    "take 8 (challenge_words ch (mem u)) = expected_words A ch m buf"
    using swattARM_words unfolding expected_words_def by blast
  have "take 8 (map (\<lambda>i. mem u (cw ch i)) [0..<64]) = take 8 (challenge_words ch (mem u))"
    by (simp add: challenge_words_def take_map take_upt del: upt_Suc)
  with u show ?thesis by (simp add: arm_swatt_def del: upt_Suc)
qed

lemma receive_frame_chip:
  assumes "ready s" and "receive_frame h l s = Some (p, k, t)"
  shows "chip t = snd (cells_read (chip_read h (port s) RX_DATA_FIFO) (unat (pkt_words l)) (chip s))"
  using assms by (auto simp: receive_frame_def rx_readfifo_eq case_prod_unfold Let_def bind_eq_Some_conv)

lemma cells_read_fifo: "(\<And>d. fifo (snd (f d)) = fifo d) \<Longrightarrow> fifo (snd (cells_read f n d)) = fifo d"
  by (induction n arbitrary: d) (auto simp: case_prod_unfold Let_def)

text \<open>
  A challenge frame in the receive FIFO: the packet length 298 counts the 280 bytes of the IP packet, the Ethernet header and the
  checksum behind the frame.
\<close>

lemma rx_packet_challenge:
  assumes s: "ready s" "tx_drains h (port s)" "tx_fifo_of h (port s) fifo" "cfg_flags (config s) AND SMSC911X_SWAP_FIFO = 0"
    and rx: "\<And>d. fifo (snd (chip_read h (port s) RX_DATA_FIFO d)) = fifo d"
    and b: "rx_bytes_of h (port s) 298 (chip s) = pad @ dst @ src @ [8, 0] @ ip @ ipsrc @ ipdst @ [2, 0, c0, c1] @ payload @ crc"
    and l: "length pad = 2" "length dst = 6" "length src = 6" "length ip = 12" "length ipsrc = 4" "length ipdst = 4"
      "length payload = 256" "length crc = 4" "ip ! 9 = 1"
    and sw: "swatt (words_of_bytes payload) = Some ws" "length ws = 64"
  shows "\<exists>t ds c. rx_packet h swatt db 298 up s = Some (up, t) \<and> fifo (chip t) = fifo (chip s) @ ds \<and> length c = 2 \<and>
    tx_packet ds = src @ dst @ [8, 0] @ ip @ ipdst @ ipsrc @ [2, 0] @ c @ concat (map bytes_of_le32 ws)"
proof -
  let ?b = "pad @ dst @ src @ [8, 0] @ ip @ ipsrc @ ipdst @ [2, 0, c0, c1] @ payload @ crc"
  let ?k = "\<lparr>skb_buf = ?b, skb_data = 16, skb_len = 280\<rparr>"
  define bs where "bs = concat (map bytes_of_le32 ws)"
  define c where "c = bytes_of_le16 (checksum ([2, 0] @ [0, 0] @ bs))"
  let ?r = "\<lparr>skb_buf = pad @ src @ dst @ [8, 0] @ ip @ ipdst @ ipsrc @ [2, 0] @ c @ bs @ crc, skb_data = 2, skb_len = 294\<rparr>"
  obtain p d where f: "receive_frame h 298 s = Some (p, ?k, s\<lparr>chip := d\<rparr>)" "p = 8 \<longleftrightarrow> ?b ! 14 = 8 \<and> ?b ! 15 = 0"
    using receive_frame_eq [OF s(1), of 298 h] unfolding b by auto
  have "?b ! 14 = 8 \<and> ?b ! 15 = 0" using l by (simp add: nth_append)
  with f have f: "receive_frame h 298 s = Some (8, ?k, s\<lparr>chip := d\<rparr>)" by simp
  have d: "fifo d = fifo (chip s)"
    using receive_frame_chip [OF s(1) f] cells_read_fifo [of fifo, OF rx] by simp
  have ip: "ip = take 9 ip @ 1 # drop 10 ip" using id_take_nth_drop [of 9 ip] l by simp
  have "skb_get 9 ?k = Some 1"
    using l by (intro skb_get_eq [where a = "pad @ dst @ src @ [8, 0] @ take 9 ip" and c = "drop 10 ip @ ipsrc @ ipdst @ [2, 0, c0, c1] @ payload @ crc"])
      (subst ip, auto)
  moreover have "skb_get 20 ?k = Some 2"
    using l by (intro skb_get_eq [where a = "pad @ dst @ src @ [8, 0] @ ip @ ipsrc @ ipdst" and c = "[0, c0, c1] @ payload @ crc"]) auto
  ultimately have ch: "is_challenge 8 ?k = Some True" by (simp add: is_challenge_def)
  have lb: "length bs = 256" "length c = 2" using sw(2) by (simp_all add: bs_def c_def bytes_of_le16_def)
  have r: "attest_reply swatt db ?k = Some ?r"
    using attest_reply_eq [of ?k pad dst src "[8, 0]" ip ipsrc ipdst 2 0 c0 c1 payload crc swatt db ws bs c] l lb sw(1)
    by (simp add: bs_def c_def)
  have "skb_ok ?r" using l lb by (simp add: skb_ok_def)
  from xmit_packet_words [of "s\<lparr>chip := d\<rparr>" h fifo ?r] this s
  obtain t ds where t: "smsc911x_hard_start_xmit h ?r (s\<lparr>chip := d\<rparr>) = Some (0, t)" "fifo (chip t) = fifo d @ ds"
    "tx_packet ds = take 294 (drop 2 (skb_buf ?r))"
    by auto
  have "tx_packet ds = src @ dst @ [8, 0] @ ip @ ipdst @ ipsrc @ [2, 0] @ c @ bs" using t(3) l lb by simp
  moreover have "rx_packet h swatt db 298 up s = Some (up, rx_count 298 t)" using f ch r t(1) by (simp add: rx_packet_def)
  moreover have "chip (rx_count 298 t) = chip t" by (simp add: rx_count_def Let_def)
  ultimately show ?thesis using t(2) d lb unfolding bs_def by metis
qed

section \<open>The client\<close>

lemma take_concat_bytes: "take (4 * n) (concat (map bytes_of_le32 ws)) = concat (map bytes_of_le32 (take n ws))"
proof (induction ws arbitrary: n)
  case (Cons w ws)
  then show ?case by (cases n) (simp_all add: take_append)
qed simp

lemma client_reads_answer:
  assumes "length nonce = 64" and "length stack = 240" and "sock \<noteq> -1" and "client_main 2 sock nonce stack smts [] = (Some req, None)"
    and "length hdr = 20" and "length c = 2" and "length rs = 64"
  shows "client_main 2 sock nonce stack smts [(Recv (hdr @ [2, 0] @ c @ concat (map bytes_of_le32 rs)), rmts)] =
    (Some req, Some (Verdict (take 8 rs) (time_diff smts rmts) (time_diff smts rmts < 1100000000)))"
proof -
  let ?p = "build_packet nonce stack" and ?bs = "hdr @ [2, 0] @ c @ concat (map bytes_of_le32 rs)"
  let ?q = "received ?p ([] @ [(Recv ?bs, rmts)])"
  have p: "length ?p = 500" using assms(1,2) by (simp add: length_build_packet)
  have q: "?q = ?bs @ drop 280 ?p" using assms by (simp add: received_def recvfrom_def)
  have "take 32 (drop 24 ?q) = take (4 * 8) (concat (map bytes_of_le32 rs))" unfolding q using assms by simp
  then have w: "words_of_bytes (take 32 (drop 24 ?q)) = take 8 rs" by (simp only: take_concat_bytes words_of_bytes_of_words)
  have "?q ! 20 = 2" unfolding q using assms by (simp add: nth_append)
  from client_loop_first [OF p _ this, of smts "[]"] w assms(3,4) show ?thesis by (simp add: client_main_def)
qed

lemma client_request:
  assumes "length nonce = 64" and "sock \<noteq> -1" and "client_main 2 sock nonce stack smts [] = (Some req, None)"
  shows "\<exists>c0 c1. req = [2, 0, c0, c1] @ concat (map bytes_of_le32 nonce)"
  using assms request_checksum(1) [OF assms(1), of stack] by (auto simp: client_main_def bytes_of_le16_def Let_def)

section \<open>A round\<close>

lemma round_words:
  assumes s: "ready s" "tx_drains h (port s)" "tx_fifo_of h (port s) fifo" "cfg_flags (config s) AND SMSC911X_SWAP_FIFO = 0"
    and rx: "\<And>d. fifo (snd (chip_read h (port s) RX_DATA_FIFO d)) = fifo d"
    and m: "swatt_env sp A ra ch m" "apart A 0 ch m"
    and c: "length nonce = 64" "length stack = 240" "sock \<noteq> -1" "client_main 2 sock nonce stack smts [] = (Some req, None)"
    and b: "rx_bytes_of h (port s) 298 (chip s) = pad @ dst @ src @ [8, 0] @ ip @ ipsrc @ ipdst @ req @ crc"
    and l: "length pad = 2" "length dst = 6" "length src = 6" "length ip = 12" "length ipsrc = 4" "length ipdst = 4"
      "length crc = 4" "ip ! 9 = 1"
  shows "\<exists>t ds. rx_packet h (arm_swatt sp A ra ch m) db 298 up s = Some (up, t) \<and> fifo (chip t) = fifo (chip s) @ ds \<and>
    take 34 (tx_packet ds) = src @ dst @ [8, 0] @ ip @ ipdst @ ipsrc \<and>
    client_main 2 sock nonce stack smts [(Recv (drop 14 (tx_packet ds)), rmts)] =
      (Some req, Some (Verdict (expected_words A ch m nonce) (time_diff smts rmts) (time_diff smts rmts < 1100000000)))"
proof -
  obtain rs where rs: "arm_swatt sp A ra ch m nonce = Some rs" "length rs = 64" "take 8 rs = expected_words A ch m nonce"
    using arm_swatt_words [OF m] by blast
  obtain c0 c1 where req: "req = [2, 0, c0, c1] @ concat (map bytes_of_le32 nonce)" using client_request [OF c(1,3,4)] by blast
  obtain t ds k where t: "rx_packet h (arm_swatt sp A ra ch m) db 298 up s = Some (up, t)" "fifo (chip t) = fifo (chip s) @ ds" "length k = 2"
    "tx_packet ds = src @ dst @ [8, 0] @ ip @ ipdst @ ipsrc @ [2, 0] @ k @ concat (map bytes_of_le32 rs)"
    using rx_packet_challenge [OF s rx, of pad dst src ip ipsrc ipdst c0 c1 "concat (map bytes_of_le32 nonce)" crc "arm_swatt sp A ra ch m" rs db up]
      b l c(1) rs unfolding req by (auto simp: words_of_bytes_of_words)
  have "drop 14 (tx_packet ds) = (ip @ ipdst @ ipsrc) @ [2, 0] @ k @ concat (map bytes_of_le32 rs)" using t(4) l by simp
  with client_reads_answer [OF c, of "ip @ ipdst @ ipsrc" k rs] t rs l show ?thesis by auto
qed

section \<open>A frame in the example chip\<close>

lemma fifo_pop: "readl fifo_hw RX_DATA_FIFO d = (fst (pop_fifo (rx_data d)), d\<lparr>rx_data := snd (pop_fifo (rx_data d))\<rparr>)"
  by (simp add: fifo_hw_def case_prod_unfold Let_def)

lemma fifo_cells:
  "n \<le> length (rx_data d) \<Longrightarrow> fst (cells_read (chip_read fifo_hw (0, example_config, standard_smsc911x_ops) RX_DATA_FIFO) n d) = take n (rx_data d)"
proof (induction n arbitrary: d)
  case (Suc n)
  then obtain w ws where "rx_data d = w # ws" by (cases "rx_data d") auto
  with Suc show ?case by (simp add: fifo_reads fifo_pop pop_fifo_def case_prod_unfold Let_def)
qed simp

lemma fifo_rx_bytes:
  assumes "length bs = 300"
  shows "rx_bytes_of fifo_hw (port (fifo_drv sts (words_of_bytes bs))) 298 (chip (fifo_drv sts (words_of_bytes bs))) = bs"
proof -
  have "fifo_swap example_config = id" by (rule ext) (simp add: fifo_swap_def)
  moreover have "unat (pkt_words 298) = 75" by simp
  ultimately show ?thesis
    using assms fifo_cells [of 75 "chip (fifo_drv sts (words_of_bytes bs))"] bytes_of_words_of_bytes [of bs 75] by simp
qed

end
