(* ===== verification/Smsc_Ethtool.thy ===== *)
theory Smsc_Ethtool
  imports Smsc_Net
begin

text \<open>
  The control interfaces of \<open>code/nic-driver/smsc/smsc911x.c\<close>: the ioctl that runs the checksum
  (\<open>smsc911x_do_swatt\<close>, \<open>smsc911x_do_ioctl\<close>), the register dump, the EEPROM access and
  the link settings of ethtool, and suspend and resume.
\<close>

section \<open>ioctl\<close>

abbreviation (input) SIOCDEVPRIVATE :: int where "SIOCDEVPRIVATE \<equiv> 0x89f0"

abbreviation (input) ACENIC_IOCTL_SWATT :: int where "ACENIC_IOCTL_SWATT \<equiv> SIOCDEVPRIVATE + 2"

text \<open>The buffer on the stack, \<open>buf\<close>, is not initialised. The result has the eight words that are printed.\<close>

definition smsc911x_do_swatt :: "(u32 list \<Rightarrow> u32 list option) \<Rightarrow> u32 list \<Rightarrow> int \<Rightarrow> (int \<times> u32 list) option" where
  "smsc911x_do_swatt swatt buf cmd =
     (if cmd = ACENIC_IOCTL_SWATT then do {
        buf \<leftarrow> swatt buf;
        Some (0, take 8 buf)
      }
      else Some (- EOPNOTSUPP, []))"

definition smsc911x_do_ioctl :: "'d hw \<Rightarrow> (u32 list \<Rightarrow> u32 list option) \<Rightarrow> 'd phy_fixup list \<Rightarrow> u32 list \<Rightarrow> int \<Rightarrow> mii_ioctl_data \<Rightarrow>
    'd smsc911x_data \<Rightarrow> (int \<times> u32 list \<times> mii_ioctl_data \<times> 'd smsc911x_data) option" where
  "smsc911x_do_ioctl h swatt fixups buf cmd m s =
     (if \<not> running s then Some (- EINVAL, [], m, s)
      else case phy_dev s of
        None \<Rightarrow> Some (- EINVAL, [], m, s)
      | Some phy \<Rightarrow> do {
          (ret, out) \<leftarrow> (if cmd = ACENIC_IOCTL_SWATT then smsc911x_do_swatt swatt buf cmd else Some (1, []));
          if cmd = ACENIC_IOCTL_SWATT \<and> ret = 0 then Some (0, out, m, s)
          else do {
            (r, m, phy, s) \<leftarrow> phy_mii_ioctl h fixups phy cmd m s;
            Some (r, out, m, s\<lparr>phy_dev := Some phy\<rparr>)
          }
        })"

section \<open>Link settings\<close>

definition smsc911x_ethtool_getsettings :: "ethtool_cmd \<Rightarrow> 'd smsc911x_data \<Rightarrow> (int \<times> ethtool_cmd) option" where
  "smsc911x_ethtool_getsettings cmd s = do {
     let cmd = cmd\<lparr>ec_maxtxpkt := 1, ec_maxrxpkt := 1\<rparr>;
     phy \<leftarrow> phy_dev s;
     Some (0, phy_ethtool_gset phy cmd)
   }"

definition smsc911x_ethtool_setsettings :: "'d hw \<Rightarrow> ethtool_cmd \<Rightarrow> 'd smsc911x_data \<Rightarrow> (int \<times> 'd smsc911x_data) option" where
  "smsc911x_ethtool_setsettings h cmd s = do {
     phy \<leftarrow> phy_dev s;
     (r, phy, s) \<leftarrow> phy_ethtool_sset h phy cmd s;
     Some (r, s\<lparr>phy_dev := Some phy\<rparr>)
   }"

definition smsc911x_ethtool_nwayreset :: "'d hw \<Rightarrow> 'd smsc911x_data \<Rightarrow> (int \<times> 'd smsc911x_data) option" where
  "smsc911x_ethtool_nwayreset h s = do {
     phy \<leftarrow> phy_dev s;
     (r, phy, s) \<leftarrow> phy_start_aneg h phy s;
     Some (r, s\<lparr>phy_dev := Some phy\<rparr>)
   }"

section \<open>Register dump\<close>

definition smsc911x_ethtool_getregslen :: u32 where
  "smsc911x_ethtool_getregslen = (((E2P_DATA - ID_REV) div 4 + 1) + (WUCSR - MAC_CR) + 1 + 32) * 4"

text \<open>A loop that reads registers one after the other and stores the values.\<close>

fun dump_regs :: "(u32 \<Rightarrow> 'd smsc911x_data \<Rightarrow> (u32 \<times> 'd smsc911x_data) option) \<Rightarrow> u32 list \<Rightarrow> 'd smsc911x_data \<Rightarrow>
    (u32 list \<times> 'd smsc911x_data) option" where
  "dump_regs rd [] s = Some ([], s)"
| "dump_regs rd (i # is') s = do {
     (v, s) \<leftarrow> rd i s;
     (vs, s) \<leftarrow> dump_regs rd is' s;
     Some (v # vs, s)
   }"

definition locked_mac_read :: "'d hw \<Rightarrow> u32 \<Rightarrow> 'd smsc911x_data \<Rightarrow> (u32 \<times> 'd smsc911x_data) option" where
  "locked_mac_read h i s = do {
     s \<leftarrow> spin_lock_mac s;
     (v, s) \<leftarrow> smsc911x_mac_read h i s;
     Some (v, spin_unlock_mac s)
   }"

definition smsc911x_ethtool_getregs :: "'d hw \<Rightarrow> 'd smsc911x_data \<Rightarrow> (u32 \<times> u32 list \<times> 'd smsc911x_data) option" where
  "smsc911x_ethtool_getregs h s = do {
     let version = idrev s;
     (a, s) \<leftarrow> dump_regs (smsc911x_reg_read h) (map (\<lambda>j. ID_REV + 4 * of_nat j) [0..<26]) s;
     (b, s) \<leftarrow> dump_regs (locked_mac_read h) (map (\<lambda>j. MAC_CR + of_nat j) [0..<12]) s;
     phy \<leftarrow> phy_dev s;
     (c, s) \<leftarrow> dump_regs (\<lambda>i s. do {(v, s) \<leftarrow> smsc911x_mii_read h (phy_addr phy) i s; Some (word_of_int v, s)})
       (map of_nat [0..<32]) s;
     Some (version, a @ b @ c, s)
   }"

section \<open>EEPROM\<close>

definition smsc911x_eeprom_enable_access :: "'d hw \<Rightarrow> 'd smsc911x_data \<Rightarrow> 'd smsc911x_data option" where
  "smsc911x_eeprom_enable_access h s = do {
     (temp, s) \<leftarrow> smsc911x_reg_read h GPIO_CFG s;
     let temp = temp AND NOT GPIO_CFG_EEPR_EN;
     smsc911x_reg_write h GPIO_CFG temp s
   }"

text \<open>The loop makes at most 100 reads; \<open>timeout\<close> is 0 after it exactly if the last one was busy.\<close>

definition smsc911x_eeprom_send_cmd :: "'d hw \<Rightarrow> u32 \<Rightarrow> 'd smsc911x_data \<Rightarrow> (int \<times> 'd smsc911x_data) option" where
  "smsc911x_eeprom_send_cmd h op s = do {
     (v, s) \<leftarrow> smsc911x_reg_read h E2P_CMD s;
     if v AND E2P_CMD_EPC_BUSY \<noteq> 0 then Some (- EBUSY, s)
     else do {
       let e2cmd = op OR E2P_CMD_EPC_BUSY;
       s \<leftarrow> smsc911x_reg_write h E2P_CMD e2cmd s;
       (e2cmd, s) \<leftarrow> poll_reg h E2P_CMD (\<lambda>v. v AND E2P_CMD_EPC_BUSY \<noteq> 0) 99 s;
       if e2cmd AND E2P_CMD_EPC_BUSY \<noteq> 0 then Some (- EAGAIN, s)
       else if e2cmd AND E2P_CMD_EPC_TIMEOUT \<noteq> 0 then Some (- EINVAL, s)
       else Some (0, s)
     }
   }"

definition smsc911x_eeprom_read_location :: "'d hw \<Rightarrow> u8 \<Rightarrow> u8 list \<Rightarrow> 'd smsc911x_data \<Rightarrow> (int \<times> u8 list \<times> 'd smsc911x_data) option" where
  "smsc911x_eeprom_read_location h address data s = do {
     let op = E2P_CMD_EPC_CMD_READ OR ucast address;
     (ret, s) \<leftarrow> smsc911x_eeprom_send_cmd h op s;
     if ret = 0 then do {
       (v, s) \<leftarrow> smsc911x_reg_read h E2P_DATA s;
       data \<leftarrow> arr_set data (unat address) (ucast v);
       Some (ret, data, s)
     }
     else Some (ret, data, s)
   }"

definition smsc911x_eeprom_write_location :: "'d hw \<Rightarrow> u8 \<Rightarrow> u8 \<Rightarrow> 'd smsc911x_data \<Rightarrow> (int \<times> 'd smsc911x_data) option" where
  "smsc911x_eeprom_write_location h address data s = do {
     let op = E2P_CMD_EPC_CMD_ERASE OR ucast address;
     (ret, s) \<leftarrow> smsc911x_eeprom_send_cmd h op s;
     if ret = 0 then do {
       let op = E2P_CMD_EPC_CMD_WRITE OR ucast address;
       s \<leftarrow> smsc911x_reg_write h E2P_DATA (ucast data) s;
       (_, s) \<leftarrow> smsc911x_reg_read h BYTE_TEST s;
       smsc911x_eeprom_send_cmd h op s
     }
     else Some (ret, s)
   }"

definition smsc911x_ethtool_get_eeprom_len :: u32 where
  "smsc911x_ethtool_get_eeprom_len = SMSC911X_EEPROM_SIZE"

text \<open>The loop over the locations, from \<open>i\<close> on with \<open>n\<close> to go; it ends at the first error.\<close>

fun eeprom_read_loop :: "'d hw \<Rightarrow> nat \<Rightarrow> nat \<Rightarrow> u8 list \<Rightarrow> 'd smsc911x_data \<Rightarrow> (int \<times> u8 list \<times> 'd smsc911x_data) option" where
  "eeprom_read_loop h i 0 data s = Some (0, data, s)"
| "eeprom_read_loop h i (Suc n) data s = do {
     (ret, data, s) \<leftarrow> smsc911x_eeprom_read_location h (of_nat i) data s;
     if ret < 0 then Some (ret, data, s) else eeprom_read_loop h (i + 1) n data s
   }"

text \<open>
  The array on the stack, \<open>eeprom_data\<close>, is not initialised: it is an argument. The result is the return
  value, the new length and the bytes copied to the caller.
\<close>

definition smsc911x_ethtool_get_eeprom :: "'d hw \<Rightarrow> u8 list \<Rightarrow> u32 \<Rightarrow> u32 \<Rightarrow> 'd smsc911x_data \<Rightarrow> (int \<times> u32 \<times> u8 list \<times> 'd smsc911x_data) option" where
  "smsc911x_ethtool_get_eeprom h eeprom_data offset elen s = do {
     s \<leftarrow> smsc911x_eeprom_enable_access h s;
     let len = min elen SMSC911X_EEPROM_SIZE;
     (ret, eeprom_data, s) \<leftarrow> eeprom_read_loop h 0 (unat len) eeprom_data s;
     if ret < 0 then Some (ret, 0, [], s)
     else if unat offset + unat len \<le> length eeprom_data
       then Some (0, len, take (unat len) (drop (unat offset) eeprom_data), s)
     else None
   }"

definition smsc911x_ethtool_set_eeprom :: "'d hw \<Rightarrow> u32 \<Rightarrow> u8 \<Rightarrow> 'd smsc911x_data \<Rightarrow> (int \<times> u32 \<times> 'd smsc911x_data) option" where
  "smsc911x_ethtool_set_eeprom h offset data s = do {
     s \<leftarrow> smsc911x_eeprom_enable_access h s;
     (_, s) \<leftarrow> smsc911x_eeprom_send_cmd h E2P_CMD_EPC_CMD_EWEN s;
     (ret, s) \<leftarrow> smsc911x_eeprom_write_location h (ucast offset) data s;
     (_, s) \<leftarrow> smsc911x_eeprom_send_cmd h E2P_CMD_EPC_CMD_EWDS s;
     Some (ret, 1, s)
   }"

section \<open>Power management\<close>

definition smsc911x_suspend :: "'d hw \<Rightarrow> 'd smsc911x_data \<Rightarrow> (int \<times> 'd smsc911x_data) option" where
  "smsc911x_suspend h s = do {
     s \<leftarrow> smsc911x_reg_write h PMT_CTRL
       (PMT_CTRL_PM_MODE_D1 OR PMT_CTRL_WOL_EN OR PMT_CTRL_ED_EN OR PMT_CTRL_PME_EN) s;
     Some (0, s)
   }"

text \<open>At most 100 reads; \<open>to\<close> is 0 after the loop exactly if the last one was not ready.\<close>

definition smsc911x_resume :: "'d hw \<Rightarrow> 'd smsc911x_data \<Rightarrow> (int \<times> 'd smsc911x_data) option" where
  "smsc911x_resume h s = do {
     s \<leftarrow> smsc911x_reg_write h BYTE_TEST 0 s;
     (v, s) \<leftarrow> poll_reg h PMT_CTRL (\<lambda>v. v AND PMT_CTRL_READY = 0) 99 s;
     Some (if v AND PMT_CTRL_READY = 0 then - EIO else 0, s)
   }"

section \<open>What the functions keep\<close>

lemma holds_dump_regs:
  assumes "\<And>i s Q. good s \<Longrightarrow> (\<And>v d. Q (v, s\<lparr>chip := d\<rparr>)) \<Longrightarrow> holds (rd i s) Q"
    and "\<And>s d. good s \<Longrightarrow> good (s\<lparr>chip := d\<rparr>)"
    and "good s" and "\<And>vs d. length vs = length is' \<Longrightarrow> P (vs, s\<lparr>chip := d\<rparr>)"
  shows "holds (dump_regs rd is' s) P"
  using assms(3,4)
proof (induction is' arbitrary: s P)
  case Nil
  from Nil(2) [of "[]" "chip s"] show ?case by simp
next
  case (Cons i is')
  then show ?case by (auto intro!: assms(1) Cons.IH assms(2))
qed

lemma holds_locked_mac_read [drv_rules]:
  "ready s \<Longrightarrow> \<not> mac_lock s \<Longrightarrow> (\<And>v d. P (v, s\<lparr>chip := d\<rparr>)) \<Longrightarrow> holds (locked_mac_read h i s) P"
  by (auto simp: locked_mac_read_def spin_unlock_mac_def mac_unlock_id intro!: drv_rules)

lemma holds_getregs:
  assumes "ready s" and "\<not> mac_lock s" and "phy_dev s = Some phy"
    and P: "\<And>vs d. length vs = 70 \<Longrightarrow> P (idrev s, vs, s\<lparr>chip := d\<rparr>)"
  shows "holds (smsc911x_ethtool_getregs h s) P"
  using assms
  by (auto simp: smsc911x_ethtool_getregs_def Let_def
      intro!: holds_dump_regs [where good = "\<lambda>s. ready s \<and> \<not> mac_lock s"] drv_rules)

lemma holds_eeprom_enable [drv_rules]:
  "ready s \<Longrightarrow> (\<And>d. P (s\<lparr>chip := d\<rparr>)) \<Longrightarrow> holds (smsc911x_eeprom_enable_access h s) P"
  by (auto simp: smsc911x_eeprom_enable_access_def Let_def intro!: drv_rules)

lemma holds_eeprom_send [drv_rules]:
  "ready s \<Longrightarrow> (\<And>r d. r \<in> {0, - EBUSY, - EAGAIN, - EINVAL} \<Longrightarrow> P (r, s\<lparr>chip := d\<rparr>)) \<Longrightarrow> holds (smsc911x_eeprom_send_cmd h op s) P"
  by (auto simp: smsc911x_eeprom_send_cmd_def Let_def intro!: drv_rules)

lemma holds_eeprom_write [drv_rules]:
  "ready s \<Longrightarrow> (\<And>r d. r \<in> {0, - EBUSY, - EAGAIN, - EINVAL} \<Longrightarrow> P (r, s\<lparr>chip := d\<rparr>)) \<Longrightarrow> holds (smsc911x_eeprom_write_location h a v s) P"
  by (auto simp: smsc911x_eeprom_write_location_def Let_def intro!: drv_rules)

lemma holds_set_eeprom [drv_rules]:
  "ready s \<Longrightarrow> (\<And>r d. r \<in> {0, - EBUSY, - EAGAIN, - EINVAL} \<Longrightarrow> P (r, 1, s\<lparr>chip := d\<rparr>)) \<Longrightarrow> holds (smsc911x_ethtool_set_eeprom h a v s) P"
  by (auto simp: smsc911x_ethtool_set_eeprom_def intro!: drv_rules)

lemma holds_eeprom_loop:
  assumes "ready s" and "length data = 128" and "i + n \<le> 128"
    and "\<And>r d data'. r \<in> {0, - EBUSY, - EAGAIN, - EINVAL} \<Longrightarrow> length data' = 128 \<Longrightarrow> P (r, data', s\<lparr>chip := d\<rparr>)"
  shows "holds (eeprom_read_loop h i n data s) P"
  using assms
proof (induction n arbitrary: i data s)
  case 0
  from 0(4) [of 0 data "chip s"] 0(2) show ?case by simp
next
  case (Suc n)
  have "unat (of_nat i :: u8) = i" using Suc.prems(3) by (simp add: unat_of_nat)
  with Suc.prems show ?case
    by (auto simp: smsc911x_eeprom_read_location_def Let_def arr_set_def intro!: drv_rules Suc.IH)
qed

lemma min_eeprom: "unat (min n SMSC911X_EEPROM_SIZE) = min (unat n) 128"
  by (auto simp: min_def word_le_nat_alt)

lemma holds_get_eeprom [drv_rules]:
  assumes "ready s" and "length data = 128" and "unat offset + unat n \<le> 128"
    and "\<And>r l d out. r \<in> {0, - EBUSY, - EAGAIN, - EINVAL} \<Longrightarrow> P (r, l, out, s\<lparr>chip := d\<rparr>)"
  shows "holds (smsc911x_ethtool_get_eeprom h data offset n s) P"
  using assms
  by (auto simp: smsc911x_ethtool_get_eeprom_def Let_def min_eeprom intro!: drv_rules holds_eeprom_loop)

lemma holds_power [drv_rules]:
  "ready s \<Longrightarrow> (\<And>r d. P (r, s\<lparr>chip := d\<rparr>)) \<Longrightarrow> holds (smsc911x_suspend h s) P"
  "ready s \<Longrightarrow> (\<And>r d. P (r, s\<lparr>chip := d\<rparr>)) \<Longrightarrow> holds (smsc911x_resume h s) P"
  by (auto simp: smsc911x_suspend_def smsc911x_resume_def intro!: drv_rules)

text \<open>
  The register dump fills the buffer ethtool allocates for it exactly: it stores as many words as
  \<open>smsc911x_ethtool_getregslen\<close> says, whatever the chip returns.
\<close>

theorem getregs_fills_buffer:
  assumes "ready s" and "\<not> mac_lock s" and "phy_dev s = Some phy"
  shows "\<exists>vs d. smsc911x_ethtool_getregs h s = Some (idrev s, vs, s\<lparr>chip := d\<rparr>) \<and>
    4 * length vs = unat smsc911x_ethtool_getregslen"
proof -
  have "holds (smsc911x_ethtool_getregs h s) (\<lambda>(r, vs, t). r = idrev s \<and> length vs = 70 \<and> (\<exists>d. t = s\<lparr>chip := d\<rparr>))"
    by (rule holds_getregs [OF assms]) auto
  moreover have "unat smsc911x_ethtool_getregslen = 280" by (simp add: smsc911x_ethtool_getregslen_def)
  ultimately show ?thesis by (auto dest!: holdsD)
qed

section \<open>An EEPROM\<close>

text \<open>
  What the data sheet says of the EEPROM interface: a command keeps it busy for fewer than 100 status reads
  and does not time out; reads load the data register, writes and erasures are done when they are enabled.
\<close>

record e2p_view =
  e2p_busy :: nat
  e2p_cells :: "u8 list"
  e2p_data :: u32
  e2p_wen :: bool

definition e2p_exec :: "u32 \<Rightarrow> e2p_view \<Rightarrow> e2p_view" where
  "e2p_exec v e =
     (let a = unat (v AND 0xff); op = v AND 0x70000000 in
      if op = E2P_CMD_EPC_CMD_READ then e\<lparr>e2p_data := ucast (e2p_cells e ! a)\<rparr>
      else if op = E2P_CMD_EPC_CMD_EWDS then e\<lparr>e2p_wen := False\<rparr>
      else if op = E2P_CMD_EPC_CMD_EWEN then e\<lparr>e2p_wen := True\<rparr>
      else if op = E2P_CMD_EPC_CMD_WRITE \<and> e2p_wen e then e\<lparr>e2p_cells := (e2p_cells e)[a := ucast (e2p_data e)]\<rparr>
      else if op = E2P_CMD_EPC_CMD_ERASE \<and> e2p_wen e then e\<lparr>e2p_cells := (e2p_cells e)[a := 0xff]\<rparr>
      else e)"

definition e2p_chip :: "'d hw \<Rightarrow> u32 \<times> smsc911x_platform_config \<times> smsc911x_ops \<Rightarrow> ('d \<Rightarrow> e2p_view) \<Rightarrow> bool" where
  "e2p_chip h p view \<longleftrightarrow>
     (\<forall>d. let (v, d') = chip_read h p E2P_CMD d in
        (v AND E2P_CMD_EPC_BUSY \<noteq> 0 \<longleftrightarrow> e2p_busy (view d) \<noteq> 0) \<and> v AND E2P_CMD_EPC_TIMEOUT = 0 \<and>
        view d' = (view d)\<lparr>e2p_busy := e2p_busy (view d) - 1\<rparr>) \<and>
     (\<forall>d v. v AND E2P_CMD_EPC_BUSY \<noteq> 0 \<longrightarrow>
        (\<exists>n < 100. view (chip_write h p E2P_CMD v d) = (e2p_exec v (view d))\<lparr>e2p_busy := n\<rparr>)) \<and>
     (\<forall>d. fst (chip_read h p E2P_DATA d) = e2p_data (view d) \<and> view (snd (chip_read h p E2P_DATA d)) = view d) \<and>
     (\<forall>d v. view (chip_write h p E2P_DATA v d) = (view d)\<lparr>e2p_data := v\<rparr>) \<and>
     (\<forall>d r. r \<in> {BYTE_TEST, GPIO_CFG} \<longrightarrow> view (snd (chip_read h p r d)) = view d) \<and>
     (\<forall>d v. view (chip_write h p GPIO_CFG v d) = view d)"

text \<open>The driver can use the EEPROM, which is idle and has contents \<open>e\<close>.\<close>

definition e2p_holds :: "'d hw \<Rightarrow> ('d \<Rightarrow> e2p_view) \<Rightarrow> e2p_view \<Rightarrow> 'd smsc911x_data \<Rightarrow> bool" where
  "e2p_holds h view e s \<longleftrightarrow> ready s \<and> e2p_chip h (port s) view \<and> view (chip s) = e \<and> e2p_busy e = 0"

lemma e2p_holds_chip:
  "e2p_holds h view e s \<Longrightarrow> view d = e' \<Longrightarrow> e2p_busy e' = 0 \<Longrightarrow> e2p_holds h view e' (s\<lparr>chip := d\<rparr>)"
  by (simp add: e2p_holds_def)

lemma e2p_poll:
  assumes "ready s" and "e2p_chip h (port s) view" and "e2p_busy (view (chip s)) \<le> n"
  shows "\<exists>v d. poll_reg h E2P_CMD (\<lambda>v. v AND E2P_CMD_EPC_BUSY \<noteq> 0) n s = Some (v, s\<lparr>chip := d\<rparr>) \<and>
    v AND E2P_CMD_EPC_BUSY = 0 \<and> v AND E2P_CMD_EPC_TIMEOUT = 0 \<and> view d = (view (chip s))\<lparr>e2p_busy := 0\<rparr>"
  using assms
proof (induction n arbitrary: s)
  case 0
  obtain v d where c: "chip_read h (port s) E2P_CMD (chip s) = (v, d)" by fastforce
  moreover have "v AND E2P_CMD_EPC_BUSY = 0" "v AND E2P_CMD_EPC_TIMEOUT = 0" "view d = (view (chip s))\<lparr>e2p_busy := 0\<rparr>"
    using 0(2,3) c unfolding e2p_chip_def by (auto split: prod.splits dest!: spec [of _ "chip s"])
  ultimately show ?case using 0(1) by (simp add: reg_read_eq) blast
next
  case (Suc n)
  obtain v d where c: "chip_read h (port s) E2P_CMD (chip s) = (v, d)" by fastforce
  have d: "v AND E2P_CMD_EPC_BUSY \<noteq> 0 \<longleftrightarrow> e2p_busy (view (chip s)) \<noteq> 0" "v AND E2P_CMD_EPC_TIMEOUT = 0"
      "view d = (view (chip s))\<lparr>e2p_busy := e2p_busy (view (chip s)) - 1\<rparr>"
    using Suc.prems(2) c unfolding e2p_chip_def by (auto split: prod.splits dest!: spec [of _ "chip s"])
  from Suc.IH [of "s\<lparr>chip := d\<rparr>"] Suc.prems d(3) have IH: "\<exists>v d'. poll_reg h E2P_CMD (\<lambda>v. v AND E2P_CMD_EPC_BUSY \<noteq> 0) n (s\<lparr>chip := d\<rparr>) =
      Some (v, s\<lparr>chip := d'\<rparr>) \<and> v AND E2P_CMD_EPC_BUSY = 0 \<and> v AND E2P_CMD_EPC_TIMEOUT = 0 \<and> view d' = (view (chip s))\<lparr>e2p_busy := 0\<rparr>"
    by simp
  show ?case
    using IH Suc.prems(1) c d by (cases "e2p_busy (view (chip s)) = 0") (auto simp: reg_read_eq)
qed

lemma e2p_chip_cmd: "e2p_chip h p view \<Longrightarrow> v AND E2P_CMD_EPC_BUSY \<noteq> 0 \<Longrightarrow>
   \<exists>n < 100. view (chip_write h p E2P_CMD v d) = (e2p_exec v (view d))\<lparr>e2p_busy := n\<rparr>"
  unfolding e2p_chip_def by (elim conjE) simp

lemma e2p_send:
  assumes "e2p_holds h view e s"
  shows "\<exists>d. smsc911x_eeprom_send_cmd h op s = Some (0, s\<lparr>chip := d\<rparr>) \<and>
    e2p_holds h view ((e2p_exec (op OR E2P_CMD_EPC_BUSY) e)\<lparr>e2p_busy := 0\<rparr>) (s\<lparr>chip := d\<rparr>)"
proof -
  let ?v = "op OR E2P_CMD_EPC_BUSY"
  from assms have s: "ready s" "e2p_chip h (port s) view" "view (chip s) = e" "e2p_busy e = 0"
    by (auto simp: e2p_holds_def)
  obtain v d where c: "chip_read h (port s) E2P_CMD (chip s) = (v, d)" by fastforce
  have d: "v AND E2P_CMD_EPC_BUSY = 0" "view d = e"
    using s(2-4) c unfolding e2p_chip_def by (auto split: prod.splits dest!: spec [of _ "chip s"])
  have "?v AND E2P_CMD_EPC_BUSY \<noteq> 0" by (simp add: bit.conj_disj_distrib2)
  then obtain n where "n < 100" and n: "view (chip_write h (port s) E2P_CMD ?v d) = (e2p_exec ?v e)\<lparr>e2p_busy := n\<rparr>"
    using e2p_chip_cmd [OF s(2), of ?v d] d(2) by auto
  then obtain w d' where "poll_reg h E2P_CMD (\<lambda>v. v AND E2P_CMD_EPC_BUSY \<noteq> 0) 99 (s\<lparr>chip := chip_write h (port s) E2P_CMD ?v d\<rparr>) =
        Some (w, s\<lparr>chip := d'\<rparr>)" "w AND E2P_CMD_EPC_BUSY = 0" "w AND E2P_CMD_EPC_TIMEOUT = 0"
      "view d' = (e2p_exec ?v e)\<lparr>e2p_busy := 0\<rparr>"
    using e2p_poll [of "s\<lparr>chip := chip_write h (port s) E2P_CMD ?v d\<rparr>" h view 99] s(1,2) by auto
  with s(1,2) c d(1) show ?thesis
    by (auto simp: smsc911x_eeprom_send_cmd_def reg_read_eq reg_write_eq e2p_holds_def intro!: exI [of _ d'])
qed

lemma ucast_masks:
  "(ucast (a :: u8) :: u32) AND 0xff = ucast a" "(ucast (a :: u8) :: u32) AND 0x70000000 = 0"
proof -
  have "(ucast a :: u32) AND mask 8 = ucast a"
    by (rule bit_word_eqI) (auto simp: bit_simps dest: bit_imp_le_length)
  then show m: "(ucast a :: u32) AND 0xff = ucast a" by (simp add: mask_eq_exp_minus_1)
  have "(ucast a :: u32) AND 0x70000000 = ((ucast a :: u32) AND 0xff) AND 0x70000000" by (simp add: m)
  also have "\<dots> = 0" by (simp add: and.assoc)
  finally show "(ucast a :: u32) AND 0x70000000 = 0" .
qed

lemma unat_ucast_u8 [simp]: "unat (ucast (a :: u8) :: u32) = unat a"
  by (rule unat_ucast_u32(2))

lemma e2p_exec_cmds:
  fixes a :: u8
  shows "e2p_exec ((E2P_CMD_EPC_CMD_READ OR ucast a) OR E2P_CMD_EPC_BUSY) e = e\<lparr>e2p_data := ucast (e2p_cells e ! unat a)\<rparr>"
  "e2p_exec (E2P_CMD_EPC_CMD_EWEN OR E2P_CMD_EPC_BUSY) e = e\<lparr>e2p_wen := True\<rparr>"
  "e2p_exec (E2P_CMD_EPC_CMD_EWDS OR E2P_CMD_EPC_BUSY) e = e\<lparr>e2p_wen := False\<rparr>"
  "e2p_wen e \<Longrightarrow> e2p_exec ((E2P_CMD_EPC_CMD_WRITE OR ucast a) OR E2P_CMD_EPC_BUSY) e = e\<lparr>e2p_cells := (e2p_cells e)[unat a := ucast (e2p_data e)]\<rparr>"
  "e2p_wen e \<Longrightarrow> e2p_exec ((E2P_CMD_EPC_CMD_ERASE OR ucast a) OR E2P_CMD_EPC_BUSY) e = e\<lparr>e2p_cells := (e2p_cells e)[unat a := 0xff]\<rparr>"
  by (simp_all add: e2p_exec_def Let_def bit.conj_disj_distrib2 ucast_masks)

lemma e2p_enable_access:
  assumes "e2p_holds h view e s"
  shows "\<exists>d. smsc911x_eeprom_enable_access h s = Some (s\<lparr>chip := d\<rparr>) \<and> e2p_holds h view e (s\<lparr>chip := d\<rparr>)"
  using assms
  by (auto simp: smsc911x_eeprom_enable_access_def e2p_holds_def e2p_chip_def reg_read_eq reg_write_eq case_prod_unfold Let_def)

lemma e2p_read_location:
  assumes "e2p_holds h view e s" and "unat a < length data"
  shows "\<exists>d e'. smsc911x_eeprom_read_location h a data s = Some (0, data[unat a := e2p_cells e ! unat a], s\<lparr>chip := d\<rparr>) \<and>
    e2p_holds h view e' (s\<lparr>chip := d\<rparr>) \<and> e2p_cells e' = e2p_cells e"
proof -
  from e2p_send [OF assms(1), of "E2P_CMD_EPC_CMD_READ OR ucast a"] obtain d where
    d: "smsc911x_eeprom_send_cmd h (E2P_CMD_EPC_CMD_READ OR ucast a) s = Some (0, s\<lparr>chip := d\<rparr>)"
      "e2p_holds h view (e\<lparr>e2p_data := ucast (e2p_cells e ! unat a), e2p_busy := 0\<rparr>) (s\<lparr>chip := d\<rparr>)"
    unfolding e2p_exec_cmds by blast
  obtain v d' where r: "chip_read h (port s) E2P_DATA d = (v, d')" by fastforce
  with d(2) have "v = ucast (e2p_cells e ! unat a)" "e2p_holds h view (e\<lparr>e2p_data := ucast (e2p_cells e ! unat a), e2p_busy := 0\<rparr>) (s\<lparr>chip := d'\<rparr>)"
    by (auto simp: e2p_holds_def e2p_chip_def dest!: spec [of _ d])
  moreover have "ucast (ucast (x :: u8) :: u32) = x" for x
    by (rule bit_word_eqI) (auto simp: bit_simps)
  ultimately show ?thesis
    using d r assms by (auto simp: smsc911x_eeprom_read_location_def reg_read_eq e2p_holds_def intro!: exI [of _ d'])
qed

lemma e2p_read_loop:
  assumes "e2p_holds h view e s" and "length data = 128" and "length (e2p_cells e) = 128" and "i + n \<le> 128"
  shows "\<exists>d e'. eeprom_read_loop h i n data s = Some (0, take i data @ take n (drop i (e2p_cells e)) @ drop (i + n) data, s\<lparr>chip := d\<rparr>) \<and>
    e2p_holds h view e' (s\<lparr>chip := d\<rparr>) \<and> e2p_cells e' = e2p_cells e"
  using assms
proof (induction n arbitrary: i data s e)
  case 0
  then show ?case by (auto intro!: exI [of _ "chip s"])
next
  case (Suc n)
  have i: "unat (of_nat i :: u8) = i" "i < 128" using Suc.prems(4) by (simp_all add: unat_of_nat)
  from e2p_read_location [OF Suc.prems(1), of "of_nat i" data] i Suc.prems(2) obtain d e' where
    d: "smsc911x_eeprom_read_location h (of_nat i) data s = Some (0, data[i := e2p_cells e ! i], s\<lparr>chip := d\<rparr>)"
      "e2p_holds h view e' (s\<lparr>chip := d\<rparr>)" "e2p_cells e' = e2p_cells e" by auto
  have "take (Suc i) (data[i := e2p_cells e ! i]) @ take n (drop (Suc i) (e2p_cells e)) @ drop (Suc i + n) (data[i := e2p_cells e ! i]) =
      take i data @ take (Suc n) (drop i (e2p_cells e)) @ drop (i + Suc n) data"
    using i Suc.prems(2,3)
    by (simp add: take_Suc_conv_app_nth Cons_nth_drop_Suc [symmetric])
  with Suc.IH [OF d(2), of "data[i := e2p_cells e ! i]" "Suc i"] Suc.prems d show ?case by auto
qed

lemma e2p_write_location:
  assumes "e2p_holds h view e s" and "e2p_wen e"
  shows "\<exists>d. smsc911x_eeprom_write_location h a b s = Some (0, s\<lparr>chip := d\<rparr>) \<and>
    e2p_holds h view (e\<lparr>e2p_data := ucast b, e2p_cells := (e2p_cells e)[unat a := b], e2p_busy := 0\<rparr>) (s\<lparr>chip := d\<rparr>)"
proof -
  let ?e1 = "e\<lparr>e2p_cells := (e2p_cells e)[unat a := 0xff], e2p_busy := 0\<rparr>"
  have u: "ucast (ucast b :: u32) = b" by (rule bit_word_eqI) (auto simp: bit_simps)
  from e2p_send [OF assms(1), of "E2P_CMD_EPC_CMD_ERASE OR ucast a"] obtain d where
    d: "smsc911x_eeprom_send_cmd h (E2P_CMD_EPC_CMD_ERASE OR ucast a) s = Some (0, s\<lparr>chip := d\<rparr>)"
      "e2p_holds h view ?e1 (s\<lparr>chip := d\<rparr>)"
    unfolding e2p_exec_cmds(5) [OF assms(2)] by blast
  let ?d1 = "snd (chip_read h (port s) BYTE_TEST (chip_write h (port s) E2P_DATA (ucast b) d))"
  from d(2) have "e2p_holds h view (?e1\<lparr>e2p_data := ucast b\<rparr>) (s\<lparr>chip := ?d1\<rparr>)"
    by (simp add: e2p_holds_def e2p_chip_def)
  from e2p_send [OF this, of "E2P_CMD_EPC_CMD_WRITE OR ucast a"] obtain d2 where
    "smsc911x_eeprom_send_cmd h (E2P_CMD_EPC_CMD_WRITE OR ucast a) (s\<lparr>chip := ?d1\<rparr>) = Some (0, s\<lparr>chip := d2\<rparr>)"
      "e2p_holds h view (e\<lparr>e2p_data := ucast b, e2p_cells := (e2p_cells e)[unat a := b], e2p_busy := 0\<rparr>) (s\<lparr>chip := d2\<rparr>)"
    using assms(2) e2p_exec_cmds(4) [of "?e1\<lparr>e2p_data := ucast b\<rparr>" a] by (simp add: u) blast
  with d assms(1) show ?thesis
    by (simp add: smsc911x_eeprom_write_location_def reg_read_eq reg_write_eq e2p_holds_def case_prod_unfold Let_def) blast
qed

lemma e2p_get_eeprom:
  assumes "e2p_holds h view e s" and "length stack = 128" and "length (e2p_cells e) = 128" and "unat offset + unat n \<le> 128"
  shows "\<exists>d. smsc911x_ethtool_get_eeprom h stack offset n s =
    Some (0, n, take (unat n) (drop (unat offset) (take (unat n) (e2p_cells e) @ drop (unat n) stack)), s\<lparr>chip := d\<rparr>)"
proof -
  have m: "min n SMSC911X_EEPROM_SIZE = n" using assms(4) by (simp add: min_def word_le_nat_alt)
  from e2p_enable_access [OF assms(1)] obtain d where d: "smsc911x_eeprom_enable_access h s = Some (s\<lparr>chip := d\<rparr>)"
    "e2p_holds h view e (s\<lparr>chip := d\<rparr>)" by blast
  from e2p_read_loop [OF d(2) assms(2,3), of 0 "unat n"] assms(4) obtain d' where
    "eeprom_read_loop h 0 (unat n) stack (s\<lparr>chip := d\<rparr>) = Some (0, take (unat n) (e2p_cells e) @ drop (unat n) stack, s\<lparr>chip := d'\<rparr>)"
    by auto
  with d(1) m assms(2-4) show ?thesis by (auto simp: smsc911x_ethtool_get_eeprom_def Let_def)
qed

text \<open>
  C28: A byte written to the EEPROM is read back: after \<open>smsc911x_ethtool_set_eeprom\<close>, reading the whole
  EEPROM gives the old contents with this byte changed, on every chip that follows its data sheet.
\<close>

theorem eeprom_set_get:
  assumes "e2p_holds h view e s" and "length (e2p_cells e) = 128" and "unat offset < 128" and "length stack = 128"
  shows "\<exists>t d. smsc911x_ethtool_set_eeprom h offset b s = Some (0, 1, t) \<and>
    smsc911x_ethtool_get_eeprom h stack 0 128 t = Some (0, 128, (e2p_cells e)[unat offset := b], t\<lparr>chip := d\<rparr>)"
proof -
  have o: "unat (ucast offset :: u8) = unat offset"
    using assms(3) by (simp add: unsigned_ucast_eq take_bit_nat_eq_self)
  from e2p_enable_access [OF assms(1)] obtain d1 where d1: "smsc911x_eeprom_enable_access h s = Some (s\<lparr>chip := d1\<rparr>)"
    "e2p_holds h view e (s\<lparr>chip := d1\<rparr>)" by blast
  from e2p_send [OF d1(2), of E2P_CMD_EPC_CMD_EWEN] obtain d2 where
    d2: "smsc911x_eeprom_send_cmd h E2P_CMD_EPC_CMD_EWEN (s\<lparr>chip := d1\<rparr>) = Some (0, s\<lparr>chip := d2\<rparr>)"
      "e2p_holds h view (e\<lparr>e2p_wen := True, e2p_busy := 0\<rparr>) (s\<lparr>chip := d2\<rparr>)"
    unfolding e2p_exec_cmds by auto
  from e2p_write_location [OF d2(2), of "ucast offset" b] obtain d3 e3 where
    d3: "smsc911x_eeprom_write_location h (ucast offset) b (s\<lparr>chip := d2\<rparr>) = Some (0, s\<lparr>chip := d3\<rparr>)"
      "e2p_holds h view e3 (s\<lparr>chip := d3\<rparr>)" "e2p_cells e3 = (e2p_cells e)[unat offset := b]"
    by (auto simp: o)
  from e2p_send [OF d3(2), of E2P_CMD_EPC_CMD_EWDS] obtain d4 where
    d4: "smsc911x_eeprom_send_cmd h E2P_CMD_EPC_CMD_EWDS (s\<lparr>chip := d3\<rparr>) = Some (0, s\<lparr>chip := d4\<rparr>)"
      "e2p_holds h view (e3\<lparr>e2p_wen := False, e2p_busy := 0\<rparr>) (s\<lparr>chip := d4\<rparr>)"
    unfolding e2p_exec_cmds by auto
  have "smsc911x_ethtool_set_eeprom h offset b s = Some (0, 1, s\<lparr>chip := d4\<rparr>)"
    using d1(1) d2(1) d3(1) d4(1) by (simp add: smsc911x_ethtool_set_eeprom_def)
  moreover have "\<exists>d. smsc911x_ethtool_get_eeprom h stack 0 128 (s\<lparr>chip := d4\<rparr>) =
      Some (0, 128, (e2p_cells e)[unat offset := b], s\<lparr>chip := d4, chip := d\<rparr>)"
    using e2p_get_eeprom [OF d4(2) assms(4), of 0 128] assms(2,4) d3(3) by auto
  ultimately show ?thesis by blast
qed

text \<open>
  Reading from an offset gives the wrong bytes: the driver fills the first \<open>len\<close> bytes of its buffer
  but copies \<open>len\<close> bytes from \<open>offset\<close> on, so that the bytes behind the first \<open>len - offset\<close> are what was on
  the kernel stack.
\<close>

theorem get_eeprom_leaks_stack:
  assumes "e2p_holds h view e s" and "length stack = 128" and "length (e2p_cells e) = 128" and "unat offset + unat n \<le> 128"
  shows "\<exists>out d. smsc911x_ethtool_get_eeprom h stack offset n s = Some (0, n, out, s\<lparr>chip := d\<rparr>) \<and> length out = unat n \<and>
    (\<forall>i < unat n. out ! i = (if unat offset + i < unat n then e2p_cells e ! (unat offset + i) else stack ! (unat offset + i)))"
proof -
  let ?out = "take (unat n) (drop (unat offset) (take (unat n) (e2p_cells e) @ drop (unat n) stack))"
  have "length ?out = unat n" using assms(2-4) by simp
  moreover have "?out ! i = (if unat offset + i < unat n then e2p_cells e ! (unat offset + i) else stack ! (unat offset + i))"
    if "i < unat n" for i
    using that assms(2-4) by (auto simp: nth_append intro!: arg_cong [of _ _ "(!) stack"])
  ultimately show ?thesis using e2p_get_eeprom [OF assms] by blast
qed

section \<open>An example EEPROM\<close>

definition e2p_hw :: "e2p_view hw" where
  "e2p_hw = \<lparr>
     readl = (\<lambda>a d.
       if a = E2P_CMD then (if e2p_busy d = 0 then 0 else E2P_CMD_EPC_BUSY, d\<lparr>e2p_busy := e2p_busy d - 1\<rparr>)
       else if a = E2P_DATA then (e2p_data d, d) else (0, d)),
     readw = (\<lambda>a d. (0, d)),
     writel = (\<lambda>a v d. if a = E2P_CMD then (e2p_exec v d)\<lparr>e2p_busy := 3\<rparr> else if a = E2P_DATA then d\<lparr>e2p_data := v\<rparr> else d),
     writew = (\<lambda>a v d. d)\<rparr>"

definition e2p_drv :: "e2p_view smsc911x_data" where
  "e2p_drv = example_drv \<lparr>e2p_busy = 0, e2p_cells = replicate 128 0xa5, e2p_data = 0, e2p_wen = False\<rparr>"

lemma e2p_drv_holds:
  "e2p_holds e2p_hw (\<lambda>d. d) \<lparr>e2p_busy = 0, e2p_cells = replicate 128 0xa5, e2p_data = 0, e2p_wen = False\<rparr> e2p_drv"
proof -
  have rw: "chip_read e2p_hw (0, example_config, standard_smsc911x_ops) r d =
      (if r = E2P_CMD then (if e2p_busy d = 0 then 0 else E2P_CMD_EPC_BUSY, d\<lparr>e2p_busy := e2p_busy d - 1\<rparr>)
       else if r = E2P_DATA then (e2p_data d, d) else (0, d))"
    "chip_write e2p_hw (0, example_config, standard_smsc911x_ops) r v d =
      (if r = E2P_CMD then (e2p_exec v d)\<lparr>e2p_busy := 3\<rparr> else if r = E2P_DATA then d\<lparr>e2p_data := v\<rparr> else d)" for r v d
    by (simp_all add: chip_read_def chip_write_def cell_read_def cell_write_def reg_addr_def example_config_def e2p_hw_def)
  have "e2p_chip e2p_hw (0, example_config, standard_smsc911x_ops) (\<lambda>d. d)"
    unfolding e2p_chip_def rw by (auto intro!: exI [of _ "3 :: nat"])
  then show ?thesis
    by (simp add: e2p_holds_def e2p_drv_def example_ready) (simp add: example_drv_def)
qed

lemma getregs_fills_buffer_witness:
  "\<exists>vs d. smsc911x_ethtool_getregs csr_hw csr_drv = Some (idrev csr_drv, vs, csr_drv\<lparr>chip := d\<rparr>) \<and> 4 * length vs = unat smsc911x_ethtool_getregslen"
  by (rule getregs_fills_buffer [OF csr_drv_state(1-3)])

lemma eeprom_set_get_witness:
  "\<exists>t d. smsc911x_ethtool_set_eeprom e2p_hw 5 7 e2p_drv = Some (0, 1, t) \<and>
    smsc911x_ethtool_get_eeprom e2p_hw (replicate 128 0) 0 128 t = Some (0, 128, (replicate 128 0xa5)[5 := 7], t\<lparr>chip := d\<rparr>)"
  using eeprom_set_get [OF e2p_drv_holds, of 5 "replicate 128 0" 7] by simp

lemma get_eeprom_leaks_stack_witness:
  "\<exists>out d. smsc911x_ethtool_get_eeprom e2p_hw (replicate 128 0x42) 2 4 e2p_drv = Some (0, 4, out, e2p_drv\<lparr>chip := d\<rparr>) \<and> length out = 4 \<and>
    out ! 1 = 0xa5 \<and> out ! 2 = 0x42 \<and> out ! 3 = 0x42"
  using get_eeprom_leaks_stack [OF e2p_drv_holds, of "replicate 128 0x42" 2 4] by auto

end
