(* ===== verification/Phy_Bus.thy ===== *)
theory Phy_Bus
  imports Phy_Lib
begin

text \<open>
  The PHY library on a chip that follows its data sheet. The interface is the MII bus: \<open>mii_bus\<close> says what the bus functions of the NIC driver
  promise to the library. \<open>mac_csr\<close> and \<open>mii_sheet\<close> are what the data sheet says of the registers behind them, and
  the bus functions are proved to keep the promise on every such chip. Inside of \<open>mii_bus\<close> are the results on negotiation and forced modes.
\<close>

section \<open>The interface\<close>

lemma ucast_16_32 [simp]: "ucast (ucast v :: u32) = (v :: u16)"
  by (rule bit_word_eqI) (simp add: bit_simps)

lemma sint_ucast_16 [simp]: "sint (ucast (v :: u16) :: u32) = uint v"
proof -
  have v: "uint v < 2 ^ 16" using uint_bounded [of v] by simp
  have "- (2 ^ 31) \<le> uint v" by (rule order_trans [of _ 0]) simp_all
  with v have "take_bit 32 (uint v) = uint v" "signed_take_bit 31 (uint v) = uint v"
    by (intro take_bit_int_eq_self signed_take_bit_int_eq_self; simp)+
  then show ?thesis by (simp add: sint_uint unsigned_ucast_eq)
qed

lemma low_half: "(0xffff :: u32) = mask 16"
  by (simp add: mask_eq_exp_minus_1)

lemma ucast_16: "w AND 0xffff = w \<Longrightarrow> ucast (ucast w :: u16) = (w :: u32)"
proof -
  assume "w AND 0xffff = w"
  moreover have "ucast (ucast w :: u16) = w AND 0xffff" unfolding low_half by (rule bit_word_eqI) (auto simp: bit_simps)
  ultimately show ?thesis by simp
qed

lemma low5: "r < 32 \<Longrightarrow> r AND 0x1f = (r :: u32)"
proof -
  assume "r < 32"
  then have "unat r < 2 ^ 5" by (simp add: word_less_nat_alt)
  then have "take_bit 5 r = r" by (simp add: word_unat_eq_iff unsigned_take_bit_eq take_bit_nat_eq_self)
  moreover have "(0x1f :: u32) = mask 5" by (simp add: mask_eq_exp_minus_1)
  ultimately show ?thesis by (simp only: flip: take_bit_eq_mask)
qed

text \<open>
  What can be written to the control register, to the advertisement and to the interrupt mask without effects on reserved bits, and without a
  reset.
\<close>

definition mii_writable :: "u32 \<Rightarrow> u16 \<Rightarrow> bool" where
  "mii_writable r v \<longleftrightarrow> r = MII_BMCR \<and> v AND 0x807f = 0 \<or> r = MII_ADVERTISE \<and> v AND 0xf200 = 0 \<or> r = MII_LAN83C185_IM"

text \<open>The registers that a write to \<open>r\<close> leaves as they are.\<close>

definition mii_untouched :: "u32 \<Rightarrow> u32 \<Rightarrow> bool" where
  "mii_untouched r r' \<longleftrightarrow> r' \<noteq> r \<and> (r' = MII_BMCR \<or> r' = MII_ADVERTISE \<or> r = MII_LAN83C185_IM)"

text \<open>
  The registers of the PHY at the address \<open>a\<close>. Between two accesses the bus is idle. A read returns the register.
  A write stores the register, without the bit of the control register that clears itself. A write to the control register or to the advertisement
  can have any effect on the registers that report.
\<close>

locale mii_bus =
  fixes h :: "'d hw" and prt :: "u32 \<times> smsc911x_platform_config \<times> smsc911x_ops" and a :: u32
    and idle :: "'d \<Rightarrow> bool" and regs :: "'d \<Rightarrow> u32 \<Rightarrow> u16"
  assumes bus_read: "ready s \<Longrightarrow> \<not> mac_lock s \<Longrightarrow> port s = prt \<Longrightarrow> idle (chip s) \<Longrightarrow> r < 32 \<Longrightarrow>
      \<exists>d. smsc911x_mii_read h a r s = Some (uint (regs (chip s) r), s\<lparr>chip := d\<rparr>) \<and> idle d \<and> regs d = regs (chip s)"
    and bus_write: "ready s \<Longrightarrow> \<not> mac_lock s \<Longrightarrow> port s = prt \<Longrightarrow> idle (chip s) \<Longrightarrow>
      mii_writable r v \<Longrightarrow>
      \<exists>d. smsc911x_mii_write h a r v s = Some (0, s\<lparr>chip := d\<rparr>) \<and> idle d \<and>
        regs d r = (if r = MII_BMCR then v AND NOT 0x0200 else v) \<and>
        (\<forall>r'. mii_untouched r r' \<longrightarrow> regs d r' = regs (chip s) r')"

text \<open>Indirect access to the registers of the MAC: \<open>get\<close> and \<open>put\<close> are what reading and writing register \<open>r\<close> do to the MAC.\<close>

locale mac_csr =
  fixes h :: "'d hw" and prt :: "u32 \<times> smsc911x_platform_config \<times> smsc911x_ops" and csr_busy :: "'d \<Rightarrow> nat" and csr_val :: "'d \<Rightarrow> u32"
    and mac :: "'d \<Rightarrow> 'm" and get :: "u32 \<Rightarrow> 'm \<Rightarrow> u32 \<times> 'm" and put :: "u32 \<Rightarrow> u32 \<Rightarrow> 'm \<Rightarrow> 'm"
  assumes csr_status: "(fst (chip_read h prt MAC_CSR_CMD d) AND MAC_CSR_CMD_CSR_BUSY = 0) = (csr_busy d = 0)"
      "csr_busy (snd (chip_read h prt MAC_CSR_CMD d)) = csr_busy d - 1"
      "csr_val (snd (chip_read h prt MAC_CSR_CMD d)) = csr_val d" "mac (snd (chip_read h prt MAC_CSR_CMD d)) = mac d"
    and csr_byte_test: "csr_busy (snd (chip_read h prt BYTE_TEST d)) = csr_busy d"
      "csr_val (snd (chip_read h prt BYTE_TEST d)) = csr_val d" "mac (snd (chip_read h prt BYTE_TEST d)) = mac d"
    and csr_data_read: "csr_busy d = 0 \<Longrightarrow> fst (chip_read h prt MAC_CSR_DATA d) = csr_val d"
      "csr_busy d = 0 \<Longrightarrow> csr_busy (snd (chip_read h prt MAC_CSR_DATA d)) = 0"
      "csr_busy d = 0 \<Longrightarrow> mac (snd (chip_read h prt MAC_CSR_DATA d)) = mac d"
    and csr_data_write: "csr_busy d = 0 \<Longrightarrow> csr_busy (chip_write h prt MAC_CSR_DATA v d) = 0"
      "csr_busy d = 0 \<Longrightarrow> csr_val (chip_write h prt MAC_CSR_DATA v d) = v"
      "csr_busy d = 0 \<Longrightarrow> mac (chip_write h prt MAC_CSR_DATA v d) = mac d"
    and csr_put: "csr_busy d = 0 \<Longrightarrow> r AND 0xff = r \<Longrightarrow> csr_busy (chip_write h prt MAC_CSR_CMD (r OR MAC_CSR_CMD_CSR_BUSY) d) < 40"
      "csr_busy d = 0 \<Longrightarrow> r AND 0xff = r \<Longrightarrow> mac (chip_write h prt MAC_CSR_CMD (r OR MAC_CSR_CMD_CSR_BUSY) d) = put r (csr_val d) (mac d)"
    and csr_get: "csr_busy d = 0 \<Longrightarrow> r AND 0xff = r \<Longrightarrow>
        csr_busy (chip_write h prt MAC_CSR_CMD (r OR MAC_CSR_CMD_CSR_BUSY OR MAC_CSR_CMD_R_NOT_W) d) < 40"
      "csr_busy d = 0 \<Longrightarrow> r AND 0xff = r \<Longrightarrow>
        csr_val (chip_write h prt MAC_CSR_CMD (r OR MAC_CSR_CMD_CSR_BUSY OR MAC_CSR_CMD_R_NOT_W) d) = fst (get r (mac d))"
      "csr_busy d = 0 \<Longrightarrow> r AND 0xff = r \<Longrightarrow>
        mac (chip_write h prt MAC_CSR_CMD (r OR MAC_CSR_CMD_CSR_BUSY OR MAC_CSR_CMD_R_NOT_W) d) = snd (get r (mac d))"
begin

lemma complete_loop:
  assumes "ready s" and "port s = prt"
  shows "csr_busy d < n \<Longrightarrow> \<exists>d'. mac_complete_loop h n (s\<lparr>chip := d\<rparr>) = Some (0, s\<lparr>chip := d'\<rparr>) \<and>
    csr_busy d' = 0 \<and> csr_val d' = csr_val d \<and> mac d' = mac d"
proof (induction n arbitrary: d)
  case (Suc n)
  let ?d = "snd (chip_read h prt MAC_CSR_CMD d)"
  have e: "smsc911x_reg_read h MAC_CSR_CMD (s\<lparr>chip := d\<rparr>) = Some (fst (chip_read h prt MAC_CSR_CMD d), s\<lparr>chip := ?d\<rparr>)"
    using reg_read_eq [of "s\<lparr>chip := d\<rparr>" h MAC_CSR_CMD] assms by (simp add: case_prod_unfold Let_def)
  show ?case
  proof (cases "csr_busy d = 0")
    case True
    then show ?thesis using e csr_status [of d] by auto
  next
    case False
    then have "csr_busy ?d < n" using Suc.prems csr_status(2) [of d] by simp
    from Suc.IH [OF this] show ?thesis using e csr_status [of d] False by auto
  qed
qed simp

lemma mac_read_get:
  assumes s: "ready s" "mac_lock s" "port s = prt" and idle: "csr_busy (chip s) = 0" and r: "r AND 0xff = r"
  shows "\<exists>d. smsc911x_mac_read h r s = Some (fst (get r (mac (chip s))), s\<lparr>chip := d\<rparr>) \<and> csr_busy d = 0 \<and> mac d = snd (get r (mac (chip s)))"
proof -
  let ?d1 = "snd (chip_read h prt MAC_CSR_CMD (chip s))"
  let ?d2 = "chip_write h prt MAC_CSR_CMD (r OR MAC_CSR_CMD_CSR_BUSY OR MAC_CSR_CMD_R_NOT_W) ?d1"
  let ?d3 = "snd (chip_read h prt BYTE_TEST ?d2)"
  have free: "fst (chip_read h prt MAC_CSR_CMD (chip s)) AND MAC_CSR_CMD_CSR_BUSY = 0" and 1: "csr_busy ?d1 = 0" "mac ?d1 = mac (chip s)"
    using csr_status [of "chip s"] idle by simp_all
  have 3: "csr_busy ?d3 < 40" "csr_val ?d3 = fst (get r (mac (chip s)))" "mac ?d3 = snd (get r (mac (chip s)))"
    using csr_get [OF 1(1) r] 1(2) by (simp_all add: csr_byte_test)
  obtain d4 where 4: "mac_complete_loop h 40 (s\<lparr>chip := ?d3\<rparr>) = Some (0, s\<lparr>chip := d4\<rparr>)"
    "csr_busy d4 = 0" "csr_val d4 = csr_val ?d3" "mac d4 = mac ?d3"
    using complete_loop [OF s(1,3) 3(1)] by blast
  then show ?thesis
    using s r free 3 csr_data_read [OF 4(2)]
    by (intro exI [of _ "snd (chip_read h prt MAC_CSR_DATA d4)"])
      (simp add: smsc911x_mac_read_def SMSC_ASSERT_MAC_LOCK_def smsc911x_mac_complete_def reg_read_eq reg_write_eq case_prod_unfold Let_def)
qed

lemma mac_write_put:
  assumes s: "ready s" "mac_lock s" "port s = prt" and idle: "csr_busy (chip s) = 0" and r: "r AND 0xff = r"
  shows "\<exists>d. smsc911x_mac_write h r v s = Some (s\<lparr>chip := d\<rparr>) \<and> csr_busy d = 0 \<and> mac d = put r v (mac (chip s))"
proof -
  let ?d1 = "snd (chip_read h prt MAC_CSR_CMD (chip s))"
  let ?d2 = "chip_write h prt MAC_CSR_DATA v ?d1"
  let ?d3 = "chip_write h prt MAC_CSR_CMD (r OR MAC_CSR_CMD_CSR_BUSY) ?d2"
  let ?d4 = "snd (chip_read h prt BYTE_TEST ?d3)"
  have free: "fst (chip_read h prt MAC_CSR_CMD (chip s)) AND MAC_CSR_CMD_CSR_BUSY = 0" and 1: "csr_busy ?d1 = 0" "mac ?d1 = mac (chip s)"
    using csr_status [of "chip s"] idle by simp_all
  have 4: "csr_busy ?d4 < 40" "mac ?d4 = put r v (mac (chip s))"
    using csr_put [of ?d2 r] csr_data_write [OF 1(1)] 1(2) r by (simp_all add: csr_byte_test)
  obtain d5 where "mac_complete_loop h 40 (s\<lparr>chip := ?d4\<rparr>) = Some (0, s\<lparr>chip := d5\<rparr>)" "csr_busy d5 = 0" "mac d5 = mac ?d4"
    using complete_loop [OF s(1,3) 4(1)] by blast
  then show ?thesis
    using s r free 4
    by (intro exI [of _ d5])
      (simp add: smsc911x_mac_write_def SMSC_ASSERT_MAC_LOCK_def smsc911x_mac_complete_def reg_read_eq reg_write_eq case_prod_unfold Let_def)
qed

end

text \<open>
  The MII registers of the MAC: an access keeps the bus busy for fewer than 100 status reads, a read leaves the register of the PHY in the data
  register, a write stores the data register.
\<close>

locale mii_sheet = mac_csr h prt csr_busy csr_val mac get put
  for h :: "'d hw" and prt and csr_busy and csr_val and mac :: "'d \<Rightarrow> 'm" and get and put +
  fixes a :: u32 and mii_wait :: "'m \<Rightarrow> nat" and mii_val :: "'m \<Rightarrow> u16" and mii_regs :: "'m \<Rightarrow> u32 \<Rightarrow> u16"
  assumes mii_addr: "a < 32"
    and mii_status: "(fst (get MII_ACC m) AND MII_ACC_MII_BUSY = 0) = (mii_wait m = 0)" "mii_wait (snd (get MII_ACC m)) = mii_wait m - 1"
      "mii_val (snd (get MII_ACC m)) = mii_val m" "mii_regs (snd (get MII_ACC m)) = mii_regs m"
    and mii_data: "mii_wait m = 0 \<Longrightarrow> fst (get MII_DATA m) = ucast (mii_val m)" "mii_wait m = 0 \<Longrightarrow> mii_wait (snd (get MII_DATA m)) = 0"
      "mii_wait m = 0 \<Longrightarrow> mii_regs (snd (get MII_DATA m)) = mii_regs m"
      "mii_wait m = 0 \<Longrightarrow> mii_wait (put MII_DATA w m) = 0" "mii_wait m = 0 \<Longrightarrow> mii_val (put MII_DATA w m) = ucast w"
      "mii_wait m = 0 \<Longrightarrow> mii_regs (put MII_DATA w m) = mii_regs m"
    and mii_get: "mii_wait m = 0 \<Longrightarrow> r < 32 \<Longrightarrow> mii_wait (put MII_ACC (push_bit 11 a OR push_bit 6 r) m) < 100"
      "mii_wait m = 0 \<Longrightarrow> r < 32 \<Longrightarrow> mii_val (put MII_ACC (push_bit 11 a OR push_bit 6 r) m) = mii_regs m r"
      "mii_wait m = 0 \<Longrightarrow> r < 32 \<Longrightarrow> mii_regs (put MII_ACC (push_bit 11 a OR push_bit 6 r) m) = mii_regs m"
    and mii_put: "mii_wait m = 0 \<Longrightarrow> r < 32 \<Longrightarrow> mii_wait (put MII_ACC (push_bit 11 a OR push_bit 6 r OR MII_ACC_MII_WRITE) m) < 100"
      "mii_wait m = 0 \<Longrightarrow> mii_writable r (mii_val m) \<Longrightarrow>
        mii_regs (put MII_ACC (push_bit 11 a OR push_bit 6 r OR MII_ACC_MII_WRITE) m) r =
          (if r = MII_BMCR then mii_val m AND NOT 0x0200 else mii_val m)"
      "mii_wait m = 0 \<Longrightarrow> mii_writable r (mii_val m) \<Longrightarrow> mii_untouched r r' \<Longrightarrow>
        mii_regs (put MII_ACC (push_bit 11 a OR push_bit 6 r OR MII_ACC_MII_WRITE) m) r' = mii_regs m r'"
begin

lemma acc_read:
  assumes "ready s" "mac_lock s" "port s = prt" and "csr_busy d = 0"
  shows "\<exists>v d'. smsc911x_mac_read h MII_ACC (s\<lparr>chip := d\<rparr>) = Some (v, s\<lparr>chip := d'\<rparr>) \<and>
    (v AND MII_ACC_MII_BUSY = 0) = (mii_wait (mac d) = 0) \<and> csr_busy d' = 0 \<and> mii_wait (mac d') = mii_wait (mac d) - 1 \<and>
    mii_val (mac d') = mii_val (mac d) \<and> mii_regs (mac d') = mii_regs (mac d)"
proof -
  obtain d' where "smsc911x_mac_read h MII_ACC (s\<lparr>chip := d\<rparr>) = Some (fst (get MII_ACC (mac d)), s\<lparr>chip := d'\<rparr>)"
    "csr_busy d' = 0" "mac d' = snd (get MII_ACC (mac d))"
    using mac_read_get [of "s\<lparr>chip := d\<rparr>" MII_ACC] assms by auto
  then show ?thesis using mii_status [of "mac d"] by (intro exI [of _ "fst (get MII_ACC (mac d))"] exI [of _ d']) simp
qed

lemma read_loop:
  assumes s: "ready s" "mac_lock s" "port s = prt"
  shows "csr_busy d = 0 \<Longrightarrow> mii_wait (mac d) < n \<Longrightarrow>
    \<exists>d'. mii_read_loop h n (s\<lparr>chip := d\<rparr>) = Some (uint (mii_val (mac d)), s\<lparr>chip := d'\<rparr>) \<and>
      csr_busy d' = 0 \<and> mii_wait (mac d') = 0 \<and> mii_regs (mac d') = mii_regs (mac d)"
proof (induction n arbitrary: d)
  case (Suc n)
  obtain v d1 where 1: "smsc911x_mac_read h MII_ACC (s\<lparr>chip := d\<rparr>) = Some (v, s\<lparr>chip := d1\<rparr>)"
    "(v AND MII_ACC_MII_BUSY = 0) = (mii_wait (mac d) = 0)" "csr_busy d1 = 0" "mii_wait (mac d1) = mii_wait (mac d) - 1"
    "mii_val (mac d1) = mii_val (mac d)" "mii_regs (mac d1) = mii_regs (mac d)"
    using acc_read [OF s Suc.prems(1)] by (elim exE conjE) (rule that)
  show ?case
  proof (cases "mii_wait (mac d) = 0")
    case True
    then show ?thesis
      using mac_read_get [of "s\<lparr>chip := d1\<rparr>" MII_DATA] mii_data [of "mac d1"] s 1 True by auto
  next
    case False
    then show ?thesis using Suc.IH [OF 1(3)] Suc.prems(2) 1 by auto
  qed
qed simp

lemma write_loop:
  assumes s: "ready s" "mac_lock s" "port s = prt"
  shows "csr_busy d = 0 \<Longrightarrow> mii_wait (mac d) < n \<Longrightarrow>
    \<exists>d'. mii_write_loop h n (s\<lparr>chip := d\<rparr>) = Some (0, s\<lparr>chip := d'\<rparr>) \<and>
      csr_busy d' = 0 \<and> mii_wait (mac d') = 0 \<and> mii_regs (mac d') = mii_regs (mac d)"
proof (induction n arbitrary: d)
  case (Suc n)
  obtain v d1 where 1: "smsc911x_mac_read h MII_ACC (s\<lparr>chip := d\<rparr>) = Some (v, s\<lparr>chip := d1\<rparr>)"
    "(v AND MII_ACC_MII_BUSY = 0) = (mii_wait (mac d) = 0)" "csr_busy d1 = 0" "mii_wait (mac d1) = mii_wait (mac d) - 1"
    "mii_regs (mac d1) = mii_regs (mac d)"
    using acc_read [OF s Suc.prems(1)] by (elim exE conjE) (rule that)
  then show ?case using Suc.IH [OF 1(3)] Suc.prems(2) by (cases "mii_wait (mac d) = 0") auto
qed simp

lemma mii_read_value:
  assumes s: "ready s" "\<not> mac_lock s" "port s = prt" and idle: "csr_busy (chip s) = 0" "mii_wait (mac (chip s)) = 0" and r: "r < 32"
  shows "\<exists>d. smsc911x_mii_read h a r s = Some (uint (mii_regs (mac (chip s)) r), s\<lparr>chip := d\<rparr>) \<and>
    (csr_busy d = 0 \<and> mii_wait (mac d) = 0) \<and> mii_regs (mac d) = mii_regs (mac (chip s))"
proof -
  let ?l = "s\<lparr>mac_lock := True\<rparr>" and ?a = "push_bit 11 a OR push_bit 6 r"
  have l: "ready ?l" "mac_lock ?l" "port ?l = prt" using s by simp_all
  obtain v d1 where 1: "smsc911x_mac_read h MII_ACC (?l\<lparr>chip := chip s\<rparr>) = Some (v, ?l\<lparr>chip := d1\<rparr>)" "v AND MII_ACC_MII_BUSY = 0"
    "csr_busy d1 = 0" "mii_wait (mac d1) = 0" "mii_regs (mac d1) = mii_regs (mac (chip s))"
    using acc_read [OF l idle(1)] idle(2) by auto
  obtain d2 where 2: "smsc911x_mac_write h MII_ACC ?a (?l\<lparr>chip := d1\<rparr>) = Some (?l\<lparr>chip := d2\<rparr>)" "csr_busy d2 = 0"
    "mac d2 = put MII_ACC ?a (mac d1)"
    using mac_write_put [of "?l\<lparr>chip := d1\<rparr>" MII_ACC ?a] l 1(3) by auto
  have w: "mii_wait (mac d2) < 100" "mii_val (mac d2) = mii_regs (mac (chip s)) r" "mii_regs (mac d2) = mii_regs (mac (chip s))"
    using mii_get [OF 1(4) r] 2(3) 1(5) by simp_all
  obtain d3 where "mii_read_loop h 100 (?l\<lparr>chip := d2\<rparr>) = Some (uint (mii_val (mac d2)), ?l\<lparr>chip := d3\<rparr>)"
    "csr_busy d3 = 0" "mii_wait (mac d3) = 0" "mii_regs (mac d3) = mii_regs (mac d2)"
    using read_loop [OF l 2(2) w(1)] by blast
  moreover have "s\<lparr>mac_lock := False\<rparr> = s" using s(2) by simp
  ultimately show ?thesis
    using 1 2 w s low5 [OF mii_addr] low5 [OF r]
    by (intro exI [of _ d3]) (simp add: smsc911x_mii_read_def spin_lock_mac_def spin_unlock_mac_def mac_unlock_id)
qed

lemma mii_write_value:
  assumes s: "ready s" "\<not> mac_lock s" "port s = prt" and idle: "csr_busy (chip s) = 0" "mii_wait (mac (chip s)) = 0"
    and r: "mii_writable r v"
  shows "\<exists>d. smsc911x_mii_write h a r v s = Some (0, s\<lparr>chip := d\<rparr>) \<and> (csr_busy d = 0 \<and> mii_wait (mac d) = 0) \<and>
    mii_regs (mac d) r = (if r = MII_BMCR then v AND NOT 0x0200 else v) \<and>
    (\<forall>r'. mii_untouched r r' \<longrightarrow> mii_regs (mac d) r' = mii_regs (mac (chip s)) r')"
proof -
  let ?l = "s\<lparr>mac_lock := True\<rparr>" and ?a = "push_bit 11 a OR push_bit 6 r OR MII_ACC_MII_WRITE"
  have l: "ready ?l" "mac_lock ?l" "port ?l = prt" using s by simp_all
  have r32: "r < 32" using r by (auto simp: mii_writable_def)
  obtain w d1 where 1: "smsc911x_mac_read h MII_ACC (?l\<lparr>chip := chip s\<rparr>) = Some (w, ?l\<lparr>chip := d1\<rparr>)" "w AND MII_ACC_MII_BUSY = 0"
    "csr_busy d1 = 0" "mii_wait (mac d1) = 0" "mii_regs (mac d1) = mii_regs (mac (chip s))"
    using acc_read [OF l idle(1)] idle(2) by auto
  obtain d2 where 2: "smsc911x_mac_write h MII_DATA (ucast v) (?l\<lparr>chip := d1\<rparr>) = Some (?l\<lparr>chip := d2\<rparr>)" "csr_busy d2 = 0"
    "mac d2 = put MII_DATA (ucast v) (mac d1)"
    using mac_write_put [of "?l\<lparr>chip := d1\<rparr>" MII_DATA "ucast v"] l 1(3) by auto
  have m2: "mii_wait (mac d2) = 0" "mii_val (mac d2) = v" "mii_regs (mac d2) = mii_regs (mac (chip s))"
    using mii_data(4-6) [OF 1(4), of "ucast v"] 2(3) 1(5) by simp_all
  obtain d3 where 3: "smsc911x_mac_write h MII_ACC ?a (?l\<lparr>chip := d2\<rparr>) = Some (?l\<lparr>chip := d3\<rparr>)" "csr_busy d3 = 0"
    "mac d3 = put MII_ACC ?a (mac d2)"
    using mac_write_put [of "?l\<lparr>chip := d2\<rparr>" MII_ACC ?a] l 2(2) by auto
  have "mii_wait (mac d3) < 100" using mii_put(1) [OF m2(1) r32] 3(3) by simp
  then obtain d4 where "mii_write_loop h 100 (?l\<lparr>chip := d3\<rparr>) = Some (0, ?l\<lparr>chip := d4\<rparr>)"
    "csr_busy d4 = 0" "mii_wait (mac d4) = 0" "mii_regs (mac d4) = mii_regs (mac d3)"
    using write_loop [OF l 3(2)] by blast
  moreover have "s\<lparr>mac_lock := False\<rparr> = s" using s(2) by simp
  moreover have "mii_regs (mac d3) r = (if r = MII_BMCR then v AND NOT 0x0200 else v)"
    "\<forall>r'. mii_untouched r r' \<longrightarrow> mii_regs (mac d3) r' = mii_regs (mac (chip s)) r'"
    using mii_put(2,3) [OF m2(1), of r] r m2 3(3) by auto
  ultimately show ?thesis
    using 1 2 3 s low5 [OF mii_addr] low5 [OF r32]
    by (intro exI [of _ d4]) (simp add: smsc911x_mii_write_def spin_lock_mac_def spin_unlock_mac_def mac_unlock_id Let_def)
qed

end

sublocale mii_sheet \<subseteq> mii_bus h prt a "\<lambda>d. csr_busy d = 0 \<and> mii_wait (mac d) = 0" "\<lambda>d. mii_regs (mac d)"
  by unfold_locales (use mii_read_value mii_write_value in auto)

section \<open>The library on such a bus\<close>

text \<open>The best mode in a set of advertised ones: the first of the table that is in the set.\<close>

fun best_mode :: "((int \<times> int) \<times> u32) list \<Rightarrow> u32 \<Rightarrow> int \<times> int" where
  "best_mode [] w = (10, DUPLEX_HALF)"
| "best_mode ((m, b) # ms) w = (if w AND b \<noteq> 0 then m else best_mode ms w)"

definition adv_modes :: "((int \<times> int) \<times> u32) list" where
  "adv_modes = [((100, DUPLEX_FULL), ADVERTISE_100FULL), ((100, DUPLEX_HALF), ADVERTISE_100HALF), ((10, DUPLEX_FULL), ADVERTISE_10FULL)]"

lemma and_or_zero: "(w AND (x OR y) \<noteq> 0) = (w AND x \<noteq> 0 \<or> w AND y \<noteq> (0 :: u32))"
  by (simp add: bit.conj_disj_distrib or_eq_0_iff)

lemma resolve_best: "(phy_speed (resolve_lpa 0 w p), duplex (resolve_lpa 0 w p)) = best_mode adv_modes w"
  unfolding resolve_lpa_def and_or_zero by (simp add: adv_modes_def Let_def)

text \<open>The PHY as \<open>genphy_read_status\<close> leaves it when its registers are \<open>R\<close>.\<close>

definition status_of :: "(u32 \<Rightarrow> u16) \<Rightarrow> phy_device \<Rightarrow> phy_device" where
  "status_of R p =
     (let p = p\<lparr>phy_link := if (ucast (R MII_BMSR) :: u32) AND BMSR_LSTATUS = 0 then 0 else 1\<rparr> in
      if phy_autoneg p = AUTONEG_ENABLE then resolve_lpa 0 (ucast (R MII_LPA) AND ucast (R MII_ADVERTISE)) p
      else resolve_bmcr (ucast (R MII_BMCR)) p)"

lemma phy_core_status_of [simp]: "phy_core p (status_of R q) = phy_core p q"
  by (simp add: status_of_def Let_def)

lemma status_of_link [simp]: "phy_link (status_of R p) = (if (ucast (R MII_BMSR) :: u32) AND BMSR_LSTATUS = 0 then 0 else 1)"
  by (simp add: status_of_def Let_def)

lemma status_of_mode:
  assumes "phy_autoneg p = AUTONEG_ENABLE"
  shows "(phy_speed (status_of R p), duplex (status_of R p)) = best_mode adv_modes (ucast (R MII_LPA) AND ucast (R MII_ADVERTISE))"
  using assms resolve_best by (simp add: status_of_def Let_def)

lemma word_of_uint_16 [simp]: "word_of_int (uint (v :: u16)) = (ucast v :: u32)"
  by simp

text \<open>The PHY is on the bus of the device, and nobody else uses it.\<close>

definition on_bus :: "u32 \<times> smsc911x_platform_config \<times> smsc911x_ops \<Rightarrow> u32 \<Rightarrow> ('d \<Rightarrow> bool) \<Rightarrow> phy_device \<Rightarrow> 'd smsc911x_data \<Rightarrow> bool" where
  "on_bus prt a idle p s \<longleftrightarrow> ready s \<and> \<not> mac_lock s \<and> port s = prt \<and> idle (chip s) \<and> phy_addr p = a"

lemma on_bus_phy: "on_bus prt a idle p s \<Longrightarrow> phy_addr q = phy_addr p \<Longrightarrow> on_bus prt a idle q s"
  by (simp add: on_bus_def)

lemma on_bus_updates [simp]:
  "on_bus prt a idle (p\<lparr>phy_lock := l\<rparr>) s = on_bus prt a idle p s" "on_bus prt a idle (p\<lparr>phy_link := i\<rparr>) s = on_bus prt a idle p s"
  "on_bus prt a idle (p\<lparr>phy_advertising := w\<rparr>) s = on_bus prt a idle p s" "on_bus prt a idle (p\<lparr>phy_st := st\<rparr>) s = on_bus prt a idle p s"
  "on_bus prt a idle (p\<lparr>phy_pause := i\<rparr>) s = on_bus prt a idle p s" "on_bus prt a idle (p\<lparr>phy_asym_pause := i\<rparr>) s = on_bus prt a idle p s"
  "on_bus prt a idle (p\<lparr>phy_speed := i\<rparr>) s = on_bus prt a idle p s" "on_bus prt a idle (p\<lparr>duplex := i\<rparr>) s = on_bus prt a idle p s"
  "on_bus prt a idle (p\<lparr>phy_autoneg := i\<rparr>) s = on_bus prt a idle p s" "on_bus prt a idle (p\<lparr>phy_link_timeout := i\<rparr>) s = on_bus prt a idle p s"
  "on_bus prt a idle (p\<lparr>phy_interrupts := w\<rparr>) s = on_bus prt a idle p s"
  "on_bus prt a idle (use_setting n p) s = on_bus prt a idle p s" "on_bus prt a idle (status_of R p) s = on_bus prt a idle p s"
  using phy_core_status_of [of p R p] by (simp_all add: on_bus_def phy_core_def)

lemma has_gigabit_lock [simp]: "has_gigabit (p\<lparr>phy_lock := l\<rparr>) = has_gigabit p"
  by (simp add: has_gigabit_def)

lemma on_busD: "on_bus prt a idle p s \<Longrightarrow> ready s" "on_bus prt a idle p s \<Longrightarrow> \<not> mac_lock s"
  by (simp_all add: on_bus_def)

text \<open>A forced mode is kept if it is supported, and it is never a gigabit one if none is.\<close>

lemma sanitize_settings_idx:
  "\<exists>p'. phy_sanitize_settings p = use_setting (phy_find_valid (phy_find_setting (phy_speed p) (duplex p)) (phy_supported p)) p'"
  by (cases "phy_supported p AND SUPPORTED_Autoneg = 0") (simp_all add: phy_sanitize_settings_def Let_def, blast+)

lemma find_valid_first:
  assumes "k < 7" and "i = phy_find_valid k f"
  shows "i < 7 \<and> (snd (snd (settings ! i)) AND f \<noteq> 0 \<and> (\<forall>j. k \<le> j \<and> j < i \<longrightarrow> snd (snd (settings ! j)) AND f = 0) \<or>
    i = 6 \<and> (\<forall>j. k \<le> j \<and> j < 7 \<longrightarrow> snd (snd (settings ! j)) AND f = 0))"
  using search_setting_first [of k i "\<lambda>x. snd (snd x) AND f \<noteq> 0"] assms by (auto simp: phy_find_valid_def case_prod_unfold)

lemma less7: "i < 7 \<longleftrightarrow> i \<in> {0, 1, 2, 3, 4, 5, 6 :: nat}"
  by auto

lemma sanitize_no_gigabit:
  assumes "phy_supported p AND 0x1030 = 0"
  shows "phy_speed (phy_sanitize_settings p) \<in> {10, 100}"
proof -
  let ?k = "phy_find_setting (phy_speed p) (duplex p)"
  let ?i = "phy_find_valid ?k (phy_supported p)"
  have k: "?k < 7" using search_setting_first [of 0 ?k] by (simp add: phy_find_setting_def)
  have f: "f AND phy_supported p = 0" if "f AND 0x1030 = f" for f
  proof -
    have "f AND phy_supported p = f AND (phy_supported p AND 0x1030)" by (subst that [symmetric]) (simp add: ac_simps)
    with assms show ?thesis by simp
  qed
  from find_valid_first [OF k refl, of "phy_supported p"] have "?i < 7" "snd (snd (settings ! ?i)) AND phy_supported p \<noteq> 0 \<or> ?i = 6" by auto
  moreover have "0x1000 AND phy_supported p = 0" "0x20 AND phy_supported p = 0" "0x10 AND phy_supported p = 0" by (rule f; simp)+
  ultimately have "fst (settings ! ?i) \<in> {10, 100}" by (auto simp: less7 settings_def)
  with sanitize_settings_idx [of p] show ?thesis by (auto simp: use_setting_def case_prod_unfold)
qed

lemma sanitize_supported:
  assumes "(phy_speed p, duplex p, f) \<in> set settings" and "f AND phy_supported p \<noteq> 0"
  shows "phy_speed (phy_sanitize_settings p) = phy_speed p \<and> duplex (phy_sanitize_settings p) = duplex p"
proof -
  let ?k = "phy_find_setting (phy_speed p) (duplex p)"
  have k: "?k < 7 \<and> settings ! ?k = (phy_speed p, duplex p, f)"
    using assms(1) by (auto simp: phy_find_setting_def settings_def)
  then have "drop ?k settings = (phy_speed p, duplex p, f) # drop (Suc ?k) settings" by (subst Cons_nth_drop_Suc [symmetric]) simp_all
  with assms(2) have "phy_find_valid ?k (phy_supported p) = ?k" by (simp add: phy_find_valid_def)
  with k sanitize_settings_idx [of p] show ?thesis by (auto simp: use_setting_def)
qed

context mii_sheet
begin

lemma bus: "mii_bus h prt a (\<lambda>d. csr_busy d = 0 \<and> mii_wait (mac d) = 0) (\<lambda>d. mii_regs (mac d))"
  by (rule mii_bus_axioms)

end

context mii_bus
begin

lemma holds_get:
  assumes "on_bus prt a idle p s" and "r < 32"
    and P: "\<And>d. on_bus prt a idle p (s\<lparr>chip := d\<rparr>) \<Longrightarrow> regs d = regs (chip s) \<Longrightarrow> P (uint (regs (chip s) r), s\<lparr>chip := d\<rparr>)"
  shows "holds (phy_read h p r s) P"
proof -
  obtain d where "smsc911x_mii_read h a r s = Some (uint (regs (chip s) r), s\<lparr>chip := d\<rparr>)" "idle d" "regs d = regs (chip s)"
    using bus_read [of s r] assms(1,2) by (auto simp: on_bus_def)
  with assms(1) P [of d] show ?thesis by (simp add: phy_read_def mdiobus_read_def on_bus_def)
qed

lemma holds_put:
  assumes "on_bus prt a idle p s" and "mii_writable r (ucast v)"
    and P: "\<And>d. on_bus prt a idle p (s\<lparr>chip := d\<rparr>) \<Longrightarrow> regs d r = (if r = MII_BMCR then ucast (v AND NOT BMCR_ANRESTART) else ucast v) \<Longrightarrow>
      (\<forall>r'. mii_untouched r r' \<longrightarrow> regs d r' = regs (chip s) r') \<Longrightarrow> P (0, s\<lparr>chip := d\<rparr>)"
  shows "holds (phy_write h p r v s) P"
proof -
  have "(ucast v :: u16) AND NOT 0x0200 = ucast (v AND NOT 0x0200)"
    by (rule bit_word_eqI) (auto simp: bit_simps)
  then obtain d where "smsc911x_mii_write h a r (ucast v) s = Some (0, s\<lparr>chip := d\<rparr>)" "idle d"
    "regs d r = (if r = MII_BMCR then ucast (v AND NOT 0x0200) else ucast v)" "\<forall>r'. mii_untouched r r' \<longrightarrow> regs d r' = regs (chip s) r'"
    using bus_write [of s r "ucast v"] assms(1,2) by (auto simp: on_bus_def)
  with assms(1) P [of d] show ?thesis by (simp add: phy_write_def mdiobus_write_def on_bus_def)
qed

lemma update_link_value:
  assumes b: "on_bus prt a idle p s"
    and P: "\<And>d. on_bus prt a idle p (s\<lparr>chip := d\<rparr>) \<Longrightarrow> regs d = regs (chip s) \<Longrightarrow>
      P (0, p\<lparr>phy_link := if (ucast (regs (chip s) MII_BMSR) :: u32) AND BMSR_LSTATUS = 0 then 0 else 1\<rparr>, s\<lparr>chip := d\<rparr>)"
  shows "holds (genphy_update_link h p s) P"
proof -
  have "holds (phy_read h p MII_BMSR (s\<lparr>chip := d\<rparr>))
      (\<lambda>(v, t). P (0, p\<lparr>phy_link := if (word_of_int v :: u32) AND BMSR_LSTATUS = 0 then 0 else 1\<rparr>, t) \<and> 0 \<le> v)"
    if "on_bus prt a idle p (s\<lparr>chip := d\<rparr>)" "regs d = regs (chip s)" for d
    by (rule holds_get [OF that(1)]) (use that P in auto)
  then have "holds (phy_read h p MII_BMSR s) (\<lambda>(v, t). 0 \<le> v \<and> holds (phy_read h p MII_BMSR t)
      (\<lambda>(v, t). P (0, p\<lparr>phy_link := if (word_of_int v :: u32) AND BMSR_LSTATUS = 0 then 0 else 1\<rparr>, t) \<and> 0 \<le> v))"
    by (intro holds_get [OF b]) auto
  then show ?thesis
    unfolding genphy_update_link_def holds_or_return by (auto elim!: holds_mono)
qed

lemma read_status_value:
  assumes b: "on_bus prt a idle p s" and "\<not> has_gigabit p"
    and P: "\<And>d. on_bus prt a idle p (s\<lparr>chip := d\<rparr>) \<Longrightarrow> regs d = regs (chip s) \<Longrightarrow> P (0, status_of (regs (chip s)) p, s\<lparr>chip := d\<rparr>)"
  shows "holds (genphy_read_status h p s) P"
  using assms
  by (auto simp: genphy_read_status_def has_gigabit_def status_of_def Let_def intro!: update_link_value [OF b] holds_get)

lemma aneg_done_value:
  assumes "on_bus prt a idle p s"
    and "\<And>d. on_bus prt a idle p (s\<lparr>chip := d\<rparr>) \<Longrightarrow> regs d = regs (chip s) \<Longrightarrow>
      P (uint ((ucast (regs (chip s) MII_BMSR) :: u32) AND BMSR_ANEGCOMPLETE), p, s\<lparr>chip := d\<rparr>)"
  shows "holds (phy_aneg_done h p s) P"
  using assms by (auto simp: phy_aneg_done_def intro!: holds_get)

text \<open>Negotiation completes.\<close>

lemma an_tick:
  assumes b: "on_bus prt a idle p s" and p: "phy_dev s = Some p" "\<not> phy_lock p" "phy_st p = PHY_AN" "phy_autoneg p = AUTONEG_ENABLE" "\<not> has_gigabit p"
    and up: "(ucast (regs (chip s) MII_BMSR) :: u32) AND BMSR_LSTATUS \<noteq> 0" "(ucast (regs (chip s) MII_BMSR) :: u32) AND BMSR_ANEGCOMPLETE \<noteq> 0"
  shows "holds (phy_state_machine h s) (\<lambda>t. \<exists>q. phy_dev t = Some q \<and> phy_st q = PHY_RUNNING \<and> phy_link q = 1 \<and> carrier t \<and>
    (phy_speed q, duplex q) = best_mode adv_modes (ucast (regs (chip s) MII_LPA) AND ucast (regs (chip s) MII_ADVERTISE)) \<and>
    last_duplex t = duplex q \<and> last_carrier t = 1)"
proof -
  let ?p = "p\<lparr>phy_lock := True\<rparr>" and ?R = "regs (chip s)"
  have pos: "uint ((ucast (?R MII_BMSR) :: u32) AND BMSR_ANEGCOMPLETE) > 0"
    using up(2) by (simp add: uint_0_iff less_le del: uint_and)
  have b': "on_bus prt a idle ?p s" "\<not> has_gigabit ?p" using b p(5) by (simp_all add: has_gigabit_def)
  have "holds (work_an h ?p s) (\<lambda>(n, err, q, t). \<not> n \<and> 0 \<le> err \<and> q = (status_of ?R ?p)\<lparr>phy_st := PHY_RUNNING\<rparr> \<and> carrier t \<and>
      last_duplex t = duplex q \<and> last_carrier t = 1)"
    using b b' p up pos on_busD [OF b] by (auto simp: work_an_def Let_def intro!: read_status_value [OF b'] aneg_done_value holds_call_adjust_link)
  then show ?thesis
    using p up(1) status_of_mode [of ?p ?R]
    by (auto simp: phy_state_machine_def mutex_lock_def mutex_unlock_def state_work_def Let_def elim!: holds_mono)
qed

text \<open>The PHY resumes without a link: the carrier is not turned off.\<close>

lemma resume_tick:
  assumes b: "on_bus prt a idle p s" and p: "phy_dev s = Some p" "\<not> phy_lock p" "phy_st p = PHY_RESUMING" "phy_autoneg p = AUTONEG_DISABLE"
      "phy_drv p \<noteq> genphy_driver" "\<not> has_gigabit p"
    and down: "(ucast (regs (chip s) MII_BMSR) :: u32) AND BMSR_LSTATUS = 0"
  shows "holds (phy_state_machine h s) (\<lambda>t. carrier t = carrier s \<and> last_carrier t = carrier_int s \<and>
    (\<exists>q. phy_dev t = Some q \<and> phy_st q = PHY_NOLINK \<and> phy_link q = 0))"
proof -
  let ?p = "p\<lparr>phy_lock := True\<rparr>" and ?q = "p\<lparr>phy_lock := True, phy_interrupts := PHY_INTERRUPT_ENABLED\<rparr>"
  have st: "holds (resume_status h ?q (s\<lparr>chip := d\<rparr>)) (\<lambda>(n, err, q, t). \<not> n \<and> err = 0 \<and> phy_st q = PHY_NOLINK \<and> phy_link q = 0 \<and>
      carrier t = carrier s \<and> last_carrier t = carrier_int s)"
    if "on_bus prt a idle ?q (s\<lparr>chip := d\<rparr>)" "regs d MII_BMSR = regs (chip s) MII_BMSR" for d
    using that p down on_busD [OF that(1)]
    by (auto simp: resume_status_def has_gigabit_def Let_def intro!: read_status_value holds_call_adjust_link)
  have "holds (work_resuming h ?p s) (\<lambda>(n, err, q, t). \<not> n \<and> err = 0 \<and> phy_st q = PHY_NOLINK \<and> phy_link q = 0 \<and>
      carrier t = carrier s \<and> last_carrier t = carrier_int s)"
    using b p st
    by (auto simp: work_resuming_def phy_clear_interrupt_def smsc_phy_ack_interrupt_def phy_config_interrupt_def smsc_phy_config_intr_def
      mii_writable_def mii_untouched_def Let_def intro!: holds_get holds_put)
  then show ?thesis
    using p by (auto simp: phy_state_machine_def mutex_lock_def mutex_unlock_def state_work_def Let_def elim!: holds_mono)
qed

text \<open>Negotiation starts: the PHY advertises what it may, and is not isolated.\<close>

lemma config_advert_value:
  assumes b: "on_bus prt a idle p s" and "\<not> has_gigabit p" and old: "regs (chip s) MII_ADVERTISE AND 0xf000 = 0"
    and P: "\<And>r d. on_bus prt a idle p (s\<lparr>chip := d\<rparr>) \<Longrightarrow> r \<in> {0, 1} \<Longrightarrow>
      (ucast (regs d MII_ADVERTISE) :: u32) AND 0x0fe0 = ethtool_adv_to_mii_adv_t (phy_advertising p AND phy_supported p) \<Longrightarrow>
      regs d MII_BMCR = regs (chip s) MII_BMCR \<Longrightarrow>
      P (r, p\<lparr>phy_advertising := phy_advertising p AND phy_supported p\<rparr>, s\<lparr>chip := d\<rparr>)"
  shows "holds (genphy_config_advert h p s) P"
proof -
  let ?o = "ucast (regs (chip s) MII_ADVERTISE) :: u32" and ?b = "ethtool_adv_to_mii_adv_t (phy_advertising p AND phy_supported p)"
    and ?p = "p\<lparr>phy_advertising := phy_advertising p AND phy_supported p\<rparr>"
  let ?w = "(?o AND NOT 0x0fe0) OR ?b"
  have bits: "?b AND 0x0fe0 = ?b" "?b AND 0xf200 = 0" "?b AND 0xffff = ?b" by (simp_all add: ethtool_adv_to_mii_adv_t_def)
  have "?o AND 0xffff = ?o" by (rule bit_word_eqI) (auto simp: bit_simps low_half dest: bit_imp_le_length)
  moreover have "(?o AND NOT 0x0fe0) AND 0xffff = (?o AND 0xffff) AND NOT 0x0fe0" by (simp only: ac_simps)
  ultimately have "(?o AND NOT 0x0fe0) AND 0xffff = ?o AND NOT 0x0fe0" by (simp only:)
  with bits(3) have o: "ucast (ucast ?w :: u16) = ?w" by (intro ucast_16) (simp only: bit.conj_disj_distrib2)
  have "(?o AND NOT 0x0fe0) AND 0xf200 = ucast (regs (chip s) MII_ADVERTISE AND 0xf000)"
    by (simp add: and.assoc unsigned_and_eq)
  then have "?w AND 0xf200 = 0" using old bits(2) by (simp add: bit.conj_disj_distrib2)
  moreover have "ucast ?w AND (0xf200 :: u16) = ucast (?w AND 0xf200)" by (rule bit_word_eqI) (auto simp: bit_simps)
  ultimately have w: "mii_writable MII_ADVERTISE (ucast ?w)" by (simp add: mii_writable_def)
  have "(?o AND NOT 0x0fe0) AND 0x0fe0 = 0" by (simp add: and.assoc)
  with bits(1) have v: "?w AND 0x0fe0 = ?b" by (simp add: bit.conj_disj_distrib2)
  show ?thesis
    using b assms(2) v w o P
    by (auto simp: genphy_config_advert_def config_advert_reg_def has_gigabit_def mii_untouched_def Let_def intro!: holds_get holds_put)
qed

lemma restart_value:
  assumes b: "on_bus prt a idle p s" and old: "regs (chip s) MII_BMCR AND 0x807f = 0"
    and P: "\<And>d. on_bus prt a idle p (s\<lparr>chip := d\<rparr>) \<Longrightarrow> regs d MII_ADVERTISE = regs (chip s) MII_ADVERTISE \<Longrightarrow>
      (ucast (regs d MII_BMCR) :: u32) AND BMCR_ANENABLE \<noteq> 0 \<Longrightarrow> (ucast (regs d MII_BMCR) :: u32) AND BMCR_ISOLATE = 0 \<Longrightarrow> P (0, p, s\<lparr>chip := d\<rparr>)"
  shows "holds (genphy_restart_aneg h p s) P"
proof -
  let ?o = "ucast (regs (chip s) MII_BMCR) :: u32"
  let ?w = "(?o OR 0x1200) AND NOT 0x0400"
  have 1: "ucast ?w AND (0x807f :: u16) = regs (chip s) MII_BMCR AND 0x807f" by (simp add: unsigned_and_eq unsigned_or_eq bit.conj_disj_distrib2 and.assoc)
  have 2: "(ucast (ucast (?w AND NOT 0x0200) :: u16) :: u32) AND 0x1000 = 0x1000" by (simp add: unsigned_and_eq unsigned_or_eq bit.conj_disj_distrib2 and.assoc)
  have 3: "(ucast (ucast (?w AND NOT 0x0200) :: u16) :: u32) AND 0x0400 = 0" by (simp add: unsigned_and_eq unsigned_or_eq bit.conj_disj_distrib2 and.assoc)
  show ?thesis
    using b old 1 2 3 P by (auto simp: genphy_restart_aneg_def mii_writable_def mii_untouched_def Let_def intro!: holds_get holds_put)
qed

lemma negotiate_value:
  assumes b: "on_bus prt a idle p s" and p: "\<not> phy_lock p" "phy_autoneg p = AUTONEG_ENABLE" "\<not> has_gigabit p"
    and old: "regs (chip s) MII_BMCR AND 0x807f = 0" "regs (chip s) MII_ADVERTISE AND 0xf000 = 0"
    and P: "\<And>q d. on_bus prt a idle q (s\<lparr>chip := d\<rparr>) \<Longrightarrow> phy_same p q \<Longrightarrow> phy_st q = (if phy_st p = PHY_HALTED then PHY_HALTED else PHY_AN) \<Longrightarrow>
      (ucast (regs d MII_BMCR) :: u32) AND BMCR_ANENABLE \<noteq> 0 \<Longrightarrow> (ucast (regs d MII_BMCR) :: u32) AND BMCR_ISOLATE = 0 \<Longrightarrow>
      (ucast (regs d MII_ADVERTISE) :: u32) AND 0x0fe0 = ethtool_adv_to_mii_adv_t (phy_advertising p AND phy_supported p) \<Longrightarrow>
      P (0, q, s\<lparr>chip := d\<rparr>)"
  shows "holds (phy_start_aneg h p s) P"
proof -
  let ?p = "p\<lparr>phy_lock := True\<rparr>"
  have "holds (genphy_config_aneg h ?p s) (\<lambda>(r, q, t). \<exists>d. r = 0 \<and> q = ?p\<lparr>phy_advertising := phy_advertising p AND phy_supported p\<rparr> \<and> t = s\<lparr>chip := d\<rparr> \<and>
      on_bus prt a idle p t \<and>
      (ucast (regs d MII_BMCR) :: u32) AND BMCR_ANENABLE \<noteq> 0 \<and> (ucast (regs d MII_BMCR) :: u32) AND BMCR_ISOLATE = 0 \<and>
      (ucast (regs d MII_ADVERTISE) :: u32) AND 0x0fe0 = ethtool_adv_to_mii_adv_t (phy_advertising p AND phy_supported p))"
    using b p old by (auto simp: genphy_config_aneg_def intro!: config_advert_value holds_get restart_value)
  then show ?thesis
    using p
    by (simp add: phy_start_aneg_def mutex_lock_def Let_def) (auto simp: mutex_unlock_def phy_same_def intro!: P elim!: holds_mono)
qed

text \<open>A forced mode reaches the control register.\<close>

lemma forced_aneg:
  assumes b: "on_bus prt a idle p s" and p: "\<not> phy_lock p" "phy_autoneg p = AUTONEG_DISABLE" "phy_supported p AND 0x1030 = 0"
    and P: "\<And>q d. on_bus prt a idle q (s\<lparr>chip := d\<rparr>) \<Longrightarrow> phy_same p q \<Longrightarrow> phy_autoneg q = AUTONEG_DISABLE \<Longrightarrow>
      phy_speed q = phy_speed (phy_sanitize_settings p) \<Longrightarrow> duplex q = duplex (phy_sanitize_settings p) \<Longrightarrow>
      ucast (regs d MII_BMCR) = forced_ctl (phy_sanitize_settings p) \<Longrightarrow> P (0, q, s\<lparr>chip := d\<rparr>)"
  shows "holds (phy_start_aneg h p s) P"
proof -
  let ?p = "phy_sanitize_settings (p\<lparr>phy_lock := True\<rparr>)"
  have m: "phy_speed ?p = phy_speed (phy_sanitize_settings p)" "duplex ?p = duplex (phy_sanitize_settings p)"
    "phy_autoneg ?p = 0" "phy_same (p\<lparr>phy_lock := True\<rparr>) ?p" "on_bus prt a idle ?p s"
    using p(2) b by (auto simp: phy_sanitize_settings_def Let_def use_setting_def phy_same_def split: prod.splits)
  then have c: "forced_ctl (?p\<lparr>phy_pause := 0, phy_asym_pause := 0\<rparr>) = forced_ctl (phy_sanitize_settings p)"
    by (simp add: forced_ctl_def)
  have sp: "phy_speed (phy_sanitize_settings p) \<noteq> 1000" using sanitize_no_gigabit [OF p(3)] by auto
  then have w: "mii_writable MII_BMCR (ucast (forced_ctl (phy_sanitize_settings p)))"
    "ucast (ucast (forced_ctl (phy_sanitize_settings p) AND NOT BMCR_ANRESTART) :: u16) = forced_ctl (phy_sanitize_settings p)"
    by (simp_all add: mii_writable_def forced_ctl_def)
  have "holds (phy_write h (?p\<lparr>phy_pause := 0, phy_asym_pause := 0\<rparr>) MII_BMCR (forced_ctl (phy_sanitize_settings p)) s)
      (\<lambda>(r, t). \<exists>d. r = 0 \<and> t = s\<lparr>chip := d\<rparr> \<and> on_bus prt a idle p t \<and> ucast (regs d MII_BMCR) = forced_ctl (phy_sanitize_settings p))"
    using m(5) w(1) by (rule holds_put [of "?p\<lparr>phy_pause := 0, phy_asym_pause := 0\<rparr>", simplified]) (use w(2) m(5) b in \<open>auto simp: on_bus_def\<close>)
  then show ?thesis
    using p m c
    by (simp add: phy_start_aneg_def mutex_lock_def genphy_config_aneg_def genphy_setup_forced_def Let_def)
      (auto simp: mutex_unlock_def phy_same_def on_bus_def intro!: P elim!: holds_mono)
qed

text \<open>What ethtool sets is what the chip then reports.\<close>

lemma forced_reported:
  assumes b: "on_bus prt a idle p s" and p: "\<not> phy_lock p" "phy_supported p AND 0x1030 = 0"
    and c: "ucast (ec_phy_address c) = a" "ec_autoneg c = 0"
    and m: "(sint (ethtool_cmd_speed c), uint (ec_duplex c), f) \<in> set settings" "f AND phy_supported p \<noteq> 0" "ethtool_cmd_speed c \<in> {10, 100}"
  shows "holds (phy_ethtool_sset h p c s) (\<lambda>(r, q, t). r = 0 \<and> holds (genphy_read_status h q t) (\<lambda>(r, q, t). r = 0 \<and>
    phy_autoneg q = AUTONEG_DISABLE \<and> phy_speed q = sint (ethtool_cmd_speed c) \<and> duplex q = uint (ec_duplex c)))"
proof -
  let ?p = "p\<lparr>phy_autoneg := 0, phy_speed := sint (ethtool_cmd_speed c),
    phy_advertising := (ec_advertising c AND phy_supported p) AND NOT SUPPORTED_Autoneg, duplex := uint (ec_duplex c)\<rparr>"
  have d: "uint (ec_duplex c) \<in> {0, 1}" using m(1) by (auto simp: settings_def)
  then have d': "ec_duplex c = 0 \<or> ec_duplex c = 1" by (auto simp: word_uint_eq_iff)
  have san: "phy_speed (phy_sanitize_settings ?p) = sint (ethtool_cmd_speed c)" "duplex (phy_sanitize_settings ?p) = uint (ec_duplex c)"
    using sanitize_supported [of ?p f] m(1,2) by simp_all
  have "holds (phy_start_aneg h ?p s) (\<lambda>(r, q, t). holds (genphy_read_status h q t) (\<lambda>(r, q, t). r = 0 \<and>
    phy_autoneg q = AUTONEG_DISABLE \<and> phy_speed q = sint (ethtool_cmd_speed c) \<and> duplex q = uint (ec_duplex c)))"
  proof (rule forced_aneg)
    fix q d assume q: "on_bus prt a idle q (s\<lparr>chip := d\<rparr>)" "phy_same ?p q" "phy_autoneg q = AUTONEG_DISABLE"
      "ucast (regs d MII_BMCR) = forced_ctl (phy_sanitize_settings ?p)"
    have "phy_supported p AND 0x30 = (phy_supported p AND 0x1030) AND 0x30" by (simp add: ac_simps)
    then have "\<not> has_gigabit q" using p(2) q(2) by (simp add: has_gigabit_def phy_same_def)
    then show "case (0, q, s\<lparr>chip := d\<rparr>) of (r, q, t) \<Rightarrow> holds (genphy_read_status h q t) (\<lambda>(r, q, t). r = 0 \<and>
        phy_autoneg q = AUTONEG_DISABLE \<and> phy_speed q = sint (ethtool_cmd_speed c) \<and> duplex q = uint (ec_duplex c))"
      using q san m(3) d by (auto intro!: read_status_value simp: status_of_def Let_def resolve_bmcr_def forced_ctl_def)
  qed (use b p in simp_all)
  then show ?thesis
    using c m(3) d' b by (auto simp: phy_ethtool_sset_def Let_def on_bus_def)
qed

end

section \<open>A chip\<close>

text \<open>A MAC with a PHY behind it, whose accesses take a few status reads.\<close>

record mii_mac =
  mm_wait :: nat
  mm_val :: u16
  mm_regs :: "u32 \<Rightarrow> u16"

record mii_chip =
  mc_busy :: nat
  mc_val :: u32
  mc_mac :: mii_mac

definition mii_get :: "u32 \<Rightarrow> mii_mac \<Rightarrow> u32 \<times> mii_mac" where
  "mii_get r m = (if r = MII_ACC then (if mm_wait m = 0 then 0 else MII_ACC_MII_BUSY, m\<lparr>mm_wait := mm_wait m - 1\<rparr>)
     else if r = MII_DATA then (ucast (mm_val m), m) else (0, m))"

definition mii_put :: "u32 \<Rightarrow> u32 \<Rightarrow> mii_mac \<Rightarrow> mii_mac" where
  "mii_put r v m = (if r = MII_DATA then m\<lparr>mm_val := ucast v\<rparr>
     else if r = MII_ACC then
       (let i = drop_bit 6 v AND 0x1f in
        if v AND MII_ACC_MII_WRITE \<noteq> 0 then
          m\<lparr>mm_wait := 3, mm_regs := (mm_regs m)(i := if i = MII_BMCR then mm_val m AND NOT 0x0200 else mm_val m)\<rparr>
        else m\<lparr>mm_wait := 3, mm_val := mm_regs m i\<rparr>)
     else m)"

definition mii_hw :: "mii_chip hw" where
  "mii_hw = \<lparr>
     readl = (\<lambda>a d. if a = MAC_CSR_CMD then (if mc_busy d = 0 then 0 else MAC_CSR_CMD_CSR_BUSY, d\<lparr>mc_busy := mc_busy d - 1\<rparr>)
                    else if a = MAC_CSR_DATA then (mc_val d, d) else (0, d)),
     readw = (\<lambda>a d. (0, d)),
     writel = (\<lambda>a v d. if a = MAC_CSR_DATA then d\<lparr>mc_val := v\<rparr>
                      else if a = MAC_CSR_CMD then
                        (if v AND MAC_CSR_CMD_R_NOT_W \<noteq> 0 then
                           d\<lparr>mc_busy := 3, mc_val := fst (mii_get (v AND 0xff) (mc_mac d)), mc_mac := snd (mii_get (v AND 0xff) (mc_mac d))\<rparr>
                         else d\<lparr>mc_busy := 3, mc_mac := mii_put (v AND 0xff) (mc_val d) (mc_mac d)\<rparr>)
                      else d),
     writew = (\<lambda>a v d. d)\<rparr>"

lemma mii_chip_access:
  "chip_read mii_hw (0, example_config, standard_smsc911x_ops) r d = readl mii_hw r d"
  "chip_write mii_hw (0, example_config, standard_smsc911x_ops) r v d = writel mii_hw r v d"
  by (simp_all add: chip_read_def chip_write_def cell_read_def cell_write_def reg_addr_def example_config_def)

lemma csr_cmd_bits:
  assumes "r AND 0xff = (r :: u32)"
  shows "(r OR MAC_CSR_CMD_CSR_BUSY) AND MAC_CSR_CMD_R_NOT_W = 0" "(r OR MAC_CSR_CMD_CSR_BUSY) AND 0xff = r"
    "(r OR MAC_CSR_CMD_CSR_BUSY OR MAC_CSR_CMD_R_NOT_W) AND MAC_CSR_CMD_R_NOT_W \<noteq> 0"
    "(r OR MAC_CSR_CMD_CSR_BUSY OR MAC_CSR_CMD_R_NOT_W) AND 0xff = r"
proof -
  have "r AND MAC_CSR_CMD_R_NOT_W = 0" by (subst assms [symmetric]) (simp add: ac_simps)
  then show "(r OR MAC_CSR_CMD_CSR_BUSY) AND MAC_CSR_CMD_R_NOT_W = 0" "(r OR MAC_CSR_CMD_CSR_BUSY) AND 0xff = r"
    "(r OR MAC_CSR_CMD_CSR_BUSY OR MAC_CSR_CMD_R_NOT_W) AND MAC_CSR_CMD_R_NOT_W \<noteq> 0"
    "(r OR MAC_CSR_CMD_CSR_BUSY OR MAC_CSR_CMD_R_NOT_W) AND 0xff = r"
    using assms by (simp_all add: bit.conj_disj_distrib2)
qed

lemma mii_acc_bits:
  assumes "r < (32 :: u32)"
  shows "(push_bit 11 1 OR push_bit 6 r) AND MII_ACC_MII_WRITE = 0" "drop_bit 6 (push_bit 11 1 OR push_bit 6 r) AND 0x1f = r"
    "(push_bit 11 1 OR push_bit 6 r OR MII_ACC_MII_WRITE) AND MII_ACC_MII_WRITE \<noteq> 0"
    "drop_bit 6 (push_bit 11 1 OR push_bit 6 r OR MII_ACC_MII_WRITE) AND 0x1f = r"
proof -
  let ?x = "push_bit 11 1 OR push_bit 6 r"
  have r: "r AND mask 5 = r" "mask 5 = (0x1f :: u32)" using low5 [OF assms] by (simp_all add: mask_eq_exp_minus_1)
  have x: "?x AND 2 = 0" by (rule bit_word_eqI) (auto simp: bit_simps)
  have d: "drop_bit 6 (push_bit 11 y OR push_bit 6 r) AND mask 5 = r AND mask 5"
    "drop_bit 6 ((push_bit 11 y OR push_bit 6 r) OR 2) AND mask 5 = r AND mask 5" for y
    by (rule bit_word_eqI; auto simp: bit_simps)+
  show "?x AND 2 = 0" by (fact x)
  show "(push_bit 11 1 OR push_bit 6 r OR 2) AND 2 \<noteq> 0" using x by (simp add: bit.conj_disj_distrib2 or.assoc [symmetric])
  show "drop_bit 6 ?x AND 0x1f = r" "drop_bit 6 (push_bit 11 1 OR push_bit 6 r OR 2) AND 0x1f = r"
    using d r by (simp_all only: or.assoc)
qed

interpretation chip: mii_sheet mii_hw "(0, example_config, standard_smsc911x_ops)" mc_busy mc_val mc_mac mii_get mii_put 1 mm_wait mm_val mm_regs
  by unfold_locales (simp_all only: mii_chip_access,
    simp_all add: mii_hw_def csr_cmd_bits [simplified] mii_get_def mii_put_def mii_acc_bits [simplified] mii_writable_def mii_untouched_def, auto)

definition mii_drv :: "(u32 \<Rightarrow> u16) \<Rightarrow> phy_device \<Rightarrow> mii_chip smsc911x_data" where
  "mii_drv R p = (example_drv \<lparr>mc_busy = 0, mc_val = 0, mc_mac = \<lparr>mm_wait = 0, mm_val = 0, mm_regs = R\<rparr>\<rparr>)\<lparr>phy_dev := Some p\<rparr>"

lemma mii_drv_on_bus:
  "phy_addr p = 1 \<Longrightarrow> on_bus (0, example_config, standard_smsc911x_ops) 1 (\<lambda>d. mc_busy d = 0 \<and> mm_wait (mc_mac d) = 0) p (mii_drv R p)"
  "phy_dev (mii_drv R p) = Some p" "mm_regs (mc_mac (chip (mii_drv R p))) = R"
  using example_ready by (simp_all add: on_bus_def mii_drv_def) (simp_all add: example_drv_def)

definition force_cmd :: "u16 \<Rightarrow> u8 \<Rightarrow> ethtool_cmd" where
  "force_cmd speed dplx = \<lparr>ec_supported = 0, ec_advertising = 0, ec_speed = speed, ec_duplex = dplx, ec_port = 0, ec_phy_address = 1,
     ec_transceiver = 0, ec_autoneg = 0, ec_maxtxpkt = 0, ec_maxrxpkt = 0, ec_speed_hi = 0\<rparr>"

section \<open>Results\<close>

lemma speed_halves: "push_bit 16 (ucast (ucast (drop_bit 16 v) :: u16)) OR ucast (ucast v :: u16) = (v :: u32)"
  by (rule bit_word_eqI) (auto simp: bit_simps)

lemma gset_values:
  "ethtool_cmd_speed (phy_ethtool_gset q e) = word_of_int (phy_speed q)" "ec_duplex (phy_ethtool_gset q e) = word_of_int (duplex q)"
  "ec_autoneg (phy_ethtool_gset q e) = word_of_int (phy_autoneg q)"
  by (simp_all add: phy_ethtool_gset_def ethtool_cmd_speed_def ethtool_cmd_speed_set_def speed_halves)

text \<open>
  C7: Negotiation ends in the best mode both ends have. On every chip that follows its data sheet, when the PHY reports a link and a completed
  negotiation, the next run of the state machine goes from \<open>PHY_AN\<close> to \<open>PHY_RUNNING\<close>, turns the carrier on, sets speed and duplex mode to the
  best mode in the intersection of the advertised and the received abilities, and the network driver has taken over the mode and the carrier.
\<close>

theorem negotiated_best_mode:
  assumes "mii_sheet h prt csr_busy csr_val mac get put a mii_wait mii_val mii_regs"
    and "on_bus prt a (\<lambda>d. csr_busy d = 0 \<and> mii_wait (mac d) = 0) p s" and "phy_dev s = Some p" and "\<not> phy_lock p"
    and "phy_st p = PHY_AN" and "phy_autoneg p = AUTONEG_ENABLE" and "\<not> has_gigabit p" and R: "R = mii_regs (mac (chip s))"
    and "(ucast (R MII_BMSR) :: u32) AND BMSR_LSTATUS \<noteq> 0" and "(ucast (R MII_BMSR) :: u32) AND BMSR_ANEGCOMPLETE \<noteq> 0"
  shows "\<exists>t q. phy_state_machine h s = Some t \<and> phy_dev t = Some q \<and> phy_st q = PHY_RUNNING \<and> phy_link q = 1 \<and> carrier t \<and>
    (phy_speed q, duplex q) = best_mode adv_modes (ucast (R MII_LPA) AND ucast (R MII_ADVERTISE)) \<and>
    last_duplex t = duplex q \<and> last_carrier t = 1"
  using holdsD [OF mii_bus.an_tick [OF mii_sheet.bus [OF assms(1)] assms(2-7)]] assms(9,10) unfolding R by auto

text \<open>A partner that can do everything, and the other one that can do 10 Mbit/s only.\<close>

theorem negotiated_best_mode_witness:
  "\<exists>t q t' q'. phy_state_machine mii_hw (mii_drv (\<lambda>r. if r = 1 then 0x782d else if r = 4 then 0x01e1 else if r = 5 then 0x45e1 else 0)
      (example_phy\<lparr>phy_st := PHY_AN\<rparr>)) = Some t \<and> phy_dev t = Some q \<and> phy_speed q = 100 \<and> duplex q = DUPLEX_FULL \<and> carrier t \<and>
    phy_state_machine mii_hw (mii_drv (\<lambda>r. if r = 1 then 0x782d else if r = 4 then 0x01e1 else if r = 5 then 0x0061 else 0)
      (example_phy\<lparr>phy_st := PHY_AN\<rparr>)) = Some t' \<and> phy_dev t' = Some q' \<and> phy_speed q' = 10 \<and> duplex q' = DUPLEX_FULL"
proof -
  let ?p = "example_phy\<lparr>phy_st := PHY_AN\<rparr>"
  have g: "\<not> has_gigabit ?p" by (simp add: has_gigabit_def)
  note tick = negotiated_best_mode [OF chip.mii_sheet_axioms mii_drv_on_bus(1,2), of ?p, OF _ _ _ _ g refl, unfolded mii_drv_on_bus(3)]
  show ?thesis
    using tick [of "\<lambda>r. if r = 1 then 0x782d else if r = 4 then 0x01e1 else if r = 5 then 0x45e1 else 0"]
      tick [of "\<lambda>r. if r = 1 then 0x782d else if r = 4 then 0x01e1 else if r = 5 then 0x0061 else 0"]
    by (auto simp: adv_modes_def)
qed

text \<open>
  C15: Restarting negotiation advertises exactly what is asked for and supported. \<open>phy_start_aneg\<close> leaves the PHY in \<open>PHY_AN\<close> (or halted), with
  negotiation enabled, not isolated, and with the technology and pause bits of its advertisement those of \<open>advertising & supported\<close>.
\<close>

theorem start_aneg_advertises:
  assumes "mii_sheet h prt csr_busy csr_val mac get put a mii_wait mii_val mii_regs"
    and "on_bus prt a (\<lambda>d. csr_busy d = 0 \<and> mii_wait (mac d) = 0) p s" and "\<not> phy_lock p" and "phy_autoneg p = AUTONEG_ENABLE"
    and "\<not> has_gigabit p" and "mii_regs (mac (chip s)) MII_BMCR AND 0x807f = 0" and "mii_regs (mac (chip s)) MII_ADVERTISE AND 0xf000 = 0"
  shows "\<exists>q t. phy_start_aneg h p s = Some (0, q, t) \<and> phy_st q = (if phy_st p = PHY_HALTED then PHY_HALTED else PHY_AN) \<and> \<not> phy_lock q \<and>
    (let R = mii_regs (mac (chip t)) in
     (ucast (R MII_BMCR) :: u32) AND BMCR_ANENABLE \<noteq> 0 \<and> (ucast (R MII_BMCR) :: u32) AND BMCR_ISOLATE = 0 \<and>
     (ucast (R MII_ADVERTISE) :: u32) AND 0x0fe0 = ethtool_adv_to_mii_adv_t (phy_advertising p AND phy_supported p))"
proof -
  have "holds (phy_start_aneg h p s) (\<lambda>(r, q, t). r = 0 \<and> phy_st q = (if phy_st p = PHY_HALTED then PHY_HALTED else PHY_AN) \<and> \<not> phy_lock q \<and>
    (let R = mii_regs (mac (chip t)) in
     (ucast (R MII_BMCR) :: u32) AND BMCR_ANENABLE \<noteq> 0 \<and> (ucast (R MII_BMCR) :: u32) AND BMCR_ISOLATE = 0 \<and>
     (ucast (R MII_ADVERTISE) :: u32) AND 0x0fe0 = ethtool_adv_to_mii_adv_t (phy_advertising p AND phy_supported p)))"
    using assms(3) by (intro mii_bus.negotiate_value [OF mii_sheet.bus [OF assms(1)] assms(2-7)]) (auto simp: Let_def phy_same_def)
  then show ?thesis by (auto dest: holdsD)
qed

theorem start_aneg_advertises_witness:
  "\<exists>q t. phy_start_aneg mii_hw (example_phy\<lparr>phy_st := PHY_UP, phy_advertising := 0x02ca\<rparr>)
      (mii_drv (\<lambda>r. if r = 0 then 0x0400 else if r = 4 then 0x01e1 else 0) (example_phy\<lparr>phy_st := PHY_UP, phy_advertising := 0x02ca\<rparr>)) =
        Some (0, q, t) \<and> phy_st q = PHY_AN \<and>
     ucast (mm_regs (mc_mac (chip t)) MII_ADVERTISE) AND (0x0fe0 :: u32) = ADVERTISE_10FULL OR ADVERTISE_100FULL"
proof -
  let ?p = "example_phy\<lparr>phy_st := PHY_UP, phy_advertising := 0x02ca\<rparr>"
  have g: "\<not> has_gigabit ?p" by (simp add: has_gigabit_def)
  show ?thesis
    using start_aneg_advertises [OF chip.mii_sheet_axioms mii_drv_on_bus(1), of ?p, OF _ _ _ g, unfolded mii_drv_on_bus(3),
        of "\<lambda>r. if r = 0 then 0x0400 else if r = 4 then 0x01e1 else 0"]
    by (auto simp: Let_def ethtool_adv_to_mii_adv_t_def)
qed

text \<open>
  C16: A forced mode of ethtool survives the trip through the chip. If the PHY supports the mode, \<open>phy_ethtool_sset\<close> succeeds, the status that is read from
  the chip after it is this mode, and \<open>phy_ethtool_gset\<close> then reports the speed and the duplex mode that were set.
\<close>

theorem forced_mode_roundtrip:
  assumes "mii_sheet h prt csr_busy csr_val mac get put a mii_wait mii_val mii_regs"
    and "on_bus prt a (\<lambda>d. csr_busy d = 0 \<and> mii_wait (mac d) = 0) p s" and "\<not> phy_lock p" and "phy_supported p AND 0x1030 = 0"
    and "ucast (ec_phy_address c) = a" and "ec_autoneg c = 0" and "(sint (ethtool_cmd_speed c), uint (ec_duplex c), f) \<in> set settings"
    and "f AND phy_supported p \<noteq> 0" and "ethtool_cmd_speed c \<in> {10, 100}"
  shows "\<exists>q t q' t'. phy_ethtool_sset h p c s = Some (0, q, t) \<and> genphy_read_status h q t = Some (0, q', t') \<and>
    ethtool_cmd_speed (phy_ethtool_gset q' e) = ethtool_cmd_speed c \<and> ec_duplex (phy_ethtool_gset q' e) = ec_duplex c \<and>
    ec_autoneg (phy_ethtool_gset q' e) = 0"
proof -
  obtain q t q' t' where "phy_ethtool_sset h p c s = Some (0, q, t)" "genphy_read_status h q t = Some (0, q', t')"
    "phy_autoneg q' = 0" "phy_speed q' = sint (ethtool_cmd_speed c)" "duplex q' = uint (ec_duplex c)"
    using holdsD [OF mii_bus.forced_reported [OF mii_sheet.bus [OF assms(1)] assms(2-9)]] by (auto dest!: holdsD)
  then show ?thesis by (auto simp: gset_values)
qed

theorem forced_mode_roundtrip_witness:
  "\<exists>q t q' t'. phy_ethtool_sset mii_hw example_phy (force_cmd 10 1) (mii_drv (\<lambda>r. 0) example_phy) = Some (0, q, t) \<and>
     genphy_read_status mii_hw q t = Some (0, q', t') \<and> ethtool_cmd_speed (phy_ethtool_gset q' (force_cmd 0 0)) = 10 \<and>
     ec_duplex (phy_ethtool_gset q' (force_cmd 0 0)) = 1"
proof -
  have c: "ucast (ec_phy_address (force_cmd 10 1)) = (1 :: u32)" "ec_autoneg (force_cmd 10 1) = 0" "ec_duplex (force_cmd 10 1) = 1"
    "ethtool_cmd_speed (force_cmd 10 1) = 10"
    by (simp_all add: force_cmd_def ethtool_cmd_speed_def)
  show ?thesis
    using forced_mode_roundtrip [OF chip.mii_sheet_axioms mii_drv_on_bus(1), of example_phy "force_cmd 10 1" SUPPORTED_10baseT_Full "\<lambda>r. 0" "force_cmd 0 0"] c
    by (auto simp: settings_def)
qed

text \<open>
  C8: The state machine follows its description. Each run ends without taking a mutex twice, whatever the chip does, and releases both of them. It makes
  one of the documented transitions or stops on an error of the bus. In the states \<open>PHY_RUNNING\<close> and \<open>PHY_CHANGELINK\<close> there are a link and a
  carrier, in \<open>PHY_NOLINK\<close> there is no link, and a carrier only if the PHY resumed with it.
\<close>

theorem state_machine_edges:
  assumes "ready s" and "\<not> mac_lock s" and "phy_dev s = Some p" and "\<not> phy_lock p" and "phy_irq p = PHY_POLL" and "link_tracked p s"
  shows "\<exists>t q. phy_state_machine h s = Some t \<and> phy_dev t = Some q \<and> \<not> phy_lock q \<and> \<not> mac_lock t \<and> phy_edge (phy_st p) (phy_st q) \<and>
    link_tracked q t \<and> late_carrier p s q t"
  using holdsD [OF holds_state_machine [OF assms, of h]] assms(2,4) by (auto simp: tick_ok_def phy_same_def dest: net_sameD(2))

theorem state_machine_edges_witness:
  "\<exists>t q. phy_state_machine mii_hw (mii_drv (\<lambda>r. 0) (example_phy\<lparr>phy_st := PHY_CHANGELINK, phy_link := 1\<rparr>)\<lparr>carrier := True\<rparr>) = Some t \<and>
     phy_dev t = Some q \<and> phy_st q \<in> {PHY_RUNNING, PHY_NOLINK, PHY_HALTED} \<and> (phy_st q = PHY_RUNNING \<longrightarrow> carrier t) \<and>
     (phy_st q = PHY_NOLINK \<longrightarrow> \<not> carrier t)"
proof -
  let ?p = "example_phy\<lparr>phy_st := PHY_CHANGELINK, phy_link := 1\<rparr>"
  let ?s = "mii_drv (\<lambda>r. 0) ?p\<lparr>carrier := True\<rparr>"
  have "ready ?s" "\<not> mac_lock ?s" "phy_dev ?s = Some ?p" "link_tracked ?p ?s"
    using mii_drv_on_bus [where p = ?p and R = "\<lambda>r. 0"] by (simp_all add: on_bus_def link_tracked_def)
  from state_machine_edges [OF this(1-3) _ _ this(4), of mii_hw] show ?thesis
    by (auto simp: link_tracked_def late_carrier_def elim: phy_edge.cases)
qed

text \<open>
  A PHY with a forced mode that is stopped and started again before the state machine runs resumes with its carrier on. Without a link it goes to
  \<open>PHY_NOLINK\<close>, the carrier stays on, and the network driver takes the carrier over.
\<close>

theorem resume_keeps_carrier:
  assumes "mii_sheet h prt csr_busy csr_val mac get put a mii_wait mii_val mii_regs"
    and "on_bus prt a (\<lambda>d. csr_busy d = 0 \<and> mii_wait (mac d) = 0) p s" and "phy_dev s = Some p" and "\<not> phy_lock p" and "carrier s"
    and "phy_st p = PHY_RESUMING" and "phy_autoneg p = AUTONEG_DISABLE" and "phy_drv p \<noteq> genphy_driver" and "\<not> has_gigabit p"
    and "(ucast (mii_regs (mac (chip s)) MII_BMSR) :: u32) AND BMSR_LSTATUS = 0"
  shows "\<exists>t q. phy_state_machine h s = Some t \<and> phy_dev t = Some q \<and> phy_st q = PHY_NOLINK \<and> phy_link q = 0 \<and> carrier t \<and> last_carrier t = 1"
  using holdsD [OF mii_bus.resume_tick [OF mii_sheet.bus [OF assms(1)] assms(2-4,6-10)]] assms(5) by auto

end
