(* ===== verification/Smsc_Driver.thy ===== *)
theory Smsc_Driver
  imports Smsc_Ethtool Phy_Bus
begin

text \<open>
  The driver as the kernel uses it: bringing the interface up and down (\<open>__dev_open\<close> and
  \<open>__dev_close_many\<close> of \<open>linux/net/core/dev.c\<close>) and the table of entry points of \<open>smsc911x_netdev_ops\<close>,
  \<open>smsc911x_ethtool_ops\<close>, \<open>smsc911x_pm_ops\<close>, the interrupt handler, the poll function and the state machine of the PHY.
  The calls are the steps of a transition system. Every sequence of calls the kernel can make is proved to
  run without a violated lock assertion, an access outside of a buffer or a failed \<open>BUG_ON\<close>.
\<close>

section \<open>Bringing the interface up and down\<close>

definition eth_validate_addr :: "'d smsc911x_data \<Rightarrow> int" where
  "eth_validate_addr s = (if is_valid_ether_addr (dev_addr s) then 0 else - EADDRNOTAVAIL)"

text \<open>The notifiers do not object, and the device is present.\<close>

definition dev_open :: "'d hw \<Rightarrow> ('d \<Rightarrow> bool \<times> 'd) \<Rightarrow> 'd smsc911x_data \<Rightarrow> (int \<times> 'd smsc911x_data) option" where
  "dev_open h elapse s = do {
     let s = s\<lparr>running := True\<rparr>;
     let ret = eth_validate_addr s;
     (ret, s) \<leftarrow> (if ret = 0 then smsc911x_open h elapse s else Some (ret, s));
     if ret \<noteq> 0 then Some (ret, s\<lparr>running := False\<rparr>)
     else do {
       s \<leftarrow> smsc911x_set_multicast_list h s;
       Some (ret, s)
     }
   }"

definition dev_close :: "'d hw \<Rightarrow> 'd smsc911x_data \<Rightarrow> 'd smsc911x_data option" where
  "dev_close h s = do {
     let s = s\<lparr>running := False\<rparr>;
     (_, s) \<leftarrow> smsc911x_stop h s;
     Some s
   }"

section \<open>Entry points\<close>

datatype drv_call =
    Dev_open
  | Dev_close
  | Start_xmit sk_buff
  | Poll
  | Irq
  | Set_rx_mode bool bool "u8 list list"
  | Set_mac_address "u8 list"
  | Get_stats
  | Phy_work
  | Do_ioctl int mii_ioctl_data
  | Get_settings ethtool_cmd
  | Set_settings ethtool_cmd
  | Nway_reset
  | Get_regs
  | Get_eeprom u32 u32
  | Set_eeprom u32 u8
  | Suspend
  | Resume

text \<open>What the driver gets from its surroundings: the checksum functions, the allocator, the passing of time, the fixups of
  the board for its PHYs, and the contents of the stack.\<close>

record 'd kernel =
  k_swatt :: "u32 list \<Rightarrow> u32 list option"
  k_swatt_db :: "u32 list \<Rightarrow> u32 list option"
  k_alloc :: "nat \<Rightarrow> bool"
  k_elapse :: "'d \<Rightarrow> bool \<times> 'd"
  k_fixups :: "'d phy_fixup list"
  k_buf :: "u32 list"
  k_stack :: "u8 list"

text \<open>When the kernel makes a call.\<close>

fun enabled :: "drv_call \<Rightarrow> 'd smsc911x_data \<Rightarrow> bool" where
  "enabled Dev_open s = (\<not> running s)"
| "enabled Dev_close s = (running s \<and> \<not> napi_sched s)"
| "enabled (Start_xmit k) s = (running s \<and> \<not> queue_stopped s \<and> skb_ok k)"
| "enabled Poll s = (running s \<and> napi_sched s)"
| "enabled Irq s = True"
| "enabled (Set_rx_mode p a l) s = (\<forall>m \<in> set l. length m = 6)"
| "enabled (Set_mac_address a) s = (length a = 14)"
| "enabled Get_stats s = True"
| "enabled Phy_work s = True"
| "enabled (Do_ioctl cmd m) s = True"
| "enabled (Get_settings c) s = True"
| "enabled (Set_settings c) s = True"
| "enabled Nway_reset s = True"
| "enabled Get_regs s = True"
| "enabled (Get_eeprom offset n) s = (unat offset + unat n \<le> 128)"
| "enabled (Set_eeprom offset b) s = (unat offset < 128)"
| "enabled Suspend s = True"
| "enabled Resume s = True"

text \<open>The weight of the poll is \<open>SMSC_NAPI_WEIGHT\<close>. Results the caller gets are left out.\<close>

fun drv_exec :: "'d hw \<Rightarrow> 'd kernel \<Rightarrow> drv_call \<Rightarrow> 'd smsc911x_data \<Rightarrow> 'd smsc911x_data option" where
  "drv_exec h k Dev_open s = do {(_, s) \<leftarrow> dev_open h (k_elapse k) s; Some s}"
| "drv_exec h k Dev_close s = dev_close h s"
| "drv_exec h k (Start_xmit skb) s = do {(_, s) \<leftarrow> smsc911x_hard_start_xmit h skb s; Some s}"
| "drv_exec h k Poll s = do {(_, _, s) \<leftarrow> smsc911x_poll h (k_swatt k) (k_swatt_db k) (k_alloc k) 16 s; Some s}"
| "drv_exec h k Irq s = do {(_, s) \<leftarrow> smsc911x_irqhandler h s; Some s}"
| "drv_exec h k (Set_rx_mode p a l) s = smsc911x_set_multicast_list h (s\<lparr>promisc := p, allmulti := a, mc_list := l\<rparr>)"
| "drv_exec h k (Set_mac_address a) s = do {(_, s) \<leftarrow> smsc911x_set_mac_address h a s; Some s}"
| "drv_exec h k Get_stats s = do {(_, s) \<leftarrow> smsc911x_get_stats h s; Some s}"
| "drv_exec h k Phy_work s = phy_state_machine h s"
| "drv_exec h k (Do_ioctl cmd m) s = do {(_, _, _, s) \<leftarrow> smsc911x_do_ioctl h (k_swatt k) (k_fixups k) (k_buf k) cmd m s; Some s}"
| "drv_exec h k (Get_settings c) s = do {_ \<leftarrow> smsc911x_ethtool_getsettings c s; Some s}"
| "drv_exec h k (Set_settings c) s = do {(_, s) \<leftarrow> smsc911x_ethtool_setsettings h c s; Some s}"
| "drv_exec h k Nway_reset s = do {(_, s) \<leftarrow> smsc911x_ethtool_nwayreset h s; Some s}"
| "drv_exec h k Get_regs s = do {(_, _, s) \<leftarrow> smsc911x_ethtool_getregs h s; Some s}"
| "drv_exec h k (Get_eeprom offset n) s = do {(_, _, _, s) \<leftarrow> smsc911x_ethtool_get_eeprom h (k_stack k) offset n s; Some s}"
| "drv_exec h k (Set_eeprom offset b) s = do {(_, _, s) \<leftarrow> smsc911x_ethtool_set_eeprom h offset b s; Some s}"
| "drv_exec h k Suspend s = do {(_, s) \<leftarrow> smsc911x_suspend h s; Some s}"
| "drv_exec h k Resume s = do {(_, s) \<leftarrow> smsc911x_resume h s; Some s}"

inductive drv_reach :: "'d hw \<Rightarrow> 'd kernel \<Rightarrow> 'd smsc911x_data \<Rightarrow> 'd smsc911x_data \<Rightarrow> bool" for h k s0 where
  start: "drv_reach h k s0 s0"
| call: "drv_reach h k s0 s \<Longrightarrow> enabled c s \<Longrightarrow> drv_exec h k c s = Some t \<Longrightarrow> drv_reach h k s0 t"

inductive_cases drv_reachE: "drv_reach h k s0 s"

section \<open>The invariant\<close>

text \<open>
  Between two calls no lock is held, there is a PHY that is polled and whose state agrees with its link and the carrier, and NAPI is disabled when
  the interface is down. The chip follows its data sheet in the status FIFOs, and no challenge that is too short is received.
\<close>

definition phy_wf :: "phy_device \<Rightarrow> 'd smsc911x_data \<Rightarrow> bool" where
  "phy_wf p s \<longleftrightarrow> \<not> phy_lock p \<and> phy_irq p = PHY_POLL \<and> link_tracked p s"

definition drv_wf :: "'d smsc911x_data \<Rightarrow> bool" where
  "drv_wf s \<longleftrightarrow> ready s \<and> \<not> mac_lock s \<and> (\<exists>p. phy_dev s = Some p \<and> phy_wf p s) \<and> length (dev_addr s) = 6 \<and> (\<not> running s \<longrightarrow> napi_sched s)"

definition drv_inv :: "'d hw \<Rightarrow> 'd smsc911x_data \<Rightarrow> bool" where
  "drv_inv h s \<longleftrightarrow> drv_wf s \<and> tx_drains h (port s) \<and> rx_ok h (port s)"

definition kernel_ok :: "'d kernel \<Rightarrow> bool" where
  "kernel_ok k \<longleftrightarrow> answers (k_swatt k) \<and> answers (k_swatt_db k) \<and> length (k_buf k) = 64 \<and> length (k_stack k) = 128 \<and> fixups_ok (k_fixups k)"

lemma inv_kept: "drv_inv h s \<Longrightarrow> kept s t \<Longrightarrow> drv_inv h t"
  by (auto simp: drv_inv_def drv_wf_def phy_wf_def link_tracked_def kept_def ready_def)

lemma inv_frame: "drv_inv h s \<Longrightarrow> frame s t \<Longrightarrow> (\<not> running s \<longrightarrow> napi_sched t) \<Longrightarrow> drv_inv h t"
  by (auto simp: drv_inv_def drv_wf_def phy_wf_def link_tracked_def frame_def ready_def)

lemma link_tracked_updates [simp]:
  "link_tracked p (s\<lparr>chip := d\<rparr>) = link_tracked p s" "link_tracked p (s\<lparr>running := b\<rparr>) = link_tracked p s"
  "link_tracked p (s\<lparr>stats := st\<rparr>) = link_tracked p s" "link_tracked p (s\<lparr>queue_stopped := b\<rparr>) = link_tracked p s"
  "link_tracked p (s\<lparr>napi_sched := b\<rparr>) = link_tracked p s" "link_tracked p (s\<lparr>phy_dev := x\<rparr>) = link_tracked p s"
  "link_tracked p (s\<lparr>dev_addr := a\<rparr>) = link_tracked p s" "link_tracked p (s\<lparr>mc_list := l\<rparr>) = link_tracked p s"
  "link_tracked p (s\<lparr>promisc := b\<rparr>) = link_tracked p s" "link_tracked p (s\<lparr>allmulti := b\<rparr>) = link_tracked p s"
  "link_tracked p (s\<lparr>mac_lock := b\<rparr>) = link_tracked p s" "link_tracked p (s\<lparr>multicast_update_pending := w\<rparr>) = link_tracked p s"
  by (simp_all add: link_tracked_def)

lemmas inv_defs = drv_inv_def drv_wf_def phy_wf_def

lemma inv_chip [simp]: "drv_inv h (s\<lparr>chip := d\<rparr>) = drv_inv h s"
  by (simp add: inv_defs)

lemma inv_phy: "drv_inv h s \<Longrightarrow> phy_wf p s \<Longrightarrow> drv_inv h (s\<lparr>chip := d, phy_dev := Some p\<rparr>)"
  by (simp add: inv_defs)

lemma invD: "drv_inv h s \<Longrightarrow> ready s" "drv_inv h s \<Longrightarrow> \<not> mac_lock s" "drv_inv h s \<Longrightarrow> tx_drains h (port s)"
  "drv_inv h s \<Longrightarrow> rx_ok h (port s)" "drv_inv h s \<Longrightarrow> \<exists>p. phy_dev s = Some p \<and> phy_wf p s" "drv_inv h s \<Longrightarrow> length (dev_addr s) = 6"
  "drv_inv h s \<Longrightarrow> \<not> running s \<Longrightarrow> napi_sched s"
  by (auto simp: inv_defs)

lemma inv_down: "drv_inv h (t\<lparr>running := False\<rparr>) \<longleftrightarrow> drv_inv h t \<and> napi_sched t"
  by (auto simp: inv_defs)

section \<open>Every entry point keeps it\<close>

lemma kept_mc_masks [simp]: "kept s (mc_masks s)"
  by (simp add: mc_masks_def case_prod_unfold Let_def)

lemma holds_set_multicast_list:
  assumes "ready s" and "\<not> mac_lock s" and P: "\<And>t. kept s t \<Longrightarrow> P t"
  shows "holds (smsc911x_set_multicast_list h s) P"
proof -
  have m: "ready (mc_masks s)" "\<not> mac_lock (mc_masks s)" using assms(1,2) keptI(1) [OF kept_mc_masks] keptD [OF kept_mc_masks] by auto
  have k: "kept s ((mc_masks s)\<lparr>chip := d, mac_lock := False, multicast_update_pending := x\<rparr>)"
    "kept s ((mc_masks s)\<lparr>chip := d, mac_lock := False\<rparr>)" for d x
    using assms(2) kept_mc_masks [of s] by (simp_all add: kept_def)
  then have "kept s ((mc_masks s)\<lparr>mac_lock := False\<rparr>)"
    using k(2) [of "chip (mc_masks s)"] by simp
  with m k show ?thesis
    by (auto simp: smsc911x_set_multicast_list_def spin_unlock_mac_def Let_def intro!: drv_rules P)
qed

lemma holds_set_mac_address:
  assumes "drv_inv h s" and "length a = 14" and P: "\<And>r t. drv_inv h t \<Longrightarrow> P (r, t)"
  shows "holds (smsc911x_set_mac_address h a s) P"
  using assms invD [OF assms(1)]
  by (auto simp: smsc911x_set_mac_address_def spin_unlock_mac_def mac_unlock_id Let_def intro!: drv_rules P)
    (auto simp: inv_defs)

lemma started_wf: "phy_wf p s \<Longrightarrow> phy_wf (p\<lparr>phy_st := started (phy_st p)\<rparr>) s"
  by (cases "phy_st p") (auto simp: phy_wf_def link_tracked_def started_def)

lemma holds_dev_open:
  assumes "drv_inv h s" and "\<not> running s" and P: "\<And>r t. drv_inv h t \<Longrightarrow> P (r, t)"
  shows "holds (dev_open h elapse s) P"
proof -
  let ?s = "s\<lparr>running := True\<rparr>"
  define rest where "rest = (\<lambda>(ret :: int, t). if ret \<noteq> 0 then Some (ret, t\<lparr>running := False\<rparr>)
    else do {t \<leftarrow> smsc911x_set_multicast_list h t; Some (ret, t)})"
  have s: "drv_inv h ?s" "napi_sched ?s" using assms(1,2) by (simp_all add: inv_defs)
  from invD(5) [OF s(1)] obtain p where p: "phy_dev s = Some p" "phy_wf p s" by (auto simp: phy_wf_def)
  have phy: "drv_inv h (?s\<lparr>phy_dev := opened_phy r (phy_dev s)\<rparr>)" for r
    using s(1) p started_wf [OF p(2)] by (auto simp: opened_phy_def inv_defs)
  have rest: "holds (rest (r, t)) P"
    if "frame (?s\<lparr>phy_dev := phy_dev t\<rparr>) t" "phy_dev t = opened_phy r (phy_dev s)" "r \<noteq> 0 \<longrightarrow> napi_sched t" for r t
  proof -
    have t: "drv_inv h t" using inv_frame [OF phy [of r]] that(1,2) by simp
    have "holds (smsc911x_set_multicast_list h t) (\<lambda>u. P (r, u))"
      using invD [OF t] by (intro holds_set_multicast_list P inv_kept [OF t])
    moreover have "r \<noteq> 0 \<Longrightarrow> P (r, t\<lparr>running := False\<rparr>)" using t that(3) by (intro P) (simp add: inv_down)
    ultimately show ?thesis by (cases "r = 0") (simp_all add: rest_def)
  qed
  have "holds (smsc911x_open h elapse ?s) (\<lambda>x. holds (rest x) P)"
    using invD [OF s(1)] s(2) p by (intro holds_open) (auto intro: rest simp: phy_wf_def)
  moreover have "holds (rest (r, ?s)) P" if "r \<noteq> 0" for r using that s(2) by (intro rest) (simp_all add: opened_phy_def)
  moreover have "dev_open h elapse s = Option.bind (if is_valid_ether_addr (dev_addr s) then smsc911x_open h elapse ?s
      else Some (- EADDRNOTAVAIL, ?s)) rest"
    by (simp add: dev_open_def eth_validate_addr_def Let_def rest_def)
  ultimately show ?thesis by simp
qed

lemma holds_dev_close:
  assumes "drv_inv h s" and "\<not> napi_sched s" and P: "\<And>t. drv_inv h t \<Longrightarrow> P t"
  shows "holds (dev_close h s) P"
proof -
  from invD(5) [OF assms(1)] obtain p where p: "phy_dev s = Some p" "\<not> phy_lock p" "phy_irq p = PHY_POLL" by (auto simp: phy_wf_def)
  then show ?thesis
    using assms(1,2) invD [OF assms(1)]
    by (auto simp: dev_close_def Let_def intro!: holds_stop [where p = p] P) (simp add: inv_defs link_tracked_def)
qed

lemma holds_state_work:
  assumes i: "drv_inv h s"
  shows "holds (phy_state_machine h s) (drv_inv h)"
proof -
  note d = invD [OF i]
  from d(5) obtain p where p: "phy_dev s = Some p" "\<not> phy_lock p" "phy_irq p = PHY_POLL" "link_tracked p s" by (auto simp: phy_wf_def)
  show ?thesis
  proof (rule holds_mono [OF holds_state_machine [OF d(1,2) p]])
    fix t assume t: "tick_ok p s t"
    then obtain q where q: "phy_dev t = Some q" "phy_same p q" "link_tracked q t" "net_same s t" by (auto simp: tick_ok_def)
    then have "drv_inv h (s\<lparr>carrier := carrier t, phy_dev := phy_dev t\<rparr>)"
      using i p(2,3) by (auto simp: inv_defs phy_same_def link_tracked_def)
    with q(4) show "drv_inv h t" by (auto simp: net_same_def intro: inv_kept)
  qed
qed

lemma holds_do_ioctl:
  assumes "drv_inv h s" and "kernel_ok k" and P: "\<And>r b m t. drv_inv h t \<Longrightarrow> P (r, b, m, t)"
  shows "holds (smsc911x_do_ioctl h (k_swatt k) (k_fixups k) (k_buf k) cmd m s) P"
proof -
  from invD(5) [OF assms(1)] obtain p where p: "phy_dev s = Some p" "phy_wf p s" by auto
  have io: "holds (phy_mii_ioctl h (k_fixups k) p c m s) (\<lambda>(r, m, q, t). P (r, b, m, t\<lparr>phy_dev := Some q\<rparr>))" for b c
    using assms(1,2) invD [OF assms(1)] p(2)
    by (intro holds_mii_ioctl) (auto simp: kernel_ok_def phy_place_def phy_wf_def link_tracked_def intro!: P inv_phy)
  have "holds (smsc911x_do_swatt (k_swatt k) (k_buf k) cmd) (\<lambda>_. True)"
    using assms(2) by (auto simp: smsc911x_do_swatt_def kernel_ok_def intro!: holds_answers)
  then show ?thesis
    using assms(1) p(1) by (auto simp: smsc911x_do_ioctl_def intro: P io elim!: holds_mono)
qed

lemma holds_settings:
  assumes "drv_inv h s" and P: "\<And>r t. drv_inv h t \<Longrightarrow> P (r, t)"
  shows "holds (smsc911x_ethtool_setsettings h c s) P" "holds (smsc911x_ethtool_nwayreset h s) P"
proof -
  note d = invD [OF assms(1)]
  from d(5) obtain p where p: "phy_dev s = Some p" "\<not> phy_lock p" "phy_irq p = PHY_POLL" "link_tracked p s" by (auto simp: phy_wf_def)
  have q: "P (r, s\<lparr>chip := d, phy_dev := Some q\<rparr>)" if "phy_same p q" "link_tracked q s" for r d q
    using assms(1) p that by (intro P inv_phy) (simp_all add: phy_wf_def phy_same_def)
  show "holds (smsc911x_ethtool_setsettings h c s) P"
    using d p by (auto simp: smsc911x_ethtool_setsettings_def intro!: holds_ethtool_sset q)
  show "holds (smsc911x_ethtool_nwayreset h s) P"
    using d p by (auto simp: smsc911x_ethtool_nwayreset_def link_tracked_def intro!: holds_start_aneg q split: if_splits)
qed

lemma drv_exec_inv:
  assumes i: "drv_inv h s" and k: "kernel_ok k" and e: "enabled c s"
  shows "holds (drv_exec h k c s) (drv_inv h)"
proof -
  note d = invD [OF i]
  from d(5) obtain phy where phy: "phy_dev s = Some phy" by blast
  have kept: "drv_inv h t" if "kept s t" for t using inv_kept [OF i that] .
  have frame: "drv_inv h t" if "frame s t" "\<not> running s \<longrightarrow> napi_sched t" for t using inv_frame [OF i that] .
  have same: "drv_inv h (s\<lparr>chip := c, stats := st, queue_stopped := q\<rparr>)" for c st q using i by (simp add: inv_defs)
  show ?thesis
  proof (cases c)
    case Poll
    with e k d show ?thesis by (auto simp: kernel_ok_def intro!: holds_poll frame)
  next
    case Irq
    with d show ?thesis by (auto intro!: holds_irqhandler [OF _ _ refl] frame)
  next
    case (Set_rx_mode p a l)
    let ?s = "s\<lparr>promisc := p, allmulti := a, mc_list := l\<rparr>"
    have s: "drv_inv h ?s" using i by (simp add: inv_defs)
    from invD [OF s] have "holds (smsc911x_set_multicast_list h ?s) (drv_inv h)"
      by (intro holds_set_multicast_list inv_kept [OF s])
    with Set_rx_mode show ?thesis by simp
  next
    case Phy_work
    with holds_state_work [OF i] show ?thesis by simp
  next
    case (Get_settings c)
    with i phy show ?thesis by (simp add: smsc911x_ethtool_getsettings_def Let_def)
  next
    case (Start_xmit skb)
    with e d same show ?thesis by (auto intro!: drv_rules)
  next
    case Get_stats
    with i d show ?thesis by (auto intro!: drv_rules simp: inv_defs)
  qed (use e k i d phy in \<open>auto simp: kernel_ok_def intro!: holds_dev_open holds_dev_close holds_set_mac_address holds_getregs
      holds_do_ioctl holds_settings drv_rules\<close>)
qed

lemma drv_reach_inv: "drv_reach h k s0 s \<Longrightarrow> kernel_ok k \<Longrightarrow> drv_inv h s0 \<Longrightarrow> drv_inv h s"
  by (induction rule: drv_reach.induct) (auto dest: drv_exec_inv)

text \<open>
  C2: The driver does not go wrong. In every state that any sequence of calls of the kernel reaches, each call
  the kernel can make returns: no lock is taken twice or released when not held, no \<open>BUG_ON\<close> fails, no access
  is outside of a buffer, every loop ends. The state after it is well formed again: the locks are free, the interface has a 6-byte
  address and a PHY whose state agrees with its link and the carrier, and NAPI is disabled when the interface is down.
\<close>

theorem driver_type_safe:
  assumes "drv_inv h s0" and "kernel_ok k" and "drv_reach h k s0 s" and "enabled c s"
  shows "\<exists>t. drv_exec h k c s = Some t \<and> drv_inv h t"
  using holdsD [OF drv_exec_inv [OF drv_reach_inv [OF assms(3,2,1)] assms(2,4)]] by blast

section \<open>Witness\<close>

definition example_kernel :: "nat kernel" where
  "example_kernel = \<lparr>k_swatt = Some, k_swatt_db = Some, k_alloc = (\<lambda>_. True), k_elapse = (\<lambda>d. (True, d)),
     k_fixups = [\<lparr>fx_bus_id = True, fx_uid = 0xffffffff, fx_uid_mask = 0xffffffff, fx_run = (\<lambda>p s. Some (0, p\<lparr>phy_pause := 1\<rparr>, s))\<rparr>],
     k_buf = replicate 64 0, k_stack = replicate 128 0\<rparr>"

lemma example_kernel_ok: "kernel_ok example_kernel"
proof -
  have "\<exists>d. s = s\<lparr>chip := d\<rparr>" for s :: "nat smsc911x_data" by (intro exI [of _ "chip s"]) simp
  then have "fixups_ok (k_fixups example_kernel)" by (auto simp: fixups_ok_def example_kernel_def phy_place_def)
  then show ?thesis by (simp add: kernel_ok_def answers_def) (simp add: example_kernel_def)
qed

lemma count_drv_inv: "drv_inv count_hw (count_drv n)"
  by (simp add: inv_defs link_tracked_def count_tx_drains count_rx_ok)

theorem driver_type_safe_witness:
  "\<exists>s t u. drv_exec count_hw example_kernel Irq (count_drv 3) = Some s \<and> drv_exec count_hw example_kernel (Set_settings (force_cmd 10 1)) s = Some t \<and>
     drv_exec count_hw example_kernel Phy_work t = Some u \<and> drv_inv count_hw u"
proof -
  note safe = driver_type_safe [OF count_drv_inv example_kernel_ok]
  obtain s where s: "drv_exec count_hw example_kernel Irq (count_drv 3) = Some s"
    using safe [OF drv_reach.start, of Irq] by (auto simp del: drv_exec.simps)
  have rs: "drv_reach count_hw example_kernel (count_drv 3) s"
    by (rule drv_reach.call [OF drv_reach.start _ s]) simp
  obtain t where t: "drv_exec count_hw example_kernel (Set_settings (force_cmd 10 1)) s = Some t"
    using safe [OF rs, of "Set_settings (force_cmd 10 1)"] by (auto simp del: drv_exec.simps)
  have "drv_reach count_hw example_kernel (count_drv 3) t"
    by (rule drv_reach.call [OF rs _ t]) simp
  from safe [OF this, of Phy_work] s t show ?thesis by (auto simp del: drv_exec.simps)
qed

end
