(* ===== verification/Mdio_Bus.thy ===== *)
theory Mdio_Bus
  imports Phy_Bus
begin

text \<open>
  Finding the PHYs of an MII bus and connecting one to the network device: \<open>mdiobus_register\<close> and \<open>mdiobus_scan\<close> of
  \<open>linux/drivers/net/phy/mdio_bus.c\<close>, and the functions of \<open>phy_device.c\<close> that create, register, attach and disconnect a PHY.

  What the driver core and the allocator answer is in \<open>mdio_env\<close>, with the drivers of \<open>smsc.c\<close> that are loaded and the fixups of
  the board. A registered device is bound to the driver that matches; a PHY no driver matches is bound to the generic one when it is attached. The
  network driver registers its bus with \<open>PHY_POLL\<close> for all addresses.
\<close>

unbundle bit_operations_syntax

section \<open>PHYs on the bus\<close>

record 'd mdio_env =
  me_bus_register :: int
  me_alloc :: "u32 \<Rightarrow> bool"
  me_phy_register :: "u32 \<Rightarrow> int"
  me_bind :: int
  me_drivers :: "phy_driver list"
  me_fixups :: "'d phy_fixup list"

text \<open>An entry of \<open>phy_map\<close>, and whether the device has a driver.\<close>

record mdio_slot =
  sl_phy :: phy_device
  sl_bound :: bool

type_synonym phy_map = "u32 \<rightharpoonup> mdio_slot"

fun drv_phy_id :: "phy_driver \<Rightarrow> u32" where
  "drv_phy_id genphy_driver = 0xffffffff"
| "drv_phy_id lan83c185_driver = 0x0007c0a0"
| "drv_phy_id lan8187_driver = 0x0007c0b0"
| "drv_phy_id lan8700_driver = 0x0007c0c0"
| "drv_phy_id lan911x_int_driver = 0x0007c0d0"
| "drv_phy_id lan8710_driver = 0x0007c0f0"

definition drv_phy_id_mask :: "phy_driver \<Rightarrow> u32" where
  "drv_phy_id_mask d = (if d = genphy_driver then 0xffffffff else 0xfffffff0)"

definition mdio_bus_match :: "phy_device \<Rightarrow> phy_driver \<Rightarrow> bool" where
  "mdio_bus_match p d \<longleftrightarrow> drv_phy_id d AND drv_phy_id_mask d = phy_id p AND drv_phy_id_mask d"

text \<open>The specific drivers have \<open>PHY_HAS_INTERRUPT\<close>; no driver has a \<open>probe\<close> of its own.\<close>

definition phy_probe :: "phy_driver \<Rightarrow> phy_device \<Rightarrow> phy_device option" where
  "phy_probe d p = do {
     let p = p\<lparr>phy_drv := d\<rparr>;
     let p = (if d = genphy_driver then p\<lparr>phy_irq := PHY_POLL\<rparr> else p);
     p \<leftarrow> mutex_lock p;
     Some (mutex_unlock (p\<lparr>phy_supported := drv_features d, phy_advertising := drv_features d, phy_st := PHY_READY\<rparr>))
   }"

definition phy_remove :: "phy_device \<Rightarrow> phy_device option" where
  "phy_remove p = do {
     p \<leftarrow> mutex_lock p;
     Some (mutex_unlock (p\<lparr>phy_st := PHY_DOWN\<rparr>))
   }"

section \<open>Scanning\<close>

definition get_phy_id :: "'d hw \<Rightarrow> u32 \<Rightarrow> 'd smsc911x_data \<Rightarrow> (int \<times> u32 \<times> 'd smsc911x_data) option" where
  "get_phy_id h addr s = do {
     (phy_reg, s) \<leftarrow> mdiobus_read h addr MII_PHYSID1 s;
     if phy_reg < 0 then Some (- EIO, 0, s)
     else do {
       let uid = push_bit 16 (word_of_int phy_reg AND 0xffff);
       (phy_reg, s) \<leftarrow> mdiobus_read h addr MII_PHYSID2 s;
       if phy_reg < 0 then Some (- EIO, uid, s)
       else Some (0, uid OR (word_of_int phy_reg AND 0xffff), s)
     }
   }"

text \<open>The driver is not set yet; until then \<open>phy_drv\<close> has no meaning.\<close>

definition phy_device_create :: "u32 \<Rightarrow> u32 \<Rightarrow> phy_device" where
  "phy_device_create addr uid = \<lparr>phy_addr = addr, duplex = -1, phy_id = uid, phy_drv = genphy_driver, phy_st = PHY_DOWN, phy_speed = 0,
     phy_pause = 0, phy_asym_pause = 0, phy_link = 1, phy_interrupts = 0, phy_supported = 0, phy_advertising = 0,
     phy_autoneg = AUTONEG_ENABLE, phy_link_timeout = 0, phy_irq = PHY_POLL, phy_lock = False\<rparr>"

definition get_phy_device :: "'d mdio_env \<Rightarrow> 'd hw \<Rightarrow> u32 \<Rightarrow> 'd smsc911x_data \<Rightarrow> (int \<times> phy_device option \<times> 'd smsc911x_data) option" where
  "get_phy_device e h addr s = do {
     (r, uid, s) \<leftarrow> get_phy_id h addr s;
     if r \<noteq> 0 then Some (r, None, s)
     else if uid AND 0x1fffffff = 0x1fffffff then Some (0, None, s)
     else if \<not> me_alloc e addr then Some (- ENOMEM, None, s)
     else Some (0, Some (phy_device_create addr uid), s)
   }"

text \<open>What \<open>device_register\<close> does with a PHY: the first driver that matches is probed.\<close>

definition bind_driver :: "phy_driver list \<Rightarrow> phy_device \<Rightarrow> mdio_slot option" where
  "bind_driver ds p = (case find (mdio_bus_match p) ds of
     None \<Rightarrow> Some \<lparr>sl_phy = p, sl_bound = False\<rparr>
   | Some d \<Rightarrow> do {
       p \<leftarrow> phy_probe d p;
       Some \<lparr>sl_phy = p, sl_bound = True\<rparr>
     })"

definition phy_device_register :: "'d mdio_env \<Rightarrow> phy_map \<Rightarrow> phy_device \<Rightarrow> 'd smsc911x_data \<Rightarrow> (int \<times> phy_map \<times> 'd smsc911x_data) option" where
  "phy_device_register e m p s =
     (if m (phy_addr p) \<noteq> None then Some (- EINVAL, m, s)
      else do {
        (_, p, s) \<leftarrow> phy_scan_fixups (me_fixups e) p s;
        let err = me_phy_register e (phy_addr p);
        if err \<noteq> 0 then Some (err, m, s)
        else do {
          sl \<leftarrow> bind_driver (me_drivers e) p;
          Some (0, m(phy_addr p \<mapsto> sl), s)
        }
      })"

text \<open>The error of \<open>phy_device_register\<close> becomes \<open>NULL\<close>, which is not an error.\<close>

definition mdiobus_scan :: "'d mdio_env \<Rightarrow> 'd hw \<Rightarrow> u32 \<Rightarrow> phy_map \<Rightarrow> 'd smsc911x_data \<Rightarrow> (int \<times> phy_map \<times> 'd smsc911x_data) option" where
  "mdiobus_scan e h addr m s = do {
     (r, dev, s) \<leftarrow> get_phy_device e h addr s;
     if r \<noteq> 0 then Some (r, m, s)
     else case dev of
       None \<Rightarrow> Some (0, m, s)
     | Some p \<Rightarrow> do {
         (_, m, s) \<leftarrow> phy_device_register e m p s;
         Some (0, m, s)
       }
   }"

fun scan_addrs :: "'d mdio_env \<Rightarrow> 'd hw \<Rightarrow> u32 \<Rightarrow> nat list \<Rightarrow> phy_map \<Rightarrow> 'd smsc911x_data \<Rightarrow> (int \<times> phy_map \<times> 'd smsc911x_data) option" where
  "scan_addrs e h phy_mask [] m s = Some (0, m, s)"
| "scan_addrs e h phy_mask (i # is) m s =
     (if phy_mask AND push_bit i 1 = 0 then do {
        (r, m, s) \<leftarrow> mdiobus_scan e h (of_nat i) m s;
        if r \<noteq> 0 then Some (r, m, s) else scan_addrs e h phy_mask is m s
      }
      else scan_addrs e h phy_mask is m s)"

text \<open>After an error all devices are unregistered.\<close>

definition mdiobus_register :: "'d mdio_env \<Rightarrow> 'd hw \<Rightarrow> u32 \<Rightarrow> 'd smsc911x_data \<Rightarrow> (int \<times> phy_map \<times> 'd smsc911x_data) option" where
  "mdiobus_register e h phy_mask s =
     (if me_bus_register e \<noteq> 0 then Some (- EINVAL, Map.empty, s)
      else do {
        (r, m, s) \<leftarrow> scan_addrs e h phy_mask [0..<32] Map.empty s;
        if r \<noteq> 0 then Some (r, Map.empty, s) else Some (0, m, s)
      })"

definition phy_find_first :: "phy_map \<Rightarrow> mdio_slot option" where
  "phy_find_first m = (case find (\<lambda>addr. m (of_nat addr) \<noteq> None) [0..<32] of None \<Rightarrow> None | Some addr \<Rightarrow> m (of_nat addr))"

section \<open>Connecting and disconnecting\<close>

definition phy_init_hw :: "'d phy_fixup list \<Rightarrow> 'd hw \<Rightarrow> phy_device \<Rightarrow> 'd smsc911x_data \<Rightarrow> 'd phy_result" where
  "phy_init_hw fixups h p s = do {
     (ret, p, s) \<leftarrow> phy_scan_fixups fixups p s;
     if ret < 0 then Some (ret, p, s) else drv_config_init (phy_drv p) h p s
   }"

definition phy_detach :: "phy_device \<Rightarrow> phy_device option" where
  "phy_detach p = (if phy_drv p = genphy_driver then phy_remove p else Some p)"

text \<open>A PHY that was just found is not attached to another device.\<close>

definition phy_attach_direct :: "'d mdio_env \<Rightarrow> 'd hw \<Rightarrow> mdio_slot \<Rightarrow> 'd smsc911x_data \<Rightarrow> 'd phy_result" where
  "phy_attach_direct e h sl s = do {
     (err, p) \<leftarrow> (if sl_bound sl then Some (0, sl_phy sl)
       else do {
         p \<leftarrow> phy_probe genphy_driver (sl_phy sl);
         Some (me_bind e, p)
       });
     if err \<noteq> 0 then Some (err, p, s)
     else do {
       let p = p\<lparr>phy_st := PHY_READY\<rparr>;
       (err, p, s) \<leftarrow> phy_init_hw (me_fixups e) h p s;
       p \<leftarrow> (if err \<noteq> 0 then phy_detach p else Some p);
       Some (err, p, s)
     }
   }"

text \<open>The callback and the timer of the state machine are not part of the state, and a polled PHY has no interrupt to start.\<close>

definition phy_connect_direct :: "'d mdio_env \<Rightarrow> 'd hw \<Rightarrow> mdio_slot \<Rightarrow> 'd smsc911x_data \<Rightarrow> 'd phy_result" where
  "phy_connect_direct e h sl s = phy_attach_direct e h sl s"

definition phy_stop_machine :: "phy_device \<Rightarrow> phy_device option" where
  "phy_stop_machine p = do {
     p \<leftarrow> mutex_lock p;
     let p = (if phy_st p \<in> {PHY_DOWN, PHY_STARTING, PHY_READY, PHY_PENDING, PHY_UP} then p else p\<lparr>phy_st := PHY_UP\<rparr>);
     Some (mutex_unlock p)
   }"

definition phy_disconnect :: "phy_device \<Rightarrow> phy_device option" where
  "phy_disconnect p = do {
     p \<leftarrow> phy_stop_machine p;
     phy_detach p
   }"

section \<open>What a scan finds\<close>

text \<open>At most one driver matches a PHY.\<close>

lemma match_unique: "mdio_bus_match p d \<Longrightarrow> mdio_bus_match p d' \<Longrightarrow> d \<noteq> genphy_driver \<Longrightarrow> d' \<noteq> genphy_driver \<Longrightarrow> d = d'"
  by (cases d; cases d') (simp_all add: mdio_bus_match_def drv_phy_id_mask_def)

text \<open>A PHY as it is before it is connected: polled, and nobody uses it.\<close>

definition phy_fresh :: "phy_device \<Rightarrow> bool" where
  "phy_fresh p \<longleftrightarrow> phy_irq p = PHY_POLL \<and> \<not> phy_lock p"

definition map_fresh :: "phy_map \<Rightarrow> bool" where
  "map_fresh m \<longleftrightarrow> (\<forall>i sl. m i = Some sl \<longrightarrow> phy_fresh (sl_phy sl) \<and> phy_addr (sl_phy sl) = i)"

lemma probe_fresh: "phy_fresh p \<Longrightarrow> \<exists>q. phy_probe d p = Some q \<and> phy_fresh q \<and> phy_addr q = phy_addr p \<and> phy_id q = phy_id p \<and> phy_drv q = d \<and>
    phy_supported q = drv_features d \<and> phy_st q = PHY_READY"
  by (simp add: phy_probe_def mutex_lock_def mutex_unlock_def phy_fresh_def Let_def)

lemma place_fresh: "phy_place p q \<Longrightarrow> phy_fresh p \<Longrightarrow> phy_fresh q"
  by (simp add: phy_place_def phy_fresh_def)

lemma holds_bind_driver:
  assumes p: "phy_fresh p" and P: "\<And>sl. phy_fresh (sl_phy sl) \<Longrightarrow> phy_addr (sl_phy sl) = phy_addr p \<Longrightarrow> P sl"
  shows "holds (bind_driver ds p) P"
proof (cases "find (mdio_bus_match p) ds")
  case (Some d)
  then show ?thesis using probe_fresh [OF p, of d] by (auto simp: bind_driver_def intro!: P)
qed (use p P in \<open>simp add: bind_driver_def\<close>)

lemma holds_get_phy_device:
  assumes "ready s" and "\<not> mac_lock s"
    and P: "\<And>r d. r \<le> 0 \<Longrightarrow> P (r, None, s\<lparr>chip := d\<rparr>)" "\<And>q d. phy_fresh q \<Longrightarrow> phy_addr q = addr \<Longrightarrow> P (0, Some q, s\<lparr>chip := d\<rparr>)"
  shows "holds (get_phy_device e h addr s) P"
  using assms by (auto simp: get_phy_device_def get_phy_id_def mdiobus_read_def phy_device_create_def phy_fresh_def Let_def intro!: drv_rules)

lemma holds_device_register:
  assumes "ready s" and "\<not> mac_lock s" and "fixups_ok (me_fixups e)" and "phy_fresh p" and "map_fresh m"
    and P: "\<And>r d m. map_fresh m \<Longrightarrow> P (r, m, s\<lparr>chip := d\<rparr>)"
  shows "holds (phy_device_register e m p s) P"
proof -
  have same: "P (r, m, s\<lparr>chip := d\<rparr>)" "P (r, m, s)" for r d using P [OF assms(5), of _ "chip s"] P [OF assms(5)] by simp_all
  show ?thesis
    using assms(1-5) same
    by (auto simp: phy_device_register_def Let_def intro!: holds_scan_fixups holds_bind_driver P place_fresh [of p])
      (auto simp: map_fresh_def phy_place_def)
qed

lemma holds_mdiobus_scan:
  assumes "ready s" and "\<not> mac_lock s" and "fixups_ok (me_fixups e)" and "map_fresh m"
    and P: "\<And>r d m. r \<le> 0 \<Longrightarrow> map_fresh m \<Longrightarrow> P (r, m, s\<lparr>chip := d\<rparr>)"
  shows "holds (mdiobus_scan e h addr m s) P"
  using assms by (auto simp: mdiobus_scan_def intro!: holds_get_phy_device holds_device_register)

lemma holds_scan_addrs:
  assumes "ready s" and "\<not> mac_lock s" and "fixups_ok (me_fixups e)" and "map_fresh m"
    and P: "\<And>r d m. r \<le> 0 \<Longrightarrow> map_fresh m \<Longrightarrow> P (r, m, s\<lparr>chip := d\<rparr>)"
  shows "holds (scan_addrs e h phy_mask is m s) P"
  using assms
proof (induction "is" arbitrary: m s)
  case Nil
  then show ?case using Nil.prems(5) [of 0 m "chip s"] by simp
next
  case (Cons i "is")
  define rest where "rest = (\<lambda>(r, m, t). if r \<noteq> (0 :: int) then Some (r, m, t) else scan_addrs e h phy_mask is m t)"
  have "holds (rest (r, m', s\<lparr>chip := d\<rparr>)) P" if "r \<le> 0" "map_fresh m'" for r m' d
    using that Cons.prems by (auto simp: rest_def intro!: Cons.IH)
  then have "holds (mdiobus_scan e h (of_nat i) m s) (\<lambda>x. holds (rest x) P)"
    using Cons.prems(1-4) by (intro holds_mdiobus_scan)
  moreover have "holds (scan_addrs e h phy_mask is m s) P" using Cons.prems by (intro Cons.IH)
  ultimately show ?case by (simp add: rest_def)
qed

lemma holds_mdiobus_register:
  assumes "ready s" and "\<not> mac_lock s" and "fixups_ok (me_fixups e)"
    and P: "\<And>r d m. r \<le> 0 \<Longrightarrow> map_fresh m \<Longrightarrow> P (r, m, s\<lparr>chip := d\<rparr>)"
  shows "holds (mdiobus_register e h phy_mask s) P"
proof -
  have "map_fresh Map.empty" by (simp add: map_fresh_def)
  moreover from this have "P (- EINVAL, Map.empty, s)" using P [of "- EINVAL" _ "chip s"] by simp
  ultimately show ?thesis
    using assms by (auto simp: mdiobus_register_def intro!: holds_scan_addrs)
qed

lemma find_first_fresh: "map_fresh m \<Longrightarrow> phy_find_first m = Some sl \<Longrightarrow> phy_fresh (sl_phy sl)"
  by (auto simp: phy_find_first_def map_fresh_def split: option.splits)

lemma holds_detach: "\<not> phy_lock p \<Longrightarrow> (\<And>q. phy_irq q = phy_irq p \<Longrightarrow> \<not> phy_lock q \<Longrightarrow> P q) \<Longrightarrow> holds (phy_detach p) P"
  by (simp add: phy_detach_def phy_remove_def mutex_unlock_def)

lemma holds_init_hw:
  assumes "ready s" and "\<not> mac_lock s" and "fixups_ok fs" and P: "\<And>r q d. r \<le> 0 \<Longrightarrow> phy_place p q \<Longrightarrow> P (r, q, s\<lparr>chip := d\<rparr>)"
  shows "holds (phy_init_hw fs h p s) P"
  using assms(1-3) by (auto simp: phy_init_hw_def intro!: holds_scan_fixups holds_config_init P intro: phy_place_trans)

lemma holds_connect_direct:
  assumes s: "ready s" "\<not> mac_lock s" and e: "fixups_ok (me_fixups e)" "me_bind e \<le> 0" and sl: "phy_fresh (sl_phy sl)"
    and P: "\<And>r q d. r \<le> 0 \<Longrightarrow> phy_fresh q \<Longrightarrow> (r = 0 \<longrightarrow> phy_st q = PHY_READY) \<Longrightarrow> P (r, q, s\<lparr>chip := d\<rparr>)"
  shows "holds (phy_connect_direct e h sl s) P"
proof -
  define fin where "fin = (\<lambda>(r :: int, q, t :: 'a smsc911x_data). do {q \<leftarrow> (if r \<noteq> 0 then phy_detach q else Some q); Some (r, q, t)})"
  have fin: "holds (fin (r, q, s\<lparr>chip := d\<rparr>)) P" if "r \<le> 0" "phy_place (p\<lparr>phy_st := PHY_READY\<rparr>) q" "phy_fresh p" for r q d p
    using that by (auto simp: fin_def phy_place_def phy_fresh_def intro!: holds_detach P)
  have init: "holds (phy_init_hw (me_fixups e) h (p\<lparr>phy_st := PHY_READY\<rparr>) s) (\<lambda>x. holds (fin x) P)" if "phy_fresh p" for p
    using s e(1) that by (intro holds_init_hw) (auto intro: fin)
  obtain p where p: "phy_probe genphy_driver (sl_phy sl) = Some p" "phy_fresh p" using probe_fresh [OF sl] by blast
  have "P (r, p, s)" if "r \<le> 0" "r \<noteq> 0" for r using P [of r p "chip s"] that p(2) by simp
  with init [OF sl] init [OF p(2)] p(1) e(2) show ?thesis
    by (simp add: phy_connect_direct_def phy_attach_direct_def fin_def Let_def case_prod_unfold)
qed

section \<open>The internal PHY\<close>

lemma scan_masked: "(\<And>i. i \<in> set is \<Longrightarrow> phy_mask AND push_bit i 1 \<noteq> 0) \<Longrightarrow> scan_addrs e h phy_mask is m s = Some (0, m, s)"
  by (induction "is") simp_all

lemma internal_only: "i < 32 \<Longrightarrow> (NOT (push_bit 1 1) AND push_bit i 1 = (0 :: u32)) = (i = 1)"
proof -
  assume i: "i < 32"
  have "bit (NOT (push_bit 1 1) AND push_bit i 1 :: u32) j \<longleftrightarrow> j = i \<and> i \<noteq> 1" if "j < 32" for j
    using i that by (auto simp: bit_simps simp del: push_bit_of_1 push_bit_numeral)
  then show ?thesis using i by (auto simp: bit_eq_iff simp del: push_bit_of_1)
qed

lemma register_internal:
  assumes "me_bus_register e = 0"
  shows "mdiobus_register e h (NOT (push_bit 1 1)) s = do {
    (r, m, s) \<leftarrow> mdiobus_scan e h 1 Map.empty s;
    if r \<noteq> 0 then Some (r, Map.empty, s) else Some (0, m, s)}"
proof -
  have l: "[0..<32] = 0 # 1 # [2..<32 :: nat]" by (simp add: upt_conv_Cons)
  have m: "NOT (push_bit 1 1) AND push_bit i 1 \<noteq> (0 :: u32)" if "i \<in> set [2..<32]" for i using internal_only [of i] that by auto
  show ?thesis
    using assms internal_only [of 0] internal_only [of 1] unfolding mdiobus_register_def l scan_addrs.simps scan_masked [OF m]
    by (auto simp: bind_eq_Some_conv intro!: Option.bind_cong)
qed

text \<open>The identifier from the two registers.\<close>

definition uid_of :: "(u32 \<Rightarrow> u16) \<Rightarrow> u32" where
  "uid_of R = push_bit 16 (ucast (R MII_PHYSID1)) OR ucast (R MII_PHYSID2)"

context mii_bus
begin

lemma get_phy_id_value:
  assumes b: "on_bus prt a idle p s"
    and P: "\<And>d. on_bus prt a idle p (s\<lparr>chip := d\<rparr>) \<Longrightarrow> P (0, uid_of (regs (chip s)), s\<lparr>chip := d\<rparr>)"
  shows "holds (get_phy_id h a s) P"
proof -
  have a: "mdiobus_read h a r t = phy_read h p r t" for r t using b by (simp add: phy_read_def on_bus_def)
  have low: "(ucast (v :: u16) :: u32) AND 0xffff = ucast v" for v
    by (rule bit_word_eqI) (auto simp: bit_simps low_half dest: bit_imp_le_length)
  show ?thesis
    using b P by (auto simp: get_phy_id_def a Let_def low uid_of_def intro!: holds_get)
qed

end

text \<open>What is in the map after the internal PHY was scanned.\<close>

definition identified :: "phy_driver list \<Rightarrow> u32 \<Rightarrow> mdio_slot \<Rightarrow> bool" where
  "identified ds uid sl \<longleftrightarrow> phy_addr (sl_phy sl) = 1 \<and> phy_id (sl_phy sl) = uid \<and> (sl_bound sl \<longleftrightarrow> (\<exists>d \<in> set ds. mdio_bus_match (sl_phy sl) d)) \<and>
     (sl_bound sl \<longrightarrow> phy_drv (sl_phy sl) \<in> set ds \<and> mdio_bus_match (sl_phy sl) (phy_drv (sl_phy sl)) \<and>
       phy_supported (sl_phy sl) = drv_features (phy_drv (sl_phy sl)))"

lemma bind_identified: "\<exists>sl. bind_driver ds (phy_device_create 1 uid) = Some sl \<and> identified ds uid sl"
proof -
  let ?p = "phy_device_create 1 uid"
  have p: "phy_fresh ?p" "phy_addr ?p = 1" "phy_id ?p = uid" by (simp_all add: phy_device_create_def phy_fresh_def)
  show ?thesis
  proof (cases "find (mdio_bus_match ?p) ds")
    case None
    then have "\<not> mdio_bus_match ?p d" if "d \<in> set ds" for d using that by (simp add: find_None_iff)
    with None p show ?thesis by (auto simp: bind_driver_def identified_def)
  next
    case (Some d)
    then have d: "d \<in> set ds" "mdio_bus_match ?p d" by (auto simp: find_Some_iff)
    obtain q where q: "phy_probe d ?p = Some q" "phy_addr q = 1" "phy_id q = uid" "phy_drv q = d" "phy_supported q = drv_features d"
      using probe_fresh [OF p(1), of d] p by auto
    then have "mdio_bus_match q d" using d(2) p(3) by (simp add: mdio_bus_match_def)
    with q d(1) Some show ?thesis by (auto simp: bind_driver_def identified_def)
  qed
qed

lemma find_first_one: "phy_find_first (Map.empty(1 \<mapsto> sl)) = Some sl" "phy_find_first Map.empty = None"
  by (simp_all add: phy_find_first_def upt_conv_Cons)

text \<open>
  C21: The driver finds its internal PHY. On every chip that follows its data sheet, registering the bus with all addresses but 1 masked reads the two
  identifier registers of the PHY at address 1. Unless they say that there is no PHY, the first PHY of the bus is this one, with this
  identifier, and it is bound exactly if a loaded driver matches, to a driver that matches, with the features of that driver.
\<close>

theorem scan_identifies_phy:
  assumes "mii_sheet h prt csr_busy csr_val mac get put 1 mii_wait mii_val mii_regs"
    and "ready s" and "\<not> mac_lock s" and "port s = prt" and "csr_busy (chip s) = 0" and "mii_wait (mac (chip s)) = 0"
    and "me_bus_register e = 0" and "me_alloc e 1" and "me_phy_register e 1 = 0" and "me_fixups e = []"
    and uid: "uid = uid_of (mii_regs (mac (chip s)))"
  shows "\<exists>m t. mdiobus_register e h (NOT (push_bit 1 1)) s = Some (0, m, t) \<and> (case phy_find_first m of
      None \<Rightarrow> uid AND 0x1fffffff = 0x1fffffff
    | Some sl \<Rightarrow> uid AND 0x1fffffff \<noteq> 0x1fffffff \<and> identified (me_drivers e) uid sl)"
proof -
  let ?p = "phy_device_create 1 uid"
  have b: "on_bus prt 1 (\<lambda>d. csr_busy d = 0 \<and> mii_wait (mac d) = 0) ?p s" using assms(2-6) by (simp add: on_bus_def phy_device_create_def)
  obtain d where d: "get_phy_id h 1 s = Some (0, uid, s\<lparr>chip := d\<rparr>)"
    using holdsD [OF mii_bus.get_phy_id_value [OF mii_sheet.bus [OF assms(1)] b, where P = "\<lambda>(r, u, t). r = 0 \<and> u = uid \<and> (\<exists>d. t = s\<lparr>chip := d\<rparr>)"]] uid
    by auto
  obtain sl where sl: "bind_driver (me_drivers e) ?p = Some sl" "identified (me_drivers e) uid sl" using bind_identified by blast
  have a: "phy_addr ?p = 1" by (simp add: phy_device_create_def)
  have "mdiobus_register e h (NOT (push_bit 1 1)) s = Some (0, if uid AND 0x1fffffff = 0x1fffffff then Map.empty else Map.empty(1 \<mapsto> sl), s\<lparr>chip := d\<rparr>)"
    unfolding register_internal [OF assms(7)]
    using assms(8-10) d sl(1) a by (simp add: mdiobus_scan_def get_phy_device_def phy_device_register_def)
  then show ?thesis using sl(2) by (auto simp: find_first_one)
qed

theorem scan_identifies_phy_witness:
  "\<exists>m t sl. mdiobus_register \<lparr>me_bus_register = 0, me_alloc = (\<lambda>_. True), me_phy_register = (\<lambda>_. 0), me_bind = 0,
        me_drivers = [lan83c185_driver, lan8187_driver, lan8700_driver, lan911x_int_driver, lan8710_driver], me_fixups = []\<rparr> mii_hw (NOT (push_bit 1 1))
      (mii_drv (\<lambda>r. if r = 2 then 0x0007 else if r = 3 then 0xc0d1 else 0) example_phy) = Some (0, m, t) \<and>
     phy_find_first m = Some sl \<and> phy_id (sl_phy sl) = 0x0007c0d1 \<and> sl_bound sl \<and> phy_drv (sl_phy sl) = lan911x_int_driver"
proof -
  let ?R = "\<lambda>r :: u32. if r = 2 then 0x0007 else if r = 3 then 0xc0d1 else (0 :: u16)"
  let ?e = "\<lparr>me_bus_register = 0, me_alloc = (\<lambda>_. True), me_phy_register = (\<lambda>_. 0), me_bind = 0,
    me_drivers = [lan83c185_driver, lan8187_driver, lan8700_driver, lan911x_int_driver, lan8710_driver], me_fixups = []\<rparr> :: mii_chip mdio_env"
  have uid: "uid_of ?R = 0x0007c0d1" by (simp add: uid_of_def)
  have m: "mdio_bus_match p d \<longleftrightarrow> d = lan911x_int_driver" if "phy_id p = 0x0007c0d1" for p d
    using that by (cases d) (simp_all add: mdio_bus_match_def drv_phy_id_mask_def)
  note on = mii_drv_on_bus [where p = example_phy and R = ?R, simplified on_bus_def]
  have "\<exists>m t. mdiobus_register ?e mii_hw (NOT (push_bit 1 1)) (mii_drv ?R example_phy) = Some (0, m, t) \<and> (case phy_find_first m of
      None \<Rightarrow> (0x0007c0d1 :: u32) AND 0x1fffffff = 0x1fffffff
    | Some sl \<Rightarrow> (0x0007c0d1 :: u32) AND 0x1fffffff \<noteq> 0x1fffffff \<and> identified (me_drivers ?e) 0x0007c0d1 sl)"
    by (rule scan_identifies_phy [OF chip.mii_sheet_axioms]) (use on uid in simp_all)
  then show ?thesis by (auto simp: identified_def m split: option.splits)
qed

end
