(* ===== verification/Smsc_Probe.thy ===== *)
theory Smsc_Probe
  imports Smsc_Driver Mdio_Bus
begin

text \<open>
  Binding and unbinding the driver of \<open>code/nic-driver/smsc/smsc911x.c\<close>: \<open>smsc911x_drv_probe\<close> with the
  configuration (\<open>smsc911x_probe_config_dt\<close>), the resources, \<open>smsc911x_init\<close> and the MII bus
  (\<open>smsc911x_mii_init\<close>, \<open>smsc911x_mii_probe\<close>), and \<open>smsc911x_drv_remove\<close>. The state has the resources the driver holds;
  releasing one that is not held, or using the driver data when it is not set, is an error.
\<close>

unbundle bit_operations_syntax

section \<open>State and surroundings\<close>

datatype resource = Mem_region | Netdev | Ioremap | Regulators | Regulators_on | Irq_line | Registered
  | Mii_bus | Mii_registered | Phy_attached

record 'd probe_state =
  pdata :: "'d smsc911x_data"
  drvdata :: bool
  held :: "resource set"

record dt_node =
  dt_mac :: "u8 list option"
  dt_shift :: "u32 option"
  dt_width :: "u32 option"
  dt_irq_active_high :: bool
  dt_irq_push_pull :: bool
  dt_force_internal :: bool
  dt_force_external :: bool
  dt_save_mac :: bool

text \<open>What the functions of the kernel return in a probe.\<close>

record 'd platform =
  pl_memory_byname :: bool
  pl_memory :: bool
  pl_irq :: bool
  pl_request_region :: bool
  pl_alloc :: bool
  pl_ioremap :: u32
  pl_regulator_get :: int
  pl_regulator_enable :: int
  pl_node :: "dt_node option"
  pl_config :: "smsc911x_platform_config option"
  pl_request_irq :: int
  pl_register_netdev :: int
  pl_mdio_alloc :: bool
  pl_mdio :: "'d mdio_env"
  pl_random_mac :: "u8 list"

definition acquire :: "resource \<Rightarrow> 'd probe_state \<Rightarrow> 'd probe_state" where
  "acquire r s = s\<lparr>held := insert r (held s)\<rparr>"

definition release :: "resource \<Rightarrow> 'd probe_state \<Rightarrow> 'd probe_state option" where
  "release r s = (if r \<in> held s then Some (s\<lparr>held := held s - {r}\<rparr>) else None)"

text \<open>The private data as \<open>alloc_etherdev\<close> clears it.\<close>

definition zero_config :: smsc911x_platform_config where
  "zero_config = \<lparr>irq_polarity = 0, irq_type = 0, cfg_flags = 0, shift = 0, cfg_mac = replicate 6 0\<rparr>"

definition zero_pdata :: "'d \<Rightarrow> 'd smsc911x_data" where
  "zero_pdata d = \<lparr>chip = d, ioaddr = 0, idrev = 0, generation = 0, config = zero_config,
     mac_lock = False, dev_lock = False, phy_dev = None, using_extphy = 0,
     last_duplex = 0, last_carrier = 0, gpio_setting = 0, gpio_orig_setting = 0, software_irq_signal = 0,
     loopback_tx_pkt = replicate 64 0, loopback_rx_pkt = replicate 64 0, resetcount = 0,
     multicast_update_pending = 0, set_bits_mask = 0, clear_bits_mask = 0, hashhi = 0, hashlo = 0,
     ops = standard_smsc911x_ops, dev_addr = replicate 6 0, promisc = False, allmulti = False, mc_list = [],
     stats = zero_stats, running = False, carrier = True, queue_stopped = False, napi_sched = False\<rparr>"

section \<open>Regulators\<close>

definition smsc911x_enable_resources :: "'d platform \<Rightarrow> 'd probe_state \<Rightarrow> (int \<times> 'd probe_state) option" where
  "smsc911x_enable_resources pl s =
     (if \<not> drvdata s then None
      else let ret = pl_regulator_enable pl
        in Some (ret, if ret = 0 then acquire Regulators_on s else s))"

definition smsc911x_disable_resources :: "'d probe_state \<Rightarrow> 'd probe_state option" where
  "smsc911x_disable_resources s = (if \<not> drvdata s then None else release Regulators_on s)"

definition smsc911x_request_resources :: "'d platform \<Rightarrow> 'd probe_state \<Rightarrow> (int \<times> 'd probe_state) option" where
  "smsc911x_request_resources pl s =
     (if \<not> drvdata s then None
      else let ret = pl_regulator_get pl
        in Some (ret, if ret = 0 then acquire Regulators s else s))"

definition smsc911x_free_resources :: "'d probe_state \<Rightarrow> 'd probe_state option" where
  "smsc911x_free_resources s = (if \<not> drvdata s then None else release Regulators s)"

section \<open>Configuration\<close>

definition smsc911x_probe_config_dt :: "smsc911x_platform_config \<Rightarrow> dt_node option \<Rightarrow> int \<times> smsc911x_platform_config" where
  "smsc911x_probe_config_dt c np = (case np of
     None \<Rightarrow> (- ENODEV, c)
   | Some n \<Rightarrow>
       (let c = (case dt_mac n of None \<Rightarrow> c | Some mac \<Rightarrow> c\<lparr>cfg_mac := take 6 mac\<rparr>);
            c = (case dt_shift n of None \<Rightarrow> c | Some x \<Rightarrow> c\<lparr>shift := x\<rparr>);
            width = (case dt_width n of None \<Rightarrow> 0 | Some x \<Rightarrow> x);
            c = c\<lparr>cfg_flags := cfg_flags c OR (if width = 4 then SMSC911X_USE_32BIT else SMSC911X_USE_16BIT)\<rparr>;
            c = (if dt_irq_active_high n then c\<lparr>irq_polarity := 1\<rparr> else c);
            c = (if dt_irq_push_pull n then c\<lparr>irq_type := 1\<rparr> else c);
            c = (if dt_force_internal n then c\<lparr>cfg_flags := cfg_flags c OR SMSC911X_FORCE_INTERNAL_PHY\<rparr> else c);
            c = (if dt_force_external n then c\<lparr>cfg_flags := cfg_flags c OR SMSC911X_FORCE_EXTERNAL_PHY\<rparr> else c);
            c = (if dt_save_mac n then c\<lparr>cfg_flags := cfg_flags c OR SMSC911X_SAVE_MAC_ADDRESS\<rparr> else c)
        in (0, c)))"

section \<open>The chip\<close>

definition idrev_generation :: "u32 \<Rightarrow> u32 option" where
  "idrev_generation v =
     (let i = v AND 0xFFFF0000 in
      if i \<in> {0x01180000, 0x01170000, 0x01160000, 0x01150000, 0x218A0000} then Some (v AND 0x0000FFFF)
      else if i \<in> {0x118A0000, 0x117A0000, 0x116A0000, 0x115A0000} then Some 3
      else if i \<in> {0x92100000, 0x92110000, 0x92200000, 0x92210000} then Some 4
      else None)"

text \<open>The second and third read of \<open>BYTE_TEST\<close> when the halfwords are swapped.\<close>

definition init_byte_test :: "'d hw \<Rightarrow> 'd smsc911x_data \<Rightarrow> (u32 \<times> 'd smsc911x_data) option" where
  "init_byte_test h s = do {
     (byte_test, s) \<leftarrow> smsc911x_reg_read h BYTE_TEST s;
     if byte_test = 0x43218765 then do {
       s \<leftarrow> smsc911x_reg_write h WORD_SWAP 0xffffffff s;
       (_, s) \<leftarrow> smsc911x_reg_read h BYTE_TEST s;
       smsc911x_reg_read h BYTE_TEST s
     }
     else Some (byte_test, s)
   }"

text \<open>From the identification on; \<open>netif_napi_add\<close> sets the bit \<open>NAPI_STATE_SCHED\<close>.\<close>

definition init_chip :: "'d hw \<Rightarrow> 'd smsc911x_data \<Rightarrow> (int \<times> 'd smsc911x_data) option" where
  "init_chip h s = do {
     let s = s\<lparr>generation := 0\<rparr>;
     (v, s) \<leftarrow> smsc911x_reg_read h ID_REV s;
     let s = s\<lparr>idrev := v\<rparr>;
     case idrev_generation v of
       None \<Rightarrow> Some (- ENODEV, s)
     | Some g \<Rightarrow> do {
         let s = s\<lparr>generation := g\<rparr>;
         s \<leftarrow> (if flag_set SMSC911X_SAVE_MAC_ADDRESS s then do {
             s \<leftarrow> spin_lock_mac s;
             s \<leftarrow> smsc911x_read_mac_address h s;
             Some (spin_unlock_mac s)
           }
           else Some s);
         (r, s) \<leftarrow> smsc911x_soft_reset h s;
         if r \<noteq> 0 then Some (- ENODEV, s)
         else do {
           s \<leftarrow> smsc911x_reg_write h INT_EN 0 s;
           Some (0, s\<lparr>napi_sched := True\<rparr>)
         }
       }
   }"

definition smsc911x_init :: "'d hw \<Rightarrow> 'd smsc911x_data \<Rightarrow> (int \<times> 'd smsc911x_data) option" where
  "smsc911x_init h s = do {
     let s = s\<lparr>dev_lock := False, mac_lock := False\<rparr>;
     if ioaddr s = 0 then Some (- ENODEV, s)
     else do {
       (v, s) \<leftarrow> poll_reg h PMT_CTRL (\<lambda>v. v AND PMT_CTRL_READY = 0) 99 s;
       if v AND PMT_CTRL_READY = 0 then Some (- ENODEV, s)
       else do {
         (byte_test, s) \<leftarrow> init_byte_test h s;
         if byte_test \<noteq> 0x87654321 then Some (- ENODEV, s)
         else init_chip h s
       }
     }
   }"

section \<open>The MII bus\<close>

definition smsc911x_mii_probe :: "'d hw \<Rightarrow> 'd platform \<Rightarrow> phy_map \<Rightarrow> 'd probe_state \<Rightarrow> (int \<times> 'd probe_state) option" where
  "smsc911x_mii_probe h pl m s = (case phy_find_first m of
     None \<Rightarrow> Some (- ENODEV, s)
   | Some sl \<Rightarrow> do {
       (ret, phydev, p) \<leftarrow> phy_connect_direct (pl_mdio pl) h sl (pdata s);
       let s = s\<lparr>pdata := p\<rparr>;
       if ret \<noteq> 0 then Some (ret, s)
       else do {
         let s = acquire Phy_attached s;
         let supported = phy_supported phydev AND (PHY_BASIC_FEATURES OR SUPPORTED_Pause OR SUPPORTED_Asym_Pause);
         let phydev = phydev\<lparr>phy_supported := supported, phy_advertising := supported\<rparr>;
         let p = (pdata s)\<lparr>phy_dev := Some phydev, last_duplex := -1, last_carrier := -1\<rparr>;
         (r, p) \<leftarrow> smsc911x_phy_loopbacktest h p;
         Some (if r < 0 then - ENODEV else 0, s\<lparr>pdata := p\<rparr>)
       }
     })"

definition smsc911x_mii_init :: "'d hw \<Rightarrow> 'd platform \<Rightarrow> 'd probe_state \<Rightarrow> (int \<times> 'd probe_state) option" where
  "smsc911x_mii_init h pl s =
     (if \<not> pl_mdio_alloc pl then Some (- ENOMEM, s)
      else do {
        let s = acquire Mii_bus s;
        p \<leftarrow> (if idrev (pdata s) AND 0xFFFF0000 \<in> {0x01170000, 0x01150000, 0x117A0000, 0x115A0000}
          then smsc911x_phy_initialise_external h (pdata s)
          else Some ((pdata s)\<lparr>using_extphy := 0\<rparr>));
        let phy_mask = (if using_extphy p = 0 then NOT (push_bit 1 1) else 0);
        (r, m, p) \<leftarrow> mdiobus_register (pl_mdio pl) h phy_mask p;
        let s = s\<lparr>pdata := p\<rparr>;
        if r \<noteq> 0 then do {
          s \<leftarrow> release Mii_bus s;
          Some (- ENXIO, s)
        }
        else do {
          let s = acquire Mii_registered s;
          (r, s) \<leftarrow> smsc911x_mii_probe h pl m s;
          if r < 0 then do {
            s \<leftarrow> release Mii_registered s;
            s \<leftarrow> release Mii_bus s;
            Some (- ENXIO, s)
          }
          else Some (0, s)
        }
      })"

section \<open>Probe\<close>

text \<open>The labels at the end of \<open>smsc911x_drv_probe\<close>.\<close>

definition out_release_io_1 :: "int \<Rightarrow> 'd probe_state \<Rightarrow> (int \<times> 'd probe_state) option" where
  "out_release_io_1 retval s = do {
     s \<leftarrow> release Mem_region s;
     Some (retval, s)
   }"

definition out_request_resources_fail :: "int \<Rightarrow> 'd probe_state \<Rightarrow> (int \<times> 'd probe_state) option" where
  "out_request_resources_fail retval s = do {
     let s = s\<lparr>drvdata := False\<rparr>;
     s \<leftarrow> (if ioaddr (pdata s) = 0 then Some s else release Ioremap s);
     s \<leftarrow> release Netdev s;
     out_release_io_1 retval s
   }"

definition out_enable_resources_fail :: "int \<Rightarrow> 'd probe_state \<Rightarrow> (int \<times> 'd probe_state) option" where
  "out_enable_resources_fail retval s = do {
     s \<leftarrow> smsc911x_free_resources s;
     out_request_resources_fail retval s
   }"

definition out_disable_resources :: "int \<Rightarrow> 'd probe_state \<Rightarrow> (int \<times> 'd probe_state) option" where
  "out_disable_resources retval s = do {
     s \<leftarrow> smsc911x_disable_resources s;
     out_enable_resources_fail retval s
   }"

definition out_free_irq :: "int \<Rightarrow> 'd probe_state \<Rightarrow> (int \<times> 'd probe_state) option" where
  "out_free_irq retval s = do {
     s \<leftarrow> release Irq_line s;
     out_disable_resources retval s
   }"

definition out_unregister_netdev_5 :: "int \<Rightarrow> 'd probe_state \<Rightarrow> (int \<times> 'd probe_state) option" where
  "out_unregister_netdev_5 retval s = do {
     s \<leftarrow> release Registered s;
     out_free_irq retval s
   }"

text \<open>The choice of the MAC address at the end.\<close>

definition probe_mac :: "'d hw \<Rightarrow> 'd platform \<Rightarrow> 'd smsc911x_data \<Rightarrow> 'd smsc911x_data option" where
  "probe_mac h pl s = do {
     s \<leftarrow> spin_lock_mac s;
     s \<leftarrow> (if is_valid_ether_addr (dev_addr s) then smsc911x_set_hw_mac_address h (dev_addr s) s
       else if is_valid_ether_addr (cfg_mac (config s)) then Some (s\<lparr>dev_addr := cfg_mac (config s)\<rparr>)
       else do {
         s \<leftarrow> smsc911x_read_mac_address h s;
         if is_valid_ether_addr (dev_addr s) then Some s
         else smsc911x_set_hw_mac_address h (pl_random_mac pl) (s\<lparr>dev_addr := pl_random_mac pl\<rparr>)
       });
     Some (spin_unlock_mac s)
   }"

text \<open>From \<open>request_irq\<close> on.\<close>

definition probe_register :: "'d hw \<Rightarrow> 'd platform \<Rightarrow> 'd probe_state \<Rightarrow> (int \<times> 'd probe_state) option" where
  "probe_register h pl s =
     (if pl_request_irq pl \<noteq> 0 then out_disable_resources (pl_request_irq pl) s
      else let s = acquire Irq_line s in
        if pl_register_netdev pl \<noteq> 0 then out_free_irq (pl_register_netdev pl) s
        else do {
          let s = acquire Registered s;
          (retval, s) \<leftarrow> smsc911x_mii_init h pl s;
          if retval \<noteq> 0 then out_unregister_netdev_5 retval s
          else do {
            p \<leftarrow> probe_mac h pl (pdata s);
            Some (0, s\<lparr>pdata := p\<rparr>)
          }
        })"

text \<open>The interrupt is configured before the handler is connected.\<close>

definition probe_intcfg :: "'d hw \<Rightarrow> 'd smsc911x_data \<Rightarrow> 'd smsc911x_data option" where
  "probe_intcfg h s = do {
     let intcfg = (if irq_polarity (config s) = 1 then INT_CFG_IRQ_POL else 0);
     let intcfg = (if irq_type (config s) = 1 then intcfg OR INT_CFG_IRQ_TYPE else intcfg);
     s \<leftarrow> smsc911x_reg_write h INT_CFG intcfg s;
     s \<leftarrow> smsc911x_reg_write h INT_EN 0 s;
     smsc911x_reg_write h INT_STS 0xFFFFFFFF s
   }"

text \<open>The configuration comes from the device tree, or else from the board.\<close>

definition choose_config :: "'d platform \<Rightarrow> smsc911x_platform_config \<Rightarrow> int \<times> smsc911x_platform_config" where
  "choose_config pl c =
     (let (retval, c) = smsc911x_probe_config_dt c (pl_node pl) in
      if retval \<noteq> 0 then (case pl_config pl of None \<Rightarrow> (retval, c) | Some c' \<Rightarrow> (0, c'))
      else (retval, c))"

text \<open>From the check of the address on.\<close>

definition probe_device :: "'d hw \<Rightarrow> 'd platform \<Rightarrow> 'd probe_state \<Rightarrow> (int \<times> 'd probe_state) option" where
  "probe_device h pl s =
     (if ioaddr (pdata s) = 0 then out_disable_resources (- ENOMEM) s
      else let (retval, c) = choose_config pl (config (pdata s));
               s = s\<lparr>pdata := (pdata s)\<lparr>config := c\<rparr>\<rparr> in
        if retval \<noteq> 0 then out_disable_resources retval s
        else do {
          let p = (pdata s)\<lparr>ops := if shift c \<noteq> 0 then shifted_smsc911x_ops else standard_smsc911x_ops\<rparr>;
          (retval, p) \<leftarrow> smsc911x_init h p;
          if retval < 0 then out_disable_resources (- ENODEV) (s\<lparr>pdata := p\<rparr>)
          else do {
            p \<leftarrow> probe_intcfg h p;
            probe_register h pl (s\<lparr>pdata := p\<rparr>)
          }
        })"

definition probe_alloc :: "'d hw \<Rightarrow> 'd platform \<Rightarrow> 'd probe_state \<Rightarrow> (int \<times> 'd probe_state) option" where
  "probe_alloc h pl s =
     (if \<not> pl_alloc pl then out_release_io_1 (- ENOMEM) s
      else do {
        let s = acquire Netdev s;
        let s = s\<lparr>pdata := (zero_pdata (chip (pdata s)))\<lparr>ioaddr := pl_ioremap pl\<rparr>\<rparr>;
        let s = (if pl_ioremap pl = 0 then s else acquire Ioremap s);
        let s = s\<lparr>drvdata := True\<rparr>;
        (retval, s) \<leftarrow> smsc911x_request_resources pl s;
        if retval \<noteq> 0 then out_request_resources_fail retval s
        else do {
          (retval, s) \<leftarrow> smsc911x_enable_resources pl s;
          if retval \<noteq> 0 then out_enable_resources_fail retval s
          else probe_device h pl s
        }
      })"

definition smsc911x_drv_probe :: "'d hw \<Rightarrow> 'd platform \<Rightarrow> 'd probe_state \<Rightarrow> (int \<times> 'd probe_state) option" where
  "smsc911x_drv_probe h pl s =
     (if \<not> pl_memory_byname pl \<and> \<not> pl_memory pl then Some (- ENODEV, s)
      else if \<not> pl_irq pl then Some (- ENODEV, s)
      else if \<not> pl_request_region pl then Some (- EBUSY, s)
      else probe_alloc h pl (acquire Mem_region s))"

section \<open>Remove\<close>

text \<open>\<open>unregister_netdev\<close> takes the interface down first.\<close>

definition smsc911x_drv_remove :: "'d hw \<Rightarrow> 'd probe_state \<Rightarrow> (int \<times> 'd probe_state) option" where
  "smsc911x_drv_remove h s =
     (if \<not> drvdata s \<or> ioaddr (pdata s) = 0 then None
      else do {
        phydev \<leftarrow> phy_dev (pdata s);
        _ \<leftarrow> phy_disconnect phydev;
        s \<leftarrow> release Phy_attached s;
        let s = s\<lparr>pdata := (pdata s)\<lparr>phy_dev := None\<rparr>\<rparr>;
        s \<leftarrow> release Mii_registered s;
        s \<leftarrow> release Mii_bus s;
        let s = s\<lparr>drvdata := False\<rparr>;
        p \<leftarrow> (if running (pdata s) then dev_close h (pdata s) else Some (pdata s));
        s \<leftarrow> release Registered (s\<lparr>pdata := p\<rparr>);
        s \<leftarrow> release Irq_line s;
        s \<leftarrow> release Mem_region s;
        s \<leftarrow> release Ioremap s;
        s \<leftarrow> smsc911x_disable_resources s;
        s \<leftarrow> smsc911x_free_resources s;
        s \<leftarrow> release Netdev s;
        Some (0, s)
      })"

section \<open>Labels\<close>

text \<open>The driver data is set, and the driver holds \<open>R\<close> and the mapping of the registers if there is one.\<close>

definition stage :: "resource set \<Rightarrow> 'd probe_state \<Rightarrow> bool" where
  "stage R s \<longleftrightarrow> drvdata s \<and> held s = R \<union> (if ioaddr (pdata s) = 0 then {} else {Ioremap})"

lemma stage_pdata: "stage R s \<Longrightarrow> ioaddr p = ioaddr (pdata s) \<Longrightarrow> stage R (s\<lparr>pdata := p\<rparr>)"
  by (simp add: stage_def)

lemma stage_acquire: "stage R s \<Longrightarrow> stage (insert r R) (acquire r s)"
  by (auto simp: stage_def acquire_def)

lemma holds_release:
  "stage (insert r R) s \<Longrightarrow> r \<notin> insert Ioremap R \<Longrightarrow> (\<And>t. stage R t \<Longrightarrow> pdata t = pdata s \<Longrightarrow> P t) \<Longrightarrow> holds (release r s) P"
  by (auto simp: stage_def release_def)

definition cleaned :: "resource set \<Rightarrow> int \<Rightarrow> int \<times> 'd probe_state \<Rightarrow> bool" where
  "cleaned X r x \<longleftrightarrow> fst x = r \<and> held (snd x) = X \<and> \<not> drvdata (snd x)"

lemma request_fail_cleans:
  assumes "stage (insert Netdev (insert Mem_region X)) s" and "X \<subseteq> {Phy_attached}"
  shows "holds (out_request_resources_fail r s) (cleaned X r)"
proof -
  have "Mem_region \<notin> X" "Netdev \<notin> X" "Ioremap \<notin> X" using assms(2) by auto
  with assms(1) show ?thesis
    by (auto simp: out_request_resources_fail_def out_release_io_1_def release_def stage_def cleaned_def Let_def)
qed

lemma enable_fail_cleans:
  assumes s: "stage (insert Regulators (insert Netdev (insert Mem_region X))) s" and x: "X \<subseteq> {Phy_attached}"
  shows "holds (out_enable_resources_fail r s) (cleaned X r)"
  using s x
  by (auto simp: out_enable_resources_fail_def smsc911x_free_resources_def stage_def [of _ s] intro!: holds_release [OF s] request_fail_cleans)

abbreviation powered :: "resource set \<Rightarrow> resource set" where
  "powered X \<equiv> insert Regulators_on (insert Regulators (insert Netdev (insert Mem_region X)))"

lemma disable_cleans:
  assumes s: "stage (powered X) s" and x: "X \<subseteq> {Phy_attached}"
  shows "holds (out_disable_resources r s) (cleaned X r)"
  using s x
  by (auto simp: out_disable_resources_def smsc911x_disable_resources_def stage_def [of _ s] intro!: holds_release [OF s] enable_fail_cleans)

lemma free_irq_cleans:
  assumes s: "stage (insert Irq_line (powered X)) s" and x: "X \<subseteq> {Phy_attached}"
  shows "holds (out_free_irq r s) (cleaned X r)"
  using x by (auto simp: out_free_irq_def intro!: holds_release [OF s] disable_cleans)

lemma unregister_cleans:
  assumes s: "stage (insert Registered (insert Irq_line (powered X))) s" and x: "X \<subseteq> {Phy_attached}"
  shows "holds (out_unregister_netdev_5 r s) (cleaned X r)"
  using x by (auto simp: out_unregister_netdev_5_def intro!: holds_release [OF s] free_irq_cleans)

section \<open>Parts of a probe\<close>

text \<open>What the initialisation of the chip leaves as it is.\<close>

definition same_dev :: "'d smsc911x_data \<Rightarrow> 'd smsc911x_data \<Rightarrow> bool" where
  "same_dev s t \<longleftrightarrow> port t = port s \<and> dev_lock t = dev_lock s \<and> mac_lock t = mac_lock s \<and> running t = running s \<and>
     loopback_rx_pkt t = loopback_rx_pkt s \<and> (length (dev_addr s) = 6 \<longrightarrow> length (dev_addr t) = 6)"

lemma same_dev_ready: "same_dev s t \<Longrightarrow> ready s \<Longrightarrow> ready t" "same_dev s t \<Longrightarrow> \<not> mac_lock s \<Longrightarrow> \<not> mac_lock t"
  by (simp_all add: same_dev_def ready_def)

lemma holds_init_byte_test [drv_rules]:
  "ready s \<Longrightarrow> (\<And>v d. P (v, s\<lparr>chip := d\<rparr>)) \<Longrightarrow> holds (init_byte_test h s) P"
  by (auto simp: init_byte_test_def intro!: drv_rules)

lemma holds_init_chip [drv_rules]:
  assumes "ready s" and "\<not> mac_lock s" and P: "\<And>r t. same_dev s t \<Longrightarrow> r \<le> 0 \<Longrightarrow> (r = 0 \<longrightarrow> napi_sched t) \<Longrightarrow> P (r, t)"
  shows "holds (init_chip h s) P"
  using assms(1,2)
  by (auto simp: init_chip_def spin_unlock_mac_def mac_unlock_id Let_def same_dev_def split: option.split intro!: drv_rules P)

lemma holds_init:
  assumes "ready s" and "\<not> mac_lock s" and P: "\<And>r t. same_dev s t \<Longrightarrow> r \<le> 0 \<Longrightarrow> (r = 0 \<longrightarrow> napi_sched t \<and> ioaddr s \<noteq> 0) \<Longrightarrow> P (r, t)"
  shows "holds (smsc911x_init h s) P"
proof -
  have "s\<lparr>dev_lock := False, mac_lock := False\<rparr> = s" using assms(1,2) by (simp add: ready_def)
  then show ?thesis using assms(1,2)
    by (auto simp: smsc911x_init_def Let_def intro!: drv_rules P) (auto simp: same_dev_def)
qed

lemma holds_intcfg [drv_rules]: "ready s \<Longrightarrow> (\<And>d. P (s\<lparr>chip := d\<rparr>)) \<Longrightarrow> holds (probe_intcfg h s) P"
  by (auto simp: probe_intcfg_def Let_def intro!: drv_rules)

lemma holds_probe_mac:
  assumes "ready s" and "\<not> mac_lock s" and "length (dev_addr s) = 6" and "length (cfg_mac (config s)) = 6" and "length (pl_random_mac pl) = 6"
    and P: "\<And>d a. length a = 6 \<Longrightarrow> P (s\<lparr>chip := d, dev_addr := a\<rparr>)"
  shows "holds (probe_mac h pl s) P"
proof -
  have p: "P (s\<lparr>chip := d\<rparr>)" "P (s\<lparr>dev_addr := a\<rparr>)" if "length a = 6" for d a
    using P [OF assms(3)] P [OF that, of "chip s"] by simp_all
  have u: "\<And>t. \<not> mac_lock t \<Longrightarrow> t\<lparr>mac_lock := False\<rparr> = t" by simp
  show ?thesis
    using assms(1-5) p [OF assms(3)] p [OF assms(4)] P
    by (auto simp: probe_mac_def spin_unlock_mac_def mac_unlock_id u intro!: drv_rules)
qed

text \<open>The MII bus: on an error the bus is gone, and the PHY is attached when only the loopback test failed.\<close>

definition mii_failed :: "int \<Rightarrow> resource set \<Rightarrow> bool" where
  "mii_failed r X \<longleftrightarrow> X = {} \<and> r \<in> {- ENOMEM, - ENXIO} \<or> X = {Phy_attached} \<and> r = - ENXIO"

text \<open>What the MII bus changes in the private data.\<close>

definition attached :: "'d smsc911x_data \<Rightarrow> 'd smsc911x_data \<Rightarrow> bool" where
  "attached s t \<longleftrightarrow> port t = port s \<and> dev_lock t = dev_lock s \<and> mac_lock t = mac_lock s \<and> running t = running s \<and>
     dev_addr t = dev_addr s \<and> napi_sched t = napi_sched s"

text \<open>The PHY the device got.\<close>

definition got_phy :: "'d smsc911x_data \<Rightarrow> bool" where
  "got_phy s \<longleftrightarrow> (\<exists>q. phy_dev s = Some q \<and> phy_fresh q \<and> phy_st q = PHY_READY \<and>
     phy_supported q AND NOT (PHY_BASIC_FEATURES OR SUPPORTED_Pause OR SUPPORTED_Asym_Pause) = 0 \<and> phy_advertising q = phy_supported q)"

definition mdio_ok :: "'d mdio_env \<Rightarrow> bool" where
  "mdio_ok e \<longleftrightarrow> fixups_ok (me_fixups e) \<and> me_bind e \<le> 0"

lemma holds_mii_probe:
  fixes s :: "'d probe_state"
  assumes s: "stage R s" and p: "ready (pdata s)" "\<not> mac_lock (pdata s)" "rx_bounded h (port (pdata s))" "length (loopback_rx_pkt (pdata s)) = 64"
    and c: "mdio_ok (pl_mdio pl)" and m: "map_fresh m"
    and P: "\<And>r t. r < 0 \<Longrightarrow> stage R t \<Longrightarrow> attached (pdata s) (pdata t) \<Longrightarrow> P (r, t)"
      "\<And>r t. r \<le> 0 \<Longrightarrow> stage (insert Phy_attached R) t \<Longrightarrow> attached (pdata s) (pdata t) \<Longrightarrow> got_phy (pdata t) \<Longrightarrow> P (r, t)"
  shows "holds (smsc911x_mii_probe h pl m s) P"
proof (cases "phy_find_first m")
  case None
  then show ?thesis using s P(1) [of "- ENODEV" s] by (simp add: smsc911x_mii_probe_def attached_def)
next
  case (Some sl)
  let ?f = "PHY_BASIC_FEATURES OR SUPPORTED_Pause OR SUPPORTED_Asym_Pause"
  define q where "q = (\<lambda>phy :: phy_device. phy\<lparr>phy_supported := phy_supported phy AND ?f, phy_advertising := phy_supported phy AND ?f\<rparr>)"
  define fin where "fin = (\<lambda>(ret :: int, phy, p :: 'd smsc911x_data). if ret \<noteq> 0 then Some (ret, s\<lparr>pdata := p\<rparr>) else do {
    (r, p) \<leftarrow> smsc911x_phy_loopbacktest h (p\<lparr>phy_dev := Some (q phy), last_duplex := -1, last_carrier := -1\<rparr>);
    Some (if r < 0 then - ENODEV else 0, (acquire Phy_attached s)\<lparr>pdata := p\<rparr>)})"
  have fin: "holds (fin (r, phy, (pdata s)\<lparr>chip := d\<rparr>)) P" if r: "r \<le> 0" "phy_fresh phy" "r = 0 \<longrightarrow> phy_st phy = PHY_READY" for r phy d
  proof (cases "r = 0")
    case False
    then show ?thesis using r(1) s P(1) [of r "s\<lparr>pdata := (pdata s)\<lparr>chip := d\<rparr>\<rparr>"] by (simp add: fin_def attached_def stage_pdata)
  next
    case True
    let ?p = "(pdata s)\<lparr>chip := d, phy_dev := Some (q phy), last_duplex := -1, last_carrier := -1\<rparr>"
    have "P (if r < 0 then - ENODEV else 0, (acquire Phy_attached s)\<lparr>pdata := t\<rparr>)" if k: "kept ?p t" for r :: int and t
    proof (rule P(2))
      show "stage (insert Phy_attached R) ((acquire Phy_attached s)\<lparr>pdata := t\<rparr>)"
        using k by (intro stage_pdata [OF stage_acquire [OF s]]) (simp add: acquire_def kept_def)
      show "got_phy (pdata ((acquire Phy_attached s)\<lparr>pdata := t\<rparr>))"
        using k r True by (auto simp: kept_def got_phy_def q_def phy_fresh_def and.assoc)
    qed (use k in \<open>simp_all add: attached_def kept_def\<close>)
    then have "holds (smsc911x_phy_loopbacktest h ?p) (\<lambda>(r, t). P (if r < 0 then - ENODEV else 0, (acquire Phy_attached s)\<lparr>pdata := t\<rparr>))"
      using p by (intro holds_loopbacktest) (auto simp: ready_def)
    with True show ?thesis by (simp add: fin_def)
  qed
  have "holds (phy_connect_direct (pl_mdio pl) h sl (pdata s)) (\<lambda>x. holds (fin x) P)"
    using p c find_first_fresh [OF m Some] by (intro holds_connect_direct fin) (auto simp: mdio_ok_def)
  moreover have "smsc911x_mii_probe h pl m s = Option.bind (phy_connect_direct (pl_mdio pl) h sl (pdata s)) fin"
    using Some unfolding smsc911x_mii_probe_def fin_def q_def acquire_def Let_def by (simp cong: if_cong)
  ultimately show ?thesis by simp
qed

lemma holds_release_from:
  "stage R s \<Longrightarrow> r \<in> R \<Longrightarrow> r \<noteq> Ioremap \<Longrightarrow> (\<And>t. stage (R - {r}) t \<Longrightarrow> pdata t = pdata s \<Longrightarrow> P t) \<Longrightarrow> holds (release r s) P"
  by (auto simp: stage_def release_def insert_Diff_if)

lemma holds_mii_init:
  fixes s :: "'d probe_state"
  assumes s: "stage R s" and R: "R \<inter> {Mii_bus, Mii_registered, Phy_attached} = {}"
    and p: "ready (pdata s)" "\<not> mac_lock (pdata s)" "rx_bounded h (port (pdata s))" "length (loopback_rx_pkt (pdata s)) = 64"
    and c: "mdio_ok (pl_mdio pl)"
    and P: "\<And>r X t. r \<noteq> 0 \<Longrightarrow> mii_failed r X \<Longrightarrow> stage (R \<union> X) t \<Longrightarrow> P (r, t)"
      "\<And>t. stage (insert Phy_attached (insert Mii_registered (insert Mii_bus R))) t \<Longrightarrow> attached (pdata s) (pdata t) \<Longrightarrow>
        got_phy (pdata t) \<Longrightarrow> P (0, t)"
  shows "holds (smsc911x_mii_init h pl s) P"
proof -
  define fin where "fin = (\<lambda>(r, s :: 'd probe_state). if r < (0 :: int) then do {s \<leftarrow> release Mii_registered s; s \<leftarrow> release Mii_bus s; Some (- ENXIO, s)} else Some (0, s))"
  define reg where "reg = (\<lambda>(r :: int, m, p). let s = (acquire Mii_bus s)\<lparr>pdata := p\<rparr> in
    if r \<noteq> 0 then do {s \<leftarrow> release Mii_bus s; Some (- ENXIO, s)}
    else do {x \<leftarrow> smsc911x_mii_probe h pl m (acquire Mii_registered s); fin x})"
  define rest where "rest = (\<lambda>p. do {x \<leftarrow> mdiobus_register (pl_mdio pl) h (if using_extphy p = 0 then NOT (push_bit 1 1) else 0) p; reg x})"
  have fail: "holds (fin (r, t)) P" if "stage (X \<union> insert Mii_registered (insert Mii_bus R)) t" "r < 0" "mii_failed (- ENXIO) X" for r X t
  proof -
    have X: "X = {} \<or> X = {Phy_attached}" using that(3) by (auto simp: mii_failed_def)
    then have e: "insert Mii_bus (X \<union> R) - {Mii_registered} - {Mii_bus} = R \<union> X" using R by auto
    have "holds (release Mii_registered t) (\<lambda>u. holds (release Mii_bus u) (\<lambda>v. P (- ENXIO, v)))"
      using that(1) by (rule holds_release_from) (auto intro!: holds_release_from P(1) [OF _ that(3)] simp: e)
    with that(2) show ?thesis by (simp add: fin_def)
  qed
  have reg: "holds (reg (r, m, q)) P"
    if q: "ready q" "attached (pdata s) q" "rx_bounded h (port q)" "loopback_rx_pkt q = loopback_rx_pkt (pdata s)" and m: "map_fresh m" for r m q
  proof -
    let ?t = "(acquire Mii_bus s)\<lparr>pdata := q\<rparr>"
    have t: "stage (insert Mii_bus R) ?t"
      using stage_acquire [OF s] q(2) by (intro stage_pdata) (simp_all add: attached_def acquire_def)
    have "holds (release Mii_bus ?t) (\<lambda>t. P (- ENXIO, t))"
      using t by (rule holds_release_from) (use R in \<open>auto intro!: P(1) [of _ "{}"] simp: mii_failed_def\<close>)
    moreover have "holds (smsc911x_mii_probe h pl m (acquire Mii_registered ?t)) (\<lambda>x. holds (fin x) P)"
    proof (rule holds_mii_probe [OF stage_acquire [OF t]])
      fix r :: int and t :: "'d probe_state" assume "r < 0" "stage (insert Mii_registered (insert Mii_bus R)) t"
      then show "holds (fin (r, t)) P" using fail [of "{}" t r] by (simp add: mii_failed_def)
    next
      fix r :: int and t :: "'d probe_state" assume r: "r \<le> 0" "stage (insert Phy_attached (insert Mii_registered (insert Mii_bus R))) t"
        "attached (pdata (acquire Mii_registered ?t)) (pdata t)" "got_phy (pdata t)"
      then have "attached (pdata s) (pdata t)" using q(2) by (simp add: attached_def acquire_def)
      with r show "holds (fin (r, t)) P" using fail [of "{Phy_attached}" t r] P(2) [of t]
        by (cases "r = 0") (simp_all add: fin_def mii_failed_def insert_commute)
    qed (use q p c m in \<open>simp_all add: acquire_def attached_def\<close>)
    ultimately show ?thesis by (simp add: reg_def Let_def)
  qed
  have rest: "holds (rest q) P" if q: "ready q" "attached (pdata s) q" "rx_bounded h (port q)" "loopback_rx_pkt q = loopback_rx_pkt (pdata s)" for q
    using q p(2) c by (auto simp: rest_def mdio_ok_def attached_def intro!: holds_mdiobus_register reg)
  have ext: "holds (smsc911x_phy_initialise_external h (pdata s)) (\<lambda>q. holds (rest q) P)"
    using p by (intro holds_phy_initialise_external rest) (simp_all add: attached_def ready_def)
  have int: "holds (rest ((pdata s)\<lparr>using_extphy := 0\<rparr>)) P"
    using p by (intro rest) (simp_all add: attached_def ready_def)
  have "stage R s \<Longrightarrow> P (- ENOMEM, s)" using P(1) [of "- ENOMEM" "{}" s] by (simp add: mii_failed_def)
  moreover have "smsc911x_mii_init h pl s = (if \<not> pl_mdio_alloc pl then Some (- ENOMEM, s)
    else Option.bind (if idrev (pdata s) AND 0xFFFF0000 \<in> {0x01170000, 0x01150000, 0x117A0000, 0x115A0000}
      then smsc911x_phy_initialise_external h (pdata s) else Some ((pdata s)\<lparr>using_extphy := 0\<rparr>)) rest)"
    unfolding smsc911x_mii_init_def rest_def reg_def fin_def Let_def by (simp add: acquire_def case_prod_unfold)
  ultimately show ?thesis using s ext int by simp
qed

section \<open>Probe and remove\<close>

text \<open>
  What the driver relies on: a configuration for a bus of 16 or 32 bits, addresses of six bytes, and errors of the kernel that are
  negative. In the probe no frame of more than 88 bytes is received.
\<close>

definition config_ok :: "smsc911x_platform_config \<Rightarrow> bool" where
  "config_ok c \<longleftrightarrow> width_ok c \<and> length (cfg_mac c) = 6"

definition probe_config :: "'d platform \<Rightarrow> smsc911x_platform_config option" where
  "probe_config pl = (case pl_node pl of
     None \<Rightarrow> pl_config pl
   | Some n \<Rightarrow> Some (snd (smsc911x_probe_config_dt zero_config (Some n))))"

definition platform_ok :: "'d hw \<Rightarrow> 'd platform \<Rightarrow> bool" where
  "platform_ok h pl \<longleftrightarrow> (\<forall>c. pl_config pl = Some c \<longrightarrow> config_ok c) \<and>
     (\<forall>n mac. pl_node pl = Some n \<longrightarrow> dt_mac n = Some mac \<longrightarrow> length mac = 6) \<and> length (pl_random_mac pl) = 6 \<and>
     mdio_ok (pl_mdio pl) \<and>
     (\<forall>c. probe_config pl = Some c \<longrightarrow>
        rx_bounded h (pl_ioremap pl, c, if shift c \<noteq> 0 then shifted_smsc911x_ops else standard_smsc911x_ops))"

lemma config_dt_ok:
  assumes "\<And>mac. dt_mac n = Some mac \<Longrightarrow> length mac = 6"
  shows "config_ok (snd (smsc911x_probe_config_dt zero_config (Some n)))"
proof -
  have "width_ok (snd (smsc911x_probe_config_dt zero_config (Some n)))"
    by (auto simp: smsc911x_probe_config_dt_def zero_config_def Let_def split: option.splits)
  moreover have "length (cfg_mac (snd (smsc911x_probe_config_dt zero_config (Some n)))) = 6"
    using assms by (auto simp: smsc911x_probe_config_dt_def zero_config_def Let_def split: option.splits)
  ultimately show ?thesis by (simp add: config_ok_def)
qed

text \<open>The outcome of a probe.\<close>

definition probed :: "'d platform \<Rightarrow> int \<times> 'd probe_state \<Rightarrow> bool" where
  "probed pl x \<longleftrightarrow> (case x of (r, t) \<Rightarrow>
     if r = 0 then held t = UNIV \<and> drvdata t \<and> drv_wf (pdata t) \<and> got_phy (pdata t) \<and> \<not> running (pdata t) \<and>
       ioaddr (pdata t) = pl_ioremap pl
     else \<not> drvdata t \<and> (held t = {} \<or> mii_failed r (held t)))"

lemma probed_cleaned: "r \<noteq> 0 \<Longrightarrow> X = {} \<or> mii_failed r X \<Longrightarrow> cleaned X r x \<Longrightarrow> probed pl x"
  by (auto simp: cleaned_def probed_def case_prod_unfold)

lemma UNIV_resource: "UNIV = {Mem_region, Netdev, Ioremap, Regulators, Regulators_on, Irq_line, Registered, Mii_bus, Mii_registered, Phy_attached}"
proof -
  have "x \<in> {Mem_region, Netdev, Ioremap, Regulators, Regulators_on, Irq_line, Registered, Mii_bus, Mii_registered, Phy_attached}" for x
    by (cases x) simp_all
  then show ?thesis by blast
qed

lemma all_resources:
  "stage (insert Phy_attached (insert Mii_registered (insert Mii_bus (insert Registered (insert Irq_line (powered {})))))) t \<Longrightarrow>
   ioaddr (pdata t) \<noteq> 0 \<Longrightarrow> held t = UNIV"
  unfolding stage_def UNIV_resource by (simp add: insert_commute)

lemma holds_probe_register:
  assumes s: "stage (powered {}) s" and pl: "platform_ok h pl"
    and p: "ready (pdata s)" "\<not> mac_lock (pdata s)" "rx_bounded h (port (pdata s))" "length (loopback_rx_pkt (pdata s)) = 64"
      "length (dev_addr (pdata s)) = 6" "length (cfg_mac (config (pdata s))) = 6" "napi_sched (pdata s)" "\<not> running (pdata s)"
      "ioaddr (pdata s) = pl_ioremap pl" "pl_ioremap pl \<noteq> 0"
  shows "holds (probe_register h pl s) (probed pl)"
proof -
  let ?R = "insert Registered (insert Irq_line (powered {}))"
  define fin where "fin = (\<lambda>(r, s). if r \<noteq> 0 then out_unregister_netdev_5 r s
    else do {p \<leftarrow> probe_mac h pl (pdata s); Some (0, s\<lparr>pdata := p\<rparr>)})"
  have i: "stage (insert Irq_line (powered {})) (acquire Irq_line s)" using stage_acquire [OF s] .
  have fail: "holds (fin (r, t)) (probed pl)" if "r \<noteq> 0" "mii_failed r X" "stage (?R \<union> X) t" for r X t
  proof -
    have X: "X \<subseteq> {Phy_attached}" using that(2) by (auto simp: mii_failed_def)
    have "stage (insert Registered (insert Irq_line (powered X))) t" using that(3) by simp
    from unregister_cleans [OF this X, of r] show ?thesis
      using that(1,2) by (auto simp: fin_def elim!: holds_mono intro: probed_cleaned)
  qed
  have ok: "holds (fin (0, t)) (probed pl)"
    if t: "stage (insert Phy_attached (insert Mii_registered (insert Mii_bus ?R))) t" "attached (pdata s) (pdata t)" "got_phy (pdata t)" for t
  proof -
    have "held t = UNIV" using all_resources [OF t(1)] t(2) p(9,10) by (simp add: attached_def)
    moreover have "drvdata t" using t(1) by (simp add: stage_def)
    moreover have "holds (probe_mac h pl (pdata t)) (\<lambda>q. drv_wf q \<and> got_phy q \<and> \<not> running q \<and> ioaddr q = pl_ioremap pl)"
      using p t(2,3) pl
      by (intro holds_probe_mac)
        (auto simp: attached_def ready_def platform_ok_def drv_wf_def phy_wf_def got_phy_def phy_fresh_def link_tracked_def)
    ultimately show ?thesis by (auto simp: fin_def probed_def elim!: holds_mono)
  qed
  have "holds (smsc911x_mii_init h pl (acquire Registered (acquire Irq_line s))) (\<lambda>x. holds (fin x) (probed pl))"
    by (rule holds_mii_init [OF stage_acquire [OF i]])
      (use p pl in \<open>auto simp: acquire_def platform_ok_def intro: fail ok\<close>)
  moreover have "holds (out_disable_resources r s) (probed pl)" if "r \<noteq> 0" for r
    using disable_cleans [OF s, of r] that by (auto elim!: holds_mono intro: probed_cleaned)
  moreover have "holds (out_free_irq r (acquire Irq_line s)) (probed pl)" if "r \<noteq> 0" for r
    using free_irq_cleans [OF i, of r] that by (auto elim!: holds_mono intro: probed_cleaned)
  ultimately show ?thesis by (simp add: probe_register_def fin_def Let_def)
qed

lemma choose_config_cases:
  assumes "platform_ok h pl"
  obtains "choose_config pl zero_config = (- ENODEV, zero_config)"
  | c where "choose_config pl zero_config = (0, c)" "config_ok c"
      "rx_bounded h (pl_ioremap pl, c, if shift c \<noteq> 0 then shifted_smsc911x_ops else standard_smsc911x_ops)"
proof (cases "pl_node pl")
  case None
  then have "choose_config pl zero_config = (case pl_config pl of None \<Rightarrow> (- ENODEV, zero_config) | Some c \<Rightarrow> (0, c))"
    by (simp add: choose_config_def smsc911x_probe_config_dt_def)
  with None assms that show ?thesis
    by (cases "pl_config pl") (auto simp: platform_ok_def probe_config_def)
next
  case (Some n)
  let ?c = "snd (smsc911x_probe_config_dt zero_config (Some n))"
  have "fst (smsc911x_probe_config_dt zero_config (Some n)) = 0" by (simp add: smsc911x_probe_config_dt_def Let_def)
  with Some have "choose_config pl zero_config = (0, ?c)" by (simp add: choose_config_def case_prod_unfold Let_def)
  moreover have "config_ok ?c" using assms Some by (intro config_dt_ok) (simp add: platform_ok_def)
  ultimately show ?thesis using assms Some that by (simp add: platform_ok_def probe_config_def)
qed

lemma holds_probe_device:
  assumes s: "stage (powered {}) s" and p: "pdata s = (zero_pdata d)\<lparr>ioaddr := pl_ioremap pl\<rparr>" and pl: "platform_ok h pl"
  shows "holds (probe_device h pl s) (probed pl)"
proof -
  have fail: "holds (out_disable_resources r t) (probed pl)" if "r \<noteq> 0" "stage (powered {}) t" for r t
    using disable_cleans [OF that(2), of r] that(1) by (auto elim!: holds_mono intro: probed_cleaned)
  let ?q = "\<lambda>c. (pdata s)\<lparr>config := c, ops := if shift c \<noteq> 0 then shifted_smsc911x_ops else standard_smsc911x_ops\<rparr>"
  have c0: "config (pdata s) = zero_config" using p by (simp add: zero_pdata_def)
  have eq: "probe_device h pl s = (if ioaddr (pdata s) = 0 then out_disable_resources (- ENOMEM) s
    else case choose_config pl zero_config of (r, c) \<Rightarrow> if r \<noteq> 0 then out_disable_resources r (s\<lparr>pdata := (pdata s)\<lparr>config := c\<rparr>\<rparr>)
      else do {(r, q) \<leftarrow> smsc911x_init h (?q c);
        if r < 0 then out_disable_resources (- ENODEV) (s\<lparr>pdata := q\<rparr>)
        else do {q \<leftarrow> probe_intcfg h q; probe_register h pl (s\<lparr>pdata := q\<rparr>)}})"
    unfolding probe_device_def c0 by (cases "choose_config pl zero_config") (simp add: Let_def case_prod_unfold cong: if_cong)
  have init: "holds (smsc911x_init h (?q c)) (\<lambda>(r, q). (r < 0 \<longrightarrow> holds (out_disable_resources (- ENODEV) (s\<lparr>pdata := q\<rparr>)) (probed pl)) \<and>
      (\<not> r < 0 \<longrightarrow> holds (probe_intcfg h q) (\<lambda>q. holds (probe_register h pl (s\<lparr>pdata := q\<rparr>)) (probed pl))))"
    if c: "config_ok c" "rx_bounded h (pl_ioremap pl, c, if shift c \<noteq> 0 then shifted_smsc911x_ops else standard_smsc911x_ops)"
      "pl_ioremap pl \<noteq> 0" for c
  proof (rule holds_init)
    show r: "ready (?q c)" and m: "\<not> mac_lock (?q c)" using c p by (simp_all add: ready_def config_ok_def zero_pdata_def)
    fix r :: int and t assume t: "same_dev (?q c) t" "r \<le> 0" "r = 0 \<longrightarrow> napi_sched t \<and> ioaddr (?q c) \<noteq> 0"
    have st: "stage (powered {}) (s\<lparr>pdata := t\<lparr>chip := e\<rparr>\<rparr>)" for e using t(1) by (intro stage_pdata [OF s]) (simp add: same_dev_def)
    have "holds (probe_intcfg h t) (\<lambda>q. holds (probe_register h pl (s\<lparr>pdata := q\<rparr>)) (probed pl))" if "r = 0"
      using same_dev_ready [OF t(1)] r m t c p that
      by (intro holds_intcfg holds_probe_register [OF st pl]) (auto simp: same_dev_def zero_pdata_def config_ok_def)
    with fail [of "- ENODEV"] st [of "chip t"] t(2) show "case (r, t) of (r, q) \<Rightarrow> (r < 0 \<longrightarrow> holds (out_disable_resources (- ENODEV) (s\<lparr>pdata := q\<rparr>)) (probed pl)) \<and>
      (\<not> r < 0 \<longrightarrow> holds (probe_intcfg h q) (\<lambda>q. holds (probe_register h pl (s\<lparr>pdata := q\<rparr>)) (probed pl)))" by (cases "r = 0") simp_all
  qed
  have io: "ioaddr (pdata s) = pl_ioremap pl" using p by simp
  show ?thesis
  proof (cases rule: choose_config_cases [OF pl])
    case 1
    with fail s show ?thesis unfolding eq by (auto intro!: fail stage_pdata)
  next
    case (2 c)
    with fail [OF _ s, of "- ENOMEM"] init [OF 2(2,3)] io show ?thesis unfolding eq by (auto elim!: holds_mono)
  qed
qed

lemma acquire_fields: "pdata (acquire r s) = pdata s" "drvdata (acquire r s) = drvdata s"
  by (simp_all add: acquire_def)

lemma holds_probe_alloc:
  assumes "held s = {Mem_region}" and "\<not> drvdata s" and "platform_ok h pl"
  shows "holds (probe_alloc h pl s) (probed pl)"
proof -
  let ?p = "(zero_pdata (chip (pdata s)))\<lparr>ioaddr := pl_ioremap pl\<rparr>"
  let ?t = "s\<lparr>pdata := ?p, drvdata := True, held := {Netdev, Mem_region} \<union> (if pl_ioremap pl = 0 then {} else {Ioremap})\<rparr>"
  have t: "stage {Netdev, Mem_region} ?t" by (simp add: stage_def)
  note t1 = stage_acquire [OF t, of Regulators] stage_acquire [OF stage_acquire [OF t], of Regulators_on Regulators]
  have fail: "holds (out_request_resources_fail r ?t) (probed pl)" "holds (out_enable_resources_fail r (acquire Regulators ?t)) (probed pl)"
    if "r \<noteq> 0" for r
    using request_fail_cleans [of "{}" ?t r] enable_fail_cleans [of "{}" "acquire Regulators ?t" r] t t1(1) that
    by (auto elim!: holds_mono intro: probed_cleaned)
  have dev: "holds (probe_device h pl (acquire Regulators_on (acquire Regulators ?t))) (probed pl)"
    using t1(2) assms(3) by (intro holds_probe_device) (simp_all add: acquire_def)
  have e: "(if pl_ioremap pl = 0 then (acquire Netdev s)\<lparr>pdata := ?p\<rparr> else acquire Ioremap ((acquire Netdev s)\<lparr>pdata := ?p\<rparr>))\<lparr>drvdata := True\<rparr> = ?t"
    using assms(1) by (cases "pl_ioremap pl = 0") (simp_all add: acquire_def insert_commute)
  have "probe_alloc h pl s = (if \<not> pl_alloc pl then out_release_io_1 (- ENOMEM) s
    else if pl_regulator_get pl \<noteq> 0 then out_request_resources_fail (pl_regulator_get pl) ?t
    else if pl_regulator_enable pl \<noteq> 0 then out_enable_resources_fail (pl_regulator_enable pl) (acquire Regulators ?t)
    else probe_device h pl (acquire Regulators_on (acquire Regulators ?t)))"
    unfolding probe_alloc_def Let_def acquire_fields e
    by (simp add: smsc911x_request_resources_def smsc911x_enable_resources_def acquire_fields Let_def)
  moreover have "holds (out_release_io_1 (- ENOMEM) s) (probed pl)"
    using assms(1,2) by (simp add: out_release_io_1_def release_def probed_def)
  ultimately show ?thesis using fail dev by simp
qed

text \<open>
  C6: The outcome of binding the driver to a device. If the probe returns 0, the driver holds all its resources, and its state is
  well formed: from then on every call of the kernel is safe. Its PHY is ready, and supports and advertises nothing the MAC cannot do. If it returns an error, everything it had acquired
  has been released, with one exception: when the loopback test fails, the PHY stays attached to a network device that is freed. Unbinding
  fails: \<open>smsc911x_drv_remove\<close> clears the driver data and then uses it to find the regulators.
\<close>

theorem probe_outcome:
  assumes "platform_ok h pl" and "held s = {}" and "\<not> drvdata s"
  shows "\<exists>r t. smsc911x_drv_probe h pl s = Some (r, t) \<and>
    (r = 0 \<longrightarrow> held t = UNIV \<and> drvdata t \<and> drv_wf (pdata t) \<and> got_phy (pdata t) \<and> ioaddr (pdata t) = pl_ioremap pl \<and>
      smsc911x_drv_remove h t = None) \<and>
    (r \<noteq> 0 \<longrightarrow> \<not> drvdata t \<and> (held t = {} \<or> held t = {Phy_attached} \<and> r = - ENXIO))"
proof -
  have "holds (smsc911x_drv_probe h pl s) (probed pl)"
    using assms holds_probe_alloc [of "acquire Mem_region s" h pl]
    by (auto simp: smsc911x_drv_probe_def acquire_def probed_def)
  then obtain r t where rt: "smsc911x_drv_probe h pl s = Some (r, t)" "probed pl (r, t)" by (auto dest!: holdsD)
  have "smsc911x_drv_remove h t = None" if "\<not> running (pdata t)"
    using that by (auto simp: smsc911x_drv_remove_def smsc911x_disable_resources_def release_def Let_def split: option.splits)
  with rt show ?thesis by (auto simp: probed_def mii_failed_def split: if_splits)
qed

text \<open>
  A chip on which a probe succeeds: its registers keep their values, and the data FIFO delivers the packet of the loopback test and its checksum.
\<close>

definition loop_reg :: "u32 \<Rightarrow> u32" where
  "loop_reg r =
     (if r = PMT_CTRL then PMT_CTRL_READY
      else if r = BYTE_TEST then 0x87654321
      else if r = ID_REV then 0x92210000
      else if r = TX_FIFO_INF \<or> r = RX_FIFO_INF then 0x00010000
      else if r = TX_STATUS_FIFO then 0x00400000
      else if r = RX_STATUS_FIFO then 0x00440000
      else 0)"

definition loop_hw :: "nat hw" where
  "loop_hw = \<lparr>
     readl = (\<lambda>a d. if a = 0x10000 then ((words_of_bytes loopback_packet @ [0]) ! (d mod 17), Suc d) else (loop_reg (a - 0x10000), d)),
     readw = (\<lambda>a d. (0, d)),
     writel = (\<lambda>a v d. d),
     writew = (\<lambda>a v d. d)\<rparr>"

definition example_platform :: "nat platform" where
  "example_platform = \<lparr>pl_memory_byname = False, pl_memory = True, pl_irq = True, pl_request_region = True, pl_alloc = True,
     pl_ioremap = 0x10000, pl_regulator_get = 0, pl_regulator_enable = 0, pl_node = None, pl_config = Some example_config,
     pl_request_irq = 0, pl_register_netdev = 0, pl_mdio_alloc = True,
     pl_mdio = \<lparr>me_bus_register = 0, me_alloc = (\<lambda>_. True), me_phy_register = (\<lambda>_. 0), me_bind = 0, me_drivers = [lan911x_int_driver], me_fixups = []\<rparr>,
     pl_random_mac = [2, 0, 0, 0, 0, 1]\<rparr>"

definition unbound :: "'d smsc911x_data \<Rightarrow> 'd probe_state" where
  "unbound p = \<lparr>pdata = p, drvdata = False, held = {}\<rparr>"

abbreviation loop_port :: "u32 \<times> smsc911x_platform_config \<times> smsc911x_ops" where
  "loop_port \<equiv> (0x10000, example_config, standard_smsc911x_ops)"

definition looped :: "nat smsc911x_data \<Rightarrow> bool" where
  "looped s \<longleftrightarrow> ready s \<and> port s = loop_port"

lemma loop_chip:
  "r \<noteq> 0 \<Longrightarrow> chip_read loop_hw loop_port r d = (loop_reg r, d)" "chip_write loop_hw loop_port r v d = d"
  "chip_read loop_hw loop_port 0 d = ((words_of_bytes loopback_packet @ [0]) ! (d mod 17), Suc d)"
  by (simp_all add: chip_read_def chip_write_def cell_read_def cell_write_def reg_addr_def example_config_def loop_hw_def)

lemma loop_access [simp]:
  "looped s \<Longrightarrow> r \<noteq> 0 \<Longrightarrow> smsc911x_reg_read loop_hw r s = Some (loop_reg r, s)"
  "looped s \<Longrightarrow> smsc911x_reg_write loop_hw r v s = Some s"
  by (simp_all add: looped_def reg_read_eq reg_write_eq loop_chip)

lemma loop_updates [simp]:
  "looped (s\<lparr>mac_lock := x\<rparr>) = looped s" "looped (s\<lparr>generation := y\<rparr>) = looped s" "looped (s\<lparr>idrev := y\<rparr>) = looped s"
  "looped (s\<lparr>loopback_tx_pkt := bs\<rparr>) = looped s" "looped (s\<lparr>loopback_rx_pkt := bs\<rparr>) = looped s"
  "looped (s\<lparr>using_extphy := y\<rparr>) = looped s" "looped (s\<lparr>phy_dev := p\<rparr>) = looped s"
  "looped (s\<lparr>last_duplex := i\<rparr>) = looped s" "looped (s\<lparr>last_carrier := i\<rparr>) = looped s" "looped (s\<lparr>napi_sched := x\<rparr>) = looped s"
  by (simp_all add: looped_def ready_def)

lemma loop_mac_complete [simp]: "looped s \<Longrightarrow> mac_lock s \<Longrightarrow> smsc911x_mac_complete loop_hw s = Some (0, s)"
proof -
  assume "looped s" "mac_lock s"
  moreover from this have "mac_complete_loop loop_hw n s = Some (0, s)" if "0 < n" for n
    using that by (cases n) (simp_all add: loop_reg_def)
  ultimately show ?thesis by (simp add: smsc911x_mac_complete_def SMSC_ASSERT_MAC_LOCK_def)
qed

lemma loop_mac [simp]:
  "looped s \<Longrightarrow> mac_lock s \<Longrightarrow> smsc911x_mac_read loop_hw r s = Some (0, s)"
  "looped s \<Longrightarrow> mac_lock s \<Longrightarrow> smsc911x_mac_write loop_hw r v s = Some s"
  by (simp_all add: smsc911x_mac_read_def smsc911x_mac_write_def SMSC_ASSERT_MAC_LOCK_def loop_reg_def)

lemma loop_mii_write [simp]: "looped s \<Longrightarrow> \<not> mac_lock s \<Longrightarrow> smsc911x_mii_write loop_hw a r v s = Some (0, s)"
proof -
  have "mii_write_loop loop_hw n t = Some (0, t)" if "0 < n" "looped t" "mac_lock t" for n t
    using that by (cases n) simp_all
  moreover assume "looped s" "\<not> mac_lock s"
  ultimately show ?thesis by (simp add: smsc911x_mii_write_def spin_lock_mac_def spin_unlock_mac_def Let_def)
qed

lemma loop_poll [simp]: "looped s \<Longrightarrow> r \<noteq> 0 \<Longrightarrow> \<not> b (loop_reg r) \<Longrightarrow> poll_reg loop_hw r b n s = Some (loop_reg r, s)"
  by (cases n) simp_all

lemma loop_wait [simp]: "f s = Some (v, s) \<Longrightarrow> v \<noteq> 0 \<Longrightarrow> wait_status f n s = Some (v, s)"
  by (cases n) simp_all

lemma loop_soft_reset [simp]: "looped s \<Longrightarrow> phy_dev s = None \<Longrightarrow> smsc911x_soft_reset loop_hw s = Some (0, s)"
  by (simp add: smsc911x_soft_reset_def smsc911x_phy_disable_energy_detect_def smsc911x_phy_enable_energy_detect_def loop_reg_def)

lemma loop_init:
  "looped s \<Longrightarrow> phy_dev s = None \<Longrightarrow> \<not> mac_lock s \<Longrightarrow> smsc911x_init loop_hw s = Some (0, s\<lparr>generation := 4, idrev := 0x92210000, napi_sched := True\<rparr>)"
proof -
  assume g: "looped s" "phy_dev s = None" "\<not> mac_lock s"
  then have "s\<lparr>dev_lock := False, mac_lock := False\<rparr> = s" "ioaddr s \<noteq> 0" "\<not> flag_set SMSC911X_SAVE_MAC_ADDRESS s"
    by (simp_all add: looped_def ready_def flag_set_def example_config_def)
  with g show ?thesis
    by (simp add: smsc911x_init_def init_byte_test_def init_chip_def idrev_generation_def loop_reg_def Let_def flag_set_def)
qed

lemma loop_status:
  assumes "looped s"
  shows "smsc911x_tx_get_txstatus loop_hw s = Some (0x00400000, s)" "smsc911x_rx_get_rxstatus loop_hw s = Some (0x00440000, s)"
  using assms by (simp_all add: smsc911x_tx_get_txstatus_def smsc911x_rx_get_rxstatus_def loop_reg_def)

lemma loop_fifo [simp]:
  assumes "looped s"
  shows "ops_tx_writefifo loop_hw ws s = Some s"
proof -
  have "chip_write loop_hw loop_port r v = id" for r v by (simp add: fun_eq_iff loop_chip)
  then have "fold (\<lambda>w. chip_write loop_hw loop_port r (f w)) ws d = d" for r f d by (simp add: fold_id)
  with assms show ?thesis by (simp add: tx_writefifo_eq looped_def)
qed

lemma cells_read_counter: "cells_read (\<lambda>d. (g d, Suc d)) n d = (map g [d..<d + n], d + n)"
  by (induction n arbitrary: d) (simp_all add: upt_conv_Cons del: upt_Suc)

lemma length_loopback_packet [simp]: "length loopback_packet = 64"
  by (simp add: loopback_packet_def)

lemma loop_packet: "cells_read (chip_read loop_hw loop_port RX_DATA_FIFO) 17 0 = (words_of_bytes loopback_packet @ [0], 17)"
proof -
  let ?xs = "words_of_bytes loopback_packet @ [0]"
  have "chip_read loop_hw loop_port RX_DATA_FIFO = (\<lambda>d. (?xs ! (d mod 17), Suc d))" by (simp add: fun_eq_iff loop_chip)
  moreover have "map (\<lambda>d. ?xs ! (d mod 17)) [0..<17] = ?xs"
    by (rule nth_equalityI) simp_all
  ultimately show ?thesis by (simp add: cells_read_counter)
qed

lemma loop_loopback_try:
  assumes g: "looped s" and c: "chip s = 0" and p: "loopback_tx_pkt s = loopback_packet"
  shows "\<exists>t. loopback_try loop_hw s = Some (True, t) \<and> looped t \<and> mac_lock t = mac_lock s"
proof -
  have swap: "fifo_swap example_config = id" by (simp add: fun_eq_iff fifo_swap_def example_config_def)
  let ?s = "s\<lparr>loopback_rx_pkt := replicate 64 0\<rparr>"
  have r: "ops_rx_readfifo loop_hw 17 ?s = Some (words_of_bytes loopback_packet @ [0], ?s\<lparr>chip := 17\<rparr>)"
    using g c loop_packet by (simp add: rx_readfifo_eq looped_def swap)
  have st: "\<exists>t. store_loopback_rx (words_of_bytes loopback_packet @ [0]) (?s\<lparr>chip := 17\<rparr>) = Some t \<and> looped t \<and> mac_lock t = mac_lock s \<and>
    loopback_rx_pkt t = loopback_packet \<and> loopback_tx_pkt t = loopback_packet"
    using g p by (simp add: store_loopback_rx_def Let_def bytes_of_words_of_bytes looped_def ready_def example_config_def)
  have "loopback_try loop_hw s = do {
     t \<leftarrow> store_loopback_rx (words_of_bytes loopback_packet @ [0]) (?s\<lparr>chip := 17\<rparr>);
     Some (loopback_tx_pkt t = loopback_rx_pkt t, t)}"
    using g r by (simp add: loopback_try_def loop_status rx_length_def Let_def)
  with st show ?thesis by auto
qed

lemma loop_loopbacktest:
  assumes g: "looped s" and c: "chip s = 0" "\<not> mac_lock s" "phy_dev s = Some phy"
  shows "\<exists>t. smsc911x_phy_loopbacktest loop_hw s = Some (0, t)"
proof -
  let ?s = "s\<lparr>loopback_tx_pkt := loopback_packet\<rparr>"
  obtain t where t: "loopback_try loop_hw ?s = Some (True, t)" "looped t" "\<not> mac_lock t"
    using loop_loopback_try [of ?s] assms by auto
  have lw: "locked_mac_write loop_hw r v u = Some u" if "looped u" "\<not> mac_lock u" for r v u
    using that by (simp add: locked_mac_write_def spin_lock_mac_def spin_unlock_mac_def)
  have "loopback_tries loop_hw n ?s = Some (0, t)" if "0 < n" for n using that t by (cases n) simp_all
  then have "loopback_rounds loop_hw phy n ?s = Some (0, t)" if "0 < n" for n
    using that assms lw by (cases n) (simp_all add: smsc911x_phy_check_loopbackpkt_def)
  with assms t lw show ?thesis by (simp add: smsc911x_phy_loopbacktest_def Let_def)
qed

lemma loop_mii_read [simp]: "looped s \<Longrightarrow> \<not> mac_lock s \<Longrightarrow> smsc911x_mii_read loop_hw a r s = Some (0, s)"
proof -
  have "mii_read_loop loop_hw n t = Some (0, t)" if "0 < n" "looped t" "mac_lock t" for n t
    using that by (cases n) simp_all
  moreover assume "looped s" "\<not> mac_lock s"
  ultimately show ?thesis by (simp add: smsc911x_mii_read_def spin_lock_mac_def spin_unlock_mac_def Let_def)
qed

text \<open>The PHY of this chip has the identifier 0: the generic driver takes it.\<close>

lemma loop_scan:
  assumes "looped s" and "\<not> mac_lock s"
  shows "mdiobus_register (pl_mdio example_platform) loop_hw (NOT (push_bit 1 1)) s =
    Some (0, Map.empty(1 \<mapsto> \<lparr>sl_phy = phy_device_create 1 0, sl_bound = False\<rparr>), s)"
proof -
  let ?e = "pl_mdio example_platform"
  have e: "me_bus_register ?e = 0" "me_alloc ?e 1" "me_phy_register ?e 1 = 0" "me_fixups ?e = []" "me_drivers ?e = [lan911x_int_driver]"
    by (simp_all add: example_platform_def)
  have "bind_driver (me_drivers ?e) (phy_device_create 1 0) = Some \<lparr>sl_phy = phy_device_create 1 0, sl_bound = False\<rparr>"
    by (simp add: bind_driver_def e mdio_bus_match_def drv_phy_id_mask_def phy_device_create_def)
  moreover have "phy_addr (phy_device_create 1 0) = 1" by (simp add: phy_device_create_def)
  ultimately show ?thesis
    unfolding register_internal [OF e(1)] using e assms
    by (simp add: mdiobus_scan_def get_phy_device_def get_phy_id_def mdiobus_read_def phy_device_register_def)
qed

lemma loop_connect:
  assumes "looped s" and "\<not> mac_lock s"
  shows "\<exists>q. phy_connect_direct (pl_mdio example_platform) loop_hw \<lparr>sl_phy = phy_device_create 1 0, sl_bound = False\<rparr> s = Some (0, q, s)"
proof -
  have e: "me_bind (pl_mdio example_platform) = 0" "me_fixups (pl_mdio example_platform) = []" by (simp_all add: example_platform_def)
  obtain p where p: "phy_probe genphy_driver (phy_device_create 1 0) = Some p" "phy_drv p = genphy_driver"
    using probe_fresh [of "phy_device_create 1 0" genphy_driver] by (auto simp: phy_fresh_def phy_device_create_def)
  obtain q where "genphy_config_init loop_hw (p\<lparr>phy_st := PHY_READY\<rparr>) s = Some (0, q, s)"
    using assms by (simp add: genphy_config_init_def or_return_def phy_read_def mdiobus_read_def Let_def)
  with e p show ?thesis by (simp add: phy_connect_direct_def phy_attach_direct_def phy_init_hw_def)
qed

lemma loop_mii_init:
  assumes "looped (pdata s)" "chip (pdata s) = 0" "\<not> mac_lock (pdata s)" "idrev (pdata s) = 0x92210000"
  shows "\<exists>t. smsc911x_mii_init loop_hw example_platform s = Some (0, t)"
proof -
  let ?s = "(pdata s)\<lparr>using_extphy := 0\<rparr>"
  have l: "looped ?s" "\<not> mac_lock ?s" using assms by simp_all
  obtain q where q: "phy_connect_direct (pl_mdio example_platform) loop_hw \<lparr>sl_phy = phy_device_create 1 0, sl_bound = False\<rparr> ?s = Some (0, q, ?s)"
    using loop_connect [OF l] by blast
  let ?f = "phy_supported q AND (PHY_BASIC_FEATURES OR SUPPORTED_Pause OR SUPPORTED_Asym_Pause)"
  obtain t where t: "smsc911x_phy_loopbacktest loop_hw (?s\<lparr>phy_dev := Some (q\<lparr>phy_supported := ?f, phy_advertising := ?f\<rparr>), last_duplex := -1, last_carrier := -1\<rparr>) = Some (0, t)"
    using loop_loopbacktest [of "?s\<lparr>phy_dev := Some (q\<lparr>phy_supported := ?f, phy_advertising := ?f\<rparr>), last_duplex := -1, last_carrier := -1\<rparr>"] assms by auto
  let ?u = "acquire Mii_registered ((acquire Mii_bus s)\<lparr>pdata := ?s\<rparr>)"
  obtain t' where "smsc911x_mii_probe loop_hw example_platform (Map.empty(1 \<mapsto> \<lparr>sl_phy = phy_device_create 1 0, sl_bound = False\<rparr>)) ?u = Some (0, t')"
    using q t by (simp add: smsc911x_mii_probe_def find_first_one acquire_def Let_def)
  moreover have "pl_mdio_alloc example_platform" by (simp add: example_platform_def)
  ultimately show ?thesis
    using loop_scan [OF l] assms by (simp add: smsc911x_mii_init_def acquire_fields Let_def)
qed

lemma loop_register:
  assumes p: "probe_register loop_hw example_platform s = Some (r, t)"
    and s: "looped (pdata s)" "chip (pdata s) = 0" "\<not> mac_lock (pdata s)" "idrev (pdata s) = 0x92210000"
  shows "r = 0"
proof -
  obtain u where "smsc911x_mii_init loop_hw example_platform (acquire Registered (acquire Irq_line s)) = Some (0, u)"
    using loop_mii_init [of "acquire Registered (acquire Irq_line s)"] s by (auto simp: acquire_def)
  with p show ?thesis by (auto simp: probe_register_def example_platform_def Let_def bind_eq_Some_conv)
qed

lemma loop_probe:
  assumes "smsc911x_drv_probe loop_hw example_platform (unbound (zero_pdata 0)) = Some (r, t)"
  shows "r = 0"
proof -
  let ?p = "(zero_pdata (0 :: nat))\<lparr>ioaddr := 0x10000, config := example_config, ops := standard_smsc911x_ops\<rparr>"
  let ?q = "?p\<lparr>generation := 4, idrev := 0x92210000, napi_sched := True\<rparr>"
  have g: "looped ?p" "\<not> mac_lock ?p" "phy_dev ?p = None" "chip ?p = 0"
    by (simp_all add: looped_def ready_def zero_pdata_def example_config_def)
  then have int: "smsc911x_init loop_hw ?p = Some (0, ?q)" "probe_intcfg loop_hw ?q = Some ?q"
    using loop_init [OF g(1,3,2)] by (simp_all add: probe_intcfg_def Let_def)
  have c: "shift example_config = 0" by (simp add: example_config_def)
  have pl: "pl_memory example_platform" "pl_irq example_platform" "pl_request_region example_platform" "pl_alloc example_platform"
    "pl_ioremap example_platform = 0x10000" "pl_regulator_get example_platform = 0" "pl_regulator_enable example_platform = 0"
    "pl_node example_platform = None" "pl_config example_platform = Some example_config"
    by (simp_all add: example_platform_def)
  have dev: "probe_device loop_hw example_platform s = probe_register loop_hw example_platform (s\<lparr>pdata := ?q\<rparr>)"
    if "pdata s = (zero_pdata 0)\<lparr>ioaddr := 0x10000\<rparr>" for s
    using that int c by (simp add: probe_device_def choose_config_def smsc911x_probe_config_dt_def pl Let_def)
  obtain s where "probe_device loop_hw example_platform s = Some (r, t)" "pdata s = (zero_pdata 0)\<lparr>ioaddr := 0x10000\<rparr>"
    using assms g(4) by (simp add: smsc911x_drv_probe_def probe_alloc_def smsc911x_request_resources_def smsc911x_enable_resources_def
        acquire_def unbound_def pl Let_def)
  with dev loop_register [of "s\<lparr>pdata := ?q\<rparr>"] g show ?thesis by simp
qed

lemma loop_platform_ok: "platform_ok loop_hw (example_platform\<lparr>pl_regulator_enable := r\<rparr>)"
proof -
  have "rx_bounded loop_hw loop_port" by (simp add: rx_bounded_def loop_chip rx_length_def) (simp add: loop_reg_def)
  then show ?thesis
    by (simp add: platform_ok_def probe_config_def example_platform_def config_ok_def mdio_ok_def fixups_ok_def) (simp add: example_config_def)
qed

lemma regulators_fail:
  assumes "smsc911x_drv_probe h (example_platform\<lparr>pl_regulator_enable := -16\<rparr>) (unbound p) = Some (r, t)"
  shows "r = -16"
  using assms by (auto simp: smsc911x_drv_probe_def probe_alloc_def example_platform_def smsc911x_request_resources_def
      smsc911x_enable_resources_def out_enable_resources_fail_def smsc911x_free_resources_def out_request_resources_fail_def
      out_release_io_1_def release_def acquire_def unbound_def Let_def split: if_splits)

theorem probe_outcome_witness:
  "(\<exists>t. smsc911x_drv_probe loop_hw example_platform (unbound (zero_pdata 0)) = Some (0, t) \<and> held t = UNIV \<and> drvdata t \<and>
     drv_wf (pdata t) \<and> ioaddr (pdata t) = 0x10000 \<and> smsc911x_drv_remove loop_hw t = None) \<and>
   (\<exists>t. smsc911x_drv_probe loop_hw (example_platform\<lparr>pl_regulator_enable := -16\<rparr>) (unbound (zero_pdata 0)) = Some (-16, t) \<and>
     held t = {} \<and> \<not> drvdata t)"
proof
  let ?s = "unbound (zero_pdata 0) :: nat probe_state" and ?pl = "example_platform\<lparr>pl_regulator_enable := -16\<rparr>"
  have s: "held ?s = {}" "\<not> drvdata ?s" by (simp_all add: unbound_def)
  have "example_platform\<lparr>pl_regulator_enable := 0\<rparr> = example_platform" "pl_ioremap example_platform = 0x10000"
    by (simp_all add: example_platform_def)
  then have ok: "platform_ok loop_hw example_platform" and io: "pl_ioremap example_platform = 0x10000"
    using loop_platform_ok [of 0] by simp_all
  obtain r t where rt: "smsc911x_drv_probe loop_hw example_platform ?s = Some (r, t)"
    "r = 0 \<longrightarrow> held t = UNIV \<and> drvdata t \<and> drv_wf (pdata t) \<and> got_phy (pdata t) \<and> ioaddr (pdata t) = pl_ioremap example_platform \<and>
       smsc911x_drv_remove loop_hw t = None"
    using probe_outcome [OF ok s] by (elim exE conjE) (rule that)
  moreover have "r = 0" using rt(1) by (rule loop_probe)
  ultimately show "\<exists>t. smsc911x_drv_probe loop_hw example_platform ?s = Some (0, t) \<and> held t = UNIV \<and> drvdata t \<and>
     drv_wf (pdata t) \<and> ioaddr (pdata t) = 0x10000 \<and> smsc911x_drv_remove loop_hw t = None"
    using io by (intro exI [of _ t]) simp
  obtain r t where rt: "smsc911x_drv_probe loop_hw ?pl ?s = Some (r, t)"
    "r \<noteq> 0 \<longrightarrow> \<not> drvdata t \<and> (held t = {} \<or> held t = {Phy_attached} \<and> r = - ENXIO)"
    using probe_outcome [OF loop_platform_ok [of "-16"] s] by (elim exE conjE) (rule that)
  moreover have "r = -16" using rt(1) by (rule regulators_fail)
  ultimately show "\<exists>t. smsc911x_drv_probe loop_hw ?pl ?s = Some (-16, t) \<and> held t = {} \<and> \<not> drvdata t"
    by (intro exI [of _ t]) simp
qed

end
