(* ===== verification/Smsc_Variants.thy ===== *)
theory Smsc_Variants
  imports Smsc_Ethtool
begin

text \<open>
  The two other copies of the driver, \<open>code/nic-driver/smsc/smsc911x_no_attack.c\<close> and
  \<open>smsc911x_db_attack.c\<close>, where they differ from \<open>smsc911x.c\<close>: their poll function gives all
  packets to the network stack, and their ioctl runs \<open>swattARM\<close> on a fixed challenge. The instructions of their
  \<open>swattARM\<close> are those of \<open>swattARM\<close> and of \<open>swattARM_db_attack\<close> of \<open>smsc911x.c\<close>;
  here the function is a parameter.

  The theorems compare the driver with and without the answers to challenges: on traffic that has no challenge the
  two poll functions are the same, and the poll function without them is safe on all traffic.
\<close>

section \<open>The functions that differ\<close>

definition na_rx_packet :: "'d hw \<Rightarrow> u32 \<Rightarrow> sk_buff list \<Rightarrow> 'd smsc911x_data \<Rightarrow> (sk_buff list \<times> 'd smsc911x_data) option" where
  "na_rx_packet h pktlength up s = do {
     (protocol, skb, s) \<leftarrow> receive_frame h pktlength s;
     Some (up @ [skb], rx_count pktlength s)
   }"

fun na_poll_loop :: "'d hw \<Rightarrow> (nat \<Rightarrow> bool) \<Rightarrow> nat \<Rightarrow> nat \<Rightarrow> sk_buff list \<Rightarrow> 'd smsc911x_data \<Rightarrow>
    (nat \<times> sk_buff list \<times> 'd smsc911x_data) option" where
  "na_poll_loop h alloc 0 npackets up s = Some (npackets, up, s)"
| "na_poll_loop h alloc (Suc left) npackets up s = do {
     (rxstat, s) \<leftarrow> smsc911x_rx_get_rxstatus h s;
     if rxstat = 0 then do {
       s \<leftarrow> poll_finish h s;
       Some (npackets, up, s)
     }
     else do {
       let npackets = npackets + 1;
       let pktlength = rx_length rxstat;
       let pktwords = pkt_words pktlength;
       let s = s\<lparr>stats := smsc911x_rx_counterrors rxstat (stats s)\<rparr>;
       if rxstat AND RX_STS_ES \<noteq> 0 then do {
         s \<leftarrow> smsc911x_rx_fastforward h pktwords s;
         na_poll_loop h alloc left npackets up (rx_drop_one s)
       }
       else if \<not> alloc npackets then do {
         s \<leftarrow> smsc911x_rx_fastforward h pktwords s;
         Some (npackets, up, rx_drop_one s)
       }
       else do {
         (up, s) \<leftarrow> na_rx_packet h pktlength up s;
         na_poll_loop h alloc left npackets up s
       }
     }
   }"

definition na_poll :: "'d hw \<Rightarrow> (nat \<Rightarrow> bool) \<Rightarrow> int \<Rightarrow> 'd smsc911x_data \<Rightarrow> (nat \<times> sk_buff list \<times> 'd smsc911x_data) option" where
  "na_poll h alloc budget s = na_poll_loop h alloc (nat budget) 0 [] s"

text \<open>The challenge is fixed. Only the time that \<open>swattARM\<close> takes is printed, which is not modelled.\<close>

definition na_challenge :: "u32 list" where
  "na_challenge = map (\<lambda>i. 0xafafcbcb + of_nat i) [0..<64]"

definition na_do_swatt :: "(u32 list \<Rightarrow> u32 list option) \<Rightarrow> int \<Rightarrow> int option" where
  "na_do_swatt swatt cmd =
     (if cmd = ACENIC_IOCTL_SWATT then do {
        buf \<leftarrow> swatt na_challenge;
        Some 0
      }
      else Some (- EOPNOTSUPP))"

definition na_do_ioctl :: "'d hw \<Rightarrow> (u32 list \<Rightarrow> u32 list option) \<Rightarrow> 'd phy_fixup list \<Rightarrow> int \<Rightarrow> mii_ioctl_data \<Rightarrow>
    'd smsc911x_data \<Rightarrow> (int \<times> mii_ioctl_data \<times> 'd smsc911x_data) option" where
  "na_do_ioctl h swatt fixups cmd m s =
     (if \<not> running s then Some (- EINVAL, m, s)
      else case phy_dev s of
        None \<Rightarrow> Some (- EINVAL, m, s)
      | Some phy \<Rightarrow> do {
          ret \<leftarrow> na_do_swatt swatt cmd;
          if ret = 0 then Some (0, m, s)
          else do {
            (r, m, phy, s) \<leftarrow> phy_mii_ioctl h fixups phy cmd m s;
            Some (r, m, s\<lparr>phy_dev := Some phy\<rparr>)
          }
        })"

section \<open>Traffic\<close>

text \<open>
  \<open>Q\<close> holds for every good packet of the chip: of its status and of the chip when the status was read.
\<close>

definition rx_all :: "(u32 \<times> 'd \<Rightarrow> bool) \<Rightarrow> 'd hw \<Rightarrow> u32 \<times> smsc911x_platform_config \<times> smsc911x_ops \<Rightarrow> bool" where
  "rx_all Q h p \<longleftrightarrow> (\<forall>d. let (v, d1) = chip_read h p RX_STATUS_FIFO d in
     v \<noteq> 0 \<longrightarrow> v AND RX_STS_ES = 0 \<longrightarrow> Q (v, d1))"

text \<open>A packet has at least a header and a check sum.\<close>

definition rx_sized :: "'d hw \<Rightarrow> u32 \<times> smsc911x_platform_config \<times> smsc911x_ops \<Rightarrow> bool" where
  "rx_sized h p \<longleftrightarrow> rx_all (\<lambda>(v, d). 18 \<le> unat (rx_length v)) h p"

text \<open>No packet is a challenge.\<close>

definition rx_plain :: "'d hw \<Rightarrow> u32 \<times> smsc911x_platform_config \<times> smsc911x_ops \<Rightarrow> bool" where
  "rx_plain h p \<longleftrightarrow> rx_all (\<lambda>(v, d). let b = rx_bytes_of h p (rx_length v) d in
     64 \<le> unat (rx_length v) \<and> \<not> (b ! 14 = 8 \<and> b ! 15 = 0 \<and> b ! 25 = 1 \<and> b ! 36 = VET_ICMP_TYPE)) h p"

lemma holds_rxstatus_all:
  assumes "ready s" and "rx_all Q h (port s)" and "\<And>d. P (0, s\<lparr>chip := d\<rparr>)"
    and "\<And>v d. v \<noteq> 0 \<Longrightarrow> (v AND RX_STS_ES = 0 \<longrightarrow> Q (v, d)) \<Longrightarrow> P (v, s\<lparr>chip := d\<rparr>)"
  shows "holds (smsc911x_rx_get_rxstatus h s) P"
proof -
  let ?d = "snd (chip_read h (port s) RX_FIFO_INF (chip s))"
  let ?r = "chip_read h (port s) RX_STATUS_FIFO ?d"
  have "fst ?r \<noteq> 0 \<Longrightarrow> fst ?r AND RX_STS_ES = 0 \<Longrightarrow> Q (fst ?r, snd ?r)"
    using spec [OF assms(2) [unfolded rx_all_def], of ?d] by (simp only: case_prod_unfold Let_def prod.collapse simp_thms)
  then have "P (fst ?r, s\<lparr>chip := snd ?r\<rparr>)"
    using assms(3,4) by (cases "fst ?r = 0") auto
  with assms(1,3) show ?thesis
    by (simp add: smsc911x_rx_get_rxstatus_def reg_read_eq case_prod_unfold Let_def)
qed

lemma holds_na_rx_packet:
  assumes "ready s" and "18 \<le> unat (rx_length v)"
    and P: "\<And>k d st. rx_packets st = rx_packets (stats s) + 1 \<Longrightarrow> rx_dropped st = rx_dropped (stats s) \<Longrightarrow>
      P (up @ [k], s\<lparr>chip := d, stats := st\<rparr>)"
  shows "holds (na_rx_packet h (rx_length v) up s) P"
  using receive_frame_eq [OF assms(1,2) rx_length_le, of h]
  by (auto simp: na_rx_packet_def rx_count_def intro!: P)

lemma rx_packet_plain:
  assumes "ready s" and "64 \<le> unat (rx_length v)"
    and "\<not> (rx_bytes_of h (port s) (rx_length v) (chip s) ! 14 = 8 \<and> rx_bytes_of h (port s) (rx_length v) (chip s) ! 15 = 0 \<and>
      rx_bytes_of h (port s) (rx_length v) (chip s) ! 25 = 1 \<and> rx_bytes_of h (port s) (rx_length v) (chip s) ! 36 = VET_ICMP_TYPE)"
  shows "rx_packet h swatt swatt_db (rx_length v) up s = na_rx_packet h (rx_length v) up s"
proof -
  define b where "b = rx_bytes_of h (port s) (rx_length v) (chip s)"
  obtain p d where f: "receive_frame h (rx_length v) s =
      Some (p, \<lparr>skb_buf = b, skb_data = 16, skb_len = rx_length v - 18\<rparr>, s\<lparr>chip := d\<rparr>)" "p = 8 \<longleftrightarrow> b ! 14 = 8 \<and> b ! 15 = 0"
    using receive_frame_eq [OF assms(1) _ rx_length_le, of v h] assms(2) unfolding b_def by auto
  have "36 < length b"
    using assms(2) pkt_words_unat [OF rx_length_le, of v] by (simp add: b_def)
  with assms(3) f show ?thesis
    unfolding b_def [symmetric] by (auto simp: rx_packet_def na_rx_packet_def is_challenge_def skb_get_def)
qed

section \<open>The poll function without challenges\<close>

lemma holds_na_poll_loop:
  assumes "ready s" and "rx_sized h (port s)" and "napi_sched s"
    and "\<And>n' ks t. frame s t \<Longrightarrow> queue_stopped t = queue_stopped s \<Longrightarrow> n \<le> n' \<Longrightarrow> n' \<le> n + left \<Longrightarrow> length ks \<le> n' - n \<Longrightarrow>
      rx_packets (stats t) = rx_packets (stats s) + of_nat (length ks) \<Longrightarrow>
      rx_dropped (stats t) = rx_dropped (stats s) + of_nat (n' - n - length ks) \<Longrightarrow>
      (n' \<noteq> n + left \<longrightarrow> napi_sched t \<longrightarrow> \<not> alloc n') \<Longrightarrow> (napi_sched t \<or> n' < n + left) \<Longrightarrow> P (n', up @ ks, t)"
  shows "holds (na_poll_loop h alloc left n up s) P"
  using assms
proof (induction left arbitrary: n up s)
  case 0
  show ?case using 0(3) 0(4) [of s n "[]"] by simp
next
  case (Suc left)
  note fin = Suc.prems(4)
  have drop: "holds (na_poll_loop h alloc left (Suc n) up t) P"
    if t: "frame s t" "napi_sched t" "queue_stopped t = queue_stopped s"
      "rx_packets (stats t) = rx_packets (stats s)" "rx_dropped (stats t) = rx_dropped (stats s) + 1" for t
  proof (rule Suc.IH)
    fix n' t' and ks :: "sk_buff list"
    assume a: "frame t t'" "queue_stopped t' = queue_stopped t" "Suc n \<le> n'" "n' \<le> Suc n + left" "length ks \<le> n' - Suc n"
      "rx_packets (stats t') = rx_packets (stats t) + of_nat (length ks)"
      "rx_dropped (stats t') = rx_dropped (stats t) + of_nat (n' - Suc n - length ks)"
      "n' \<noteq> Suc n + left \<longrightarrow> napi_sched t' \<longrightarrow> \<not> alloc n'" "napi_sched t' \<or> n' < Suc n + left"
    moreover have "n' - n - length ks = Suc (n' - Suc n - length ks)" using a(3,5) by simp
    ultimately show "P (n', up @ ks, t')"
      using t by (intro fin) (auto intro: frame_trans simp: add.assoc)
  qed (use Suc.prems t frameD(1) [OF t(1)] frameD(3) [OF t(1)] in simp_all)
  have take: "holds (na_poll_loop h alloc left (Suc n) (up @ [k]) t) P"
    if t: "frame s t" "napi_sched t" "queue_stopped t = queue_stopped s"
      "rx_packets (stats t) = rx_packets (stats s) + 1" "rx_dropped (stats t) = rx_dropped (stats s)" for k t
  proof (rule Suc.IH)
    fix n' t' and ks :: "sk_buff list"
    assume a: "frame t t'" "queue_stopped t' = queue_stopped t" "Suc n \<le> n'" "n' \<le> Suc n + left" "length ks \<le> n' - Suc n"
      "rx_packets (stats t') = rx_packets (stats t) + of_nat (length ks)"
      "rx_dropped (stats t') = rx_dropped (stats t) + of_nat (n' - Suc n - length ks)"
      "n' \<noteq> Suc n + left \<longrightarrow> napi_sched t' \<longrightarrow> \<not> alloc n'" "napi_sched t' \<or> n' < Suc n + left"
    then have "P (n', up @ k # ks, t')"
      using t by (intro fin) (auto intro: frame_trans simp: add.assoc)
    then show "P (n', (up @ [k]) @ ks, t')" by simp
  qed (use Suc.prems t frameD(1) [OF t(1)] frameD(3) [OF t(1)] in simp_all)
  have stop: "P (n', up, t)"
    if "frame s t" "queue_stopped t = queue_stopped s" "n \<le> n'" "n' \<le> n + Suc left"
      "rx_packets (stats t) = rx_packets (stats s)" "rx_dropped (stats t) = rx_dropped (stats s) + of_nat (n' - n)"
      "n' \<noteq> n + Suc left \<longrightarrow> napi_sched t \<longrightarrow> \<not> alloc n'" "napi_sched t \<or> n' < n + Suc left" for n' t
    using fin [of t n' "[]"] that by simp
  show ?case
    unfolding na_poll_loop.simps holds_bind
    by (rule holds_rxstatus_all [OF Suc.prems(1) Suc.prems(2) [unfolded rx_sized_def]])
      (use Suc.prems(1-3) in \<open>auto simp: Let_def rx_drop_one_def intro!: drv_rules holds_na_rx_packet drop take stop\<close>)
qed

text \<open>
  C22: The poll function of the driver without challenges returns on all traffic, short packets included, and never
  stops the transmit queue. It handles at most its budget, and each packet is either counted as received and
  given to the network stack or counted as dropped.
\<close>

theorem na_poll_safe:
  assumes "ready s" and "rx_sized h (port s)" and "napi_sched s"
  shows "\<exists>n up t. na_poll h alloc budget s = Some (n, up, t) \<and> frame s t \<and> queue_stopped t = queue_stopped s \<and>
    n \<le> nat budget \<and> length up \<le> n \<and> rx_packets (stats t) = rx_packets (stats s) + of_nat (length up) \<and>
    rx_dropped (stats t) = rx_dropped (stats s) + of_nat (n - length up) \<and>
    (napi_sched t \<longrightarrow> n = nat budget \<or> \<not> alloc n) \<and> (n = nat budget \<longrightarrow> napi_sched t)"
proof -
  have "holds (na_poll h alloc budget s) (\<lambda>(n, up, t). frame s t \<and> queue_stopped t = queue_stopped s \<and>
    n \<le> nat budget \<and> length up \<le> n \<and> rx_packets (stats t) = rx_packets (stats s) + of_nat (length up) \<and>
    rx_dropped (stats t) = rx_dropped (stats s) + of_nat (n - length up) \<and>
    (napi_sched t \<longrightarrow> n = nat budget \<or> \<not> alloc n) \<and> (n = nat budget \<longrightarrow> napi_sched t))"
    unfolding na_poll_def by (rule holds_na_poll_loop [OF assms]) auto
  then show ?thesis by (auto dest!: holdsD)
qed

section \<open>Agreement\<close>

lemma bind_same:
  assumes "holds x (\<lambda>r. f r = g r)" shows "Option.bind x f = Option.bind x g"
  using assms by (auto dest: holdsD)

lemma poll_loop_plain:
  assumes "ready s" and "rx_plain h (port s)"
  shows "poll_loop h swatt swatt_db alloc left n up s = na_poll_loop h alloc left n up s"
  using assms
proof (induction left arbitrary: n up s)
  case (Suc left)
  have same: "poll_loop h swatt swatt_db alloc left m up' t = na_poll_loop h alloc left m up' t" if "frame s t" for m up' t
    using Suc that frameD(1,3) [OF that] by simp
  show ?case
    unfolding poll_loop.simps na_poll_loop.simps
    by (rule bind_same, rule holds_rxstatus_all [OF Suc.prems(1) Suc.prems(2) [unfolded rx_plain_def]])
      (use Suc.prems(1) in \<open>auto simp: Let_def rx_packet_plain rx_drop_one_def intro!: bind_same drv_rules holds_na_rx_packet same\<close>)
qed simp

text \<open>
  C23: On traffic without challenges the driver with the answers to challenges is the driver without them: the two poll
  functions return the same result and leave the same state, whatever the checksum functions do.
\<close>

theorem poll_extends:
  assumes "ready s" and "rx_plain h (port s)"
  shows "smsc911x_poll h swatt swatt_db alloc budget s = na_poll h alloc budget s"
  using poll_loop_plain [OF assms] by (simp add: smsc911x_poll_def na_poll_def)

text \<open>
  All ioctls but the one for the checksum are the same too, and that one returns the same code.
\<close>

theorem do_ioctl_extends:
  assumes "answers swatt" and "length buf = 64"
  shows "map_option (\<lambda>(r, _, m, s). (r, m, s)) (smsc911x_do_ioctl h swatt fixups buf cmd m s) = na_do_ioctl h swatt fixups cmd m s"
proof -
  have "length na_challenge = 64" by (simp add: na_challenge_def)
  with assms obtain a b where "swatt buf = Some a" "swatt na_challenge = Some b"
    unfolding answers_def by blast
  then show ?thesis
    by (auto simp: smsc911x_do_ioctl_def na_do_ioctl_def smsc911x_do_swatt_def na_do_swatt_def
        split: option.split bind_split)
qed

section \<open>Examples\<close>

lemma count_rx_sized: "rx_sized count_hw (0, example_config, standard_smsc911x_ops)"
  unfolding rx_sized_def rx_all_def count_reads by (simp add: rx_length_def)

lemma count_rx_plain: "rx_plain count_hw (0, example_config, standard_smsc911x_ops)"
proof -
  have l: "rx_length 0x00400000 = 64" by (simp add: rx_length_def)
  have "(\<lambda>(v, d). let b = rx_bytes_of count_hw (0, example_config, standard_smsc911x_ops) (rx_length v) d in
      64 \<le> unat (rx_length v) \<and> \<not> (b ! 14 = 8 \<and> b ! 15 = 0 \<and> b ! 25 = 1 \<and> b ! 36 = VET_ICMP_TYPE)) (0x00400000, d)" for d
    unfolding Let_def case_prod_conv l count_cells fst_conv snd_conv zero_bytes by simp
  then show ?thesis
    unfolding rx_plain_def rx_all_def count_reads by simp
qed

lemma na_poll_safe_witness:
  "\<exists>n up t. na_poll count_hw (\<lambda>_. True) 16 (count_drv 3) = Some (n, up, t) \<and> n \<le> 16 \<and> length up \<le> n \<and>
     (napi_sched t \<longleftrightarrow> n = 16)"
  using na_poll_safe [of "count_drv 3" count_hw "\<lambda>_. True" 16] by (auto simp: count_rx_sized)

lemma poll_extends_witness:
  "smsc911x_poll count_hw Some Some (\<lambda>_. True) 16 (count_drv 3) = na_poll count_hw (\<lambda>_. True) 16 (count_drv 3)"
  using poll_extends [of "count_drv 3" count_hw] by (simp add: count_rx_plain)

end
