(* ===== verification/Page_Table.thy ===== *)
theory Page_Table
  imports Vet_Prelude
begin

text \<open>
  The kernel module \<open>linux/hello-module\<close>: the first- and second-level page tables it builds
  (\<open>mm_create_mapping\<close> and what it calls), and saving, replacing and restoring the translation table
  registers. \<open>hello-module.c\<close> is the file the Makefile builds; \<open>pt.c\<close> is an older copy of it that differs
  in \<open>backup_os_pt\<close> and \<open>swatt_arm_set_ttbr1\<close>. The table walk of the processor (ARM DDI 0406, short
  descriptors, \<open>TTBCR.N = 0\<close>) is the specification: what a mapping means is what the walk returns.
\<close>

unbundle bit_operations_syntax

section \<open>Bit fields\<close>

definition get_field :: "nat \<Rightarrow> nat \<Rightarrow> u32 \<Rightarrow> u32" where
  "get_field lo n w = take_bit n (drop_bit lo w)"

definition set_field :: "nat \<Rightarrow> nat \<Rightarrow> u32 \<Rightarrow> u32 \<Rightarrow> u32" where
  "set_field lo n v w = (w AND NOT (push_bit lo (mask n))) OR push_bit lo (take_bit n v)"

section \<open>Descriptors\<close>

text \<open>Level-1 section: type 0..1, b 2, c 3, executenever 4, accesspermission 10..11, notglobal 17, supersection 18, ns 19, address 20..31.\<close>

definition section_desc :: "u32 \<Rightarrow> u32 \<Rightarrow> u32 \<Rightarrow> u32" where
  "section_desc paddr ns w =
     (let w = set_field 0 2 2 w;
          w = set_field 20 12 (drop_bit 20 paddr) w;
          w = set_field 19 1 ns w;
          w = set_field 17 1 0 w;
          w = set_field 10 2 3 w
      in set_field 4 1 0 w)"

text \<open>Level-1 page table: type 0..1, ns 3, address 10..31.\<close>

definition table_desc :: "u32 \<Rightarrow> u32 \<Rightarrow> u32 \<Rightarrow> u32" where
  "table_desc l2_page_paddr ns w =
     (let w = set_field 0 2 1 w;
          w = set_field 3 1 ns w
      in set_field 10 22 (drop_bit 10 l2_page_paddr) w)"

text \<open>Level-2 page: execute_never 0, type 1, b 2, c 3, accesspermission 4..5, tex 6..8, notglobal 11, address 12..31.\<close>

definition page_desc :: "u32 \<Rightarrow> u32" where
  "page_desc paddr =
     (let w = set_field 1 1 1 0;
          w = set_field 12 20 (drop_bit 12 paddr) w;
          w = set_field 3 1 1 w;
          w = set_field 2 1 1 w;
          w = set_field 6 3 5 w;
          w = set_field 11 1 0 w;
          w = set_field 4 2 3 w
      in set_field 0 1 0 w)"

section \<open>State\<close>

text \<open>
  The translation registers of CP15, the static variables, and the words of kernel memory that are
  allocated, by their virtual address.
\<close>

record pt_state =
  ttbr0 :: u32
  ttbr1 :: u32
  ttbcr :: u32
  origin_ttbcr :: u32
  origin_ttbr0 :: u32
  origin_ttbr1 :: u32
  l1_pt :: "u32 list"
  kmem :: "u32 \<rightharpoonup> u32"

text \<open>The linear map of the kernel, and the address of \<open>l1_pt\<close>.\<close>

record linear_map =
  page_offset :: u32
  phys_offset :: u32
  l1_addr :: u32

definition virt_to_phys :: "linear_map \<Rightarrow> u32 \<Rightarrow> u32" where
  "virt_to_phys lm x = x - page_offset lm + phys_offset lm"

definition phys_to_virt :: "linear_map \<Rightarrow> u32 \<Rightarrow> u32" where
  "phys_to_virt lm x = x - phys_offset lm + page_offset lm"

section \<open>Translation registers\<close>

definition swatt_arm_set_ttbr0 :: "u32 \<Rightarrow> pt_state \<Rightarrow> pt_state" where
  "swatt_arm_set_ttbr0 value s = s\<lparr>ttbr0 := value\<rparr>"

definition swatt_arm_read_ttbr0 :: "pt_state \<Rightarrow> u32" where
  "swatt_arm_read_ttbr0 s = ttbr0 s"

definition swatt_arm_set_ttbr1 :: "u32 \<Rightarrow> pt_state \<Rightarrow> pt_state" where
  "swatt_arm_set_ttbr1 value s = s\<lparr>ttbr1 := value\<rparr>"

definition swatt_arm_read_ttbr1 :: "pt_state \<Rightarrow> u32" where
  "swatt_arm_read_ttbr1 s = ttbr1 s"

definition swatt_arm_set_ttbcr :: "u32 \<Rightarrow> pt_state \<Rightarrow> pt_state" where
  "swatt_arm_set_ttbcr value s = s\<lparr>ttbcr := value\<rparr>"

definition swatt_arm_get_ttbcr :: "pt_state \<Rightarrow> u32" where
  "swatt_arm_get_ttbcr s = ttbcr s"

definition backup_os_pt :: "pt_state \<Rightarrow> pt_state" where
  "backup_os_pt s =
     (let s = s\<lparr>origin_ttbcr := swatt_arm_get_ttbcr s\<rparr>;
          s = s\<lparr>origin_ttbr0 := swatt_arm_read_ttbr0 s\<rparr>
      in s\<lparr>origin_ttbr1 := swatt_arm_read_ttbr1 s\<rparr>)"

definition restore_os_pt :: "pt_state \<Rightarrow> pt_state" where
  "restore_os_pt s =
     (let s = swatt_arm_set_ttbcr (origin_ttbcr s) s;
          s = swatt_arm_set_ttbr0 (origin_ttbr0 s) s
      in swatt_arm_set_ttbr1 (origin_ttbr1 s) s)"

definition load_new_pt :: "linear_map \<Rightarrow> pt_state \<Rightarrow> pt_state" where
  "load_new_pt lm s = swatt_arm_set_ttbr0 (virt_to_phys lm (l1_addr lm)) s"

definition hello_init :: "pt_state \<Rightarrow> int \<times> pt_state" where
  "hello_init s = (0, backup_os_pt s)"

text \<open>The copy in \<open>pt.c\<close>: the reads are commented out, and the instruction names \<open>c2, c0, 0\<close>.\<close>

definition pt_swatt_arm_set_ttbr1 :: "u32 \<Rightarrow> pt_state \<Rightarrow> pt_state" where
  "pt_swatt_arm_set_ttbr1 value s = s\<lparr>ttbr0 := value\<rparr>"

definition pt_backup_os_pt :: "pt_state \<Rightarrow> pt_state" where
  "pt_backup_os_pt s = s"

definition pt_restore_os_pt :: "pt_state \<Rightarrow> pt_state" where
  "pt_restore_os_pt s =
     (let s = swatt_arm_set_ttbcr (origin_ttbcr s) s;
          s = swatt_arm_set_ttbr0 (origin_ttbr0 s) s
      in pt_swatt_arm_set_ttbr1 (origin_ttbr1 s) s)"

section \<open>Mappings\<close>

definition mm_create1M_mapping :: "u32 \<Rightarrow> u32 \<Rightarrow> u32 \<Rightarrow> pt_state \<Rightarrow> pt_state option" where
  "mm_create1M_mapping vaddr paddr s_ns_access s = do {
     let idx = unat (drop_bit 20 vaddr AND 0xFFF);
     w \<leftarrow> arr_get (l1_pt s) idx;
     l1 \<leftarrow> arr_set (l1_pt s) idx (section_desc paddr s_ns_access w);
     Some (s\<lparr>l1_pt := l1\<rparr>)
   }"

definition mm_get_lv1_entry :: "u32 \<Rightarrow> nat" where
  "mm_get_lv1_entry vaddr = unat (drop_bit 20 vaddr)"

text \<open>The allocator gives the address of the block and the memory with the block in it.\<close>

definition mm_alloc_1k_aligned :: "((u32 \<rightharpoonup> u32) \<Rightarrow> u32 \<times> (u32 \<rightharpoonup> u32)) \<Rightarrow> pt_state \<Rightarrow> u32 \<times> pt_state" where
  "mm_alloc_1k_aligned kmalloc s = (let (addr, m) = kmalloc (kmem s) in (addr AND 0xFFFFFC00, s\<lparr>kmem := m\<rparr>))"

definition kmem_store :: "u32 \<Rightarrow> u32 \<Rightarrow> pt_state \<Rightarrow> pt_state option" where
  "kmem_store a v s = (if kmem s a = None then None else Some (s\<lparr>kmem := (kmem s)(a \<mapsto> v)\<rparr>))"

text \<open>Finding or making the second-level table: the first-level entry, which is stored.\<close>

definition l2_table :: "linear_map \<Rightarrow> ((u32 \<rightharpoonup> u32) \<Rightarrow> u32 \<times> (u32 \<rightharpoonup> u32)) \<Rightarrow> u32 \<Rightarrow> u32 \<Rightarrow> pt_state \<Rightarrow> u32 \<times> pt_state" where
  "l2_table lm kmalloc ns w s =
     (let w = (if get_field 0 2 w = 2 \<or> get_field 10 22 w = 0 then 0 else w) in
      if w = 0 then
        (let (l2_page, s) = mm_alloc_1k_aligned kmalloc s
         in (table_desc (virt_to_phys lm l2_page) ns w, s))
      else (w, s))"

definition mm_create4K_mapping ::
  "linear_map \<Rightarrow> ((u32 \<rightharpoonup> u32) \<Rightarrow> u32 \<times> (u32 \<rightharpoonup> u32)) \<Rightarrow> u32 \<Rightarrow> u32 \<Rightarrow> u32 \<Rightarrow> pt_state \<Rightarrow> pt_state option" where
  "mm_create4K_mapping lm kmalloc vaddr paddr s_ns_access s = do {
     let idx = mm_get_lv1_entry vaddr;
     w \<leftarrow> arr_get (l1_pt s) idx;
     let (w, s) = l2_table lm kmalloc s_ns_access w s;
     l1 \<leftarrow> arr_set (l1_pt s) idx w;
     let s = s\<lparr>l1_pt := l1\<rparr>;
     let l2_offset = drop_bit 12 vaddr AND 0xFF;
     let l2_page_paddr = push_bit 10 (get_field 10 22 w);
     let l2_page = phys_to_virt lm l2_page_paddr;
     kmem_store (l2_page + 4 * l2_offset) (page_desc paddr) s
   }"

definition mm_create_mapping ::
  "linear_map \<Rightarrow> ((u32 \<rightharpoonup> u32) \<Rightarrow> u32 \<times> (u32 \<rightharpoonup> u32)) \<Rightarrow> u32 \<Rightarrow> u32 \<Rightarrow> int \<Rightarrow> pt_state \<Rightarrow> pt_state option" where
  "mm_create_mapping lm kmalloc vaddr paddr create_option s =
     (if create_option = 0 then mm_create1M_mapping vaddr paddr 1 s
      else if create_option = 1 then mm_create4K_mapping lm kmalloc vaddr paddr 1 s
      else Some s)"

section \<open>The table walk\<close>

text \<open>A walk with these tables: the physical address, or \<open>None\<close> for a translation fault.\<close>

definition l2_walk :: "(u32 \<rightharpoonup> u32) \<Rightarrow> u32 \<Rightarrow> u32 \<Rightarrow> u32 option" where
  "l2_walk mem table va = do {
     w \<leftarrow> mem (table + 4 * get_field 12 8 va);
     if bit w 1 then Some (push_bit 12 (get_field 12 20 w) OR take_bit 12 va)
     else if bit w 0 then Some (push_bit 16 (get_field 16 16 w) OR take_bit 16 va)
     else None
   }"

definition pt_walk :: "linear_map \<Rightarrow> pt_state \<Rightarrow> u32 \<Rightarrow> u32 option" where
  "pt_walk lm s va = do {
     w \<leftarrow> arr_get (l1_pt s) (unat (drop_bit 20 va));
     if get_field 0 2 w = 1 then l2_walk (kmem s) (phys_to_virt lm (push_bit 10 (get_field 10 22 w))) va
     else if get_field 0 2 w = 2 then
       (if bit w 18 then Some (push_bit 24 (get_field 24 8 w) OR take_bit 24 va)
        else Some (push_bit 20 (get_field 20 12 w) OR take_bit 20 va))
     else None
   }"

section \<open>Lemmas on fields\<close>

lemma bit_set_field: "bit (set_field lo n v w) i = (if lo \<le> i \<and> i < lo + n \<and> i < 32 then bit v (i - lo) else bit w i)"
  by (auto simp: set_field_def bit_simps not_le dest: bit_imp_le_length)

lemma bit_get_field: "bit (get_field lo n w) i = (i < n \<and> bit w (i + lo))"
  by (auto simp: get_field_def bit_simps ac_simps)

lemma get_set_same [simp]: "lo + n \<le> 32 \<Longrightarrow> get_field lo n (set_field lo n v w) = take_bit n v"
  by (rule bit_word_eqI) (auto simp: bit_get_field bit_set_field bit_simps)

lemma get_set_other [simp]: "lo + n \<le> lo' \<or> lo' + n' \<le> lo \<Longrightarrow> get_field lo n (set_field lo' n' v w) = get_field lo n w"
  by (rule bit_word_eqI) (auto simp: bit_get_field bit_set_field)

lemma take_drop_full [simp]: "take_bit n (drop_bit m (w :: u32)) = drop_bit m w" if "n + m = 32"
  using that by (intro bit_word_eqI) (auto simp: bit_simps dest: bit_imp_le_length)

lemma push_drop_take: "push_bit n (drop_bit n w) = w" if "take_bit n (w :: u32) = 0"
  using that by (metis bits_ident add.right_neutral)

lemma section_desc_fields:
  "get_field 0 2 (section_desc p ns w) = 2" "get_field 20 12 (section_desc p ns w) = drop_bit 20 p"
  "bit (section_desc p ns w) 18 = bit w 18"
  by (simp_all add: section_desc_def Let_def bit_set_field)

lemma section_desc_super: "get_field 24 8 (section_desc p ns w) = drop_bit 24 p"
  by (rule bit_word_eqI)
    (auto simp: section_desc_def Let_def bit_get_field bit_set_field bit_simps add.commute dest: bit_imp_le_length)

lemma table_desc_fields:
  "get_field 0 2 (table_desc p ns w) = 1" "get_field 10 22 (table_desc p ns w) = drop_bit 10 p"
  by (simp_all add: table_desc_def Let_def)

lemma page_desc_fields: "bit (page_desc p) (Suc 0)" "get_field 12 20 (page_desc p) = drop_bit 12 p"
  by (simp_all add: page_desc_def Let_def bit_set_field)

section \<open>Second-level tables\<close>

abbreviation aligned1k :: "u32 \<Rightarrow> bool" where
  "aligned1k x \<equiv> 1024 dvd x"

lemma aligned1k_take_bit: "aligned1k x \<longleftrightarrow> take_bit 10 x = 0"
  using take_bit_eq_0_iff [of 10 x] by simp

definition l2_of :: "linear_map \<Rightarrow> u32 \<Rightarrow> u32" where
  "l2_of lm w = phys_to_virt lm (push_bit 10 (get_field 10 22 w))"

definition map_ok :: "linear_map \<Rightarrow> bool" where
  "map_ok lm \<longleftrightarrow> aligned1k (page_offset lm) \<and> aligned1k (phys_offset lm)"

lemma aligned_l2_of: "map_ok lm \<Longrightarrow> aligned1k (l2_of lm w)"
  by (auto simp: map_ok_def l2_of_def phys_to_virt_def push_bit_eq_mult intro!: dvd_add dvd_diff)

lemma aligned_virt_to_phys: "map_ok lm \<Longrightarrow> aligned1k a \<Longrightarrow> aligned1k (virt_to_phys lm a)"
  by (auto simp: map_ok_def virt_to_phys_def intro!: dvd_add dvd_diff)

lemma l2_of_table_desc: "map_ok lm \<Longrightarrow> aligned1k a \<Longrightarrow> l2_of lm (table_desc (virt_to_phys lm a) ns w) = a"
  using aligned_virt_to_phys [of lm a]
  by (simp add: l2_of_def table_desc_fields push_drop_take aligned1k_take_bit) (simp add: phys_to_virt_def virt_to_phys_def)

lemma l2_of_inj: "l2_of lm w = l2_of lm v \<longleftrightarrow> get_field 10 22 w = get_field 10 22 v"
proof
  assume "l2_of lm w = l2_of lm v"
  then have "push_bit 10 (get_field 10 22 w) = push_bit 10 (get_field 10 22 v)" by (simp add: l2_of_def phys_to_virt_def)
  then have "drop_bit 10 (push_bit 10 (get_field 10 22 w)) = drop_bit 10 (push_bit 10 (get_field 10 22 v))" by simp
  moreover have "drop_bit 10 (push_bit 10 (get_field 10 22 x)) = get_field 10 22 x" for x
    by (rule bit_word_eqI) (auto simp: bit_simps bit_get_field)
  ultimately show "get_field 10 22 w = get_field 10 22 v" by simp
qed (simp add: l2_of_def)

lemma l2_slot_inj:
  assumes "aligned1k x" and "aligned1k y"
  shows "x + 4 * get_field 12 8 a = y + 4 * get_field 12 8 b \<longleftrightarrow> x = y \<and> get_field 12 8 a = get_field 12 8 b"
proof
  have low: "take_bit 10 (x + 4 * get_field 12 8 a) = push_bit 2 (get_field 12 8 a)" if "aligned1k x" for x a
  proof -
    have x: "\<not> bit x i" if "i < 10" for i
      using \<open>aligned1k x\<close> that bit_take_bit_iff [of 10 x i] by (simp add: aligned1k_take_bit)
    have "x AND push_bit 2 (get_field 12 8 a) = 0"
      by (rule bit_word_eqI) (use x in \<open>auto simp: bit_simps bit_get_field\<close>)
    then have "x + 4 * get_field 12 8 a = x OR push_bit 2 (get_field 12 8 a)"
      by (simp add: disjunctive_add_eq_or push_bit_eq_mult mult.commute)
    then show ?thesis
      by (intro bit_word_eqI) (use x in \<open>auto simp: bit_simps bit_get_field\<close>)
  qed
  assume eq: "x + 4 * get_field 12 8 a = y + 4 * get_field 12 8 b"
  with low [OF assms(1), of a] low [OF assms(2), of b]
  have "drop_bit 2 (push_bit 2 (get_field 12 8 a)) = drop_bit 2 (push_bit 2 (get_field 12 8 b))" by simp
  moreover have "drop_bit 2 (push_bit 2 (get_field 12 8 z)) = get_field 12 8 z" for z
    by (rule bit_word_eqI) (auto simp: bit_simps bit_get_field)
  ultimately have "get_field 12 8 a = get_field 12 8 b" by simp
  with eq show "x = y \<and> get_field 12 8 a = get_field 12 8 b" by simp
qed simp

lemma slot_eq: "4 * get_field 12 8 a = 4 * get_field 12 8 b \<longleftrightarrow> get_field 12 8 a = get_field 12 8 b"
  using l2_slot_inj [of 0 0 a b] by simp

lemma same_page: "drop_bit 12 x = drop_bit 12 (y :: u32) \<longleftrightarrow> drop_bit 20 x = drop_bit 20 y \<and> get_field 12 8 x = get_field 12 8 y"
proof
  assume *: "drop_bit 12 x = drop_bit 12 y"
  then have "drop_bit 8 (drop_bit 12 x) = drop_bit 8 (drop_bit 12 y)" by (rule arg_cong)
  then have "drop_bit 20 x = drop_bit 20 y" by (simp only: drop_bit_drop_bit) simp
  with * show "drop_bit 20 x = drop_bit 20 y \<and> get_field 12 8 x = get_field 12 8 y" by (simp add: get_field_def)
next
  assume *: "drop_bit 20 x = drop_bit 20 y \<and> get_field 12 8 x = get_field 12 8 y"
  have "bit x (i + 12) = bit y (i + 12)" for i
  proof (cases "i < 8")
    case True
    with * have "bit (get_field 12 8 x) i = bit (get_field 12 8 y) i" by simp
    with True show ?thesis by (simp add: bit_get_field)
  next
    case False
    with * have "bit (drop_bit 20 x) (i - 8) = bit (drop_bit 20 y) (i - 8)" by simp
    with False show ?thesis by (simp add: bit_simps add.commute)
  qed
  then show "drop_bit 12 x = drop_bit 12 y" by (intro bit_word_eqI) (simp add: bit_simps add.commute)
qed

section \<open>The tables stay well formed\<close>

text \<open>
  Every first-level entry is empty, a section, or points to a second-level table that is allocated and
  belongs to no other entry.
\<close>

definition pt_ok :: "linear_map \<Rightarrow> pt_state \<Rightarrow> bool" where
  "pt_ok lm s \<longleftrightarrow> map_ok lm \<and> length (l1_pt s) = 4096 \<and>
     (\<forall>i < 4096. l1_pt s ! i = 0 \<or> get_field 0 2 (l1_pt s ! i) = 2 \<or> get_field 0 2 (l1_pt s ! i) = 1) \<and>
     (\<forall>i < 4096. get_field 0 2 (l1_pt s ! i) = 1 \<longrightarrow> get_field 10 22 (l1_pt s ! i) \<noteq> 0 \<and>
        (\<forall>x. kmem s (l2_of lm (l1_pt s ! i) + 4 * get_field 12 8 x) \<noteq> None)) \<and>
     (\<forall>i < 4096. \<forall>j < 4096. i \<noteq> j \<longrightarrow> get_field 0 2 (l1_pt s ! i) = 1 \<longrightarrow> get_field 0 2 (l1_pt s ! j) = 1 \<longrightarrow>
        l2_of lm (l1_pt s ! i) \<noteq> l2_of lm (l1_pt s ! j))"

text \<open>
  What the code relies on in the allocator: the block is new, its first kilobyte is aligned and not at physical address 0,
  and what was allocated before is unchanged.
\<close>

definition block_ok :: "linear_map \<Rightarrow> (u32 \<rightharpoonup> u32) \<Rightarrow> u32 \<times> (u32 \<rightharpoonup> u32) \<Rightarrow> bool" where
  "block_ok lm m r \<longleftrightarrow> (case r of (a, m') \<Rightarrow> aligned1k a \<and> drop_bit 10 (virt_to_phys lm a) \<noteq> 0 \<and> m \<subseteq>\<^sub>m m' \<and>
     (\<forall>x. m (a + 4 * get_field 12 8 x) = None \<and> m' (a + 4 * get_field 12 8 x) \<noteq> None))"

lemma and_aligned: "aligned1k a \<Longrightarrow> a AND 0xFFFFFC00 = a" for a :: u32
proof -
  assume "aligned1k a"
  then have a: "\<not> bit a i" if "i < 10" for i
    using that bit_take_bit_iff [of 10 a i] by (simp add: aligned1k_take_bit)
  have "a AND NOT (mask 10) = a" by (intro bit_word_eqI) (use a in \<open>auto simp: bit_simps\<close>)
  moreover have "0xFFFFFC00 = NOT (mask 10 :: u32)" by (simp add: mask_eq_exp_minus_1)
  ultimately show ?thesis by (simp only:)
qed

lemma l1_index: "unat (drop_bit 20 (va :: u32)) < 4096"
proof -
  have "unat va < 2 ^ 32" using unsigned_less [of va, where ?'a = nat] by simp
  then show ?thesis unfolding unat_drop_bit_eq by (simp add: drop_bit_eq_div)
qed

text \<open>The entry after the first part of \<open>mm_create4K_mapping\<close>: a table, old or new.\<close>

lemma l2_table_old:
  "get_field 0 2 w = 1 \<Longrightarrow> get_field 10 22 w \<noteq> 0 \<Longrightarrow> l2_table lm kmalloc ns w s = (w, s)"
  by (auto simp: l2_table_def get_field_def)

lemma l2_table_new:
  assumes "w = 0 \<or> get_field 0 2 w = 2" and "block_ok lm (kmem s) (kmalloc (kmem s))"
  shows "l2_table lm kmalloc ns w s =
    (table_desc (virt_to_phys lm (fst (kmalloc (kmem s)))) ns 0, s\<lparr>kmem := snd (kmalloc (kmem s))\<rparr>)"
  using assms
  by (auto simp: l2_table_def mm_alloc_1k_aligned_def block_ok_def case_prod_unfold and_aligned Let_def get_field_def)

text \<open>Storing entry \<open>w\<close> for a table at \<open>l2_of lm w\<close>, and a page descriptor in that table.\<close>

definition put_page :: "linear_map \<Rightarrow> u32 \<Rightarrow> u32 \<Rightarrow> u32 \<Rightarrow> (u32 \<rightharpoonup> u32) \<Rightarrow> pt_state \<Rightarrow> pt_state" where
  "put_page lm w va pa m s = s\<lparr>l1_pt := (l1_pt s)[unat (drop_bit 20 va) := w],
     kmem := m(l2_of lm w + 4 * get_field 12 8 va \<mapsto> page_desc pa)\<rparr>"

definition table_ok :: "linear_map \<Rightarrow> u32 \<Rightarrow> nat \<Rightarrow> (u32 \<rightharpoonup> u32) \<Rightarrow> pt_state \<Rightarrow> bool" where
  "table_ok lm w i m s \<longleftrightarrow> get_field 0 2 w = 1 \<and> get_field 10 22 w \<noteq> 0 \<and> kmem s \<subseteq>\<^sub>m m \<and>
     (\<forall>x. m (l2_of lm w + 4 * get_field 12 8 x) \<noteq> None) \<and>
     (\<forall>j < 4096. j \<noteq> i \<longrightarrow> get_field 0 2 (l1_pt s ! j) = 1 \<longrightarrow> l2_of lm (l1_pt s ! j) \<noteq> l2_of lm w)"

lemma put_page_ok:
  assumes s: "pt_ok lm s" and w: "table_ok lm w (unat (drop_bit 20 va)) m s"
  shows "pt_ok lm (put_page lm w va pa m s)"
proof -
  have "m (l2_of lm (l1_pt s ! i) + 4 * get_field 12 8 x) \<noteq> None" if "i < 4096" "get_field 0 2 (l1_pt s ! i) = 1" for i x
  proof -
    have "kmem s (l2_of lm (l1_pt s ! i) + 4 * get_field 12 8 x) \<noteq> None" using s that unfolding pt_ok_def by blast
    with w show ?thesis unfolding table_ok_def map_le_def by (metis domIff)
  qed
  moreover have "l2_of lm (l1_pt s ! j) \<noteq> l2_of lm w \<and> l2_of lm w \<noteq> l2_of lm (l1_pt s ! j)"
    if "j < 4096" "j \<noteq> unat (drop_bit 20 va)" "get_field 0 2 (l1_pt s ! j) = 1" for j
    using w that unfolding table_ok_def by metis
  ultimately show ?thesis
    using s w l1_index [of va] unfolding pt_ok_def put_page_def table_ok_def by (auto simp: nth_list_update)
qed

lemma walk_put_page:
  assumes s: "pt_ok lm s" and w: "table_ok lm w (unat (drop_bit 20 va)) m s"
  shows "pt_walk lm (put_page lm w va pa m s) x =
    (if drop_bit 12 x = drop_bit 12 va then Some (push_bit 12 (drop_bit 12 pa) OR take_bit 12 x)
     else if drop_bit 20 x = drop_bit 20 va then l2_walk m (l2_of lm w) x
     else pt_walk lm s x)"
proof (cases "drop_bit 20 x = drop_bit 20 va")
  case True
  have "map_ok lm" "length (l1_pt s) = 4096" using s by (simp_all add: pt_ok_def)
  with True w l1_index [of va] show ?thesis
    by (auto simp: pt_walk_def put_page_def l2_walk_def table_ok_def page_desc_fields same_page slot_eq l2_of_def [symmetric])
next
  case False
  let ?v = "l1_pt s ! unat (drop_bit 20 x)"
  have ok: "map_ok lm" "length (l1_pt s) = 4096" using s by (simp_all add: pt_ok_def)
  have ne: "unat (drop_bit 20 x) \<noteq> unat (drop_bit 20 va)" using False by (simp add: word_unat_eq_iff)
  have "(m(l2_of lm w + 4 * get_field 12 8 va \<mapsto> page_desc pa)) (l2_of lm ?v + 4 * get_field 12 8 x) =
      kmem s (l2_of lm ?v + 4 * get_field 12 8 x)" if v: "get_field 0 2 ?v = 1"
  proof -
    have "l2_of lm ?v \<noteq> l2_of lm w" using w v ne l1_index [of x] unfolding table_ok_def by blast
    moreover have "kmem s (l2_of lm ?v + 4 * get_field 12 8 x) \<noteq> None" using s v l1_index [of x] unfolding pt_ok_def by blast
    moreover from this have "m (l2_of lm ?v + 4 * get_field 12 8 x) = kmem s (l2_of lm ?v + 4 * get_field 12 8 x)"
      using w unfolding table_ok_def map_le_def by (metis domIff)
    ultimately show ?thesis
      using l2_slot_inj [OF aligned_l2_of aligned_l2_of, OF ok(1) ok(1), of ?v x w va] by simp
  qed
  with False ne ok l1_index [of x] show ?thesis
    by (auto simp: pt_walk_def put_page_def l2_walk_def same_page l2_of_def [symmetric] simp del: fun_upd_apply)
qed

lemma table_ok_old:
  "pt_ok lm s \<Longrightarrow> i < 4096 \<Longrightarrow> get_field 0 2 (l1_pt s ! i) = 1 \<Longrightarrow> table_ok lm (l1_pt s ! i) i (kmem s) s"
  by (simp add: pt_ok_def table_ok_def)

lemma table_ok_new:
  assumes s: "pt_ok lm s" and b: "block_ok lm (kmem s) (a, m)"
  shows "table_ok lm (table_desc (virt_to_phys lm a) ns 0) i m s"
proof -
  have "l2_of lm (table_desc (virt_to_phys lm a) ns 0) = a"
    using s b by (simp add: pt_ok_def block_ok_def l2_of_table_desc)
  moreover have "l2_of lm (l1_pt s ! j) \<noteq> a" if "j < 4096" "get_field 0 2 (l1_pt s ! j) = 1" for j
  proof -
    have "kmem s (l2_of lm (l1_pt s ! j) + 4 * get_field 12 8 0) \<noteq> None" using s that unfolding pt_ok_def by blast
    moreover have "kmem s (a + 4 * get_field 12 8 0) = None" using b unfolding block_ok_def by blast
    ultimately show ?thesis by auto
  qed
  ultimately show ?thesis using b unfolding table_ok_def block_ok_def by (simp add: table_desc_fields)
qed

lemma create4K_put_page:
  assumes w: "table_ok lm w (unat (drop_bit 20 va)) m s" and "length (l1_pt s) = 4096"
    and "l2_table lm kmalloc 1 (l1_pt s ! unat (drop_bit 20 va)) s = (w, s\<lparr>kmem := m\<rparr>)"
  shows "mm_create_mapping lm kmalloc va pa 1 s = Some (put_page lm w va pa m s)"
proof -
  have "drop_bit 12 va AND 0xFF = get_field 12 8 va"
    using take_bit_eq_mask [of 8 "drop_bit 12 va"] by (simp add: get_field_def mask_eq_exp_minus_1)
  with assms l1_index [of va] show ?thesis
    by (auto simp: mm_create_mapping_def mm_create4K_mapping_def mm_get_lv1_entry_def kmem_store_def put_page_def
        table_ok_def l2_of_def Let_def)
qed

text \<open>
  C18: What a 4 KB mapping does, for every virtual address. The page is mapped to the physical page that was asked
  for. All other megabytes are translated as before, and so are the other pages of the same megabyte if there was a second-level table.
  Otherwise a table is allocated and not initialised: the rest of the megabyte is translated by what the allocated
  memory happens to contain. The tables stay well formed.
\<close>

theorem create4K_maps:
  assumes "pt_ok lm s" and "block_ok lm (kmem s) (kmalloc (kmem s))"
  shows "\<exists>t. mm_create_mapping lm kmalloc va pa 1 s = Some t \<and> pt_ok lm t \<and>
    (\<forall>x. pt_walk lm t x =
      (if drop_bit 12 x = drop_bit 12 va then Some (push_bit 12 (drop_bit 12 pa) OR take_bit 12 x)
       else if drop_bit 20 x = drop_bit 20 va \<and> get_field 0 2 (l1_pt s ! unat (drop_bit 20 va)) \<noteq> 1
         then l2_walk (snd (kmalloc (kmem s))) (fst (kmalloc (kmem s))) x
       else pt_walk lm s x))"
proof (cases "get_field 0 2 (l1_pt s ! unat (drop_bit 20 va)) = 1")
  case True
  let ?w = "l1_pt s ! unat (drop_bit 20 va)"
  have l: "length (l1_pt s) = 4096" using assms(1) by (simp add: pt_ok_def)
  have w: "table_ok lm ?w (unat (drop_bit 20 va)) (kmem s) s" using table_ok_old [OF assms(1) l1_index True] .
  have "l2_table lm kmalloc 1 ?w s = (?w, s\<lparr>kmem := kmem s\<rparr>)" using w by (simp add: table_ok_def l2_table_old)
  moreover have "l2_walk (kmem s) (l2_of lm ?w) x = pt_walk lm s x" if "drop_bit 20 x = drop_bit 20 va" for x
    using that True l l1_index [of va] by (simp add: pt_walk_def l2_of_def)
  ultimately show ?thesis
    using create4K_put_page [OF w l] put_page_ok [OF assms(1) w] walk_put_page [OF assms(1) w] True by auto
next
  case False
  obtain a m where am: "kmalloc (kmem s) = (a, m)" by fastforce
  let ?w = "table_desc (virt_to_phys lm a) 1 0"
  have l: "length (l1_pt s) = 4096" "map_ok lm" using assms(1) by (simp_all add: pt_ok_def)
  have w: "table_ok lm ?w (unat (drop_bit 20 va)) m s" using table_ok_new assms am by simp
  have "l1_pt s ! unat (drop_bit 20 va) = 0 \<or> get_field 0 2 (l1_pt s ! unat (drop_bit 20 va)) = 2"
    using assms(1) False l1_index [of va] unfolding pt_ok_def by blast
  from l2_table_new [OF this, of lm s kmalloc] assms(2) am have "l2_table lm kmalloc 1 (l1_pt s ! unat (drop_bit 20 va)) s = (?w, s\<lparr>kmem := m\<rparr>)"
    by simp
  moreover have "l2_of lm ?w = a" using assms(2) am l by (simp add: block_ok_def l2_of_table_desc)
  ultimately show ?thesis
    using create4K_put_page [OF w l(1)] put_page_ok [OF assms(1) w] walk_put_page [OF assms(1) w] False am by auto
qed

text \<open>
  C32: What a 1 MB mapping does, for every virtual address. Other megabytes are translated as before. The megabyte is
  mapped to the physical megabyte that was asked for if bit 18 of the old entry is clear. That bit is not
  written: if it was set, which for an old second-level table is a bit of its address, the entry is a supersection, and
  the address is translated with 16 MB instead. The tables stay well formed.
\<close>

theorem create1M_maps:
  assumes "pt_ok lm s"
  shows "\<exists>t. mm_create_mapping lm kmalloc va pa 0 s = Some t \<and> pt_ok lm t \<and>
    (\<forall>x. pt_walk lm t x =
      (if drop_bit 20 x \<noteq> drop_bit 20 va then pt_walk lm s x
       else if bit (l1_pt s ! unat (drop_bit 20 va)) 18 then Some (push_bit 24 (drop_bit 24 pa) OR take_bit 24 x)
       else Some (push_bit 20 (drop_bit 20 pa) OR take_bit 20 x)))"
proof -
  let ?i = "unat (drop_bit 20 va)"
  let ?w = "section_desc pa 1 (l1_pt s ! ?i)"
  let ?t = "s\<lparr>l1_pt := (l1_pt s)[?i := ?w]\<rparr>"
  have l: "length (l1_pt s) = 4096" using assms by (simp add: pt_ok_def)
  have "drop_bit 20 va AND 0xFFF = drop_bit 20 va"
    using take_bit_eq_mask [of 12 "drop_bit 20 va"] by (simp add: mask_eq_exp_minus_1)
  then have "mm_create_mapping lm kmalloc va pa 0 s = Some ?t"
    using l l1_index [of va] by (simp add: mm_create_mapping_def mm_create1M_mapping_def Let_def)
  moreover have "pt_ok lm ?t"
    using assms l1_index [of va] unfolding pt_ok_def by (auto simp: nth_list_update section_desc_fields)
  moreover have "pt_walk lm ?t x = (if drop_bit 20 x \<noteq> drop_bit 20 va then pt_walk lm s x
       else if bit (l1_pt s ! ?i) 18 then Some (push_bit 24 (drop_bit 24 pa) OR take_bit 24 x)
       else Some (push_bit 20 (drop_bit 20 pa) OR take_bit 20 x))" for x
    using l l1_index [of va] l1_index [of x]
    by (auto simp: pt_walk_def section_desc_fields section_desc_super nth_list_update dest: word_unat_eq_iff [THEN iffD2])
  ultimately show ?thesis by blast
qed

section \<open>Registers\<close>

lemma create_mapping_registers:
  assumes "mm_create_mapping lm kmalloc va pa opt s = Some t"
  shows "origin_ttbcr t = origin_ttbcr s" "origin_ttbr0 t = origin_ttbr0 s" "origin_ttbr1 t = origin_ttbr1 s"
    "ttbcr t = ttbcr s" "ttbr1 t = ttbr1 s"
  using assms
  by (auto simp: mm_create_mapping_def mm_create1M_mapping_def mm_create4K_mapping_def kmem_store_def l2_table_def
      mm_alloc_1k_aligned_def Let_def case_prod_unfold split: if_splits bind_splits)


section \<open>Witnesses\<close>

text \<open>Memory at \<open>0xC0000000\<close> mapped to \<open>0x80000000\<close>; the allocator hands out one kilobyte at \<open>0xC0100000\<close> that holds all ones.\<close>

definition example_map :: linear_map where
  "example_map = \<lparr>page_offset = 0xC0000000, phys_offset = 0x80000000, l1_addr = 0xC0200000\<rparr>"

definition example_pt :: pt_state where
  "example_pt = \<lparr>ttbr0 = 0x80004000, ttbr1 = 0x80004000, ttbcr = 0, origin_ttbcr = 0, origin_ttbr0 = 0, origin_ttbr1 = 0,
     l1_pt = replicate 4096 0, kmem = (\<lambda>_. None)\<rparr>"

definition example_kmalloc :: "(u32 \<rightharpoonup> u32) \<Rightarrow> u32 \<times> (u32 \<rightharpoonup> u32)" where
  "example_kmalloc m = (0xC0100000, \<lambda>a. if 0xC0100000 \<le> a \<and> a < 0xC0100400 then Some 0xFFFFFFFF else m a)"

lemma example_pt_ok: "pt_ok example_map example_pt"
  by (simp add: pt_ok_def map_ok_def example_map_def example_pt_def get_field_def aligned1k_take_bit)

lemma example_walk: "pt_walk example_map example_pt x = None"
  using l1_index [of x] by (simp add: pt_walk_def example_pt_def get_field_def)

lemma get_field_8: "unat (get_field 12 8 x) < 256"
  unfolding get_field_def unsigned_take_bit_eq using take_bit_nat_less_exp [of 8 "unat (drop_bit 12 x)"] by simp

lemma example_block_ok: "block_ok example_map (kmem example_pt) (example_kmalloc (kmem example_pt))"
proof -
  have "0xC0100000 \<le> 0xC0100000 + 4 * get_field 12 8 x \<and> 0xC0100000 + 4 * get_field 12 8 x < (0xC0100400 :: u32)" for x
  proof -
    have "unat (0xC0100000 + 4 * get_field 12 8 x) = 0xC0100000 + 4 * unat (get_field 12 8 x)"
      using get_field_8 [of x] by (simp add: unat_word_ariths)
    with get_field_8 [of x] show ?thesis by (simp add: word_le_nat_alt word_less_nat_alt)
  qed
  then show ?thesis
    by (simp add: block_ok_def example_kmalloc_def example_map_def example_pt_def aligned1k_take_bit virt_to_phys_def)
qed

theorem create4K_maps_witness:
  "\<exists>t. mm_create_mapping example_map example_kmalloc 0xBF001000 0x80300000 1 example_pt = Some t \<and>
     pt_walk example_map t 0xBF001234 = Some 0x80300234 \<and> pt_walk example_map t 0xBF002234 = Some 0xFFFFF234 \<and>
     pt_walk example_map t 0xBE001234 = None"
proof -
  obtain t where t: "mm_create_mapping example_map example_kmalloc 0xBF001000 0x80300000 1 example_pt = Some t"
    and w: "\<And>x. pt_walk example_map t x =
      (if drop_bit 12 x = drop_bit 12 (0xBF001000 :: u32) then Some (push_bit 12 (drop_bit 12 0x80300000) OR take_bit 12 x)
       else if drop_bit 20 x = drop_bit 20 (0xBF001000 :: u32) \<and> get_field 0 2 (l1_pt example_pt ! unat (drop_bit 20 (0xBF001000 :: u32))) \<noteq> 1
         then l2_walk (snd (example_kmalloc (kmem example_pt))) (fst (example_kmalloc (kmem example_pt))) x
       else pt_walk example_map example_pt x)"
    using create4K_maps [of example_map example_pt example_kmalloc, OF example_pt_ok example_block_ok] by blast
  have "pt_walk example_map t 0xBF001234 = Some 0x80300234" by (simp add: w)
  moreover have "pt_walk example_map t 0xBF002234 = Some 0xFFFFF234"
    by (simp add: w l2_walk_def example_kmalloc_def example_pt_def get_field_def)
  moreover have "pt_walk example_map t 0xBE001234 = None"
    by (simp add: w example_walk)
  ultimately show ?thesis using t by blast
qed

theorem create1M_maps_witness:
  "\<exists>t. mm_create_mapping example_map example_kmalloc 0xBF001000 0x80312345 0 example_pt = Some t \<and>
     pt_walk example_map t 0xBF054321 = Some 0x80354321 \<and> pt_walk example_map t 0xBE001234 = None"
proof -
  obtain t where t: "mm_create_mapping example_map example_kmalloc 0xBF001000 0x80312345 0 example_pt = Some t"
    and w: "\<And>x. pt_walk example_map t x =
      (if drop_bit 20 x \<noteq> drop_bit 20 (0xBF001000 :: u32) then pt_walk example_map example_pt x
       else if bit (l1_pt example_pt ! unat (drop_bit 20 (0xBF001000 :: u32))) 18 then Some (push_bit 24 (drop_bit 24 0x80312345) OR take_bit 24 x)
       else Some (push_bit 20 (drop_bit 20 0x80312345) OR take_bit 20 x))"
    using create1M_maps [OF example_pt_ok] by blast
  have "pt_walk example_map t 0xBF054321 = Some 0x80354321" by (simp add: w example_pt_def)
  moreover have "pt_walk example_map t 0xBE001234 = None"
    by (simp add: w example_walk)
  ultimately show ?thesis using t by blast
qed


end
