(* ===== verification/Cache_Asm.thy ===== *)
theory Cache_Asm
  imports Page_Table
begin

text \<open>
  The cache and MMU functions in assembly of the kernel module, \<open>linux/hello-module/cache.S\<close> and \<open>mmu.S\<close>. A function changes the
  system control coprocessor; the maintenance operations it performs are collected in order, with the barriers between them. The loops are
  recursive functions that may not end; the results say that they do. What a maintenance operation means for a cache is in the
  architecture manual (ARM DDI 0406): an operation by set and way has the level in bits 1 to 3, the set from the bit of the line size on, and the way in
  the upper bits, and one by address is for the line of the address.
\<close>

unbundle bit_operations_syntax

section \<open>The coprocessor\<close>

datatype cache_op = DCCISW u32 | DCISW u32 | DCCMVAC u32 | DCIMVAC u32 | ICIALLU | BPIALL | TLBIALL | ITLBIALL | DMB | DSB | ISB

text \<open>The size registers of the caches are one register, which \<open>csselr\<close> selects.\<close>

record cp15 =
  clidr :: u32
  ccsidr :: "u32 \<Rightarrow> u32"
  csselr :: u32
  sctlr :: u32
  issued :: "cache_op list"

definition issue :: "cache_op list \<Rightarrow> cp15 \<Rightarrow> cp15" where
  "issue xs s = s\<lparr>issued := issued s @ xs\<rparr>"

section \<open>All sets and ways\<close>

text \<open>
  The loops of \<open>v7_flush_dcache_all\<close> and \<open>clean_invalidate_dcache\<close> are the same but for the operation \<open>f\<close>. \<open>SUBS\<close> by 1 and \<open>BGE\<close>
  branch if the value was at least 1. A shift by 32 or more gives 0.
\<close>

partial_function (option) loop3 :: "(u32 \<Rightarrow> cache_op) \<Rightarrow> u32 \<Rightarrow> u32 \<Rightarrow> nat \<Rightarrow> u32 \<Rightarrow> u32 \<Rightarrow> cp15 \<Rightarrow> cp15 option" where
  "loop3 f r10 r2 r5 r7 r9 s =
     (let r11 = r10 OR push_bit r5 r9;
          r11 = r11 OR push_bit (unat r2) r7;
          s = issue [f r11] s in
      if 1 \<le> sint r9 then loop3 f r10 r2 r5 r7 (r9 - 1) s else Some s)"

partial_function (option) loop2 :: "(u32 \<Rightarrow> cache_op) \<Rightarrow> u32 \<Rightarrow> u32 \<Rightarrow> u32 \<Rightarrow> nat \<Rightarrow> u32 \<Rightarrow> cp15 \<Rightarrow> cp15 option" where
  "loop2 f r10 r2 r4 r5 r7 s = do {
     s \<leftarrow> loop3 f r10 r2 r5 r7 r4 s;
     if 1 \<le> sint r7 then loop2 f r10 r2 r4 r5 (r7 - 1) s else Some s
   }"

definition clz :: "u32 \<Rightarrow> nat" where
  "clz w = length (takeWhile (\<lambda>b. \<not> b) (map (bit w) (rev [0..<32])))"

definition level :: "(u32 \<Rightarrow> cache_op) \<Rightarrow> u32 \<Rightarrow> u32 \<Rightarrow> cp15 \<Rightarrow> cp15 option" where
  "level f r0 r10 s =
     (let r2 = r10 + drop_bit 1 r10;
          r1 = drop_bit (unat r2) r0;
          r1 = r1 AND 7 in
      if sint r1 < 2 then Some s
      else
        let s = issue [ISB] (s\<lparr>csselr := r10\<rparr>);
            r1 = ccsidr s (csselr s);
            r2 = r1 AND 7;
            r2 = r2 + 4;
            r4 = 0x3ff AND drop_bit 3 r1;
            r5 = clz r4;
            r7 = 0x7fff AND drop_bit 13 r1 in
        loop2 f r10 r2 r4 r5 r7 s)"

partial_function (option) loop1 :: "(u32 \<Rightarrow> cache_op) \<Rightarrow> u32 \<Rightarrow> u32 \<Rightarrow> u32 \<Rightarrow> cp15 \<Rightarrow> cp15 option" where
  "loop1 f r0 r3 r10 s = do {
     s \<leftarrow> level f r0 r10 s;
     let r10 = r10 + 2;
     if sint r10 < sint r3 then loop1 f r0 r3 r10 s else Some s
   }"

definition dcache_all :: "(u32 \<Rightarrow> cache_op) \<Rightarrow> cp15 \<Rightarrow> cp15 option" where
  "dcache_all f s = do {
     let r0 = clidr s;
     let r3 = r0 AND 0x7000000;
     s \<leftarrow> (if r3 = 0 then Some s else loop1 f r0 (drop_bit 23 r3) 0 s);
     Some (issue [DSB, ISB] (s\<lparr>csselr := 0\<rparr>))
   }"

definition v7_flush_dcache_all :: "cp15 \<Rightarrow> cp15 option" where
  "v7_flush_dcache_all s = dcache_all DCCISW (issue [DMB] s)"

definition clean_invalidate_dcache :: "cp15 \<Rightarrow> cp15 option" where
  "clean_invalidate_dcache s = dcache_all DCISW s"

definition flush_cache_all :: "cp15 \<Rightarrow> cp15 option" where
  "flush_cache_all s = do {
     s \<leftarrow> v7_flush_dcache_all s;
     Some (issue [ICIALLU, DSB, ISB] s)
   }"

section \<open>Lines\<close>

definition flush_page_table_entry :: "u32 \<Rightarrow> cp15 \<Rightarrow> cp15" where
  "flush_page_table_entry r0 s = issue [DCCMVAC r0, DSB, BPIALL, DSB, ISB, DSB] s"

definition invalidate_data_cache_line :: "u32 \<Rightarrow> cp15 \<Rightarrow> cp15" where
  "invalidate_data_cache_line r0 s = issue [DCIMVAC r0, DSB, ISB] s"

definition dcache_line_size :: "cp15 \<Rightarrow> u32" where
  "dcache_line_size s = push_bit (unat (ccsidr s (csselr s) AND 7)) 16"

text \<open>\<open>SUBS\<close> and \<open>BHI\<close> branch if what is left was more than a line.\<close>

partial_function (option) clean_lines :: "u32 \<Rightarrow> u32 \<Rightarrow> u32 \<Rightarrow> cp15 \<Rightarrow> cp15 option" where
  "clean_lines r2 r0 r1 s =
     (let s = issue [DCCMVAC r0] s in
      if r2 < r1 then clean_lines r2 (r0 + r2) (r1 - r2) s else Some s)"

definition clean_dcache_area :: "u32 \<Rightarrow> u32 \<Rightarrow> cp15 \<Rightarrow> cp15 option" where
  "clean_dcache_area r0 r1 s = do {
     s \<leftarrow> clean_lines (dcache_line_size s) r0 r1 s;
     Some (issue [DSB] s)
   }"

section \<open>TLB and control register\<close>

definition flush_tlb_all :: "cp15 \<Rightarrow> cp15" where
  "flush_tlb_all s = issue [ITLBIALL, BPIALL, DSB, ISB] s"

definition arm_invalidate_tlb :: "cp15 \<Rightarrow> cp15" where
  "arm_invalidate_tlb s = issue [TLBIALL] s"

definition arm_invalidate_caches :: "cp15 \<Rightarrow> cp15" where
  "arm_invalidate_caches s = issue [ICIALLU, DCIMVAC 0] s"

definition arm_enable_icache :: "cp15 \<Rightarrow> cp15" where
  "arm_enable_icache s = s\<lparr>sctlr := sctlr s OR 0x1000\<rparr>"

definition arm_enable_dcache :: "cp15 \<Rightarrow> cp15" where
  "arm_enable_dcache s = s\<lparr>sctlr := sctlr s OR 0x0004\<rparr>"

definition arm_disable_caches :: "cp15 \<Rightarrow> cp15" where
  "arm_disable_caches s =
     (let r0 = sctlr s;
          r0 = r0 AND NOT (push_bit 12 1);
          r0 = r0 AND NOT (push_bit 2 1);
          s = issue [DSB] s in
      issue [ISB] (s\<lparr>sctlr := r0\<rparr>))"

definition arm_enable_caches :: "cp15 \<Rightarrow> cp15" where
  "arm_enable_caches s =
     (let r0 = sctlr s;
          r0 = r0 OR push_bit 12 1;
          r0 = r0 OR push_bit 2 1;
          s = issue [DSB, DCIMVAC 0, ICIALLU] s in
      issue [ISB] (s\<lparr>sctlr := r0\<rparr>))"

text \<open>The functions of \<open>mmu.S\<close>.\<close>

definition arm_set_ttbr0 :: "u32 \<Rightarrow> pt_state \<Rightarrow> pt_state" where
  "arm_set_ttbr0 r0 s = s\<lparr>ttbr0 := r0\<rparr>"

definition arm_read_ttbr0 :: "pt_state \<Rightarrow> u32" where
  "arm_read_ttbr0 s = ttbr0 s"

definition arm_set_ttbr1 :: "u32 \<Rightarrow> pt_state \<Rightarrow> pt_state" where
  "arm_set_ttbr1 r0 s = s\<lparr>ttbr1 := r0\<rparr>"

definition arm_read_ttbr1 :: "pt_state \<Rightarrow> u32" where
  "arm_read_ttbr1 s = ttbr1 s"

definition arm_set_ttbcr :: "u32 \<Rightarrow> pt_state \<Rightarrow> pt_state" where
  "arm_set_ttbcr r0 s = s\<lparr>ttbcr := r0\<rparr>"

definition arm_get_ttbcr :: "pt_state \<Rightarrow> u32" where
  "arm_get_ttbcr s = ttbcr s"

section \<open>Every set and way is visited\<close>

text \<open>The geometry of a cache and the operand for one of its lines, from the architecture manual.\<close>

definition ways :: "u32 \<Rightarrow> nat" where
  "ways c = unat (0x3ff AND drop_bit 3 c) + 1"

definition sets :: "u32 \<Rightarrow> nat" where
  "sets c = unat (0x7fff AND drop_bit 13 c) + 1"

definition set_way :: "nat \<Rightarrow> u32 \<Rightarrow> nat \<Rightarrow> nat \<Rightarrow> u32" where
  "set_way l c k w = (of_nat (2 * l) OR push_bit (clz (of_nat (ways c - 1))) (of_nat w)) OR push_bit (unat (c AND 7) + 4) (of_nat k)"

definition loc :: "u32 \<Rightarrow> nat" where
  "loc r = unat (drop_bit 24 r AND 7)"

definition has_dcache :: "u32 \<Rightarrow> nat \<Rightarrow> bool" where
  "has_dcache r l \<longleftrightarrow> 2 \<le> drop_bit (3 * l) r AND 7"

lemma issue_issue [simp]: "issue ys (issue xs s) = issue (xs @ ys) s"
  by (simp add: issue_def)

lemma issue_fields [simp]: "clidr (issue xs s) = clidr s" "ccsidr (issue xs s) = ccsidr s" "csselr (issue xs s) = csselr s"
  by (simp_all add: issue_def)

lemma sint_of_nat_small: "w < 2 ^ 31 \<Longrightarrow> sint (of_nat w :: u32) = int w"
  by (simp add: sint_uint unsigned_of_nat take_bit_nat_eq_self signed_take_bit_int_eq_self)

lemma word_pred: "of_nat (Suc w) - 1 = (of_nat w :: u32)"
  by simp

lemma loop3_ways:
  "w < 2 ^ 31 \<Longrightarrow> loop3 f r10 r2 r5 r7 (of_nat w) s =
    Some (issue (map (\<lambda>i. f ((r10 OR push_bit r5 (of_nat i)) OR push_bit (unat r2) r7)) (rev [0..<Suc w])) s)"
proof (induction w arbitrary: s)
  case 0
  then show ?case by (subst loop3.simps) simp
next
  case (Suc w)
  have "1 \<le> sint (of_nat (Suc w) :: u32)" using sint_of_nat_small [OF Suc.prems] by simp
  then show ?case using Suc by (subst loop3.simps) (simp add: word_pred del: of_nat_Suc)
qed

lemma loop2_sets:
  assumes "w < 2 ^ 31"
  shows "k < 2 ^ 31 \<Longrightarrow> loop2 f r10 r2 (of_nat w) r5 (of_nat k) s =
    Some (issue (concat (map (\<lambda>j. map (\<lambda>i. f ((r10 OR push_bit r5 (of_nat i)) OR push_bit (unat r2) (of_nat j))) (rev [0..<Suc w])) (rev [0..<Suc k]))) s)"
proof (induction k arbitrary: s)
  case 0
  then show ?case using loop3_ways [OF assms] by (subst loop2.simps) simp
next
  case (Suc k)
  have "1 \<le> sint (of_nat (Suc k) :: u32)" using sint_of_nat_small [OF Suc.prems] by simp
  then show ?case using Suc loop3_ways [OF assms] by (subst loop2.simps) (simp add: word_pred del: of_nat_Suc)
qed

text \<open>The operations for a level of the hierarchy.\<close>

definition level_ops :: "(u32 \<Rightarrow> cache_op) \<Rightarrow> cp15 \<Rightarrow> nat \<Rightarrow> cache_op list" where
  "level_ops f s l =
     (let c = ccsidr s (of_nat (2 * l)) in
      if has_dcache (clidr s) l then ISB # concat (map (\<lambda>k. map (\<lambda>w. f (set_way l c k w)) (rev [0..<ways c])) (rev [0..<sets c])) else [])"

lemma and_small: "unat (x AND 7 :: u32) < 8" "unat (0x3ff AND x :: u32) < 0x400" "unat (0x7fff AND x :: u32) < 0x8000"
proof -
  have "x AND 7 = take_bit 3 x" "0x3ff AND x = take_bit 10 x" "0x7fff AND x = take_bit 15 x"
    by (simp_all add: take_bit_eq_mask mask_eq_exp_minus_1 and.commute)
  then show "unat (x AND 7) < 8" "unat (0x3ff AND x) < 0x400" "unat (0x7fff AND x) < 0x8000"
    using take_bit_nat_less_exp [of 3 "unat x"] take_bit_nat_less_exp [of 10 "unat x"] take_bit_nat_less_exp [of 15 "unat x"]
    by (simp_all add: unsigned_take_bit_eq)
qed

lemma type_bits: "(sint (x AND 7 :: u32) < 2) = (\<not> 2 \<le> x AND 7)"
proof -
  obtain n where n: "n = unat (x AND 7)" by blast
  then have w: "x AND 7 = of_nat n" by simp
  have "sint (of_nat n :: u32) = int n" using and_small(1) [of x] n by (intro sint_of_nat_small) simp
  moreover have "(2 \<le> x AND 7) = (2 \<le> n)" by (simp add: word_le_nat_alt n)
  ultimately show ?thesis unfolding w by linarith
qed

lemma triple: "l < 8 \<Longrightarrow> unat (of_nat (2 * l) + drop_bit 1 (of_nat (2 * l)) :: u32) = 3 * l"
proof -
  assume "l < 8"
  then have "l \<in> {0, 1, 2, 3, 4, 5, 6, 7}" by auto
  then show ?thesis by (elim insertE) simp_all
qed

lemma level_eq:
  assumes "l < 8"
  shows "\<exists>c. level f (clidr s) (of_nat (2 * l)) s = Some (issue (level_ops f s l) (s\<lparr>csselr := c\<rparr>))"
proof -
  define r10 where "r10 = (of_nat (2 * l) :: u32)"
  define c where "c = ccsidr s r10"
  obtain w k where wk: "w = unat (0x3ff AND drop_bit 3 c)" "k = unat (0x7fff AND drop_bit 13 c)" by blast
  then have e: "0x3ff AND drop_bit 3 c = of_nat w" "0x7fff AND drop_bit 13 c = of_nat k" "ways c = Suc w" "sets c = Suc k"
    by (simp_all add: ways_def sets_def)
  have small: "w < 2 ^ 31" "k < 2 ^ 31" using and_small(2) [of "drop_bit 3 c"] and_small(3) [of "drop_bit 13 c"] wk by simp_all
  have r2: "unat ((c AND 7) + 4) = unat (c AND 7) + 4" using and_small(1) [of c] by (simp add: unat_word_ariths)
  have "set_way l c k' w' = (r10 OR push_bit (clz (of_nat w)) (of_nat w')) OR push_bit (unat ((c AND 7) + 4)) (of_nat k')" for k' w'
    by (simp add: set_way_def r2 e(3) r10_def)
  then have "loop2 f r10 ((c AND 7) + 4) (of_nat w) (clz (of_nat w)) (of_nat k) (issue [ISB] (s\<lparr>csselr := r10\<rparr>)) =
    Some (issue (ISB # concat (map (\<lambda>k. map (\<lambda>w. f (set_way l c k w)) (rev [0..<ways c])) (rev [0..<sets c]))) (s\<lparr>csselr := r10\<rparr>))"
    using loop2_sets [OF small] by (simp add: e(3,4))
  moreover have "unat (r10 + drop_bit 1 r10) = 3 * l" using triple [OF assms] by (simp add: r10_def)
  moreover have "\<exists>d. s = s\<lparr>csselr := d\<rparr>" by (intro exI [of _ "csselr s"]) simp
  ultimately show ?thesis
    unfolding level_def level_ops_def Let_def r10_def [symmetric] c_def [symmetric] type_bits
    by (auto simp: has_dcache_def c_def [symmetric] e(1,2) issue_def)
qed

lemma level_ops_same [simp]: "level_ops f (issue xs s) = level_ops f s" "level_ops f (s\<lparr>csselr := c\<rparr>) = level_ops f s"
  by (simp_all add: level_ops_def fun_eq_iff)

lemma issue_csselr: "(issue xs s)\<lparr>csselr := c\<rparr> = issue xs (s\<lparr>csselr := c\<rparr>)"
  by (simp add: issue_def)

lemma loop1_levels:
  assumes "n < 8" and "Suc l + m = n" and "r = clidr s"
  shows "\<exists>c. loop1 f r (of_nat (2 * n)) (of_nat (2 * l)) s = Some (issue (concat (map (level_ops f s) [l..<n])) (s\<lparr>csselr := c\<rparr>))"
  using assms
proof (induction m arbitrary: l s)
  case 0
  then have l: "l < 8" "[l..<n] = [l]" and e: "of_nat (2 * l) + 2 = (of_nat (2 * n) :: u32)" by auto
  obtain c where "level f (clidr s) (of_nat (2 * l)) s = Some (issue (level_ops f s l) (s\<lparr>csselr := c\<rparr>))" using level_eq [OF l(1)] by blast
  then show ?case unfolding l(2) 0(3) by (subst loop1.simps) (auto simp: e simp del: of_nat_mult)
next
  case (Suc m)
  obtain c where c: "level f (clidr s) (of_nat (2 * l)) s = Some (issue (level_ops f s l) (s\<lparr>csselr := c\<rparr>))"
    using level_eq [of l] Suc.prems by auto
  let ?t = "issue (level_ops f s l) (s\<lparr>csselr := c\<rparr>)"
  have e: "of_nat (2 * l) + 2 = (of_nat (2 * Suc l) :: u32)" by simp
  have "sint (of_nat (2 * Suc l) :: u32) < sint (of_nat (2 * n) :: u32)"
    using Suc.prems sint_of_nat_small [of "2 * Suc l"] sint_of_nat_small [of "2 * n"] by (simp del: of_nat_Suc of_nat_mult)
  moreover obtain c' where "loop1 f r (of_nat (2 * n)) (of_nat (2 * Suc l)) ?t = Some (issue (concat (map (level_ops f ?t) [Suc l..<n])) (?t\<lparr>csselr := c'\<rparr>))"
    using Suc.IH [of "Suc l" ?t] Suc.prems by auto
  moreover have "[l..<n] = l # [Suc l..<n]" using Suc.prems by (simp add: upt_conv_Cons)
  ultimately show ?case
    using c Suc.prems by (subst loop1.simps) (auto simp: e issue_csselr simp del: of_nat_Suc of_nat_mult upt.simps)
qed

lemma loc_bits: "(r AND 0x7000000 = 0) = (loc r = 0)" "drop_bit 23 (r AND 0x7000000) = of_nat (2 * loc r)" "loc r < 8"
proof -
  have m: "(0x7000000 :: u32) = push_bit 24 (mask 3)" "(7 :: u32) = mask 3" by (simp_all add: mask_eq_exp_minus_1)
  have l: "of_nat (loc r) = drop_bit 24 r AND 7" by (simp add: loc_def)
  have p: "r AND 0x7000000 = push_bit 24 (drop_bit 24 r AND 7)"
    unfolding m by (rule bit_word_eqI) (auto simp: bit_simps)
  show "loc r < 8" using and_small(1) by (simp add: loc_def)
  have n: "loc r \<in> {0, 1, 2, 3, 4, 5, 6, 7}" using and_small(1) [of "drop_bit 24 r"] by (auto simp: loc_def)
  then have "push_bit 24 (of_nat (loc r) :: u32) = 0 \<longleftrightarrow> (of_nat (loc r) :: u32) = 0" by (elim insertE) simp_all
  then have "push_bit 24 (drop_bit 24 r AND 7) = 0 \<longleftrightarrow> drop_bit 24 r AND 7 = 0" by (simp add: l)
  with p show "(r AND 0x7000000 = 0) = (loc r = 0)" by (simp add: loc_def unat_eq_0)
  have "drop_bit 23 (push_bit 24 (of_nat (loc r) :: u32)) = of_nat (2 * loc r)" using n by (elim insertE) simp_all
  then show "drop_bit 23 (r AND 0x7000000) = of_nat (2 * loc r)" unfolding p l .
qed

lemma dcache_all_eq:
  "dcache_all f s = Some (issue (concat (map (level_ops f s) [0..<loc (clidr s)]) @ [DSB, ISB]) (s\<lparr>csselr := 0\<rparr>))"
proof (cases "loc (clidr s)")
  case 0
  then show ?thesis by (simp add: dcache_all_def loc_bits issue_csselr)
next
  case (Suc m)
  then obtain c where "loop1 f (clidr s) (of_nat (2 * loc (clidr s))) (of_nat (2 * 0)) s =
      Some (issue (concat (map (level_ops f s) [0..<loc (clidr s)])) (s\<lparr>csselr := c\<rparr>))"
    using loop1_levels [OF loc_bits(3), of 0 m "clidr s" "clidr s" s f] by auto
  moreover have "clidr s AND 0x7000000 \<noteq> 0" using Suc by (simp add: loc_bits(1))
  ultimately show ?thesis unfolding dcache_all_def Let_def loc_bits(2) by (simp add: issue_csselr del: upt.simps)
qed

text \<open>The operands for all lines of all data and unified caches below the level of coherency.\<close>

definition all_lines :: "cp15 \<Rightarrow> u32 set" where
  "all_lines s = {set_way l (ccsidr s (of_nat (2 * l))) k w | l k w.
     l < loc (clidr s) \<and> has_dcache (clidr s) l \<and> k < sets (ccsidr s (of_nat (2 * l))) \<and> w < ways (ccsidr s (of_nat (2 * l)))}"

lemma grid_set: "set (concat (map (\<lambda>k. map (g k) (rev [0..<m])) (rev [0..<n]))) = {g k w | k w. k < n \<and> w < m}"
  by auto blast

lemma level_ops_set:
  "set (level_ops f s l) = (if has_dcache (clidr s) l then insert ISB {f (set_way l (ccsidr s (of_nat (2 * l))) k w) | k w.
     k < sets (ccsidr s (of_nat (2 * l))) \<and> w < ways (ccsidr s (of_nat (2 * l)))} else {})"
  unfolding level_ops_def Let_def by (simp only: list.set grid_set split: if_split) simp


section \<open>Cleaning an area\<close>

lemma clean_lines_eq:
  assumes "0 < r2"
  shows "\<exists>n. clean_lines r2 r0 r1 s = Some (issue (map (\<lambda>i. DCCMVAC (r0 + of_nat i * r2)) [0..<Suc n]) s) \<and>
    unat r1 \<le> Suc n * unat r2 \<and> (0 < r1 \<longrightarrow> n * unat r2 < unat r1)"
  using assms
proof (induction "unat r1" arbitrary: r0 r1 s rule: less_induct)
  case less
  show ?case
  proof (cases "r2 < r1")
    case False
    then show ?thesis
      by (subst clean_lines.simps) (auto simp: word_le_nat_alt not_less word_less_nat_alt intro!: exI [of _ 0])
  next
    case True
    then have "unat (r1 - r2) = unat r1 - unat r2" by (intro unat_sub) simp
    then have u: "unat (r1 - r2) = unat r1 - unat r2" "unat (r1 - r2) < unat r1" "0 < r1 - r2" "unat r2 \<le> unat r1"
      using less.prems True by (simp_all add: word_less_nat_alt)
    obtain n where n: "clean_lines r2 (r0 + r2) (r1 - r2) (issue [DCCMVAC r0] s) =
        Some (issue (map (\<lambda>i. DCCMVAC ((r0 + r2) + of_nat i * r2)) [0..<Suc n]) (issue [DCCMVAC r0] s))"
      "unat (r1 - r2) \<le> Suc n * unat r2" "n * unat r2 < unat (r1 - r2)"
      using less.hyps [OF u(2) less.prems] u(3) by blast
    have m: "map (\<lambda>i. DCCMVAC (r0 + of_nat i * r2)) [0..<Suc (Suc n)] = DCCMVAC r0 # map (\<lambda>i. DCCMVAC ((r0 + r2) + of_nat i * r2)) [0..<Suc n]"
      by (subst upt_conv_Cons) (simp_all add: map_Suc_upt [symmetric] algebra_simps del: upt_Suc)
    have "clean_lines r2 r0 r1 s = Some (issue (map (\<lambda>i. DCCMVAC (r0 + of_nat i * r2)) [0..<Suc (Suc n)]) s)"
      unfolding m using n(1) True by (subst clean_lines.simps) (simp del: upt_Suc)
    moreover have "unat r1 \<le> Suc (Suc n) * unat r2" "Suc n * unat r2 < unat r1" using n(2,3) u(1,4) by simp_all
    ultimately show ?thesis by blast
  qed
qed

lemma line_size: "\<exists>m \<le> 11. unat (dcache_line_size s) = 2 ^ m"
proof -
  let ?k = "unat (ccsidr s (csselr s) AND 7)"
  have k: "?k < 8" by (rule and_small)
  then have "?k \<in> {0, 1, 2, 3, 4, 5, 6, 7}" by auto
  then have "unat (push_bit ?k (16 :: u32)) = 2 ^ (?k + 4)" by (elim insertE) simp_all
  then show ?thesis using k by (intro exI [of _ "?k + 4"]) (simp add: dcache_line_size_def)
qed

text \<open>
  C34: Cleaning an area that starts on a line reaches all of it, and nothing else. \<open>clean_dcache_area\<close> ends for every size; for every byte of the
  area the line of the byte is cleaned, and every line that is cleaned has a byte of the area.
\<close>

theorem clean_area_covers:
  assumes "unat r0 mod unat (dcache_line_size s) = 0" and "0 < r1" and "unat r0 + unat r1 \<le> 2 ^ 32"
  shows "\<exists>t xs. clean_dcache_area r0 r1 s = Some t \<and> issued t = issued s @ map DCCMVAC xs @ [DSB] \<and>
    (\<lambda>x. unat x div unat (dcache_line_size s)) ` set xs = (\<lambda>a. a div unat (dcache_line_size s)) ` {unat r0..<unat r0 + unat r1}"
proof -
  let ?r2 = "dcache_line_size s" and ?L = "unat (dcache_line_size s)"
  obtain m where "?L = 2 ^ m" using line_size by blast
  then have L: "0 < ?L" "0 < ?r2" by (simp_all add: word_less_nat_alt)
  obtain n where n: "clean_lines ?r2 r0 r1 s = Some (issue (map (\<lambda>i. DCCMVAC (r0 + of_nat i * ?r2)) [0..<Suc n]) s)"
    "unat r1 \<le> Suc n * ?L" "n * ?L < unat r1"
    using clean_lines_eq [OF L(2)] assms(2) by blast
  let ?xs = "map (\<lambda>i. r0 + of_nat i * ?r2) [0..<Suc n]"
  have x: "unat (r0 + of_nat i * ?r2) = unat r0 + i * ?L" if "i \<le> n" for i
  proof -
    have "i * ?L \<le> n * ?L" using that by simp
    then have small: "unat r0 + i * ?L < 2 ^ 32" using n(3) assms(3) by linarith
    then show ?thesis by (simp add: unat_word_ariths unsigned_of_nat mod_simps take_bit_nat_def)
  qed
  have d: "(unat r0 + b) div ?L = unat r0 div ?L + b div ?L" for b using assms(1) by (simp add: div_add1_eq)
  have "(\<lambda>x. unat x div ?L) ` set ?xs = (\<lambda>i. unat r0 div ?L + i) ` {..n}"
    using x d L(1) by (force simp: image_image atLeast0LessThan lessThan_Suc_atMost)
  also have "\<dots> = (\<lambda>a. a div ?L) ` {unat r0..<unat r0 + unat r1}"
  proof (intro equalityI subsetI; elim imageE)
    fix y i assume i: "y = unat r0 div ?L + i" "i \<in> {..n}"
    then have "i * ?L < unat r1" using n(3) by (meson atMost_iff le_less_trans mult_le_mono1)
    then show "y \<in> (\<lambda>a. a div ?L) ` {unat r0..<unat r0 + unat r1}"
      using i(1) d [of "i * ?L"] L(1) by (intro image_eqI [of _ _ "unat r0 + i * ?L"]) simp_all
  next
    fix y a assume a: "y = a div ?L" "a \<in> {unat r0..<unat r0 + unat r1}"
    then obtain b where b: "a = unat r0 + b" "b < unat r1" by (metis add_less_cancel_left atLeastLessThan_iff le_Suc_ex)
    then have "b div ?L < Suc n" using n(2) L(1) by (simp add: div_less_iff_less_mult)
    then show "y \<in> (\<lambda>i. unat r0 div ?L + i) ` {..n}" using a(1) b(1) d by auto
  qed
  finally have "(\<lambda>x. unat x div ?L) ` set ?xs = (\<lambda>a. a div ?L) ` {unat r0..<unat r0 + unat r1}" .
  with n(1) show ?thesis
    by (intro exI [of _ ?xs] exI [of _ "issue (map DCCMVAC ?xs @ [DSB]) s"] conjI) (simp_all add: clean_dcache_area_def issue_def o_def del: upt_Suc)
qed

definition example_cp15 :: cp15 where
  "example_cp15 = \<lparr>clidr = 0x0a000023, ccsidr = (\<lambda>l. if l = 0 then 0xe007e01a else 0xf03fe03a), csselr = 0, sctlr = 0, issued = []\<rparr>"

theorem clean_area_covers_witness:
  "\<exists>t xs. clean_dcache_area 0x80001000 100 example_cp15 = Some t \<and> issued t = map DCCMVAC xs @ [DSB] \<and> (\<lambda>x. unat x div 64) ` set xs = {0x2000040, 0x2000041}"
proof -
  have L: "dcache_line_size example_cp15 = 64" "issued example_cp15 = []" by (simp_all add: dcache_line_size_def example_cp15_def)
  have "(\<lambda>a. a div 64) ` {0x80001000..<0x80001000 + 100} = {0x2000040, 0x2000041 :: nat}"
  proof (intro equalityI subsetI)
    fix y :: nat assume "y \<in> {0x2000040, 0x2000041}"
    then show "y \<in> (\<lambda>a. a div 64) ` {0x80001000..<0x80001000 + 100}"
      by (intro image_eqI [of _ _ "64 * y"]) auto
  qed auto
  with clean_area_covers [of "0x80001000" example_cp15 100] L show ?thesis by simp
qed

text \<open>An area that starts inside of a line can have a last line that is not cleaned.\<close>

theorem clean_area_unaligned:
  "\<exists>t. clean_dcache_area 0x8000103c 8 example_cp15 = Some t \<and> issued t = [DCCMVAC 0x8000103c, DSB] \<and>
     (0x80001040 :: nat) \<in> {0x8000103c..<0x8000103c + 8} \<and> (0x80001040 :: nat) div 64 \<noteq> 0x8000103c div 64"
proof -
  have "clean_lines 64 0x8000103c 8 example_cp15 = Some (issue [DCCMVAC 0x8000103c] example_cp15)"
    by (subst clean_lines.simps) simp
  then show ?thesis by (simp add: clean_dcache_area_def dcache_line_size_def example_cp15_def issue_def)
qed

end
