(* ===== verification/Spec2Isabelle.thy ===== *)
theory Spec2Isabelle
  imports Viper_Main Attestation Smsc_Probe Smsc_Variants Cache_Asm
begin

text \<open>
  \<^bold>\<open>Software-based attestation on a network card and a Gumstix board.\<close>

  The repository has two attestation systems. The first one, \<open>code/app/viper\<close>, attests the firmware of an Alteon network
  card: a tool dumps the firmware, searches for nonces that make a checksum loop read all of it, simulates the loop on the dump, and compares
  results and times with the card. The second one attests an ARM board: the Ethernet driver
  \<open>code/nic-driver/smsc/smsc911x.c\<close> answers ICMP packets of type 2 with a checksum that hand-written assembly computes over its own
  code, and \<open>icmp_client/icmp.c\<close> sends the challenge and measures the time. \<open>linux/hello-module\<close> prepares page tables for
  such a checksum.

  \<^bold>\<open>Conventions.\<close> C integers are words of their width, so all arithmetic wraps as in C. A function that can go wrong returns an
  option: \<open>None\<close> is an access outside of an array, a failed \<open>BUG_ON\<close>, a lock taken twice, or the use of a null pointer. Error codes are
  ordinary results. State is passed explicitly. Code outside of the repository (network card, chip, file system, allocator, PHY library, clock)
  is an argument of the definitions; what is required of it is a hypothesis of the theorems that need it, and each witness instantiates it.

  \<^bold>\<open>Theories.\<close>

  \<^item> \<open>Vet_Prelude\<close>: word types, checked arrays, bytes and little-endian words, and an interpreter for code with labels: the locale
    \<open>goto_program\<close> gives invariants and termination for all such code.
  \<^item> \<open>Arc4\<close>, \<open>Rand\<close> (\<open>arc4.c\<close>, \<open>rand.c\<close>): the cipher keeps a permutation and inverts itself; the random bytes are a counter-mode stream
    with a constant key.
  \<^item> \<open>Viper_Mem\<close>, \<open>Viper_Blocks\<close>, \<open>Viper_Nonce\<close>, \<open>Viper_Checksum\<close>, \<open>Viper_Main\<close> (\<open>viper/simulator.c\<close> and \<open>app/simulator.c\<close>): the global
    variables and coverage marks; the eight blocks of the checksum in both copies; \<open>generate_nonce\<close>, which returns, stays within its pool and only keeps
    nonces that cover something new; \<open>checksum_simulator\<close>, which records the checksums of a specification and replays a generated pool; the accesses to the card, the
    round trip through the file and \<open>main\<close>.
  \<^item> \<open>Arm_Machine\<close>, \<open>Arm_Swatt\<close>, \<open>Arm_Calls\<close>, \<open>Arm_Spec\<close> (the assembly of \<open>smsc911x.c\<close>): the instructions used, the three checksum functions as
    lists of instructions, their calls from C, and a specification of the checksum they implement. The locale \<open>checksum_code\<close> has what the genuine and the forged code share and is interpreted
    on both. The forged code is proved to leave the same checksum as the genuine one.
  \<^item> \<open>Smsc_Regs\<close>, \<open>Smsc_Bus\<close>: registers, private data of the driver and its accesses to the chip. The locale \<open>register_access\<close> is the contract of
    \<open>pdata->ops\<close>, interpreted on the plain and on the shifted functions, for both bus widths.
  \<^item> \<open>Smsc_Mac\<close>, \<open>Smsc_Phy\<close>: MAC and PHY registers, MAC address, multicast filter, link changes, loopback test, reset.
  \<^item> \<open>Inet_Checksum\<close>: \<open>checksum\<close> of the driver and of the client as a one's complement sum.
  \<^item> \<open>Smsc_Net\<close>, \<open>Smsc_Ethtool\<close>: sending, receiving and answering packets, the poll loop, the interrupt handler, open and stop; ioctl, register dump,
    EEPROM, power management.
  \<^item> \<open>Smsc_Driver\<close>: the calls of the kernel as steps of a transition system. From every reachable state each call returns and keeps the state well formed.
  \<^item> \<open>Smsc_Probe\<close>: binding and unbinding the driver, with the resources it holds.
  \<^item> \<open>Page_Table\<close> (\<open>hello-module.c\<close>, \<open>pt.c\<close>): the mappings, judged by the table walk of the processor, and the translation registers.
  \<^item> \<open>Icmp_Client\<close> (\<open>icmp.c\<close>): request, receive loop and verdict.
  \<^item> \<open>Attestation\<close>, and the property below: client, driver and checksum code composed.

  \<^bold>\<open>How the proofs work.\<close> Driver functions have rules for the predicate \<open>holds\<close> (the call returns, and the result satisfies a
  postcondition), collected in \<open>drv_rules\<close>; a new function is proved by unfolding it and applying them. \<open>kept\<close> and \<open>frame\<close> say what a call leaves alone.
  Properties of the chip (\<open>mac_chip\<close>, \<open>e2p_chip\<close>, \<open>tx_drains\<close>, \<open>tx_fifo_of\<close>, \<open>rx_ok\<close>, \<open>rx_bounded\<close>) are what the data sheet says of
  its registers.

  \<^bold>\<open>Bounds.\<close> No definition takes fuel. Polling loops recurse on the counters of the code; the label code of the simulator is a partial function of the option monad that is
  proved to return; \<open>smsc911x_tx_update_txcounters\<close>, whose loop has no counter, is one too, and \<open>tx_drains\<close> is what makes it end. The checksum loop runs \<open>0x200000\<close> rounds,
  and \<open>generate_nonce\<close> at most \<open>LOOP_COUNT\<close>, as the constants of the code say.

  \<^bold>\<open>Not modelled.\<close> Debug output; the passing of time in delays (except for the time the client measures and the sleep in \<open>smsc911x_open\<close>,
  in which the interrupt may arrive); preemption in the middle of a call; TLB and caches, and with them the assembly in \<open>cache.S\<close> and \<open>mmu.S\<close>, which the Makefile
  does not build; the older copies \<open>smsc911x_no_attack.c\<close> and \<open>smsc911x_db_attack.c\<close> of the driver, whose functions are those of \<open>smsc911x.c\<close> without the
  packets; ethtool's link settings and the registration of the module, which only call the kernel; shell scripts; and the vendored kernel, apart from the functions
  on socket buffers, addresses, NAPI, CRC and device state that the driver relies on.
\<close>

unbundle bit_operations_syntax

section \<open>The attestation protocol\<close>

text \<open>
  C1: A round of the protocol on a genuine device. The request the client sends is in the receive FIFO of the chip,
  in an Ethernet frame. Then the driver answers it itself: it passes nothing up, and it writes one packet to the transmit FIFO, addressed
  to the sender of the request. When the client receives that packet, it prints the eight words that the
  specification of the checksum gives for its challenge on the memory of the device, and accepts exactly when less than 1.1 seconds have passed.
\<close>

theorem attestation_round:
  assumes "ready s" and "tx_drains h (port s)" and "tx_fifo_of h (port s) fifo" and "cfg_flags (config s) AND SMSC911X_SWAP_FIFO = 0"
    and "\<And>d. fifo (snd (chip_read h (port s) RX_DATA_FIFO d)) = fifo d"
    and "swatt_env sp A ra ch m" and "apart A 0 ch m"
    and "length chal = 64" and "length stack = 240" and "sock \<noteq> -1" and "client_main 2 sock chal stack smts [] = (Some req, None)"
    and "rx_bytes_of h (port s) 298 (chip s) = pad @ dst @ src @ [8, 0] @ ip @ ipsrc @ ipdst @ req @ crc"
    and "length pad = 2" and "length dst = 6" and "length src = 6" and "length ip = 12" and "length ipsrc = 4" and "length ipdst = 4"
    and "length crc = 4" and "ip ! 9 = 1"
  shows "\<exists>t ds. rx_packet h (arm_swatt sp A ra ch m) db 298 up s = Some (up, t) \<and> fifo (chip t) = fifo (chip s) @ ds \<and>
    take 34 (tx_packet ds) = src @ dst @ [8, 0] @ ip @ ipdst @ ipsrc \<and>
    client_main 2 sock chal stack smts [(Recv (drop 14 (tx_packet ds)), rmts)] =
      (Some req, Some (Verdict (expected_words A ch m chal) (time_diff smts rmts) (time_diff smts rmts < 1100000000)))"
  using assms by (rule round_words)

definition example_frame :: "u8 list \<Rightarrow> u8 list" where
  "example_frame req = [0, 0] @ [2, 0, 0, 0, 0, 9] @ [2, 0, 0, 0, 0, 7] @ [8, 0] @
     [0x45, 0, 1, 24, 0, 0, 0, 0, 64, 1, 0, 0] @ [10, 0, 0, 7] @ [10, 0, 0, 9] @ req @ [1, 2, 3, 4]"

theorem attestation_round_witness:
  "\<exists>req t ds. rx_packet fifo_hw (arm_swatt example_sp 0x40000000 12 0x80000000 (example_arm (\<lambda>a. a))) Some 298 []
       (fifo_drv [] (words_of_bytes (example_frame req))) = Some ([], t) \<and> tx_data (chip t) = ds \<and>
     client_main 2 3 (replicate 64 5) (replicate 240 0) (7, 0) [(Recv (drop 14 (tx_packet ds)), (8, 99000000))] =
       (Some req, Some (Verdict (expected_words 0x40000000 0x80000000 (example_arm (\<lambda>a. a)) (replicate 64 5)) 1099000000 True))"
proof -
  let ?f = "\<lambda>req. fifo_drv [] (words_of_bytes (example_frame req))"
  obtain req where req: "client_main 2 3 (replicate 64 5) (replicate 240 0) (7, 0) [] = (Some req, None)" "length req = 260"
    by (simp add: client_main_def Let_def length_build_packet)
  have b: "rx_bytes_of fifo_hw (port (?f req)) 298 (chip (?f req)) = [0, 0] @ [2, 0, 0, 0, 0, 9] @ [2, 0, 0, 0, 0, 7] @ [8, 0] @
     [0x45, 0, 1, 24, 0, 0, 0, 0, 64, 1, 0, 0] @ [10, 0, 0, 7] @ [10, 0, 0, 9] @ req @ [1, 2, 3, 4]"
    unfolding example_frame_def [symmetric] using req(2) by (intro fifo_rx_bytes) (simp add: example_frame_def)
  have rx: "tx_data (snd (chip_read fifo_hw (port (?f req)) RX_DATA_FIFO d)) = tx_data d" for d
    by (simp add: fifo_reads fifo_pop)
  have "\<exists>t ds. rx_packet fifo_hw (arm_swatt example_sp 0x40000000 12 0x80000000 (example_arm (\<lambda>a. a))) Some 298 [] (?f req) = Some ([], t) \<and>
      tx_data (chip t) = tx_data (chip (?f req)) @ ds \<and> take 34 (tx_packet ds) = [2, 0, 0, 0, 0, 7] @ [2, 0, 0, 0, 0, 9] @ [8, 0] @
        [0x45, 0, 1, 24, 0, 0, 0, 0, 64, 1, 0, 0] @ [10, 0, 0, 9] @ [10, 0, 0, 7] \<and>
      client_main 2 3 (replicate 64 5) (replicate 240 0) (7, 0) [(Recv (drop 14 (tx_packet ds)), (8, 99000000))] =
       (Some req, Some (Verdict (expected_words 0x40000000 0x80000000 (example_arm (\<lambda>a. a)) (replicate 64 5))
         (time_diff (7, 0) (8, 99000000)) (time_diff (7, 0) (8, 99000000) < 1100000000)))"
    by (rule attestation_round [where fifo = tx_data and pad = "[0, 0]" and crc = "[1, 2, 3, 4]" and ip = "[0x45, 0, 1, 24, 0, 0, 0, 0, 64, 1, 0, 0]"
          and src = "[2, 0, 0, 0, 0, 7]" and dst = "[2, 0, 0, 0, 0, 9]" and ipsrc = "[10, 0, 0, 7]" and ipdst = "[10, 0, 0, 9]"])
      (rule b rx req(1) example_env example_apart(1) | simp add: fifo_tx_drains fifo_tx_fifo)+
  then obtain t ds where "rx_packet fifo_hw (arm_swatt example_sp 0x40000000 12 0x80000000 (example_arm (\<lambda>a. a))) Some 298 [] (?f req) = Some ([], t)"
    "tx_data (chip t) = ds" "client_main 2 3 (replicate 64 5) (replicate 240 0) (7, 0) [(Recv (drop 14 (tx_packet ds)), (8, 99000000))] =
       (Some req, Some (Verdict (expected_words 0x40000000 0x80000000 (example_arm (\<lambda>a. a)) (replicate 64 5))
         (time_diff (7, 0) (8, 99000000)) (time_diff (7, 0) (8, 99000000) < 1100000000)))"
    by auto
  moreover have "time_diff (7, 0) (8, 99000000) = 1099000000" by (simp add: time_diff_def)
  ultimately show ?thesis by auto
qed

end
